(* ===== verification/Redis_Store.thy ===== *)
theory Redis_Store
  imports Prelude
begin

text \<open>
  The Redis data structures the application keeps its live state in, with the
  commands it sends. A database is four key spaces, one per Redis value type:
  string values (a JSON document, identified with the object it decodes to),
  sets, sorted sets and hashes. A key that was never written reads as absent
  or empty, as Redis answers. A pipeline is the composition of its commands.

  \<open>indexed_store\<close> is the contract several components share: documents under
  an id plus a set that indexes the open ones. Closing a document either
  replaces it by a closed one or deletes it.
\<close>

record 'v redis =
  r_str :: "string \<rightharpoonup> 'v"
  r_set :: "string \<Rightarrow> string set"
  r_zset :: "string \<Rightarrow> (int \<times> string) list"
  r_hash :: "string \<Rightarrow> string \<rightharpoonup> 'v"

definition redis_empty :: "'v redis" where
  "redis_empty = \<lparr>r_str = Map.empty, r_set = (\<lambda>_. {}), r_zset = (\<lambda>_. []), r_hash = (\<lambda>_. Map.empty)\<rparr>"

section \<open>Strings\<close>

definition r_get :: "'v redis \<Rightarrow> string \<Rightarrow> 'v option" where
  "r_get db k = r_str db k"

definition r_put :: "string \<Rightarrow> 'v \<Rightarrow> 'v redis \<Rightarrow> 'v redis" where
  "r_put k v db = db\<lparr>r_str := (r_str db)(k \<mapsto> v)\<rparr>"

definition r_del :: "string \<Rightarrow> 'v redis \<Rightarrow> 'v redis" where
  "r_del k db = db\<lparr>r_str := (r_str db)(k := None)\<rparr>"

definition r_exists :: "'v redis \<Rightarrow> string \<Rightarrow> bool" where
  "r_exists db k = (r_str db k \<noteq> None)"

section \<open>Sets\<close>

definition r_sadd :: "string \<Rightarrow> string \<Rightarrow> 'v redis \<Rightarrow> 'v redis" where
  "r_sadd k x db = db\<lparr>r_set := (r_set db)(k := insert x (r_set db k))\<rparr>"

definition r_srem :: "string \<Rightarrow> string \<Rightarrow> 'v redis \<Rightarrow> 'v redis" where
  "r_srem k x db = db\<lparr>r_set := (r_set db)(k := r_set db k - {x})\<rparr>"

definition r_smembers :: "'v redis \<Rightarrow> string \<Rightarrow> string set" where
  "r_smembers db k = r_set db k"

section \<open>Sorted sets\<close>

text \<open>
  A sorted set is the list of its (score, member) pairs in ascending order of
  score, then of member, the order Redis iterates in; \<open>ZREVRANGE key 0 -1\<close>
  reads it backwards.
\<close>

definition z_remove :: "string \<Rightarrow> (int \<times> string) list \<Rightarrow> (int \<times> string) list" where
  "z_remove x z = filter (\<lambda>p. snd p \<noteq> x) z"

fun z_insert :: "int \<times> string \<Rightarrow> (int \<times> string) list \<Rightarrow> (int \<times> string) list" where
  "z_insert p [] = [p]"
| "z_insert p (q # z) =
     (if fst p < fst q \<or> (fst p = fst q \<and> snd p \<le> snd q) then p # q # z
      else q # z_insert p z)"

definition r_zadd :: "string \<Rightarrow> int \<Rightarrow> string \<Rightarrow> 'v redis \<Rightarrow> 'v redis" where
  "r_zadd k score x db =
     db\<lparr>r_zset := (r_zset db)(k := z_insert (score, x) (z_remove x (r_zset db k)))\<rparr>"

definition r_zrem :: "string \<Rightarrow> string \<Rightarrow> 'v redis \<Rightarrow> 'v redis" where
  "r_zrem k x db = db\<lparr>r_zset := (r_zset db)(k := z_remove x (r_zset db k))\<rparr>"

definition r_zrevrange_all :: "'v redis \<Rightarrow> string \<Rightarrow> string list" where
  "r_zrevrange_all db k = map snd (rev (r_zset db k))"

definition r_zcard :: "'v redis \<Rightarrow> string \<Rightarrow> nat" where
  "r_zcard db k = length (r_zset db k)"

definition z_members :: "(int \<times> string) list \<Rightarrow> string set" where
  "z_members z = snd ` set z"

lemma z_insert_set [simp]: "set (z_insert p z) = insert p (set z)"
  by (induction z) auto

lemma z_members_remove [simp]: "z_members (z_remove x z) = z_members z - {x}"
  by (auto simp: z_members_def z_remove_def)

lemma z_members_insert [simp]: "z_members (z_insert (s, x) z) = insert x (z_members z)"
  by (simp add: z_members_def)

text \<open>Every member occurs once: adding removes the old score first.\<close>

lemma z_distinct_remove [simp]:
  "distinct (map snd z) \<Longrightarrow> distinct (map snd (z_remove x z))"
  by (simp add: z_remove_def distinct_map_filter)

lemma z_distinct_insert:
  "distinct (map snd z) \<Longrightarrow> x \<notin> z_members z \<Longrightarrow> distinct (map snd (z_insert (s, x) z))"
  by (induction z) (auto simp: z_members_def)

text \<open>The list stays in ascending order of score.\<close>

lemma z_sorted_insert: "sorted (map fst z) \<Longrightarrow> sorted (map fst (z_insert p z))"
proof (induction z)
  case (Cons q z)
  then have "sorted (map fst (z_insert p z))" by simp
  moreover have "\<forall>x\<in>set (z_insert p z). fst q \<le> fst x" if "\<not> fst p < fst q"
    using Cons.prems that by auto
  ultimately show ?case using Cons.prems by auto
qed simp

lemma z_sorted_remove: "sorted (map fst z) \<Longrightarrow> sorted (map fst (z_remove x z))"
  by (simp add: z_remove_def sorted_filter)

section \<open>Hashes\<close>

definition r_hget :: "'v redis \<Rightarrow> string \<Rightarrow> string \<Rightarrow> 'v option" where
  "r_hget db k f = r_hash db k f"

definition r_hset :: "string \<Rightarrow> string \<Rightarrow> 'v \<Rightarrow> 'v redis \<Rightarrow> 'v redis" where
  "r_hset k f v db = db\<lparr>r_hash := (r_hash db)(k := (r_hash db k)(f \<mapsto> v))\<rparr>"

definition r_hclear :: "string \<Rightarrow> 'v redis \<Rightarrow> 'v redis" where
  "r_hclear k db = db\<lparr>r_hash := (r_hash db)(k := Map.empty)\<rparr>"

text \<open>
  A loop over \<open>HGETALL\<close> that rewrites or deletes each field it read: \<open>g\<close> gives
  the new value of a field, or None for \<open>HDEL\<close>.
\<close>

definition r_hmap :: "('v \<Rightarrow> 'v option) \<Rightarrow> string \<Rightarrow> 'v redis \<Rightarrow> 'v redis" where
  "r_hmap g k db =
     db\<lparr>r_hash := (r_hash db)(k := (\<lambda>f. case r_hash db k f of None \<Rightarrow> None | Some v \<Rightarrow> g v))\<rparr>"

section \<open>What each command leaves alone\<close>

lemmas redis_defs = r_get_def r_put_def r_del_def r_exists_def r_sadd_def r_srem_def
  r_smembers_def r_zadd_def r_zrem_def r_zrevrange_all_def r_zcard_def r_hget_def r_hset_def
  r_hclear_def r_hmap_def

lemma redis_str_simps [redis_simps]:
  "r_get (r_put k v db) k' = (if k' = k then Some v else r_get db k')"
  "r_get (r_del k db) k' = (if k' = k then None else r_get db k')"
  "r_get (r_sadd ks x db) k' = r_get db k'"
  "r_get (r_srem ks x db) k' = r_get db k'"
  "r_get (r_zadd ks s x db) k' = r_get db k'"
  "r_get (r_zrem ks x db) k' = r_get db k'"
  "r_exists db k = (r_get db k \<noteq> None)"
  by (simp_all add: redis_defs)

lemma redis_set_simps [redis_simps]:
  "r_smembers (r_put k v db) ks = r_smembers db ks"
  "r_smembers (r_del k db) ks = r_smembers db ks"
  "r_smembers (r_sadd k x db) ks = (if ks = k then insert x (r_smembers db ks) else r_smembers db ks)"
  "r_smembers (r_srem k x db) ks = (if ks = k then r_smembers db ks - {x} else r_smembers db ks)"
  by (simp_all add: redis_defs)

lemma redis_zset_simps [redis_simps]:
  "r_zset (r_put k v db) kz = r_zset db kz"
  "r_zset (r_zadd k s x db) kz =
     (if kz = k then z_insert (s, x) (z_remove x (r_zset db kz)) else r_zset db kz)"
  "r_zset (r_zrem k x db) kz = (if kz = k then z_remove x (r_zset db kz) else r_zset db kz)"
  by (simp_all add: redis_defs)

lemma redis_hash_simps [redis_simps]:
  "r_hget (r_hset k f v db) k' f' = (if k' = k \<and> f' = f then Some v else r_hget db k' f')"
  "r_hget (r_hclear k db) k' f = (if k' = k then None else r_hget db k' f)"
  "r_hget (r_hmap g k db) k' f = (if k' = k then Option.bind (r_hget db k f) g else r_hget db k' f)"
  by (simp_all add: redis_defs split: option.splits)

section \<open>Documents with an index of the open ones\<close>

locale indexed_store =
  fixes doc :: "'db \<Rightarrow> 'id \<Rightarrow> 'd option"
    and index :: "'db \<Rightarrow> 'id set"
    and is_open :: "'d \<Rightarrow> bool"
    and enqueue_doc :: "'id \<Rightarrow> 'd \<Rightarrow> 'db \<Rightarrow> 'db"
    and close_doc :: "'id \<Rightarrow> 'd option \<Rightarrow> 'db \<Rightarrow> 'db"
  assumes doc_enqueue: "doc (enqueue_doc i d db) = (doc db)(i \<mapsto> d)"
    and index_enqueue: "index (enqueue_doc i d db) = insert i (index db)"
    and doc_close: "doc (close_doc i c db) = (doc db)(i := c)"
    and index_close: "index (close_doc i c db) = index db - {i}"
begin

definition open_ids :: "'db \<Rightarrow> 'id set" where
  "open_ids db = {i. \<exists>d. doc db i = Some d \<and> is_open d}"

definition exact_index :: "'db \<Rightarrow> bool" where
  "exact_index db \<longleftrightarrow> index db = open_ids db"

lemma exact_enqueue: "exact_index db \<Longrightarrow> is_open d \<Longrightarrow> exact_index (enqueue_doc i d db)"
  by (auto simp: exact_index_def open_ids_def doc_enqueue index_enqueue)

lemma exact_close:
  "exact_index db \<Longrightarrow> (\<And>d. c = Some d \<Longrightarrow> \<not> is_open d) \<Longrightarrow> exact_index (close_doc i c db)"
  by (auto simp: exact_index_def open_ids_def doc_close index_close)

lemma listed_is_open:
  "exact_index db \<Longrightarrow> i \<in> index db \<Longrightarrow> \<exists>d. doc db i = Some d \<and> is_open d"
  by (auto simp: exact_index_def open_ids_def)

end

text \<open>
  The way every component lays such a store out in Redis: one string key per
  document, injective in the id, and one set of ids.
\<close>

definition redis_close :: "(string \<Rightarrow> string) \<Rightarrow> string \<Rightarrow> string \<Rightarrow> 'v option \<Rightarrow> 'v redis \<Rightarrow> 'v redis" where
  "redis_close key idx i c db =
     r_srem idx i (case c of None \<Rightarrow> r_del (key i) db | Some d \<Rightarrow> r_put (key i) d db)"

lemma redis_indexed_store:
  assumes "inj key"
  shows "indexed_store (\<lambda>db i. r_get db (key i)) (\<lambda>db. r_smembers db idx)
    (\<lambda>i d db. r_sadd idx i (r_put (key i) d db)) (redis_close key idx)"
  using assms
  by unfold_locales (auto simp: fun_eq_iff redis_simps redis_close_def inj_eq split: option.splits)

end
