(* ===== verification/Kill_Switch.thy ===== *)
theory Kill_Switch
  imports Redis_Store
begin

text \<open>
  The governance kill switch: \<open>app/governance/kill_switch.py\<close> (the Redis live
  state and the \<open>kill_switch()\<close> entry point that also writes the durable
  \<open>KillSwitchEvent\<close> row), \<open>app/governance/drills.py\<close> (the drill test) and
  \<open>app/governance/middleware.py\<close> (the request gate). The clock and the
  \<open>uuid4\<close> values are arguments; the database's \<open>now()\<close> is the caller's clock. The state keeps the Redis database and the
  Postgres tables apart, because an exception in the commit leaves the Redis
  write in place.
\<close>

section \<open>Data\<close>

datatype KillSwitchScope = GLOBAL | TENANT

fun scope_value :: "KillSwitchScope \<Rightarrow> string" where
  "scope_value GLOBAL = ''global''"
| "scope_value TENANT = ''tenant''"

record KillSwitchRedisState =
  rs_reason :: string
  rs_activated_by :: string
  rs_activated_at :: time

record KillSwitchStatusEntry =
  se_scope :: KillSwitchScope
  se_tenant_id :: "string option"
  se_active :: bool
  se_reason :: "string option"
  se_activated_by :: "string option"
  se_activated_at :: "time option"

record KillSwitchStatus =
  global_status :: KillSwitchStatusEntry
  tenant_statuses :: "KillSwitchStatusEntry list"

record KillSwitchActionResult =
  ar_event_id :: string
  ar_scope :: KillSwitchScope
  ar_tenant_id :: "string option"
  ar_action :: string
  ar_actor :: string
  ar_occurred_at :: time
  ar_is_drill :: bool

record KillSwitchDrillResult =
  dr_event_id :: string
  dr_scope :: KillSwitchScope
  dr_tenant_id :: "string option"
  dr_reason :: string
  dr_actor :: string
  dr_occurred_at :: time
  dr_passed :: bool
  dr_detail :: string

text \<open>
  The \<open>kill_switch_events\<close> table. \<open>ev_details\<close> is the JSON column: None is the
  default empty object, Some the object a drill writes into it.
\<close>

record KillSwitchEvent =
  ev_event_id :: string
  ev_scope :: KillSwitchScope
  ev_tenant_id :: "string option"
  ev_action :: string
  ev_reason :: string
  ev_actor :: string
  ev_is_drill :: bool
  ev_occurred_at :: time
  ev_details :: "(bool \<times> string) option"

record governance_db =
  tenants :: "string set"
  events :: "KillSwitchEvent list"

record governance =
  live :: "KillSwitchRedisState redis"
  durable :: governance_db

section \<open>The Redis live state\<close>

definition global_key :: "string \<Rightarrow> string" where
  "global_key prefix = prefix @ '':global''"

definition tenant_key :: "string \<Rightarrow> string \<Rightarrow> string" where
  "tenant_key prefix tenant_id = prefix @ '':tenant:'' @ tenant_id"

definition active_tenants_key :: "string \<Rightarrow> string" where
  "active_tenants_key prefix = prefix @ '':active_tenants''"

definition is_global_active :: "string \<Rightarrow> KillSwitchRedisState redis \<Rightarrow> bool" where
  "is_global_active prefix db = r_exists db (global_key prefix)"

definition is_tenant_active :: "string \<Rightarrow> string \<Rightarrow> KillSwitchRedisState redis \<Rightarrow> bool" where
  "is_tenant_active prefix tenant_id db = r_exists db (tenant_key prefix tenant_id)"

definition is_active_for :: "string \<Rightarrow> string option \<Rightarrow> KillSwitchRedisState redis \<Rightarrow> bool" where
  "is_active_for prefix tenant_id db =
     (if is_global_active prefix db then True
      else case tenant_id of
             Some t \<Rightarrow> is_tenant_active prefix t db
           | None \<Rightarrow> False)"

definition activate_global ::
  "string \<Rightarrow> string \<Rightarrow> string \<Rightarrow> time \<Rightarrow> KillSwitchRedisState redis \<Rightarrow> KillSwitchRedisState redis" where
  "activate_global prefix reason actor now db =
     r_put (global_key prefix)
       \<lparr>rs_reason = reason, rs_activated_by = actor, rs_activated_at = now\<rparr> db"

definition deactivate_global ::
  "string \<Rightarrow> KillSwitchRedisState redis \<Rightarrow> KillSwitchRedisState redis" where
  "deactivate_global prefix db = r_del (global_key prefix) db"

definition activate_tenant ::
  "string \<Rightarrow> string \<Rightarrow> string \<Rightarrow> string \<Rightarrow> time
   \<Rightarrow> KillSwitchRedisState redis \<Rightarrow> KillSwitchRedisState redis" where
  "activate_tenant prefix tenant_id reason actor now db =
     r_sadd (active_tenants_key prefix) tenant_id
       (r_put (tenant_key prefix tenant_id)
          \<lparr>rs_reason = reason, rs_activated_by = actor, rs_activated_at = now\<rparr> db)"

definition deactivate_tenant ::
  "string \<Rightarrow> string \<Rightarrow> KillSwitchRedisState redis \<Rightarrow> KillSwitchRedisState redis" where
  "deactivate_tenant prefix tenant_id db =
     r_srem (active_tenants_key prefix) tenant_id (r_del (tenant_key prefix tenant_id) db)"

text \<open>
  \<open>get_status\<close> iterates over a Redis set, whose order Redis does not promise:
  \<open>enum\<close> is the order the client sees.
\<close>

definition tenant_status_entry ::
  "string \<Rightarrow> KillSwitchRedisState \<Rightarrow> KillSwitchStatusEntry" where
  "tenant_status_entry tenant_id st =
     \<lparr>se_scope = TENANT, se_tenant_id = Some tenant_id, se_active = True,
      se_reason = Some (rs_reason st), se_activated_by = Some (rs_activated_by st),
      se_activated_at = Some (rs_activated_at st)\<rparr>"

definition get_status ::
  "(string set \<Rightarrow> string list) \<Rightarrow> string \<Rightarrow> KillSwitchRedisState redis \<Rightarrow> KillSwitchStatus" where
  "get_status enum prefix db =
     (let global_state = r_get db (global_key prefix);
          global_entry = \<lparr>se_scope = GLOBAL, se_tenant_id = None, se_active = (global_state \<noteq> None),
            se_reason = map_option rs_reason global_state,
            se_activated_by = map_option rs_activated_by global_state,
            se_activated_at = map_option rs_activated_at global_state\<rparr>;
          tenant_entries = List.map_filter
            (\<lambda>t. map_option (tenant_status_entry t) (r_get db (tenant_key prefix t)))
            (enum (r_smembers db (active_tenants_key prefix)))
      in \<lparr>global_status = global_entry, tenant_statuses = tenant_entries\<rparr>)"

section \<open>The durable record\<close>

text \<open>
  The insert the session commits, with the constraints of the table: a unique
  event id, a tenant that exists, and a tenant exactly on tenant-scoped rows.
\<close>

definition insert_event :: "KillSwitchEvent \<Rightarrow> governance_db \<Rightarrow> governance_db result" where
  "insert_event ev db =
     (if ev_event_id ev \<in> ev_event_id ` set (events db) then raise IntegrityError
      else if (case ev_tenant_id ev of Some t \<Rightarrow> t \<notin> tenants db | None \<Rightarrow> False) then raise IntegrityError
      else if (ev_scope ev = GLOBAL) \<noteq> (ev_tenant_id ev = None) then raise IntegrityError
      else Inr (db\<lparr>events := events db @ [ev]\<rparr>))"

section \<open>The entry point\<close>

definition flip ::
  "string \<Rightarrow> KillSwitchScope \<Rightarrow> bool \<Rightarrow> string \<Rightarrow> string \<Rightarrow> string option \<Rightarrow> time
   \<Rightarrow> KillSwitchRedisState redis \<Rightarrow> KillSwitchRedisState redis" where
  "flip prefix scope activate reason actor tenant_id now db =
     (if scope = GLOBAL then
        (if activate then activate_global prefix reason actor now db
         else deactivate_global prefix db)
      else
        (if activate then activate_tenant prefix (the tenant_id) reason actor now db
         else deactivate_tenant prefix (the tenant_id) db))"

definition kill_switch ::
  "string \<Rightarrow> KillSwitchScope \<Rightarrow> bool \<Rightarrow> string \<Rightarrow> string \<Rightarrow> string option \<Rightarrow> bool
   \<Rightarrow> string \<Rightarrow> time \<Rightarrow> governance \<Rightarrow> governance \<times> KillSwitchActionResult result" where
  "kill_switch prefix scope activate reason actor tenant_id is_drill uuid now g =
     (if scope = TENANT \<and> \<not> truthy_str tenant_id then
        (g, raise (ValueError ''tenant_id is required when scope='tenant'.''))
      else if scope = GLOBAL \<and> truthy_str tenant_id then
        (g, raise (ValueError ''tenant_id must not be set when scope='global'.''))
      else
        (let g' = g\<lparr>live := flip prefix scope activate reason actor tenant_id now (live g)\<rparr>;
             action = (if activate then ''activated'' else ''deactivated'');
             event = \<lparr>ev_event_id = uuid, ev_scope = scope, ev_tenant_id = tenant_id,
               ev_action = action, ev_reason = reason, ev_actor = actor,
               ev_is_drill = is_drill, ev_occurred_at = now, ev_details = None\<rparr>
         in case insert_event event (durable g) of
              Inl e \<Rightarrow> (g', raise e)
            | Inr db' \<Rightarrow> (g'\<lparr>durable := db'\<rparr>,
                Inr \<lparr>ar_event_id = uuid, ar_scope = scope, ar_tenant_id = tenant_id,
                     ar_action = action, ar_actor = actor, ar_occurred_at = now,
                     ar_is_drill = is_drill\<rparr>)))"

section \<open>Drills\<close>

definition is_scope_active ::
  "string \<Rightarrow> KillSwitchScope \<Rightarrow> string option \<Rightarrow> KillSwitchRedisState redis \<Rightarrow> bool" where
  "is_scope_active prefix scope tenant_id db =
     (if scope = GLOBAL then is_global_active prefix db
      else is_tenant_active prefix (the tenant_id) db)"

definition annotate_event :: "string \<Rightarrow> bool \<Rightarrow> string \<Rightarrow> governance \<Rightarrow> governance" where
  "annotate_event event_id passed detail g =
     g\<lparr>durable := (durable g)\<lparr>events :=
        map (\<lambda>ev. if ev_event_id ev = event_id then ev\<lparr>ev_details := Some (passed, detail)\<rparr> else ev)
          (events (durable g))\<rparr>\<rparr>"

definition py_bool_str :: "bool \<Rightarrow> string" where
  "py_bool_str b = (if b then ''True'' else ''False'')"

definition drill_reason :: "KillSwitchScope \<Rightarrow> string option \<Rightarrow> string" where
  "drill_reason scope tenant_id =
     ''Scheduled kill-switch drill test ('' @ scope_value scope
       @ (if truthy_str tenant_id then '':'' @ the tenant_id else []) @ '').''"

definition run_kill_switch_drill ::
  "string \<Rightarrow> KillSwitchScope \<Rightarrow> string \<Rightarrow> string option \<Rightarrow> string \<Rightarrow> string \<Rightarrow> time \<Rightarrow> time
   \<Rightarrow> governance \<Rightarrow> governance \<times> KillSwitchDrillResult result" where
  "run_kill_switch_drill prefix scope actor tenant_id uuid1 uuid2 now1 now2 g =
     (let reason = drill_reason scope tenant_id in
      case kill_switch prefix scope True reason actor tenant_id True uuid1 now1 g of
        (g1, Inl e) \<Rightarrow> (g1, raise e)
      | (g1, Inr activation) \<Rightarrow>
          (let activation_verified = is_scope_active prefix scope tenant_id (live g1) in
           case kill_switch prefix scope False reason actor tenant_id True uuid2 now2 g1 of
             (g2, Inl e) \<Rightarrow> (g2, raise e)
           | (g2, Inr deactivation) \<Rightarrow>
               (let deactivation_verified = (\<not> is_scope_active prefix scope tenant_id (live g2));
                    passed = (activation_verified \<and> deactivation_verified);
                    detail = ''activation_took_effect='' @ py_bool_str activation_verified
                      @ '', deactivation_took_effect='' @ py_bool_str deactivation_verified;
                    g3 = annotate_event (ar_event_id deactivation) passed detail
                           (annotate_event (ar_event_id activation) passed detail g2)
                in (g3, Inr \<lparr>dr_event_id = ar_event_id activation, dr_scope = scope,
                             dr_tenant_id = tenant_id, dr_reason = reason, dr_actor = actor,
                             dr_occurred_at = ar_occurred_at activation, dr_passed = passed,
                             dr_detail = detail\<rparr>))))"

section \<open>The request gate\<close>

datatype gate_response = CALL_NEXT | SERVICE_UNAVAILABLE_503

definition always_exempt_prefixes :: "string list" where
  "always_exempt_prefixes = [''/v1/governance/kill-switch'']"

definition dispatch ::
  "string \<Rightarrow> string list \<Rightarrow> string \<Rightarrow> string option option \<Rightarrow> KillSwitchRedisState redis \<Rightarrow> gate_response" where
  "dispatch prefix rate_limit_exempt_paths path request_principal db =
     (if path \<in> set rate_limit_exempt_paths
         \<or> (\<exists>p\<in>set always_exempt_prefixes. startswith path p) then CALL_NEXT
      else
        (let tenant_id = (case request_principal of Some t \<Rightarrow> t | None \<Rightarrow> None) in
         if is_active_for prefix tenant_id db then SERVICE_UNAVAILABLE_503 else CALL_NEXT))"

section \<open>Reading the switch after a write\<close>

lemma global_key_neq_tenant_key [simp]:
  "global_key prefix \<noteq> tenant_key prefix t" "tenant_key prefix t \<noteq> global_key prefix"
  by (simp_all add: global_key_def tenant_key_def)

lemma tenant_key_inj [simp]: "tenant_key prefix t = tenant_key prefix t' \<longleftrightarrow> t = t'"
  by (simp add: tenant_key_def)

lemmas live_defs = is_global_active_def is_tenant_active_def activate_global_def
  deactivate_global_def activate_tenant_def deactivate_tenant_def

lemma global_reads [simp]:
  "is_global_active p (activate_global p r a n db)"
  "\<not> is_global_active p (deactivate_global p db)"
  "is_global_active p (activate_tenant p t r a n db) = is_global_active p db"
  "is_global_active p (deactivate_tenant p t db) = is_global_active p db"
  by (simp_all add: live_defs redis_simps)

lemma tenant_reads [simp]:
  "is_tenant_active p t (activate_global p r a n db) = is_tenant_active p t db"
  "is_tenant_active p t (deactivate_global p db) = is_tenant_active p t db"
  "is_tenant_active p t (activate_tenant p t' r a n db) = (t = t' \<or> is_tenant_active p t db)"
  "is_tenant_active p t (deactivate_tenant p t' db) = (t \<noteq> t' \<and> is_tenant_active p t db)"
  by (simp_all add: live_defs redis_simps)

text \<open>The tenant index is an indexed store: deactivation deletes the document.\<close>

interpretation ks_tenants: indexed_store
  "\<lambda>db t. r_get db (tenant_key prefix t)"
  "\<lambda>db. r_smembers db (active_tenants_key prefix)"
  "\<lambda>_. True"
  "\<lambda>t st db. r_sadd (active_tenants_key prefix) t (r_put (tenant_key prefix t) st db)"
  "redis_close (tenant_key prefix) (active_tenants_key prefix)" for prefix
  by (rule redis_indexed_store) (simp add: inj_def)

definition active_tenants_exact :: "string \<Rightarrow> KillSwitchRedisState redis \<Rightarrow> bool" where
  "active_tenants_exact prefix db \<longleftrightarrow>
     r_smembers db (active_tenants_key prefix) = {t. is_tenant_active prefix t db}"

lemma active_tenants_exact_iff:
  "active_tenants_exact prefix db \<longleftrightarrow> ks_tenants.exact_index prefix db"
  by (simp add: active_tenants_exact_def ks_tenants.exact_index_def ks_tenants.open_ids_def
      is_tenant_active_def redis_simps)

lemma exact_activate_tenant:
  "active_tenants_exact p db \<Longrightarrow> active_tenants_exact p (activate_tenant p t r a n db)"
  unfolding active_tenants_exact_iff activate_tenant_def
  by (rule ks_tenants.exact_enqueue) simp_all

lemma exact_deactivate_tenant:
  "active_tenants_exact p db \<Longrightarrow> active_tenants_exact p (deactivate_tenant p t db)"
  using ks_tenants.exact_close [of p db None t]
  by (simp add: active_tenants_exact_iff deactivate_tenant_def redis_close_def)

lemma exact_global:
  "active_tenants_exact p (activate_global p r a n db) = active_tenants_exact p db"
  "active_tenants_exact p (deactivate_global p db) = active_tenants_exact p db"
  by (simp_all add: active_tenants_exact_def)
     (simp_all add: activate_global_def deactivate_global_def redis_simps)

section \<open>What the switch promises\<close>

text \<open>
  The abstract switch: whether everything is halted, and the halted tenants.
  A call with inconsistent arguments changes nothing.
\<close>

definition ks_abs :: "string \<Rightarrow> governance \<Rightarrow> bool \<times> string set" where
  "ks_abs prefix g = (is_global_active prefix (live g), {t. is_tenant_active prefix t (live g)})"

fun ks_spec :: "KillSwitchScope \<Rightarrow> bool \<Rightarrow> string option \<Rightarrow> bool \<times> string set \<Rightarrow> bool \<times> string set" where
  "ks_spec GLOBAL activate tenant_id (halted, ts) =
     (if truthy_str tenant_id then (halted, ts) else (activate, ts))"
| "ks_spec TENANT activate None (halted, ts) = (halted, ts)"
| "ks_spec TENANT activate (Some t) (halted, ts) =
     (if t = [] then (halted, ts) else (halted, if activate then insert t ts else ts - {t}))"

lemma live_kill_switch:
  "live (fst (kill_switch p scope act r a tid drill uuid now g)) =
     (if (scope = TENANT) = truthy_str tid then flip p scope act r a tid now (live g) else live g)"
  by (cases scope) (auto simp: kill_switch_def Let_def split: sum.splits)

lemma kill_switch_Inr:
  assumes "kill_switch p scope act r a tid drill uuid now g = (g', Inr res)"
  shows "(scope = TENANT) = truthy_str tid"
    and "g' = g\<lparr>live := flip p scope act r a tid now (live g),
                durable := (durable g)\<lparr>events := events (durable g) @
                  [\<lparr>ev_event_id = uuid, ev_scope = scope, ev_tenant_id = tid,
                    ev_action = ar_action res, ev_reason = r, ev_actor = a,
                    ev_is_drill = drill, ev_occurred_at = now, ev_details = None\<rparr>]\<rparr>\<rparr>"
    and "res = \<lparr>ar_event_id = uuid, ar_scope = scope, ar_tenant_id = tid,
                 ar_action = (if act then ''activated'' else ''deactivated''), ar_actor = a,
                 ar_occurred_at = now, ar_is_drill = drill\<rparr>"
  using assms
  by (cases scope; auto simp: kill_switch_def insert_event_def Let_def split: sum.splits if_splits)+

lemma is_active_for_abs:
  "is_active_for p tid (live g) \<longleftrightarrow>
     fst (ks_abs p g) \<or> (\<exists>t. tid = Some t \<and> t \<in> snd (ks_abs p g))"
  by (auto simp: is_active_for_def ks_abs_def split: option.splits)

text \<open>
  Claim C9. Every call of \<open>kill_switch()\<close>, on every branch (rejected
  arguments, failed commit, success), moves the live Redis state exactly as the
  abstract switch prescribes: a global call sets the global flag, a tenant call
  adds or removes that one tenant, and rejected arguments change nothing.
\<close>

theorem kill_switch_refines:
  "ks_abs p (fst (kill_switch p scope act r a tid drill uuid now g)) = ks_spec scope act tid (ks_abs p g)"
proof (cases scope)
  case GLOBAL
  then show ?thesis
    by (cases act) (auto simp: ks_abs_def live_kill_switch flip_def)
next
  case TENANT
  show ?thesis
  proof (cases tid)
    case None
    with TENANT show ?thesis by (simp add: ks_abs_def live_kill_switch)
  next
    case (Some t)
    with TENANT show ?thesis
      by (cases act) (auto simp: ks_abs_def live_kill_switch flip_def)
  qed
qed

text \<open>
  Once the global switch was activated through \<open>kill_switch()\<close>, the
  middleware answers every request with 503, whoever the caller is and even
  when the durable record could not be written; only the rate-limit exempt
  paths and the kill-switch control routes pass.
\<close>

theorem global_kill_blocks_requests:
  "dispatch p exempt path pr (live (fst (kill_switch p GLOBAL True r a None drill uuid now g))) =
     (if path \<in> set exempt \<or> startswith path ''/v1/governance/kill-switch''
      then CALL_NEXT else SERVICE_UNAVAILABLE_503)"
  by (simp add: dispatch_def always_exempt_prefixes_def live_kill_switch flip_def
      is_active_for_def Let_def)

subsection \<open>Reachable states\<close>

inductive ks_reachable :: "string \<Rightarrow> governance \<Rightarrow> bool" for p where
  start: "ks_reachable p \<lparr>live = redis_empty, durable = \<lparr>tenants = ts, events = []\<rparr>\<rparr>"
| call: "ks_reachable p g \<Longrightarrow>
    ks_reachable p (fst (kill_switch p scope act r a tid drill uuid now g))"
| drill: "ks_reachable p g \<Longrightarrow>
    ks_reachable p (fst (run_kill_switch_drill p scope a tid uuid1 uuid2 now1 now2 g))"

definition ks_inv :: "string \<Rightarrow> governance \<Rightarrow> bool" where
  "ks_inv p g \<longleftrightarrow> active_tenants_exact p (live g)
     \<and> distinct (map ev_event_id (events (durable g)))
     \<and> list_all (\<lambda>ev. (ev_scope ev = GLOBAL) = (ev_tenant_id ev = None)) (events (durable g))"

lemma exact_flip:
  "active_tenants_exact p db \<Longrightarrow> active_tenants_exact p (flip p scope act r a tid now db)"
  by (simp add: flip_def exact_activate_tenant exact_deactivate_tenant exact_global)

lemma ks_inv_kill_switch:
  "ks_inv p g \<Longrightarrow> ks_inv p (fst (kill_switch p scope act r a tid drill uuid now g))"
  by (cases scope)
     (auto simp: ks_inv_def kill_switch_def insert_event_def Let_def exact_flip
       split: sum.splits option.splits)

lemma map_annotate_ids:
  "map ev_event_id (map (\<lambda>ev. if ev_event_id ev = i then ev\<lparr>ev_details := x\<rparr> else ev) evs) =
   map ev_event_id evs"
  by (induction evs) simp_all

lemma ks_inv_annotate: "ks_inv p g \<Longrightarrow> ks_inv p (annotate_event i b d g)"
  using map_annotate_ids [of i "Some (b, d)" "events (durable g)"]
  by (auto simp: ks_inv_def annotate_event_def list_all_iff simp del: map_map)

lemma ks_inv_drill:
  "ks_inv p g \<Longrightarrow> ks_inv p (fst (run_kill_switch_drill p scope a tid uuid1 uuid2 now1 now2 g))"
  using ks_inv_kill_switch [of p g scope True "drill_reason scope tid" a tid True uuid1 now1]
    ks_inv_kill_switch [of p "fst (kill_switch p scope True (drill_reason scope tid) a tid True uuid1 now1 g)"
      scope False "drill_reason scope tid" a tid True uuid2 now2]
  by (auto simp: run_kill_switch_drill_def Let_def ks_inv_annotate split: prod.splits sum.splits)

lemma ks_inv_start: "ks_inv p \<lparr>live = redis_empty, durable = \<lparr>tenants = ts, events = []\<rparr>\<rparr>"
  by (simp add: ks_inv_def active_tenants_exact_def is_tenant_active_def redis_empty_def redis_defs)

lemma ks_inv_reachable: "ks_reachable p g \<Longrightarrow> ks_inv p g"
  by (induction rule: ks_reachable.induct)
     (simp_all add: ks_inv_start ks_inv_kill_switch ks_inv_drill)

text \<open>
  In every state reachable from an empty deployment by any sequence
  of \<open>kill_switch()\<close> calls and drills, failed ones included, the
  \<open>active_tenants\<close> set is exactly the set of tenants whose switch is on, the
  audit table has no two rows with one event id, and a row names a tenant
  exactly when its scope is \<open>tenant\<close>.
\<close>

theorem ks_reachable_invariant:
  assumes "ks_reachable p g"
  shows "r_smembers (live g) (active_tenants_key p) = {t. is_tenant_active p t (live g)}
    \<and> distinct (map ev_event_id (events (durable g)))
    \<and> list_all (\<lambda>ev. (ev_scope ev = GLOBAL) = (ev_tenant_id ev = None)) (events (durable g))"
  using ks_inv_reachable [OF assms] by (simp add: ks_inv_def active_tenants_exact_def)

definition demo_governance :: governance where
  "demo_governance = \<lparr>live = redis_empty, durable = \<lparr>tenants = {''amc_b''}, events = []\<rparr>\<rparr>"

theorem ks_reachable_invariant_witness:
  "r_smembers (live (fst (kill_switch ''ks'' TENANT True ''margin breach'' ''officer'' (Some ''amc_b'')
      False ''id1'' 5 demo_governance))) (active_tenants_key ''ks'') = {''amc_b''}"
proof -
  let ?g = "fst (kill_switch ''ks'' TENANT True ''margin breach'' ''officer'' (Some ''amc_b'')
      False ''id1'' 5 demo_governance)"
  have "ks_reachable ''ks'' demo_governance"
    unfolding demo_governance_def by (rule ks_reachable.start)
  then have "ks_reachable ''ks'' ?g" by (rule ks_reachable.call)
  from ks_reachable_invariant [OF this]
  have "r_smembers (live ?g) (active_tenants_key ''ks'') = {t. is_tenant_active ''ks'' t (live ?g)}"
    by blast
  moreover have "\<not> is_tenant_active ''ks'' t (live demo_governance)" for t
    by (simp add: demo_governance_def is_tenant_active_def redis_empty_def redis_defs)
  ultimately show ?thesis by (simp add: live_kill_switch flip_def)
qed

text \<open>
  The status report is complete: whatever order Redis enumerates the
  index in, in a reachable state \<open>get_status\<close> lists exactly the tenants whose
  switch is on, each once, and reports the global switch as it is.
\<close>

theorem get_status_exact:
  assumes reach: "ks_reachable p g"
    and enum: "set (enum (r_smembers (live g) (active_tenants_key p))) = r_smembers (live g) (active_tenants_key p)"
      "distinct (enum (r_smembers (live g) (active_tenants_key p)))"
  shows "se_active (global_status (get_status enum p (live g))) = is_global_active p (live g)
    \<and> set (map se_tenant_id (tenant_statuses (get_status enum p (live g)))) =
        Some ` {t. is_tenant_active p t (live g)}
    \<and> distinct (map se_tenant_id (tenant_statuses (get_status enum p (live g))))"
proof -
  let ?ids = "enum (r_smembers (live g) (active_tenants_key p))"
  have ids: "set ?ids = {t. is_tenant_active p t (live g)}"
    using ks_inv_reachable [OF reach] enum by (simp add: ks_inv_def active_tenants_exact_def)
  then have "\<forall>t\<in>set ?ids. \<exists>st. r_get (live g) (tenant_key p t) = Some st"
    by (auto simp: is_tenant_active_def redis_simps)
  then have "map se_tenant_id (List.map_filter
      (\<lambda>t. map_option (tenant_status_entry t) (r_get (live g) (tenant_key p t))) ts) = map Some ts"
    if "set ts \<subseteq> set ?ids" for ts
    using that by (induction ts) (auto simp: List.map_filter_simps tenant_status_entry_def)
  from this [of ?ids] show ?thesis
    using ids enum
    by (simp add: get_status_def Let_def is_global_active_def redis_simps distinct_map)
qed

theorem get_status_exact_witness:
  "set (map se_tenant_id (tenant_statuses (get_status (\<lambda>S. if S = {''amc_b''} then [''amc_b''] else [])
      ''ks'' (live (fst (kill_switch ''ks'' TENANT True ''margin breach'' ''officer'' (Some ''amc_b'')
        False ''id1'' 5 demo_governance)))))) = {Some ''amc_b''}"
proof -
  let ?g = "fst (kill_switch ''ks'' TENANT True ''margin breach'' ''officer'' (Some ''amc_b'')
        False ''id1'' 5 demo_governance)"
  have "ks_reachable ''ks'' demo_governance"
    unfolding demo_governance_def by (rule ks_reachable.start)
  then have reach: "ks_reachable ''ks'' ?g" by (rule ks_reachable.call)
  have members: "r_smembers (live ?g) (active_tenants_key ''ks'') = {''amc_b''}"
    by (simp add: live_kill_switch flip_def activate_tenant_def demo_governance_def
        redis_empty_def redis_defs)
  moreover have "{t. is_tenant_active ''ks'' t (live ?g)} = {''amc_b''}"
    using ks_inv_reachable [OF reach] members by (simp add: ks_inv_def active_tenants_exact_def)
  ultimately show ?thesis
    using get_status_exact [OF reach, of "\<lambda>S. if S = {''amc_b''} then [''amc_b''] else []"] by simp
qed

text \<open>
  The module documentation promises that no code path flips the Redis
  flag without durably logging it. The code flips Redis first and commits
  afterwards, so a tenant activation whose row the database refuses (an
  unknown tenant) raises, leaves the audit table as it was, and still halts
  that tenant.
\<close>

theorem kill_switch_unlogged_flip:
  assumes "t \<noteq> []" and "t \<notin> tenants (durable g)"
  shows "case kill_switch p TENANT True r a (Some t) drill uuid now g of (g', res) \<Rightarrow>
    res = raise IntegrityError \<and> durable g' = durable g \<and> is_active_for p (Some t) (live g')"
  using assms
  by (auto simp: kill_switch_def insert_event_def flip_def is_active_for_def Let_def)

theorem kill_switch_unlogged_flip_witness:
  "case kill_switch ''ks'' TENANT True ''margin breach'' ''officer'' (Some ''ghost'') False ''id1'' 5
      demo_governance of (g', res) \<Rightarrow>
    res = raise IntegrityError \<and> durable g' = durable demo_governance
      \<and> is_active_for ''ks'' (Some ''ghost'') (live g')"
  by (rule kill_switch_unlogged_flip) (simp_all add: demo_governance_def)

text \<open>
  A drill that completes reports success and leaves the switch of its
  scope OFF, whatever it was before: run while an emergency halt is in force,
  the drill lifts the halt.
\<close>

theorem drill_leaves_switch_off:
  assumes "run_kill_switch_drill p scope a tid uuid1 uuid2 now1 now2 g = (g', Inr res)"
  shows "dr_passed res \<and> \<not> is_scope_active p scope tid (live g')"
proof -
  let ?r = "drill_reason scope tid"
  obtain g1 act where 1: "kill_switch p scope True ?r a tid True uuid1 now1 g = (g1, Inr act)"
    using assms
    by (auto simp: run_kill_switch_drill_def Let_def split: prod.splits sum.splits)
  then obtain g2 deact where 2: "kill_switch p scope False ?r a tid True uuid2 now2 g1 = (g2, Inr deact)"
    using assms
    by (auto simp: run_kill_switch_drill_def Let_def split: prod.splits sum.splits)
  have on: "is_scope_active p scope tid (live g1)"
    unfolding kill_switch_Inr(2) [OF 1] by (simp add: is_scope_active_def flip_def)
  have off: "\<not> is_scope_active p scope tid (live g2)"
    unfolding kill_switch_Inr(2) [OF 2] by (simp add: is_scope_active_def flip_def)
  show ?thesis
    using assms 1 2 on off
    by (auto simp: run_kill_switch_drill_def Let_def annotate_event_def)
qed

theorem drill_leaves_switch_off_witness:
  "\<exists>g' res. run_kill_switch_drill ''ks'' GLOBAL ''auditor'' None ''d1'' ''d2'' 7 8
       (fst (kill_switch ''ks'' GLOBAL True ''flash crash'' ''officer'' None False ''e1'' 6 demo_governance))
       = (g', Inr res) \<and> dr_passed res \<and> \<not> is_scope_active ''ks'' GLOBAL None (live g')"
proof -
  let ?g = "fst (kill_switch ''ks'' GLOBAL True ''flash crash'' ''officer'' None False ''e1'' 6 demo_governance)"
  obtain g' res where run:
    "run_kill_switch_drill ''ks'' GLOBAL ''auditor'' None ''d1'' ''d2'' 7 8 ?g = (g', Inr res)"
    by (simp add: run_kill_switch_drill_def kill_switch_def insert_event_def demo_governance_def Let_def)
  from drill_leaves_switch_off [OF run] run show ?thesis by blast
qed

end
