(* ===== verification/Py_Text.thy ===== *)
theory Py_Text
  imports Prelude
begin

text \<open>
  The string operations of Python's standard library the source uses, on text
  whose code points are at most U+00FF (a \<^typ>\<open>char\<close> is such a code point):
  \<open>str.strip\<close>, \<open>str.lower\<close>, \<open>str.split\<close>, \<open>str.join\<close>, \<open>str.replace\<close>, the
  substitution of maximal runs that \<open>re.sub\<close> does for a pattern \<open>[...]+\<close>, and
  \<open>str(int)\<close>. The last section is the small pattern language of the anchored
  regular expressions of \<open>app/regulatory/facts.py\<close>.
\<close>

abbreviation code :: "char \<Rightarrow> nat" where
  "code c \<equiv> of_char c"

section \<open>Character classes\<close>

definition is_space :: "char \<Rightarrow> bool" where
  "is_space c = (let n = code c in (9 \<le> n \<and> n \<le> 13) \<or> (28 \<le> n \<and> n \<le> 32) \<or> n = 133 \<or> n = 160)"

definition is_alnum_lower :: "char \<Rightarrow> bool" where
  "is_alnum_lower c = (let n = code c in (97 \<le> n \<and> n \<le> 122) \<or> (48 \<le> n \<and> n \<le> 57))"

definition lower_char :: "char \<Rightarrow> char" where
  "lower_char c = (let n = code c in
     if (65 \<le> n \<and> n \<le> 90) \<or> (192 \<le> n \<and> n \<le> 222 \<and> n \<noteq> 215) then char_of (n + 32) else c)"

definition upper_char :: "char \<Rightarrow> char" where
  "upper_char c = (let n = code c in if 97 \<le> n \<and> n \<le> 122 then char_of (n - 32) else c)"

definition py_lower :: "string \<Rightarrow> string" where
  "py_lower s = map lower_char s"

definition py_strip :: "(char \<Rightarrow> bool) \<Rightarrow> string \<Rightarrow> string" where
  "py_strip p s = rev (dropWhile p (rev (dropWhile p s)))"

abbreviation strip :: "string \<Rightarrow> string" where
  "strip s \<equiv> py_strip is_space s"

text \<open>The classes on the bits of a code point, for evaluation on concrete text.\<close>

lemma is_alnum_lower_code [code]:
  "is_alnum_lower (Char b0 b1 b2 b3 b4 b5 b6 b7) =
     (\<not> b7 \<and> b5 \<and> (if b6 then (b0 \<or> b1 \<or> b2 \<or> b3 \<or> b4) \<and> \<not> (b4 \<and> b3 \<and> (b2 \<or> b0 \<and> b1))
        else b4 \<and> \<not> (b3 \<and> (b2 \<or> b1))))"
  unfolding is_alnum_lower_def Let_def
  by (cases b0; cases b1; cases b2; cases b3; cases b4; cases b5; cases b6; cases b7; simp)

lemma is_space_code [code]:
  "is_space (Char b0 b1 b2 b3 b4 b5 b6 b7) =
     (\<not> b6 \<and> (if b7 then (b5 \<and> \<not> b4 \<and> \<not> b3 \<and> \<not> b2 \<and> \<not> b1 \<and> \<not> b0) \<or> (\<not> b5 \<and> \<not> b4 \<and> \<not> b3 \<and> b2 \<and> \<not> b1 \<and> b0)
        else if b5 then \<not> b4 \<and> \<not> b3 \<and> \<not> b2 \<and> \<not> b1 \<and> \<not> b0
        else if b4 then b3 \<and> b2
        else b3 \<and> (if b2 then \<not> b1 else b1 \<or> b0)))"
  unfolding is_space_def Let_def
  by (cases b0; cases b1; cases b2; cases b3; cases b4; cases b5; cases b6; cases b7; simp)

lemma code_shift: "code d = code c + 32 \<Longrightarrow> char_of (code c + 32) = d"
  by (metis char_of_char)

lemma lower_char_code [code]:
  "lower_char (Char b0 b1 b2 b3 b4 b5 b6 b7) =
     (if \<not> b5 \<and> b6 \<and>
         (if b7 then \<not> (b4 \<and> b2 \<and> b1 \<and> b0)
          else (b0 \<or> b1 \<or> b2 \<or> b3 \<or> b4) \<and> \<not> (b4 \<and> b3 \<and> (b2 \<or> b0 \<and> b1)))
      then Char b0 b1 b2 b3 b4 True b6 b7 else Char b0 b1 b2 b3 b4 b5 b6 b7)"
proof -
  let ?c = "Char b0 b1 b2 b3 b4 b5 b6 b7" and ?d = "Char b0 b1 b2 b3 b4 True b6 b7"
  have cond: "((65 \<le> code ?c \<and> code ?c \<le> 90) \<or> (192 \<le> code ?c \<and> code ?c \<le> 222 \<and> code ?c \<noteq> 215)) =
     (\<not> b5 \<and> b6 \<and>
         (if b7 then \<not> (b4 \<and> b2 \<and> b1 \<and> b0)
          else (b0 \<or> b1 \<or> b2 \<or> b3 \<or> b4) \<and> \<not> (b4 \<and> b3 \<and> (b2 \<or> b0 \<and> b1))))"
    by (cases b0; cases b1; cases b2; cases b3; cases b4; cases b5; cases b6; cases b7; simp)
  have shift: "char_of (code ?c + 32) = ?d" if "\<not> b5"
    using that by (intro code_shift) simp
  show ?thesis unfolding lower_char_def Let_def
    by (rule if_cong [OF cond _ refl]) (rule shift, blast)
qed

section \<open>Splitting and joining\<close>

fun split_char :: "char \<Rightarrow> string \<Rightarrow> string list" where
  "split_char d [] = [[]]"
| "split_char d (c # cs) =
     (if c = d then [] # split_char d cs
      else case split_char d cs of [] \<Rightarrow> [[c]] | p # ps \<Rightarrow> (c # p) # ps)"

fun join :: "string \<Rightarrow> string list \<Rightarrow> string" where
  "join sep [] = []"
| "join sep [s] = s"
| "join sep (s # t # ts) = s @ sep @ join sep (t # ts)"

definition replace_char :: "char \<Rightarrow> char \<Rightarrow> string \<Rightarrow> string" where
  "replace_char c d s = map (\<lambda>x. if x = c then d else x) s"

lemma split_char_nonempty [simp]: "split_char d s \<noteq> []"
  by (induction s) (simp_all split: list.splits)

lemma split_char_notin: "d \<notin> set s \<Longrightarrow> split_char d s = [s]"
  by (induction s) auto

lemma split_char_append:
  "d \<notin> set p \<Longrightarrow> split_char d (p @ d # s) = p # split_char d s"
  by (induction p) auto

lemma join_split_char: "join [d] (split_char d s) = s"
proof (induction s)
  case (Cons c cs)
  then show ?case
    by (cases "split_char d cs"; cases "tl (split_char d cs)") auto
qed simp

lemma join_Cons: "ts \<noteq> [] \<Longrightarrow> join sep (s # ts) = s @ sep @ join sep ts"
  by (cases ts) simp_all

text \<open>Python's \<open>n in h\<close> and \<open>s.replace(old, new)\<close> on strings.\<close>

fun substring :: "string \<Rightarrow> string \<Rightarrow> bool" where
  "substring n [] = (n = [])"
| "substring n (c # cs) = (startswith (c # cs) n \<or> substring n cs)"

function replace_str :: "string \<Rightarrow> string \<Rightarrow> string \<Rightarrow> string" where
  "replace_str old new [] = []"
| "replace_str old new (c # cs) =
     (if old \<noteq> [] \<and> startswith (c # cs) old
      then new @ replace_str old new (drop (length old) (c # cs))
      else c # replace_str old new cs)"
  by pat_completeness auto
termination
  by (relation "measure (\<lambda>(old, new, s). length s)") (auto simp: Suc_le_eq)

text \<open>
  Python's \<open>s.splitlines()\<close>: a line ends at one of the line separators, and a
  carriage return followed by a line feed is one separator.
\<close>

definition is_line_sep :: "char \<Rightarrow> bool" where
  "is_line_sep c = (let n = code c in (10 \<le> n \<and> n \<le> 13) \<or> (28 \<le> n \<and> n \<le> 30) \<or> n = 133)"

fun splitlines_from :: "string \<Rightarrow> string \<Rightarrow> string list" where
  "splitlines_from acc [] = (if acc = [] then [] else [rev acc])"
| "splitlines_from acc (c # cs) =
     (if is_line_sep c then
        rev acc # splitlines_from [] (if code c = 13 \<and> cs \<noteq> [] \<and> code (hd cs) = 10 then tl cs else cs)
      else splitlines_from (c # acc) cs)"

definition splitlines :: "string \<Rightarrow> string list" where
  "splitlines s = splitlines_from [] s"

section \<open>Replacing maximal runs\<close>

function sub_runs :: "(char \<Rightarrow> bool) \<Rightarrow> string \<Rightarrow> string \<Rightarrow> string" where
  "sub_runs p rep [] = []"
| "sub_runs p rep (c # cs) =
     (if p c then rep @ sub_runs p rep (dropWhile p cs) else c # sub_runs p rep cs)"
  by pat_completeness auto
termination
  by (relation "measure (\<lambda>(p, rep, s). length s)") (auto simp: le_imp_less_Suc length_dropWhile_le)

lemma set_sub_runs: "set (sub_runs p rep s) \<subseteq> {c \<in> set s. \<not> p c} \<union> set rep"
proof (induction p rep s rule: sub_runs.induct)
  case (2 p rep c cs)
  then show ?case using set_dropWhileD [of _ p cs] by auto
qed simp

section \<open>Decimal numbers\<close>

definition digit :: "nat \<Rightarrow> char" where
  "digit n = char_of (48 + n)"

fun nat_str :: "nat \<Rightarrow> string" where
  "nat_str n = (if n < 10 then [digit n] else nat_str (n div 10) @ [digit (n mod 10)])"

declare nat_str.simps [simp del]

definition int_str :: "int \<Rightarrow> string" where
  "int_str i = (if i < 0 then CHR ''-'' # nat_str (nat (- i)) else nat_str (nat i))"

lemma code_digit: "n < 10 \<Longrightarrow> code (digit n) = 48 + n"
  by (simp add: digit_def)

lemma digit_eq_iff: "m < 10 \<Longrightarrow> n < 10 \<Longrightarrow> digit m = digit n \<longleftrightarrow> m = n"
  by (metis add_left_cancel code_digit)

definition is_digit :: "char \<Rightarrow> bool" where
  "is_digit c \<longleftrightarrow> 48 \<le> code c \<and> code c \<le> 57"

lemma is_digit_digit [simp]: "n < 10 \<Longrightarrow> is_digit (digit n)"
  by (simp add: is_digit_def code_digit)

lemma nat_str_digits: "c \<in> set (nat_str n) \<Longrightarrow> is_digit c"
proof (induction n rule: nat_str.induct)
  case (1 n)
  then show ?case by (subst (asm) nat_str.simps) (auto split: if_splits)
qed

lemma nat_str_nonempty [simp]: "nat_str n \<noteq> []"
  by (subst nat_str.simps) simp

text \<open>Reading the digits back: decimal text determines the number.\<close>

definition nat_val :: "string \<Rightarrow> nat" where
  "nat_val s = foldl (\<lambda>n c. 10 * n + (code c - 48)) 0 s"

lemma nat_val_nat_str: "nat_val (nat_str n) = n"
proof (induction n rule: nat_str.induct)
  case (1 n)
  show ?case
  proof (cases "n < 10")
    case True
    then show ?thesis by (subst nat_str.simps) (simp add: nat_val_def code_digit)
  next
    case False
    with 1 have "nat_val (nat_str (n div 10)) = n div 10" by simp
    with False show ?thesis by (subst nat_str.simps) (simp add: nat_val_def code_digit)
  qed
qed

lemma nat_str_inject [simp]: "nat_str m = nat_str n \<longleftrightarrow> m = n"
  by (metis nat_val_nat_str)

lemma int_str_inject [simp]: "int_str i = int_str j \<longleftrightarrow> i = j"
proof -
  have dash: "CHR ''-'' # xs \<noteq> nat_str n" for xs n
  proof
    assume "CHR ''-'' # xs = nat_str n"
    then have "is_digit (CHR ''-'')" by (metis list.set_intros(1) nat_str_digits)
    then show False by (simp add: is_digit_def)
  qed
  show ?thesis
    using dash dash [symmetric] by (auto simp: int_str_def)
qed

lemma int_str_chars: "c \<in> set (int_str i) \<Longrightarrow> is_digit c \<or> c = CHR ''-''"
  by (auto simp: int_str_def dest: nat_str_digits split: if_splits)

section \<open>Anchored patterns\<close>

datatype regex =
    Lit string
  | WS_Plus
  | WS_Star
  | Opt regex
  | Alt "regex list"
  | Sequ "regex list"

text \<open>All rests of the text after a match at its start.\<close>

fun ws_rests :: "string \<Rightarrow> string list" where
  "ws_rests [] = [[]]"
| "ws_rests (c # cs) = (if is_space c then (c # cs) # ws_rests cs else [c # cs])"

fun rests :: "regex \<Rightarrow> string \<Rightarrow> string list"
  and rests_alt :: "regex list \<Rightarrow> string \<Rightarrow> string list"
  and rests_seq :: "regex list \<Rightarrow> string \<Rightarrow> string list" where
  "rests (Lit l) s = (if startswith s l then [drop (length l) s] else [])"
| "rests WS_Plus s = (case s of [] \<Rightarrow> [] | c # cs \<Rightarrow> if is_space c then ws_rests cs else [])"
| "rests WS_Star s = ws_rests s"
| "rests (Opt r) s = rests r s @ [s]"
| "rests (Alt rs) s = rests_alt rs s"
| "rests (Sequ rs) s = rests_seq rs s"
| "rests_alt [] s = []"
| "rests_alt (r # rs) s = rests r s @ rests_alt rs s"
| "rests_seq [] s = [s]"
| "rests_seq (r # rs) s = concat (map (rests_seq rs) (rests r s))"

text \<open>\<open>re.match\<close> of a pattern written \<open>^...$\<close> on text without a trailing newline.\<close>

definition full_match :: "regex \<Rightarrow> string \<Rightarrow> bool" where
  "full_match r s \<longleftrightarrow> [] \<in> set (rests r s)"

end
