(* ===== verification/Py_Value.thy ===== *)
theory Py_Value
  imports Complex_Main Py_Text
begin

text \<open>
  The Python objects that cross the program's boundaries: JSON-shaped values
  (\<open>facts\<close>, \<open>details\<close>, compiled JSON-Logic) with Python's truth value, equality,
  ordering and membership, including the \<open>TypeError\<close> an ordering of unlike
  values raises. A float is an exact rational, an infinity or NaN: comparisons
  are Python's (integers and booleans are numbers). A dict is the list of its
  items in insertion order, with distinct keys; \<open>POther\<close> is an object of a type
  outside JSON, by its type name. Container comparison by object identity is
  not modelled (it matters for a NaN inside a container only).
\<close>

section \<open>Floats\<close>

datatype pyfloat = Fin rat | PInf | NInf | NaN

fun flt_less :: "pyfloat \<Rightarrow> pyfloat \<Rightarrow> bool" where
  "flt_less (Fin a) (Fin b) = (a < b)"
| "flt_less NaN _ = False"
| "flt_less _ NaN = False"
| "flt_less NInf y = (y \<noteq> NInf)"
| "flt_less (Fin a) y = (y = PInf)"
| "flt_less PInf y = False"

definition flt_eq :: "pyfloat \<Rightarrow> pyfloat \<Rightarrow> bool" where
  "flt_eq x y \<longleftrightarrow> x = y \<and> x \<noteq> NaN"

definition flt_le :: "pyfloat \<Rightarrow> pyfloat \<Rightarrow> bool" where
  "flt_le x y \<longleftrightarrow> flt_less x y \<or> flt_eq x y"

definition flt_finite :: "pyfloat \<Rightarrow> bool" where
  "flt_finite x \<longleftrightarrow> (case x of Fin _ \<Rightarrow> True | _ \<Rightarrow> False)"

lemma flt_less_irrefl [simp]: "\<not> flt_less x x"
  by (cases x) simp_all

lemma flt_less_trans: "flt_less x y \<Longrightarrow> flt_less y z \<Longrightarrow> flt_less x z"
  by (cases x; cases y; cases z) simp_all

lemma flt_trichotomy: "x \<noteq> NaN \<Longrightarrow> y \<noteq> NaN \<Longrightarrow> flt_less x y \<or> flt_eq x y \<or> flt_less y x"
  by (cases x; cases y) (auto simp: flt_eq_def)

lemma flt_not_less: "x \<noteq> NaN \<Longrightarrow> y \<noteq> NaN \<Longrightarrow> (\<not> flt_less x y) = flt_le y x"
  by (cases x; cases y) (auto simp: flt_le_def flt_eq_def)

lemma flt_not_le: "x \<noteq> NaN \<Longrightarrow> y \<noteq> NaN \<Longrightarrow> (\<not> flt_le x y) = flt_less y x"
  by (cases x; cases y) (auto simp: flt_le_def flt_eq_def)

lemma flt_le_less_trans: "flt_le x y \<Longrightarrow> flt_less y z \<Longrightarrow> flt_less x z"
  by (auto simp: flt_le_def flt_eq_def intro: flt_less_trans)

lemma flt_le_trans: "flt_le x y \<Longrightarrow> flt_le y z \<Longrightarrow> flt_le x z"
  by (auto simp: flt_le_def flt_eq_def intro: flt_less_trans)

section \<open>Objects\<close>

datatype pyval =
    PNone
  | PBool bool
  | PInt int
  | PFloat pyfloat
  | PStr string
  | PList "pyval list"
  | PDict "(string \<times> pyval) list"
  | POther string

fun num_of :: "pyval \<Rightarrow> pyfloat option" where
  "num_of (PBool b) = Some (Fin (if b then 1 else 0))"
| "num_of (PInt i) = Some (Fin (of_int i))"
| "num_of (PFloat f) = Some f"
| "num_of _ = None"

fun truthy :: "pyval \<Rightarrow> bool" where
  "truthy PNone = False"
| "truthy (PBool b) = b"
| "truthy (PInt i) = (i \<noteq> 0)"
| "truthy (PFloat f) = (f \<noteq> Fin 0)"
| "truthy (PStr s) = (s \<noteq> [])"
| "truthy (PList xs) = (xs \<noteq> [])"
| "truthy (PDict d) = (d \<noteq> [])"
| "truthy (POther _) = True"

fun py_eq :: "pyval \<Rightarrow> pyval \<Rightarrow> bool"
  and py_eq_list :: "pyval list \<Rightarrow> pyval list \<Rightarrow> bool"
  and py_eq_items :: "(string \<times> pyval) list \<Rightarrow> (string \<times> pyval) list \<Rightarrow> bool" where
  "py_eq PNone y = (y = PNone)"
| "py_eq (PStr s) y = (y = PStr s)"
| "py_eq (PList xs) y = (case y of PList ys \<Rightarrow> py_eq_list xs ys | _ \<Rightarrow> False)"
| "py_eq (PDict d) y = (case y of PDict e \<Rightarrow> length d = length e \<and> py_eq_items d e | _ \<Rightarrow> False)"
| "py_eq (POther t) y = False"
| "py_eq x y = (case (num_of x, num_of y) of (Some a, Some b) \<Rightarrow> flt_eq a b | _ \<Rightarrow> False)"
| "py_eq_list [] ys = (ys = [])"
| "py_eq_list (x # xs) ys = (case ys of [] \<Rightarrow> False | y # ys' \<Rightarrow> py_eq x y \<and> py_eq_list xs ys')"
| "py_eq_items [] e = True"
| "py_eq_items ((k, v) # d) e =
     (case map_of e k of None \<Rightarrow> False | Some w \<Rightarrow> py_eq v w \<and> py_eq_items d e)"

datatype order_op = Ge | Gt | Le | Lt

fun flt_order :: "order_op \<Rightarrow> pyfloat \<Rightarrow> pyfloat \<Rightarrow> bool" where
  "flt_order Ge x y = flt_le y x"
| "flt_order Gt x y = flt_less y x"
| "flt_order Le x y = flt_le x y"
| "flt_order Lt x y = flt_less x y"

fun str_order :: "order_op \<Rightarrow> string \<Rightarrow> string \<Rightarrow> bool" where
  "str_order Ge s t = (t \<le> s)"
| "str_order Gt s t = (t < s)"
| "str_order Le s t = (s \<le> t)"
| "str_order Lt s t = (s < t)"

text \<open>\<open>TypeError\<close> unless both are numbers, both strings or both lists.\<close>

fun py_order :: "order_op \<Rightarrow> pyval \<Rightarrow> pyval \<Rightarrow> bool result"
  and py_order_list :: "order_op \<Rightarrow> pyval list \<Rightarrow> pyval list \<Rightarrow> bool result" where
  "py_order opr (PList xs) y = (case y of PList ys \<Rightarrow> py_order_list opr xs ys | _ \<Rightarrow> raise TypeError)"
| "py_order opr (PStr s) y = (case y of PStr t \<Rightarrow> Inr (str_order opr s t) | _ \<Rightarrow> raise TypeError)"
| "py_order opr x y =
     (case (num_of x, num_of y) of
        (Some a, Some b) \<Rightarrow> Inr (flt_order opr a b)
      | _ \<Rightarrow> raise TypeError)"
| "py_order_list opr [] ys =
     Inr (case ys of [] \<Rightarrow> opr = Ge \<or> opr = Le | _ \<Rightarrow> opr = Lt \<or> opr = Le)"
| "py_order_list opr (x # xs) ys =
     (case ys of
        [] \<Rightarrow> Inr (opr = Gt \<or> opr = Ge)
      | y # ys' \<Rightarrow> if py_eq x y then py_order_list opr xs ys' else py_order opr x y)"

lemma py_order_num:
  "num_of x = Some a \<Longrightarrow> num_of y = Some b \<Longrightarrow> py_order opr x y = Inr (flt_order opr a b)"
  by (cases x) simp_all

fun py_in :: "pyval \<Rightarrow> pyval \<Rightarrow> bool result" where
  "py_in x (PList ys) = Inr (list_ex (py_eq x) ys)"
| "py_in x (PStr h) = (case x of PStr n \<Rightarrow> Inr (substring n h) | _ \<Rightarrow> raise TypeError)"
| "py_in x (PDict d) =
     (case x of PStr k \<Rightarrow> Inr (k \<in> fst ` set d) | PList _ \<Rightarrow> raise TypeError
      | PDict _ \<Rightarrow> raise TypeError | _ \<Rightarrow> Inr False)"
| "py_in x _ = raise TypeError"

text \<open>\<open>d[k] = v\<close>: an existing key keeps its place, a new one goes to the end.\<close>

fun dict_set :: "string \<Rightarrow> 'v \<Rightarrow> (string \<times> 'v) list \<Rightarrow> (string \<times> 'v) list" where
  "dict_set k v [] = [(k, v)]"
| "dict_set k v ((k', v') # d) = (if k' = k then (k, v) # d else (k', v') # dict_set k v d)"

lemma map_of_dict_set [simp]: "map_of (dict_set k v d) = (map_of d)(k \<mapsto> v)"
  by (induction k v d rule: dict_set.induct) (auto simp: fun_eq_iff)

lemma dict_set_keys [simp]: "fst ` set (dict_set k v d) = insert k (fst ` set d)"
  by (induction k v d rule: dict_set.induct) auto

lemma dict_set_distinct [simp]: "distinct (map fst d) \<Longrightarrow> distinct (map fst (dict_set k v d))"
proof (induction k v d rule: dict_set.induct)
  case (2 k v k' v' d)
  then show ?case using dict_set_keys [of k v d] by auto
qed simp

end
