(* ===== verification/Hitl_Queue.thy ===== *)
theory Hitl_Queue
  imports Redis_Store Py_Value
begin

text \<open>
  The execution service's data (\<open>app/execution/models.py\<close>), its queue of
  ambiguous transactions (\<open>app/execution/hitl_queue.py\<close>) and the route by which
  a reviewer resolves one (\<open>app/api/execution_routes.py\<close>). The case id (a
  \<open>uuid4\<close>) and the clock are arguments; webhooks handed to Celery are appended
  to an outbox. A reason is kept as a value of a datatype with one constructor
  per text the evaluator writes.
\<close>

section \<open>Data\<close>

datatype Decision = ALLOW | DENY | FLAGGED

fun decision_value :: "Decision \<Rightarrow> string" where
  "decision_value ALLOW = ''allow''"
| "decision_value DENY = ''deny''"
| "decision_value FLAGGED = ''flagged''"

datatype SourceChannel = REST_SYNC | SFTP_BATCH | DB_CDC | HITL_RESOLUTION

record TransactionPayload =
  transaction_id :: string
  tx_entity_type :: string
  tx_facts :: "(string \<times> pyval) list"
  source_channel :: SourceChannel
  broker_id :: "string option"
  callback_url :: "string option"
  received_at :: time
  tx_metadata :: "(string \<times> pyval) list"

record PolicyOutcome =
  po_rule_id :: string
  po_package :: string
  po_allow :: "bool option"
  po_violations :: "string list"
  po_circular_number :: "string option"
  po_clause_number :: "string option"
  po_rule_version :: "int option"
  po_policy_sha256 :: "string option"
  po_canonical_facts_digest :: "string option"
  po_source_document_sha256 :: "string option"
  po_extracted_text_sha256 :: "string option"
  po_clause_sha256 :: "string option"

datatype Reason =
    KillSwitchActive
  | NoApplicablePolicy
  | Violation string
  | UndefinedResult "string list"
  | NegotiationDeadlock nat

record EvaluationResult =
  er_transaction_id :: string
  er_decision :: Decision
  matched_policies :: "PolicyOutcome list"
  reasons :: "Reason list"
  hitl_case_id :: "string option"
  evaluated_at :: time

datatype HITLStatus = HITL_PENDING | HITL_APPROVED | HITL_REJECTED

record HITLCase =
  case_id :: string
  case_transaction :: TransactionPayload
  case_reason :: "Reason list"
  case_matched_policies :: "PolicyOutcome list"
  case_status :: HITLStatus
  case_created_at :: time
  case_resolved_at :: "time option"
  case_resolved_by :: "string option"
  case_resolution_notes :: "string option"

record HITLResolutionRequest =
  res_decision :: Decision
  res_resolved_by :: string
  res_notes :: "string option"

record WebhookEvent =
  event_type :: string
  wh_transaction_id :: string
  wh_decision :: Decision
  wh_payload :: "(string \<times> pyval) list"
  emitted_at :: time

type_synonym hitl_queue = "HITLCase redis"

type_synonym outbox = "(string \<times> WebhookEvent) list"

section \<open>The queue\<close>

definition case_key :: "string \<Rightarrow> string \<Rightarrow> string" where
  "case_key p i = p @ '':case:'' @ i"

definition pending_set_key :: "string \<Rightarrow> string" where
  "pending_set_key p = p @ '':pending''"

definition enqueue ::
  "string \<Rightarrow> TransactionPayload \<Rightarrow> Reason list \<Rightarrow> PolicyOutcome list \<Rightarrow> string \<Rightarrow> time
   \<Rightarrow> hitl_queue \<Rightarrow> hitl_queue \<times> HITLCase" where
  "enqueue p tx why outcomes uuid now q =
     (let c = \<lparr>case_id = uuid, case_transaction = tx, case_reason = why, case_matched_policies = outcomes,
               case_status = HITL_PENDING, case_created_at = now, case_resolved_at = None,
               case_resolved_by = None, case_resolution_notes = None\<rparr>
      in (r_sadd (pending_set_key p) uuid (r_put (case_key p uuid) c q), c))"

definition hitl_get :: "string \<Rightarrow> string \<Rightarrow> hitl_queue \<Rightarrow> HITLCase option" where
  "hitl_get p i q = r_get q (case_key p i)"

text \<open>\<open>enum\<close> is the order in which Redis lists the pending set.\<close>

definition list_pending :: "(string set \<Rightarrow> string list) \<Rightarrow> string \<Rightarrow> hitl_queue \<Rightarrow> HITLCase list" where
  "list_pending enum p q =
     sort_key case_created_at
       (List.map_filter (\<lambda>i. hitl_get p i q) (enum (r_smembers q (pending_set_key p))))"

definition resolve ::
  "string \<Rightarrow> string \<Rightarrow> HITLStatus \<Rightarrow> string \<Rightarrow> string option \<Rightarrow> time \<Rightarrow> hitl_queue
   \<Rightarrow> hitl_queue \<times> HITLCase result" where
  "resolve p i st actor notes now q =
     (case hitl_get p i q of
        None \<Rightarrow> (q, raise (KeyError i))
      | Some c \<Rightarrow>
          if case_status c \<noteq> HITL_PENDING then (q, raise (ValueError ''already resolved''))
          else
            let c' = c\<lparr>case_status := st, case_resolved_by := Some actor,
                        case_resolution_notes := notes, case_resolved_at := Some now\<rparr>
            in (r_srem (pending_set_key p) i (r_put (case_key p i) c' q), Inr c'))"

section \<open>The reviewer's route\<close>

definition opt_str_val :: "string option \<Rightarrow> pyval" where
  "opt_str_val s = (case s of None \<Rightarrow> PNone | Some t \<Rightarrow> PStr t)"

definition resolve_hitl_case ::
  "string \<Rightarrow> string \<Rightarrow> HITLResolutionRequest \<Rightarrow> string \<Rightarrow> time \<Rightarrow> hitl_queue \<times> outbox
   \<Rightarrow> (hitl_queue \<times> outbox) \<times> HITLCase result" where
  "resolve_hitl_case p i resolution subject now st =
     (case st of (q, out) \<Rightarrow>
        if res_decision resolution \<notin> set [ALLOW, DENY] then
          (st, raise (HTTPException 422 ''Resolution decision must be 'allow' or 'deny'.''))
        else
          let mapped = (if res_decision resolution = ALLOW then HITL_APPROVED else HITL_REJECTED) in
          case resolve p i mapped subject (res_notes resolution) now q of
            (q', Inl (KeyError _)) \<Rightarrow> ((q', out), raise (HTTPException 404 (''No HITL case '' @ i)))
          | (q', Inl (ValueError _)) \<Rightarrow> ((q', out), raise (HTTPException 409 (''HITL case '' @ i @ '' is already resolved.'')))
          | (q', Inl e) \<Rightarrow> ((q', out), raise e)
          | (q', Inr c) \<Rightarrow>
              ((q', if truthy_str (callback_url (case_transaction c))
                    then out @ [(the (callback_url (case_transaction c)),
                      \<lparr>event_type = ''hitl.case.resolved'',
                       wh_transaction_id = transaction_id (case_transaction c),
                       wh_decision = res_decision resolution,
                       wh_payload = [(''case_id'', PStr (case_id c)), (''resolved_by'', PStr subject),
                                     (''notes'', opt_str_val (res_notes resolution))],
                       emitted_at = now\<rparr>)]
                    else out), Inr c))"

section \<open>The pending set is an index\<close>

lemma case_key_inject [simp]: "case_key p i = case_key p j \<longleftrightarrow> i = j"
  by (simp add: case_key_def)

interpretation hitl: indexed_store
  "\<lambda>q i. r_get q (case_key p i)"
  "\<lambda>q. r_smembers q (pending_set_key p)"
  "\<lambda>c. case_status c = HITL_PENDING"
  "\<lambda>i c q. r_sadd (pending_set_key p) i (r_put (case_key p i) c q)"
  "redis_close (case_key p) (pending_set_key p)" for p
  by (rule redis_indexed_store) (simp add: inj_def)

definition hitl_inv :: "string \<Rightarrow> hitl_queue \<Rightarrow> bool" where
  "hitl_inv p q \<longleftrightarrow> hitl.exact_index p q \<and> (\<forall>i c. hitl_get p i q = Some c \<longrightarrow> case_id c = i)"

lemma resolve_close:
  assumes "hitl_get p i q = Some c" "case_status c = HITL_PENDING"
  shows "resolve p i st actor notes now q =
    (let c' = c\<lparr>case_status := st, case_resolved_by := Some actor, case_resolution_notes := notes,
                case_resolved_at := Some now\<rparr>
     in (redis_close (case_key p) (pending_set_key p) i (Some c') q, Inr c'))"
  using assms by (simp add: resolve_def redis_close_def Let_def)

lemma resolve_refused:
  assumes "\<nexists>c. hitl_get p i q = Some c \<and> case_status c = HITL_PENDING"
  shows "\<exists>e. resolve p i st actor notes now q = (q, Inl e)"
  using assms by (auto simp: resolve_def split: option.splits)

lemma hitl_inv_enqueue:
  assumes "hitl_inv p q" shows "hitl_inv p (fst (enqueue p tx why outcomes uuid now q))"
  using assms hitl.exact_enqueue [of p q]
  by (auto simp: hitl_inv_def enqueue_def Let_def hitl_get_def redis_simps)

lemma hitl_inv_resolve:
  assumes inv: "hitl_inv p q" and st: "st \<noteq> HITL_PENDING"
  shows "hitl_inv p (fst (resolve p i st actor notes now q))"
proof (cases "\<exists>c. hitl_get p i q = Some c \<and> case_status c = HITL_PENDING")
  case True
  then obtain c where c: "hitl_get p i q = Some c" "case_status c = HITL_PENDING" by blast
  let ?c = "c\<lparr>case_status := st, case_resolved_by := Some actor, case_resolution_notes := notes, case_resolved_at := Some now\<rparr>"
  have "hitl.exact_index p (redis_close (case_key p) (pending_set_key p) i (Some ?c) q)"
    using inv st by (intro hitl.exact_close) (auto simp: hitl_inv_def)
  moreover have "case_id ?c = i" using inv c by (simp add: hitl_inv_def)
  ultimately show ?thesis
    using inv by (auto simp: resolve_close [OF c] Let_def hitl_inv_def hitl_get_def fun_cong [OF hitl.doc_close])
next
  case False
  from resolve_refused [OF this] inv show ?thesis by (metis fst_conv)
qed

section \<open>Steps of the queue\<close>

inductive hitl_step :: "string \<Rightarrow> hitl_queue \<times> outbox \<Rightarrow> hitl_queue \<times> outbox \<Rightarrow> bool" for p where
  enqueue: "hitl_get p uuid q = None \<Longrightarrow>
    hitl_step p (q, out) (fst (enqueue p tx why outcomes uuid now q), out)"
| resolve: "hitl_step p st (fst (resolve_hitl_case p i resolution subject now st))"

abbreviation hitl_reachable :: "string \<Rightarrow> hitl_queue \<times> outbox \<Rightarrow> bool" where
  "hitl_reachable p st \<equiv> (hitl_step p)\<^sup>*\<^sup>* (redis_empty, []) st"

lemma resolve_hitl_case_queue:
  "fst (fst (resolve_hitl_case p i resolution subject now (q, out))) =
     (if res_decision resolution \<in> {ALLOW, DENY}
      then fst (resolve p i (if res_decision resolution = ALLOW then HITL_APPROVED else HITL_REJECTED)
             subject (res_notes resolution) now q)
      else q)"
  by (simp add: resolve_hitl_case_def Let_def split: prod.split sum.split exc.split)

lemma hitl_inv_step: "hitl_step p st st' \<Longrightarrow> hitl_inv p (fst st) \<Longrightarrow> hitl_inv p (fst st')"
proof (induction rule: hitl_step.induct)
  case (resolve st i resolution subject now)
  then show ?case by (cases st) (simp add: resolve_hitl_case_queue hitl_inv_resolve)
qed (simp add: hitl_inv_enqueue)

lemma hitl_inv_empty: "hitl_inv p redis_empty"
proof -
  have "r_get (redis_empty :: hitl_queue) k = None" "r_smembers (redis_empty :: hitl_queue) k = {}" for k
    by (simp_all add: redis_empty_def redis_defs)
  then show ?thesis by (simp add: hitl_inv_def hitl.exact_index_def hitl.open_ids_def hitl_get_def)
qed

lemma hitl_reachable_inv: "hitl_reachable p st \<Longrightarrow> hitl_inv p (fst st)"
  by (induction rule: rtranclp_induct) (auto simp: hitl_inv_empty hitl_inv_step)

lemma hitl_pending_iff:
  "hitl_inv p q \<Longrightarrow> i \<in> r_smembers q (pending_set_key p) \<longleftrightarrow>
     (\<exists>c. hitl_get p i q = Some c \<and> case_status c = HITL_PENDING)"
  by (simp add: hitl_inv_def hitl.exact_index_def hitl.open_ids_def hitl_get_def)

text \<open>
  The reviewer's work list is complete and exact in every reachable state,
  whatever order Redis enumerates the set in: it lists each case awaiting a
  decision once and no other case, oldest first.
\<close>

theorem list_pending_exact:
  assumes "hitl_reachable p (q, out)"
    and enum: "distinct (enum (r_smembers q (pending_set_key p)))"
      "set (enum (r_smembers q (pending_set_key p))) = r_smembers q (pending_set_key p)"
  shows "set (list_pending enum p q) = {c. case_status c = HITL_PENDING \<and> hitl_get p (case_id c) q = Some c}
    \<and> distinct (map case_id (list_pending enum p q))
    \<and> sorted (map case_created_at (list_pending enum p q))"
proof -
  let ?ids = "enum (r_smembers q (pending_set_key p))"
  have inv: "hitl_inv p q" using hitl_reachable_inv [OF assms(1)] by simp
  note pending = hitl_pending_iff [OF inv]
  have id: "hitl_get p i q = Some c \<Longrightarrow> case_id c = i" for i c using inv by (simp add: hitl_inv_def)
  have "set (List.map_filter (\<lambda>i. hitl_get p i q) ?ids) =
      {c. case_status c = HITL_PENDING \<and> hitl_get p (case_id c) q = Some c}"
    unfolding set_map_filter enum(2) using id by (metis (no_types, opaque_lifting) option.inject pending)
  moreover have "distinct (map case_id (List.map_filter (\<lambda>i. hitl_get p i q) ids))"
    if "distinct ids" for ids
    using that
  proof (induction ids)
    case (Cons a ids)
    then show ?case by (auto simp: map_filter_simps set_map_filter split: option.split) (metis id)
  qed (simp add: map_filter_simps)
  then have "distinct (map case_id (sort_key case_created_at (List.map_filter (\<lambda>i. hitl_get p i q) ?ids)))"
    using enum(1) by (metis distinct_map distinct_sort set_sort)
  ultimately show ?thesis by (simp add: list_pending_def)
qed

definition demo_tx :: TransactionPayload where
  "demo_tx = \<lparr>transaction_id = ''t1'', tx_entity_type = ''Stockbroker'', tx_facts = [],
     source_channel = REST_SYNC, broker_id = Some ''b1'', callback_url = Some ''http://cb'', received_at = 1,
     tx_metadata = []\<rparr>"

definition demo_hitl :: "hitl_queue \<times> outbox" where
  "demo_hitl = (fst (enqueue ''hitl'' demo_tx [UndefinedResult [''r1'']] [] ''c1'' 5 redis_empty), [])"

lemma demo_hitl_reachable: "hitl_reachable ''hitl'' demo_hitl"
proof -
  have "hitl_get ''hitl'' ''c1'' redis_empty = None" by (simp add: hitl_get_def redis_empty_def redis_defs)
  from hitl_step.enqueue [OF this] show ?thesis unfolding demo_hitl_def by blast
qed

lemma demo_hitl_pending: "r_smembers (fst demo_hitl) (pending_set_key ''hitl'') = {''c1''}"
  by (simp add: demo_hitl_def enqueue_def Let_def redis_simps) (simp add: redis_empty_def redis_defs)

theorem list_pending_exact_witness:
  "sorted (map case_created_at (list_pending (\<lambda>_. [''c1'']) ''hitl'' (fst demo_hitl)))"
proof -
  obtain q out where d: "demo_hitl = (q, out)" by (cases demo_hitl)
  show ?thesis
    using list_pending_exact [of "''hitl''" q out "\<lambda>_. [''c1'']"] demo_hitl_reachable demo_hitl_pending
    by (simp add: d)
qed

section \<open>A human decision is final\<close>

lemma hitl_final_step:
  assumes "hitl_step p st st'" "hitl_get p i (fst st) = Some c" "case_status c \<noteq> HITL_PENDING"
  shows "hitl_get p i (fst st') = Some c"
  using assms
proof (induction rule: hitl_step.induct)
  case (enqueue uuid q out tx why outcomes now)
  then show ?case by (auto simp: enqueue_def Let_def hitl_get_def redis_simps)
next
  case (resolve st j resolution subject now)
  have "hitl_get p i (fst (resolve p j s actor ns now (fst st))) = Some c" for s actor ns
    using resolve by (cases "j = i") (auto simp: resolve_def Let_def hitl_get_def redis_simps split: option.splits)
  then show ?case using resolve by (cases st) (simp add: resolve_hitl_case_queue)
qed

text \<open>
  Claim C12. A resolved transaction is decided once and for all: its case keeps the
  decision, the reviewer's identity and the notes through every later step, and
  every later attempt to resolve it is refused with 409, changes nothing and
  sends no webhook.
\<close>

theorem hitl_decision_final:
  assumes "(hitl_step p)\<^sup>*\<^sup>* st (q, out)" and "hitl_get p i (fst st) = Some c" and "case_status c \<noteq> HITL_PENDING"
    and "res_decision resolution \<noteq> FLAGGED"
  shows "hitl_get p i q = Some c
    \<and> resolve_hitl_case p i resolution subject now (q, out) =
        ((q, out), raise (HTTPException 409 (''HITL case '' @ i @ '' is already resolved.'')))"
proof -
  from assms(1-3) have "hitl_get p i (fst (q, out)) = Some c"
    by (induction "(q, out)" arbitrary: q out rule: rtranclp_induct) (auto dest: hitl_final_step)
  with assms(3,4) show ?thesis
    by (cases "res_decision resolution") (simp_all add: resolve_hitl_case_def resolve_def Let_def)
qed

definition demo_resolution :: HITLResolutionRequest where
  "demo_resolution = \<lparr>res_decision = DENY, res_resolved_by = ''x'', res_notes = None\<rparr>"

theorem hitl_decision_final_witness:
  "resolve_hitl_case ''hitl'' ''c1'' (demo_resolution\<lparr>res_decision := ALLOW\<rparr>) ''eve'' 9
       (fst (resolve_hitl_case ''hitl'' ''c1'' demo_resolution ''ann'' 8 demo_hitl)) =
     (fst (resolve_hitl_case ''hitl'' ''c1'' demo_resolution ''ann'' 8 demo_hitl),
      raise (HTTPException 409 ''HITL case c1 is already resolved.''))"
proof -
  obtain q out where d: "fst (resolve_hitl_case ''hitl'' ''c1'' demo_resolution ''ann'' 8 demo_hitl) = (q, out)"
    by (cases "fst (resolve_hitl_case ''hitl'' ''c1'' demo_resolution ''ann'' 8 demo_hitl)")
  have "\<exists>c. hitl_get ''hitl'' ''c1'' q = Some c \<and> case_status c \<noteq> HITL_PENDING"
    using d by (auto simp: demo_hitl_def enqueue_def demo_resolution_def resolve_hitl_case_def resolve_def Let_def
        hitl_get_def redis_simps)
  then obtain c where "hitl_get ''hitl'' ''c1'' (fst (q, out)) = Some c" "case_status c \<noteq> HITL_PENDING" by auto
  note hitl_decision_final [OF rtranclp.rtrancl_refl this, where resolution = "demo_resolution\<lparr>res_decision := ALLOW\<rparr>"]
  from this [of "''eve''" 9] show ?thesis unfolding d by (simp add: demo_resolution_def)
qed

end
