(* ===== verification/Regulatory_Facts.thy ===== *)
theory Regulatory_Facts
  imports Py_Value
begin

text \<open>
  \<open>app/regulatory/facts.py\<close>: the controlled vocabulary of executable facts and
  the resolution of an extracted metric name, unit and threshold value to one of
  them. The taxonomy is written out as the source has it, patterns included (the
  rupee sign U+20B9 is outside the modelled alphabet, so the unit spelled with it
  is left out). The error texts of a failed resolution are not modelled, nor are
  the description texts.
\<close>

section \<open>Data\<close>

datatype FactDataType =
  PERCENTAGE | CURRENCY | NUMBER | DURATION_DAYS | DURATION_HOURS | BOOLEAN | RATIO

datatype FactValidationStatus = VALID | MISSING_MAPPING | WRONG_UNIT | WRONG_THRESHOLD

record CanonicalFact =
  fact_id :: string
  display_name :: string
  data_type :: FactDataType
  allowed_units :: "string list"
  synonyms :: "string list"
  min_value :: "pyfloat option"
  max_value :: "pyfloat option"
  regex_patterns :: "regex list"

record FactResolutionResult =
  fr_status :: FactValidationStatus
  canonical_identifier :: "string option"
  fr_canonical_fact :: "CanonicalFact option"

definition fr_is_valid :: "FactResolutionResult \<Rightarrow> bool" where
  "fr_is_valid res \<longleftrightarrow> fr_status res = VALID \<and> canonical_identifier res \<noteq> None"

section \<open>Normalisation of extracted text\<close>

definition normalize_metric_text :: "string \<Rightarrow> string" where
  "normalize_metric_text text =
     (if text = [] then []
      else
        let cleaned = py_lower (strip text);
            cleaned = replace_char CHR ''/'' CHR '' ''
              (replace_char CHR ''_'' CHR '' '' (replace_char CHR ''-'' CHR '' '' cleaned));
            cleaned = sub_runs (\<lambda>c. \<not> is_alnum_lower c \<and> \<not> is_space c) '' '' cleaned
        in strip (sub_runs is_space '' '' cleaned))"

definition normalize_unit :: "string \<Rightarrow> string" where
  "normalize_unit unit =
     (if unit = [] then []
      else
        let u = py_lower (strip unit) in
        if u \<in> set [''%'', ''pct'', ''percent'', ''per cent'', ''percentage''] then ''%''
        else if u \<in> set [''day'', ''days''] then ''days''
        else if u \<in> set [''hour'', ''hours'', ''hr'', ''hrs''] then ''hours''
        else if u \<in> set [''month'', ''months''] then ''months''
        else if u \<in> set [''week'', ''weeks''] then ''weeks''
        else if u \<in> set [''inr'', ''rs'', ''rs.'', ''rupees''] then ''inr''
        else if u \<in> set [''inr crore'', ''crore'', ''crores'', ''cr''] then ''inr crore''
        else if u \<in> set [''inr lakh'', ''lakh'', ''lakhs''] then ''inr lakh''
        else u)"

section \<open>The taxonomy\<close>

definition fact_upfront_margin_pct :: CanonicalFact where
  "fact_upfront_margin_pct = \<lparr>
     fact_id = ''upfront_margin_pct'',
     display_name = ''Upfront Margin Percentage'',
     data_type = PERCENTAGE,
     allowed_units = [
       ''%'', ''pct'', ''per cent'', ''percent'', ''percentage''],
     synonyms = [
       ''upfront margin'', ''minimum upfront margin'', ''upfront margin percentage'',
       ''up front margin'', ''initial margin'', ''minimum initial margin'',
       ''upfront margin requirement'', ''margin upfront'', ''mandatory upfront margin'',
       ''minimum upfront margin required'', ''upfront margin rate'', ''margin'',
       ''minimum margin'', ''upfront margin collection'', ''client upfront margin''],
     min_value = Some (Fin 0), max_value = Some (Fin 100),
     regex_patterns = [
       Sequ [Opt (Alt [Sequ [Lit ''minimum'', WS_Plus], Sequ [Lit ''mandatory'', WS_Plus],
         Sequ [Lit ''client'', WS_Plus]]), Lit ''up'', WS_Star, Lit ''front'', WS_Plus,
         Lit ''margin'', Opt (Alt [Sequ [WS_Plus, Lit ''percentage''], Sequ [WS_Plus,
         Lit ''pct''], Sequ [WS_Plus, Lit ''requirement''], Sequ [WS_Plus, Lit ''rate''],
         Sequ [WS_Plus, Lit ''collection''], Sequ [WS_Plus, Lit ''required'']])],
       Sequ [Opt (Alt [Sequ [Lit ''minimum'', WS_Plus], Sequ [Lit ''mandatory'', WS_Plus]]),
         Lit ''initial'', WS_Plus, Lit ''margin'', Opt (Alt [Sequ [WS_Plus, Lit ''requirement''],
         Sequ [WS_Plus, Lit ''percentage'']])]]\<rparr>"

definition fact_client_collateral :: CanonicalFact where
  "fact_client_collateral = \<lparr>
     fact_id = ''client_collateral'',
     display_name = ''Client Collateral'',
     data_type = CURRENCY,
     allowed_units = [
       ''%'', ''crore'', ''inr'', ''inr crore'', ''inr lakh'', ''lakh'', ''pct'', ''rs'',
       ''rs.'', ''rupees''],
     synonyms = [
       ''client collateral'', ''minimum client collateral'', ''client collateral collection'',
       ''client margin collateral'', ''collateral from clients'',
       ''client collateral requirement'', ''collateral of client'',
       ''client collateral amount'', ''minimum collateral'', ''client collateral balance'',
       ''collateral requirement'', ''client collateral deposit''],
     min_value = Some (Fin 0), max_value = None,
     regex_patterns = [
       Sequ [Opt (Alt [Sequ [Lit ''minimum'', WS_Plus], Sequ [Lit ''mandatory'', WS_Plus]]),
         Opt (Sequ [Lit ''client'', WS_Plus]), Lit ''collateral'', Opt (Alt [Sequ [WS_Plus,
         Lit ''from'', WS_Plus, Lit ''clients''], Sequ [WS_Plus, Lit ''collection''],
         Sequ [WS_Plus, Lit ''balance''], Sequ [WS_Plus, Lit ''amount''], Sequ [WS_Plus,
         Lit ''deposit'']]), Opt (Sequ [WS_Plus, Lit ''requirement''])],
       Sequ [Opt (Alt [Sequ [Lit ''minimum'', WS_Plus], Sequ [Lit ''mandatory'', WS_Plus]]),
         Lit ''collateral'', WS_Plus, Lit ''of'', WS_Plus, Lit ''client'']]\<rparr>"

definition fact_peak_margin :: CanonicalFact where
  "fact_peak_margin = \<lparr>
     fact_id = ''peak_margin'',
     display_name = ''Peak Margin'',
     data_type = PERCENTAGE,
     allowed_units = [
       ''%'', ''crore'', ''inr'', ''inr crore'', ''inr lakh'', ''lakh'', ''pct'', ''per cent'',
       ''percent'', ''percentage''],
     synonyms = [
       ''peak margin'', ''minimum peak margin'', ''peak margin requirement'',
       ''peak margin collection'', ''intraday peak margin'', ''intra day peak margin'',
       ''peak intraday margin'', ''peak margin percentage'', ''peak margin pct'',
       ''peak margin obligation'', ''peak margin collection requirement''],
     min_value = Some (Fin 0), max_value = Some (Fin 100),
     regex_patterns = [
       Sequ [Opt (Alt [Sequ [Lit ''minimum'', WS_Plus], Sequ [Lit ''mandatory'', WS_Plus]]),
         Opt (Alt [Sequ [Lit ''intraday'', WS_Plus], Sequ [Lit ''intra'', WS_Star, Lit ''day'',
         WS_Plus]]), Lit ''peak'', WS_Plus, Lit ''margin'', Opt (Alt [Sequ [WS_Plus,
         Lit ''percentage''], Sequ [WS_Plus, Lit ''pct''], Sequ [WS_Plus, Lit ''requirement''],
         Sequ [WS_Plus, Lit ''collection''], Sequ [WS_Plus, Lit ''obligation'']])]]\<rparr>"

definition fact_collateral_reporting :: CanonicalFact where
  "fact_collateral_reporting = \<lparr>
     fact_id = ''collateral_reporting'',
     display_name = ''Collateral Reporting'',
     data_type = DURATION_DAYS,
     allowed_units = [
       ''daily'', ''day'', ''days'', ''hour'', ''hours'', ''month'', ''months'', ''t+1'',
       ''t+2'', ''times''],
     synonyms = [
       ''collateral reporting'', ''client collateral reporting'', ''margin reporting'',
       ''collateral reporting frequency'', ''reporting of collateral'',
       ''collateral report cadence'', ''collateral reporting timeline'',
       ''daily collateral reporting'', ''reporting of client collateral'',
       ''margin reporting timeline'', ''collateral reporting schedule''],
     min_value = Some (Fin 0), max_value = None,
     regex_patterns = [
       Sequ [Opt (Alt [Sequ [Lit ''client'', WS_Plus], Sequ [Lit ''daily'', WS_Plus]]),
         Alt [Lit ''collateral'', Lit ''margin''], WS_Plus, Lit ''reporting'',
         Opt (Alt [Sequ [WS_Plus, Lit ''frequency''], Sequ [WS_Plus, Lit ''timeline''],
         Sequ [WS_Plus, Lit ''cadence''], Sequ [WS_Plus, Lit ''schedule'']])],
       Sequ [Lit ''reporting'', WS_Plus, Lit ''of'', WS_Plus, Opt (Sequ [Lit ''client'',
         WS_Plus]), Lit ''collateral'']]\<rparr>"

definition fact_reporting_deadline :: CanonicalFact where
  "fact_reporting_deadline = \<lparr>
     fact_id = ''reporting_deadline'',
     display_name = ''Reporting Deadline'',
     data_type = DURATION_DAYS,
     allowed_units = [
       ''day'', ''days'', ''hour'', ''hours'', ''month'', ''months'', ''week'', ''weeks''],
     synonyms = [
       ''reporting deadline'', ''deadline for reporting'', ''reporting timeline'',
       ''submission deadline'', ''compliance reporting deadline'', ''filing deadline'',
       ''reporting timeframe'', ''time limit for reporting'', ''report submission deadline'',
       ''statutory reporting deadline'', ''regulatory reporting deadline'',
       ''deadline for submission''],
     min_value = Some (Fin 0), max_value = None,
     regex_patterns = [
       Sequ [Opt (Alt [Sequ [Lit ''compliance'', WS_Plus], Sequ [Lit ''statutory'', WS_Plus],
         Sequ [Lit ''regulatory'', WS_Plus], Sequ [Lit ''report'', WS_Plus]]),
         Alt [Sequ [Lit ''reporting'', WS_Plus, Lit ''deadline''], Sequ [Lit ''filing'', WS_Plus,
         Lit ''deadline''], Sequ [Lit ''submission'', WS_Plus, Lit ''deadline'']]],
       Sequ [Alt [Lit ''deadline'', Lit ''timeline'', Lit ''timeframe''], WS_Plus, Lit ''for'',
         WS_Plus, Alt [Lit ''reporting'', Lit ''submission'', Lit ''filing'']]]\<rparr>"

definition fact_net_worth_inr_crore :: CanonicalFact where
  "fact_net_worth_inr_crore = \<lparr>
     fact_id = ''net_worth_inr_crore'',
     display_name = ''Net Worth (INR Crore)'',
     data_type = CURRENCY,
     allowed_units = [
       ''crore'', ''crores'', ''inr'', ''inr crore'', ''inr lakh'', ''lakh'', ''rs''],
     synonyms = [
       ''net worth'', ''minimum net worth'', ''net worth requirement'', ''networth'',
       ''minimum networth''],
     min_value = Some (Fin 0), max_value = None,
     regex_patterns = [
       Sequ [Opt (Sequ [Lit ''minimum'', WS_Plus]), Lit ''net'', WS_Star, Lit ''worth'',
         Opt (Sequ [WS_Plus, Lit ''requirement''])]]\<rparr>"

definition fact_settlement_window_days :: CanonicalFact where
  "fact_settlement_window_days = \<lparr>
     fact_id = ''settlement_window_days'',
     display_name = ''Settlement Window (Days)'',
     data_type = DURATION_DAYS,
     allowed_units = [
       ''day'', ''days'', ''hours''],
     synonyms = [
       ''settlement window'', ''settlement cycle'', ''settlement period'',
       ''trade settlement window''],
     min_value = Some (Fin 0), max_value = None,
     regex_patterns = [
       Sequ [Opt (Sequ [Lit ''trade'', WS_Plus]), Lit ''settlement'', WS_Plus,
         Alt [Lit ''window'', Lit ''cycle'', Lit ''period'']]]\<rparr>"

definition fact_crar_pct :: CanonicalFact where
  "fact_crar_pct = \<lparr>
     fact_id = ''crar_pct'',
     display_name = ''Capital to Risk-Weighted Assets Ratio'',
     data_type = PERCENTAGE,
     allowed_units = [
       ''%'', ''pct'', ''per cent'', ''percent''],
     synonyms = [
       ''crar'', ''capital adequacy ratio'', ''capital to risk weighted assets ratio''],
     min_value = Some (Fin 0), max_value = Some (Fin 100),
     regex_patterns = []\<rparr>"

definition fact_single_borrower_exposure_pct :: CanonicalFact where
  "fact_single_borrower_exposure_pct = \<lparr>
     fact_id = ''single_borrower_exposure_pct'',
     display_name = ''Single Borrower Exposure Percentage'',
     data_type = PERCENTAGE,
     allowed_units = [
       ''%'', ''pct'', ''per cent'', ''percent''],
     synonyms = [
       ''single borrower exposure'', ''single borrower limit'',
       ''single borrower exposure limit''],
     min_value = Some (Fin 0), max_value = Some (Fin 100),
     regex_patterns = []\<rparr>"

definition fact_solvency_ratio :: CanonicalFact where
  "fact_solvency_ratio = \<lparr>
     fact_id = ''solvency_ratio'',
     display_name = ''Solvency Ratio'',
     data_type = RATIO,
     allowed_units = [
       ''%'', ''pct'', ''ratio'', ''times''],
     synonyms = [
       ''solvency ratio'', ''solvency margin'', ''minimum solvency ratio''],
     min_value = Some (Fin 0), max_value = None,
     regex_patterns = []\<rparr>"

definition fact_equity_exposure_pct :: CanonicalFact where
  "fact_equity_exposure_pct = \<lparr>
     fact_id = ''equity_exposure_pct'',
     display_name = ''Equity Exposure Percentage'',
     data_type = PERCENTAGE,
     allowed_units = [
       ''%'', ''pct'', ''per cent'', ''percent''],
     synonyms = [
       ''equity exposure'', ''maximum equity exposure'', ''equity exposure limit''],
     min_value = Some (Fin 0), max_value = Some (Fin 100),
     regex_patterns = []\<rparr>"

definition canonical_facts :: "(string \<times> CanonicalFact) list" where
  "canonical_facts = [
     (''upfront_margin_pct'', fact_upfront_margin_pct),
     (''client_collateral'', fact_client_collateral),
     (''peak_margin'', fact_peak_margin),
     (''collateral_reporting'', fact_collateral_reporting),
     (''reporting_deadline'', fact_reporting_deadline),
     (''net_worth_inr_crore'', fact_net_worth_inr_crore),
     (''settlement_window_days'', fact_settlement_window_days),
     (''crar_pct'', fact_crar_pct),
     (''single_borrower_exposure_pct'', fact_single_borrower_exposure_pct),
     (''solvency_ratio'', fact_solvency_ratio),
     (''equity_exposure_pct'', fact_equity_exposure_pct)]"

lemmas fact_defs =
  fact_upfront_margin_pct_def
  fact_client_collateral_def
  fact_peak_margin_def
  fact_collateral_reporting_def
  fact_reporting_deadline_def
  fact_net_worth_inr_crore_def
  fact_settlement_window_days_def
  fact_crar_pct_def
  fact_single_borrower_exposure_pct_def
  fact_solvency_ratio_def
  fact_equity_exposure_pct_def

definition get_canonical_fact :: "string \<Rightarrow> CanonicalFact option" where
  "get_canonical_fact ident = map_of canonical_facts ident"

section \<open>Resolution\<close>

definition fact_matches :: "string \<Rightarrow> CanonicalFact \<Rightarrow> bool" where
  "fact_matches clean_metric cf \<longleftrightarrow>
     clean_metric \<in> set (synonyms cf) \<or> list_ex (\<lambda>r. full_match r clean_metric) (regex_patterns cf)"

definition match_fact :: "string \<Rightarrow> CanonicalFact option" where
  "match_fact metric =
     (let clean_metric = normalize_metric_text metric; metric_str = strip metric in
      case get_canonical_fact metric_str of
        Some f \<Rightarrow> Some f
      | None \<Rightarrow>
          (case get_canonical_fact clean_metric of
             Some f \<Rightarrow> Some f
           | None \<Rightarrow> find (fact_matches clean_metric) (map snd canonical_facts)))"

definition unit_ok :: "CanonicalFact \<Rightarrow> string option \<Rightarrow> bool" where
  "unit_ok cf unit =
     (case unit of
        None \<Rightarrow> True
      | Some u \<Rightarrow>
          strip u = [] \<or> normalize_unit u \<in> set (allowed_units cf)
          \<or> py_lower (strip u) \<in> set (allowed_units cf))"

definition in_bounds :: "CanonicalFact \<Rightarrow> pyfloat option \<Rightarrow> bool" where
  "in_bounds cf v =
     (case v of
        None \<Rightarrow> True
      | Some x \<Rightarrow>
          \<not> (case min_value cf of Some lo \<Rightarrow> flt_less x lo | None \<Rightarrow> False)
          \<and> \<not> (case max_value cf of Some hi \<Rightarrow> flt_less hi x | None \<Rightarrow> False))"

definition resolve_canonical_fact ::
  "string \<Rightarrow> string option \<Rightarrow> pyfloat option \<Rightarrow> pyfloat option \<Rightarrow> FactResolutionResult" where
  "resolve_canonical_fact metric unit val val_upper =
     (if metric = [] \<or> strip metric = [] then
        \<lparr>fr_status = MISSING_MAPPING, canonical_identifier = None, fr_canonical_fact = None\<rparr>
      else
        case match_fact metric of
          None \<Rightarrow>
            \<lparr>fr_status = MISSING_MAPPING, canonical_identifier = None, fr_canonical_fact = None\<rparr>
        | Some cf \<Rightarrow>
            \<lparr>fr_status =
               (if \<not> unit_ok cf unit then WRONG_UNIT
                else if \<not> in_bounds cf val then WRONG_THRESHOLD
                else if \<not> in_bounds cf val_upper then WRONG_THRESHOLD
                else VALID),
             canonical_identifier = Some (fact_id cf),
             fr_canonical_fact = Some cf\<rparr>)"

section \<open>The normal form of a metric name\<close>

lemma is_space_blank [simp]: "is_space CHR '' ''"
  by (simp add: is_space_def)

lemma alnum_not_space: "is_alnum_lower c \<Longrightarrow> \<not> is_space c"
  by (auto simp: is_alnum_lower_def is_space_def Let_def)

lemma lower_alnum [simp]: "is_alnum_lower c \<Longrightarrow> lower_char c = c"
  by (auto simp: is_alnum_lower_def lower_char_def Let_def)

text \<open>Normal text: lower-case letters and digits, single blanks inside.\<close>

definition normal_char :: "char \<Rightarrow> bool" where
  "normal_char c \<longleftrightarrow> is_alnum_lower c \<or> c = CHR '' ''"

definition single_spaced :: "string \<Rightarrow> bool" where
  "single_spaced s \<longleftrightarrow> successively (\<lambda>a b. \<not> (is_space a \<and> is_space b)) s"

definition normal_text :: "string \<Rightarrow> bool" where
  "normal_text s \<longleftrightarrow> list_all normal_char s \<and> single_spaced s
     \<and> (s = [] \<or> (\<not> is_space (hd s) \<and> \<not> is_space (last s)))"

lemma sub_runs_none: "\<forall>c\<in>set s. \<not> p c \<Longrightarrow> sub_runs p rep s = s"
  by (induction s) simp_all

lemma hd_sub_runs_drop:
  "sub_runs p rep (dropWhile p s) \<noteq> [] \<Longrightarrow> \<not> p (hd (sub_runs p rep (dropWhile p s)))"
  by (induction s) (auto split: if_splits)

lemma single_spaced_sub_runs: "single_spaced (sub_runs is_space '' '' s)"
proof (induction "is_space" "'' ''" s rule: sub_runs.induct)
  case (2 c cs)
  show ?case
  proof (cases "is_space c")
    case True
    then show ?thesis
      using 2(1) [OF True] hd_sub_runs_drop [of is_space "'' ''" cs]
      by (auto simp: single_spaced_def successively_Cons)
  next
    case False
    then show ?thesis
      using 2(2) [OF False] by (auto simp: single_spaced_def successively_Cons)
  qed
qed (simp add: single_spaced_def)

lemma sub_runs_single_spaced:
  "single_spaced s \<Longrightarrow> \<forall>c\<in>set s. is_space c \<longrightarrow> c = CHR '' '' \<Longrightarrow> sub_runs is_space '' '' s = s"
proof (induction s)
  case (Cons c cs)
  have "single_spaced cs" using Cons.prems(1) by (cases cs) (auto simp: single_spaced_def)
  then have IH: "sub_runs is_space '' '' cs = cs" using Cons by simp
  have "dropWhile is_space cs = cs" if "is_space c"
    using Cons.prems(1) that by (cases cs) (auto simp: single_spaced_def)
  with IH Cons.prems(2) show ?case by auto
qed simp

lemma single_spaced_dropWhile: "single_spaced s \<Longrightarrow> single_spaced (dropWhile p s)"
  by (induction s) (auto simp: single_spaced_def successively_Cons)

lemma single_spaced_rev: "single_spaced (rev s) = single_spaced s"
  unfolding single_spaced_def successively_rev
  by (rule arg_cong [where f = "\<lambda>P. successively P s"]) (auto simp: fun_eq_iff)

lemma single_spaced_strip: "single_spaced s \<Longrightarrow> single_spaced (strip s)"
  by (simp add: py_strip_def single_spaced_dropWhile single_spaced_rev)

lemma set_strip: "set (py_strip p s) \<subseteq> set s"
  by (auto simp: py_strip_def dest!: set_dropWhileD)

lemma strip_ends:
  "py_strip p s \<noteq> [] \<Longrightarrow> \<not> p (hd (py_strip p s)) \<and> \<not> p (last (py_strip p s))"
proof -
  assume ne: "py_strip p s \<noteq> []"
  have last: "\<not> p (last (py_strip p s))"
    using ne hd_dropWhile [of p "rev (dropWhile p s)"] by (simp add: py_strip_def last_rev)
  obtain ys where ys: "dropWhile p s = py_strip p s @ ys"
    using takeWhile_dropWhile_id [of p "rev (dropWhile p s)"]
    by (metis py_strip_def rev_append rev_rev_ident)
  then have "hd (py_strip p s) = hd (dropWhile p s)" using ne by (metis hd_append2)
  moreover have "dropWhile p s \<noteq> []" using ne ys by auto
  ultimately show ?thesis using last hd_dropWhile [of p s] by metis
qed

lemma strip_id: "s = [] \<or> (\<not> p (hd s) \<and> \<not> p (last s)) \<Longrightarrow> py_strip p s = s"
proof (cases s rule: rev_cases)
  case (snoc xs x)
  assume "s = [] \<or> (\<not> p (hd s) \<and> \<not> p (last s))"
  with snoc show ?thesis by (cases xs) (auto simp: py_strip_def)
qed (simp add: py_strip_def)

lemma normal_text_normalize: "normal_text (normalize_metric_text text)"
proof (cases "text = []")
  case False
  define t1 where "t1 = replace_char CHR ''/'' CHR '' ''
    (replace_char CHR ''_'' CHR '' '' (replace_char CHR ''-'' CHR '' '' (py_lower (strip text))))"
  define t2 where "t2 = sub_runs (\<lambda>c. \<not> is_alnum_lower c \<and> \<not> is_space c) '' '' t1"
  define t3 where "t3 = sub_runs is_space '' '' t2"
  have eq: "normalize_metric_text text = strip t3"
    using False by (simp add: normalize_metric_text_def t1_def t2_def t3_def Let_def)
  have "is_alnum_lower c \<or> is_space c" if "c \<in> set t2" for c
    using that set_sub_runs unfolding t2_def by fastforce
  moreover have "c = CHR '' '' \<or> (c \<in> set t2 \<and> \<not> is_space c)" if "c \<in> set t3" for c
    using that set_sub_runs [of is_space "'' ''" t2] unfolding t3_def by auto
  ultimately have "normal_char c" if "c \<in> set t3" for c
    using that by (auto simp: normal_char_def)
  then have "list_all normal_char (strip t3)"
    using set_strip [of is_space t3] by (auto simp: list_all_iff)
  moreover have "single_spaced (strip t3)"
    unfolding t3_def by (intro single_spaced_strip single_spaced_sub_runs)
  ultimately show ?thesis
    using strip_ends [of is_space t3] by (auto simp: eq normal_text_def)
qed (simp add: normalize_metric_text_def normal_text_def single_spaced_def)

lemma normal_lower: "normal_char c \<Longrightarrow> lower_char c = c"
proof -
  have "lower_char (CHR '' '') = CHR '' ''" by (simp add: lower_char_def)
  then show "normal_char c \<Longrightarrow> lower_char c = c" by (auto simp: normal_char_def)
qed

lemma normal_char_classes:
  "normal_char c \<Longrightarrow> is_alnum_lower c \<or> is_space c"
  "normal_char c \<Longrightarrow> is_space c \<longrightarrow> c = CHR '' ''"
  using alnum_not_space by (auto simp: normal_char_def)

lemma not_normal_chars:
  "\<not> normal_char CHR ''-''" "\<not> normal_char CHR ''_''" "\<not> normal_char CHR ''/''"
  by (simp_all add: normal_char_def is_alnum_lower_def)

lemma replace_char_id: "c \<notin> set s \<Longrightarrow> replace_char c d s = s"
  by (induction s) (auto simp: replace_char_def)

lemma normalize_normal_text: "normal_text s \<Longrightarrow> normalize_metric_text s = s"
proof (cases "s = []")
  case False
  assume n: "normal_text s"
  then have ends: "strip s = s" by (intro strip_id) (auto simp: normal_text_def)
  have chars: "\<forall>c\<in>set s. normal_char c" using n by (auto simp: normal_text_def list_all_iff)
  have "py_lower s = s"
    using chars by (simp add: py_lower_def normal_lower map_idI)
  moreover have "CHR ''-'' \<notin> set s" "CHR ''_'' \<notin> set s" "CHR ''/'' \<notin> set s"
    using chars not_normal_chars by blast+
  moreover have "sub_runs (\<lambda>c. \<not> is_alnum_lower c \<and> \<not> is_space c) '' '' s = s"
    using chars normal_char_classes by (intro sub_runs_none) blast
  moreover have "sub_runs is_space '' '' s = s"
    using n chars normal_char_classes
    by (intro sub_runs_single_spaced) (simp_all add: normal_text_def)
  ultimately show ?thesis using False ends
    by (simp add: normalize_metric_text_def Let_def replace_char_id)
qed (simp add: normalize_metric_text_def)

section \<open>What resolution promises\<close>

lemma canonical_facts_keys: "list_all (\<lambda>(k, f). k = fact_id f) canonical_facts"
  by (simp add: canonical_facts_def fact_defs)

lemma get_canonical_fact_SomeD:
  "get_canonical_fact i = Some f \<Longrightarrow> fact_id f = i \<and> f \<in> snd ` set canonical_facts"
  using canonical_facts_keys by (force simp: get_canonical_fact_def list_all_iff dest: map_of_SomeD)

lemma canonical_facts_distinct: "distinct (map fst canonical_facts)"
  by (simp add: canonical_facts_def)

lemma get_canonical_fact_complete:
  "f \<in> snd ` set canonical_facts \<Longrightarrow> get_canonical_fact (fact_id f) = Some f"
  using canonical_facts_keys canonical_facts_distinct
  by (force simp: get_canonical_fact_def list_all_iff)

lemma match_fact_SomeD:
  assumes "match_fact m = Some f"
  shows "get_canonical_fact (fact_id f) = Some f"
proof (rule get_canonical_fact_complete)
  show "f \<in> snd ` set canonical_facts"
    using assms get_canonical_fact_SomeD
    by (auto simp: match_fact_def Let_def find_Some_iff set_conv_nth split: option.splits)
qed

lemma match_fact_by_id:
  assumes "match_fact m = Some f'" "fact_id f' = i" "get_canonical_fact i = Some f"
  shows "f' = f"
proof -
  have "get_canonical_fact i = Some f'"
    using match_fact_SomeD [OF assms(1)] unfolding assms(2) .
  with assms(3) show ?thesis by (metis option.inject)
qed

text \<open>
  A metric that resolves as VALID is mapped to an entry of the
  controlled vocabulary and to no invented name: the reported identifier is the
  key of the reported fact in the taxonomy, a non-blank unit is one the fact
  allows (literally or after normalisation), and neither threshold value is
  below the fact's minimum or above its maximum.
\<close>

theorem resolve_valid_sound:
  assumes "fr_status (resolve_canonical_fact m u v w) = VALID"
  shows "\<exists>i f. canonical_identifier (resolve_canonical_fact m u v w) = Some i
    \<and> fr_canonical_fact (resolve_canonical_fact m u v w) = Some f
    \<and> get_canonical_fact i = Some f \<and> fact_id f = i
    \<and> (\<forall>u'. u = Some u' \<longrightarrow> strip u' = [] \<or> normalize_unit u' \<in> set (allowed_units f)
          \<or> py_lower (strip u') \<in> set (allowed_units f))
    \<and> (\<forall>x lo. v = Some x \<or> w = Some x \<longrightarrow> min_value f = Some lo \<longrightarrow> \<not> flt_less x lo)
    \<and> (\<forall>x hi. v = Some x \<or> w = Some x \<longrightarrow> max_value f = Some hi \<longrightarrow> \<not> flt_less hi x)"
proof -
  obtain f where f: "match_fact m = Some f" and ne: "\<not> (m = [] \<or> strip m = [])"
    using assms by (auto simp: resolve_canonical_fact_def split: if_splits option.splits)
  have ok: "unit_ok f u" "in_bounds f v" "in_bounds f w"
    using assms f ne by (auto simp: resolve_canonical_fact_def split: if_splits)
  have "\<forall>u'. u = Some u' \<longrightarrow> strip u' = [] \<or> normalize_unit u' \<in> set (allowed_units f)
          \<or> py_lower (strip u') \<in> set (allowed_units f)"
    using ok(1) by (auto simp: unit_ok_def)
  moreover have "\<not> flt_less x lo" if "v = Some x \<or> w = Some x" "min_value f = Some lo" for x lo
    using ok that by (auto simp: in_bounds_def)
  moreover have "\<not> flt_less hi x" if "v = Some x \<or> w = Some x" "max_value f = Some hi" for x hi
    using ok that by (auto simp: in_bounds_def)
  ultimately show ?thesis
    using f ne match_fact_SomeD [OF f] by (simp add: resolve_canonical_fact_def)
qed

text \<open>The synonyms of one fact all reach it.\<close>

definition synonyms_match :: "CanonicalFact \<Rightarrow> bool" where
  "synonyms_match f = list_all
     (\<lambda>s. s \<noteq> [] \<and> strip s \<noteq> [] \<and> map_option fact_id (match_fact s) = Some (fact_id f)) (synonyms f)"

lemma upfront_margin_pct_match: "synonyms_match fact_upfront_margin_pct"
  by code_simp

lemma client_collateral_match: "synonyms_match fact_client_collateral"
  by code_simp

lemma peak_margin_match: "synonyms_match fact_peak_margin"
  by code_simp

lemma collateral_reporting_match: "synonyms_match fact_collateral_reporting"
  by code_simp

lemma reporting_deadline_match: "synonyms_match fact_reporting_deadline"
  by code_simp

lemma net_worth_inr_crore_match: "synonyms_match fact_net_worth_inr_crore"
  by code_simp

lemma settlement_window_days_match: "synonyms_match fact_settlement_window_days"
  by code_simp

lemma crar_pct_match: "synonyms_match fact_crar_pct"
  by code_simp

lemma single_borrower_exposure_pct_match: "synonyms_match fact_single_borrower_exposure_pct"
  by code_simp

lemma solvency_ratio_match: "synonyms_match fact_solvency_ratio"
  by code_simp

lemma equity_exposure_pct_match: "synonyms_match fact_equity_exposure_pct"
  by code_simp

lemma all_synonyms_match: "f \<in> snd ` set canonical_facts \<Longrightarrow> synonyms_match f"
  by (auto simp: canonical_facts_def
      upfront_margin_pct_match client_collateral_match peak_margin_match
      collateral_reporting_match reporting_deadline_match net_worth_inr_crore_match
      settlement_window_days_match crar_pct_match single_borrower_exposure_pct_match
      solvency_ratio_match equity_exposure_pct_match)

text \<open>
  The taxonomy is consistent with its own matching rules: every
  synonym it lists, for every fact, resolves as VALID to exactly that fact,
  although facts are tried in order and the first synonym or pattern that
  matches wins.
\<close>

theorem synonyms_resolve:
  "list_all (\<lambda>f. list_all (\<lambda>s. resolve_canonical_fact s None None None =
       \<lparr>fr_status = VALID, canonical_identifier = Some (fact_id f), fr_canonical_fact = Some f\<rparr>)
     (synonyms f)) (map snd canonical_facts)"
proof -
  have "resolve_canonical_fact s None None None =
      \<lparr>fr_status = VALID, canonical_identifier = Some (fact_id f), fr_canonical_fact = Some f\<rparr>"
    if f: "f \<in> snd ` set canonical_facts" and s: "s \<in> set (synonyms f)" for f s
  proof -
    obtain f' where f': "match_fact s = Some f'" and id: "fact_id f' = fact_id f"
      and ne: "s \<noteq> []" "strip s \<noteq> []"
      using all_synonyms_match [OF f] s by (auto simp: synonyms_match_def list_all_iff)
    have "f' = f"
      by (rule match_fact_by_id [OF f' id get_canonical_fact_complete [OF f]])
    with f' ne show ?thesis
      by (simp add: resolve_canonical_fact_def unit_ok_def in_bounds_def)
  qed
  then show ?thesis by (simp add: list_all_iff)
qed

text \<open>
  Normalisation of metric text yields a normal form: only lower-case
  ASCII letters, digits and single inner blanks survive, and normalising again
  changes nothing.
\<close>

theorem normalize_metric_text_normal_form:
  "normal_text (normalize_metric_text text)
   \<and> normalize_metric_text (normalize_metric_text text) = normalize_metric_text text"
  by (simp add: normal_text_normalize normalize_normal_text)

theorem resolve_valid_sound_witness:
  "get_canonical_fact ''upfront_margin_pct'' = Some fact_upfront_margin_pct
   \<and> fr_status (resolve_canonical_fact ''Up-Front  Margin'' (Some ''PCT'') (Some (Fin 20)) None) = VALID
   \<and> canonical_identifier (resolve_canonical_fact ''Up-Front  Margin'' (Some ''PCT'') (Some (Fin 20)) None)
       = Some ''upfront_margin_pct''"
proof -
  let ?r = "resolve_canonical_fact ''Up-Front  Margin'' (Some ''PCT'') (Some (Fin 20)) None"
  have id: "map_option fact_id (match_fact ''Up-Front  Margin'') = Some ''upfront_margin_pct''"
    by code_simp
  have table: "get_canonical_fact ''upfront_margin_pct'' = Some fact_upfront_margin_pct"
    by (simp add: get_canonical_fact_def canonical_facts_def)
  have match: "match_fact ''Up-Front  Margin'' = Some fact_upfront_margin_pct"
    using id match_fact_by_id [OF _ _ table] by (cases "match_fact ''Up-Front  Margin''") auto
  have "strip ''Up-Front  Margin'' \<noteq> []" by code_simp
  moreover have "normalize_unit ''PCT'' = ''%''" by code_simp
  ultimately have r: "fr_status ?r = VALID" "canonical_identifier ?r = Some ''upfront_margin_pct''"
    using match by (simp_all add: resolve_canonical_fact_def unit_ok_def in_bounds_def
        fact_upfront_margin_pct_def)
  from resolve_valid_sound [OF r(1)] r table show ?thesis by auto
qed

end
