(* ===== verification/Taxonomy.thy ===== *)
theory Taxonomy
  imports Py_Text
begin

text \<open>
  \<open>app/regulatory/taxonomy.py\<close>: the regulators, their document types, entity
  types and Rego domains, the document-type match on the head of a document and
  \<open>resolve_domain\<close>, which picks the namespace segment a policy is published
  under. The document-number patterns, the source-tag patterns and the prompt
  text of a profile are not modelled, nor is the detection that uses them.
\<close>

section \<open>Data\<close>

datatype Regulator = SEBI | RBI | IRDAI | PFRDA

fun regulator_value :: "Regulator \<Rightarrow> string" where
  "regulator_value SEBI = ''sebi''"
| "regulator_value RBI = ''rbi''"
| "regulator_value IRDAI = ''irdai''"
| "regulator_value PFRDA = ''pfrda''"

datatype DocumentType =
    CIRCULAR | MASTER_CIRCULAR | NOTIFICATION | GAZETTE_NOTIFICATION | MASTER_DIRECTION
  | GUIDELINE | REGULATION | DIRECTION | FAQ

fun document_type_value :: "DocumentType \<Rightarrow> string" where
  "document_type_value CIRCULAR = ''circular''"
| "document_type_value MASTER_CIRCULAR = ''master_circular''"
| "document_type_value NOTIFICATION = ''notification''"
| "document_type_value GAZETTE_NOTIFICATION = ''gazette_notification''"
| "document_type_value MASTER_DIRECTION = ''master_direction''"
| "document_type_value GUIDELINE = ''guideline''"
| "document_type_value REGULATION = ''regulation''"
| "document_type_value DIRECTION = ''direction''"
| "document_type_value FAQ = ''faq''"

record RegulatorProfile =
  rp_regulator :: Regulator
  rp_display_name :: string
  opa_namespace :: string
  document_types :: "DocumentType list"
  entity_types :: "string list"
  domains :: "string list"
  default_domain :: string

definition regulator_profile ::
  "Regulator \<Rightarrow> string \<Rightarrow> DocumentType list \<Rightarrow> string list \<Rightarrow> string list \<Rightarrow> string \<Rightarrow> RegulatorProfile" where
  "regulator_profile reg name docs ents doms def =
     \<lparr>rp_regulator = reg, rp_display_name = name, opa_namespace = regulator_value reg,
      document_types = docs, entity_types = ents, domains = doms, default_domain = def\<rparr>"

fun REGULATOR_PROFILES :: "Regulator \<Rightarrow> RegulatorProfile" where
  "REGULATOR_PROFILES SEBI = regulator_profile SEBI ''Securities and Exchange Board of India''
     [CIRCULAR, MASTER_CIRCULAR, GUIDELINE, REGULATION]
     [''Stockbroker'', ''InvestmentAdviser'', ''PortfolioManager'', ''DepositoryParticipant'',
      ''AssetManagementCompany'', ''MutualFund'', ''ResearchAnalyst'']
     [''broking'', ''amc'', ''depository'', ''portfolio_management'', ''research'']
     ''broking''"
| "REGULATOR_PROFILES RBI = regulator_profile RBI ''Reserve Bank of India''
     [MASTER_DIRECTION, CIRCULAR, NOTIFICATION, GUIDELINE]
     [''ScheduledCommercialBank'', ''NBFC'', ''PaymentBank'', ''SmallFinanceBank'',
      ''CooperativeBank'', ''PrimaryDealer'', ''PaymentSystemOperator'']
     [''banking'', ''nbfc'', ''lending'', ''payments'', ''cooperative_banking'']
     ''banking''"
| "REGULATOR_PROFILES IRDAI = regulator_profile IRDAI
     ''Insurance Regulatory and Development Authority of India''
     [REGULATION, CIRCULAR, GUIDELINE, NOTIFICATION]
     [''LifeInsurer'', ''GeneralInsurer'', ''HealthInsurer'', ''Reinsurer'',
      ''InsuranceIntermediary'', ''TPA'', ''InsuranceBroker'']
     [''underwriting'', ''distribution'', ''claims'', ''solvency'', ''reinsurance'']
     ''underwriting''"
| "REGULATOR_PROFILES PFRDA = regulator_profile PFRDA
     ''Pension Fund Regulatory and Development Authority''
     [CIRCULAR, GUIDELINE, REGULATION, MASTER_DIRECTION]
     [''PensionFundManager'', ''PointOfPresence'', ''CentralRecordkeepingAgency'', ''NPSTrust'',
      ''Custodian'']
     [''pension'']
     ''pension''"

section \<open>Document type and domain\<close>

definition match_document :: "RegulatorProfile \<Rightarrow> string \<Rightarrow> DocumentType" where
  "match_document profile head_text =
     (let lowered = py_lower head_text in
      case find (\<lambda>d. substring (replace_char CHR ''_'' CHR '' '' (document_type_value d)) lowered)
             (document_types profile) of
        Some d \<Rightarrow> d
      | None \<Rightarrow> hd (document_types profile))"

definition entity_domain_hints :: "(string \<times> string) list" where
  "entity_domain_hints = [
     (''Stockbroker'', ''broking''), (''DepositoryParticipant'', ''depository''),
     (''AssetManagementCompany'', ''amc''), (''MutualFund'', ''amc''),
     (''PortfolioManager'', ''portfolio_management''), (''ResearchAnalyst'', ''research''),
     (''ScheduledCommercialBank'', ''banking''), (''CooperativeBank'', ''cooperative_banking''),
     (''SmallFinanceBank'', ''banking''), (''PaymentBank'', ''payments''), (''NBFC'', ''nbfc''),
     (''PaymentSystemOperator'', ''payments''), (''PrimaryDealer'', ''banking''),
     (''LifeInsurer'', ''underwriting''), (''GeneralInsurer'', ''underwriting''),
     (''HealthInsurer'', ''underwriting''), (''Reinsurer'', ''reinsurance''),
     (''InsuranceIntermediary'', ''distribution''), (''InsuranceBroker'', ''distribution''),
     (''TPA'', ''claims''), (''PensionFundManager'', ''pension''), (''PointOfPresence'', ''pension''),
     (''CentralRecordkeepingAgency'', ''pension''), (''NPSTrust'', ''pension''),
     (''Custodian'', ''pension'')]"

definition resolve_domain :: "Regulator \<Rightarrow> string option \<Rightarrow> string" where
  "resolve_domain regulator entity_type =
     (let profile = REGULATOR_PROFILES regulator in
      if \<not> truthy_str entity_type then default_domain profile
      else
        case map_of entity_domain_hints (the entity_type) of
          None \<Rightarrow> default_domain profile
        | Some domain \<Rightarrow>
            if domain \<noteq> [] \<and> domain \<in> set (domains profile) then domain else default_domain profile)"

section \<open>What the taxonomy promises\<close>

lemma default_domain_listed: "default_domain (REGULATOR_PROFILES r) \<in> set (domains (REGULATOR_PROFILES r))"
  by (cases r) (simp_all add: regulator_profile_def)

lemma resolve_domain_listed: "resolve_domain r e \<in> set (domains (REGULATOR_PROFILES r))"
  by (auto simp: resolve_domain_def Let_def default_domain_listed split: option.splits)

lemma domains_disjoint:
  "r \<noteq> r' \<Longrightarrow> set (domains (REGULATOR_PROFILES r)) \<inter> set (domains (REGULATOR_PROFILES r')) = {}"
  by (cases r; cases r') (simp_all add: regulator_profile_def)

text \<open>
  Every policy is published under a namespace segment of its own
  regulator: for every entity type, known or not, \<open>resolve_domain\<close> returns a
  domain listed in that regulator's profile, and no other regulator lists it.
\<close>

theorem resolve_domain_own_namespace:
  "resolve_domain r e \<in> set (domains (REGULATOR_PROFILES r))
   \<and> (r' = r \<or> resolve_domain r e \<notin> set (domains (REGULATOR_PROFILES r')))"
  using resolve_domain_listed [of r e] domains_disjoint [of r r'] by auto

lemma match_document_listed: "match_document (REGULATOR_PROFILES r) s \<in> set (document_types (REGULATOR_PROFILES r))"
proof -
  have "document_types (REGULATOR_PROFILES r) \<noteq> []"
    by (cases r) (simp_all add: regulator_profile_def)
  then show ?thesis
    by (auto simp: match_document_def Let_def find_Some_iff set_conv_nth split: option.splits)
       (metis hd_conv_nth length_greater_0_conv)
qed

end
