(* ===== verification/Py_Json.thy ===== *)
theory Py_Json
  imports Py_Value
begin

text \<open>
  Python's \<open>json.dumps\<close>, as the program calls it: \<open>ensure_ascii\<close> string
  escaping, \<open>sort_keys\<close>, the item and key separators, the \<open>TypeError\<close> on an
  object outside JSON and the \<open>ValueError\<close> that \<open>allow_nan=False\<close> raises on a
  non-finite float. The text of a finite float, \<open>float.__repr__\<close>, is the
  parameter \<open>frepr\<close>; \<open>float_repr_ok\<close> states what Python documents of it. The
  main lemma: compact JSON text with sorted keys determines the value, up to
  the order of dict items.
\<close>

section \<open>Prefix codes\<close>

text \<open>
  A code whose words are never a proper prefix of one another: a word can be
  read off the front of a text.
\<close>

locale prefix_code =
  fixes word_of :: "'a \<Rightarrow> string" and stop :: char
  assumes prefix_free: "word_of a @ x = word_of b @ y \<Longrightarrow> a = b \<and> x = y"
    and never_stop: "\<exists>c w. word_of a = c # w \<and> c \<noteq> stop"
begin

lemma stop_not_word: "stop # x \<noteq> word_of a @ y" "word_of a @ y \<noteq> stop # x"
  using never_stop [of a] by auto

lemma terminated_inject:
  "concat (map word_of xs) @ stop # x = concat (map word_of ys) @ stop # y \<Longrightarrow> xs = ys \<and> x = y"
proof (induction xs arbitrary: ys)
  case Nil
  then show ?case by (cases ys) (auto simp: stop_not_word)
next
  case (Cons a xs)
  show ?case
  proof (cases ys)
    case Nil
    with Cons.prems show ?thesis by (simp add: stop_not_word)
  next
    case (Cons b ys')
    with Cons.prems have "word_of a @ (concat (map word_of xs) @ stop # x) =
        word_of b @ (concat (map word_of ys') @ stop # y)" by simp
    from prefix_free [OF this] Cons.IH Cons show ?thesis by auto
  qed
qed

end

section \<open>Strings\<close>

abbreviation quote :: char where "quote \<equiv> CHR 0x22"
abbreviation backslash :: char where "backslash \<equiv> CHR 0x5C"

definition hex_digit :: "nat \<Rightarrow> char" where
  "hex_digit n = (if n < 10 then char_of (48 + n) else char_of (87 + n))"

definition esc_char :: "char \<Rightarrow> string" where
  "esc_char c =
     (let n = code c in
      if c = quote then [backslash, quote]
      else if c = backslash then [backslash, backslash]
      else if n = 10 then [backslash, CHR ''n'']
      else if n = 13 then [backslash, CHR ''r'']
      else if n = 9 then [backslash, CHR ''t'']
      else if n = 12 then [backslash, CHR ''f'']
      else if n = 8 then [backslash, CHR ''b'']
      else if 32 \<le> n \<and> n \<le> 126 then [c]
      else [backslash, CHR ''u'', CHR ''0'', CHR ''0'', hex_digit (n div 16), hex_digit (n mod 16)])"

definition json_str :: "string \<Rightarrow> string" where
  "json_str s = quote # concat (map esc_char s) @ [quote]"

text \<open>Reading one escaped character back.\<close>

definition hex_val :: "char \<Rightarrow> nat" where
  "hex_val c = (if code c < 58 then code c - 48 else code c - 87)"

lemma hex_val_digit: "n < 16 \<Longrightarrow> hex_val (hex_digit n) = n"
  by (simp add: hex_val_def hex_digit_def of_char_of)

fun unesc :: "string \<Rightarrow> (char \<times> string) option" where
  "unesc (c # d # s) =
     (if c \<noteq> backslash then Some (c, d # s)
      else if d = CHR ''n'' then Some (char_of (10::nat), s)
      else if d = CHR ''r'' then Some (char_of (13::nat), s)
      else if d = CHR ''t'' then Some (char_of (9::nat), s)
      else if d = CHR ''f'' then Some (char_of (12::nat), s)
      else if d = CHR ''b'' then Some (char_of (8::nat), s)
      else if d = CHR ''u'' then
        (case s of a # b # h # l # r \<Rightarrow> Some (char_of (hex_val h * 16 + hex_val l), r) | _ \<Rightarrow> None)
      else Some (d, s))"
| "unesc [c] = Some (c, [])"
| "unesc [] = None"

lemma char_of_codeI: "code c = n \<Longrightarrow> char_of n = c"
  by auto

lemma unesc_esc: "unesc (esc_char c @ x) = Some (c, x)"
proof -
  consider (spec) "c = quote \<or> c = backslash \<or> code c \<in> {8, 9, 10, 12, 13}"
    | (plain) "c \<noteq> quote" "c \<noteq> backslash" "32 \<le> code c" "code c \<le> 126"
    | (hex) "c \<noteq> quote" "c \<noteq> backslash" "code c \<notin> {8, 9, 10, 12, 13}" "code c < 32 \<or> 126 < code c"
    by force
  then show ?thesis
  proof cases
    case spec
    then show ?thesis by (auto simp: esc_char_def intro: char_of_codeI)
  next
    case plain
    then have "esc_char c = [c]" by (simp add: esc_char_def Let_def)
    with plain show ?thesis by (cases x) simp_all
  next
    case hex
    have "code c div 16 < 16" by (rule less_mult_imp_div_less) simp
    then have "hex_val (hex_digit (code c div 16)) = code c div 16"
      "hex_val (hex_digit (code c mod 16)) = code c mod 16"
      by (simp_all add: hex_val_digit)
    moreover have "esc_char c = [backslash, CHR ''u'', CHR ''0'', CHR ''0'',
        hex_digit (code c div 16), hex_digit (code c mod 16)]"
      using hex by (auto simp: esc_char_def Let_def)
    ultimately show ?thesis by simp
  qed
qed

lemma esc_char_stop: "\<exists>d w. esc_char c = d # w \<and> d \<noteq> quote"
  by (simp add: esc_char_def Let_def)

interpretation esc: prefix_code esc_char quote
proof
  show "a = b \<and> x = y" if "esc_char a @ x = esc_char b @ y" for a b x y
    using that by (metis Pair_inject option.inject unesc_esc)
  show "\<exists>d w. esc_char a = d # w \<and> d \<noteq> quote" for a
    by (rule esc_char_stop)
qed

lemma json_str_inject: "json_str s @ x = json_str t @ y \<Longrightarrow> s = t \<and> x = y"
  by (rule esc.terminated_inject) (simp add: json_str_def)

section \<open>Values\<close>

definition float_str :: "(rat \<Rightarrow> string) \<Rightarrow> string \<times> string \<times> string \<Rightarrow> pyfloat \<Rightarrow> string" where
  "float_str frepr spec f =
     (case f of Fin q \<Rightarrow> frepr q | NaN \<Rightarrow> fst spec | PInf \<Rightarrow> fst (snd spec) | NInf \<Rightarrow> snd (snd spec))"

text \<open>\<open>repr(float)\<close> and the spelling of floats in JSON.\<close>

definition py_float_str :: "(rat \<Rightarrow> string) \<Rightarrow> pyfloat \<Rightarrow> string" where
  "py_float_str frepr = float_str frepr (''nan'', ''inf'', ''-inf'')"

definition json_float :: "(rat \<Rightarrow> string) \<Rightarrow> pyfloat \<Rightarrow> string" where
  "json_float frepr = float_str frepr (''NaN'', ''Infinity'', ''-Infinity'')"

fun json_enc :: "(rat \<Rightarrow> string) \<Rightarrow> string \<Rightarrow> string \<Rightarrow> pyval \<Rightarrow> string" where
  "json_enc fr isep ksep PNone = ''null''"
| "json_enc fr isep ksep (PBool b) = (if b then ''true'' else ''false'')"
| "json_enc fr isep ksep (PInt i) = int_str i"
| "json_enc fr isep ksep (PFloat f) = json_float fr f"
| "json_enc fr isep ksep (PStr s) = json_str s"
| "json_enc fr isep ksep (PList xs) =
     ''['' @ join isep (map (json_enc fr isep ksep) xs) @ '']''"
| "json_enc fr isep ksep (PDict d) =
     ''{'' @ join isep (map (\<lambda>(k, v). json_str k @ ksep @ json_enc fr isep ksep v) d) @ ''}''"
| "json_enc fr isep ksep (POther t) = []"

text \<open>\<open>sort_keys=True\<close>, at every depth.\<close>

fun sort_keys :: "pyval \<Rightarrow> pyval" where
  "sort_keys (PList xs) = PList (map sort_keys xs)"
| "sort_keys (PDict d) = PDict (sort_key fst (map (\<lambda>(k, v). (k, sort_keys v)) d))"
| "sort_keys v = v"

text \<open>The first thing the encoder cannot serialise, in the order it visits.\<close>

fun json_error :: "bool \<Rightarrow> pyval \<Rightarrow> exc option"
  and json_error_list :: "bool \<Rightarrow> pyval list \<Rightarrow> exc option"
  and json_error_items :: "bool \<Rightarrow> (string \<times> pyval) list \<Rightarrow> exc option" where
  "json_error allow_nan (PFloat f) =
     (if allow_nan \<or> flt_finite f then None
      else Some (ValueError ''Out of range float values are not JSON compliant''))"
| "json_error allow_nan (PList xs) = json_error_list allow_nan xs"
| "json_error allow_nan (PDict d) = json_error_items allow_nan d"
| "json_error allow_nan (POther t) = Some TypeError"
| "json_error allow_nan v = None"
| "json_error_list allow_nan [] = None"
| "json_error_list allow_nan (x # xs) =
     (case json_error allow_nan x of Some e \<Rightarrow> Some e | None \<Rightarrow> json_error_list allow_nan xs)"
| "json_error_items allow_nan [] = None"
| "json_error_items allow_nan ((k, v) # d) =
     (case json_error allow_nan v of Some e \<Rightarrow> Some e | None \<Rightarrow> json_error_items allow_nan d)"

definition json_dumps :: "(rat \<Rightarrow> string) \<Rightarrow> bool \<Rightarrow> string \<Rightarrow> string \<Rightarrow> bool \<Rightarrow> pyval \<Rightarrow> string result" where
  "json_dumps fr sorted_keys isep ksep allow_nan v =
     (let w = (if sorted_keys then sort_keys v else v) in
      case json_error allow_nan w of Some e \<Rightarrow> raise e | None \<Rightarrow> Inr (json_enc fr isep ksep w))"

definition json_dumps_canonical :: "(rat \<Rightarrow> string) \<Rightarrow> pyval \<Rightarrow> string result" where
  "json_dumps_canonical fr v = json_dumps fr True '','' '':'' True v"

section \<open>The text determines the value\<close>

text \<open>What \<open>float.__repr__\<close> promises: distinct finite floats have distinct texts, made of
  the characters of a decimal literal and never that of an integer.\<close>

definition is_num_char :: "char \<Rightarrow> bool" where
  "is_num_char c \<longleftrightarrow> is_digit c \<or> c \<in> set ''+-.e''"

definition float_repr_ok :: "(rat \<Rightarrow> string) \<Rightarrow> bool" where
  "float_repr_ok fr \<longleftrightarrow> inj fr \<and>
     (\<forall>q. list_all is_num_char (fr q) \<and> (CHR ''.'' \<in> set (fr q) \<or> CHR ''e'' \<in> set (fr q)))"

fun json_able :: "pyval \<Rightarrow> bool" where
  "json_able (PList xs) = list_all json_able xs"
| "json_able (PDict d) = list_all (\<lambda>(k, v). json_able v) d"
| "json_able (POther t) = False"
| "json_able v = True"

fun is_scalar :: "pyval \<Rightarrow> bool" where
  "is_scalar (PStr s) = False"
| "is_scalar (PList xs) = False"
| "is_scalar (PDict d) = False"
| "is_scalar (POther t) = False"
| "is_scalar v = True"

definition token_char :: "char \<Rightarrow> bool" where
  "token_char c \<longleftrightarrow> is_num_char c \<or> c \<in> set ''nultrefasNIity''"

text \<open>The text after a value: nothing, or a closing or separating character.\<close>

definition delimited :: "string \<Rightarrow> bool" where
  "delimited x \<longleftrightarrow> (case x of [] \<Rightarrow> True | c # _ \<Rightarrow> c \<in> set '',]}'')"

lemma delimited_simps [simp]:
  "delimited []" "delimited (CHR '','' # x)" "delimited (CHR '']'' # x)" "delimited (CHR ''}'' # x)"
  by (simp_all add: delimited_def)

lemma not_token_delims: "c \<in> set '',]}[{'' \<or> c = quote \<Longrightarrow> \<not> token_char c"
  by (auto simp: token_char_def is_num_char_def is_digit_def)

lemma delimited_not_token: "delimited x \<Longrightarrow> takeWhile token_char x = []"
  using not_token_delims by (cases x) (auto simp: delimited_def)

abbreviation enc :: "(rat \<Rightarrow> string) \<Rightarrow> pyval \<Rightarrow> string" where
  "enc fr v \<equiv> json_enc fr '','' '':'' v"

lemma int_str_num: "list_all is_num_char (int_str i)"
  by (auto simp: list_all_iff is_num_char_def dest!: int_str_chars)

lemma num_token: "list_all is_num_char s \<Longrightarrow> list_all token_char s"
  by (auto simp: list_all_iff token_char_def)

lemma scalar_token:
  "float_repr_ok fr \<Longrightarrow> is_scalar v \<Longrightarrow> list_all token_char (enc fr v)"
  by (cases v; simp add: num_token int_str_num)
     (auto simp: json_float_def float_str_def float_repr_ok_def token_char_def is_num_char_def
        is_digit_def num_token split: pyfloat.splits)

definition constants :: "pyval set" where
  "constants = {PNone, PBool True, PBool False, PFloat NaN, PFloat PInf, PFloat NInf}"

lemma scalar_cases:
  "is_scalar v \<Longrightarrow> (\<exists>i. v = PInt i) \<or> (\<exists>q. v = PFloat (Fin q))
     \<or> (v \<in> constants \<and> enc fr v \<in> {''null'', ''true'', ''false'', ''NaN'', ''Infinity'', ''-Infinity''})"
proof (cases v)
  case (PFloat f)
  then show ?thesis by (cases f) (simp_all add: constants_def json_float_def float_str_def)
qed (simp_all add: constants_def)

lemma constants_inject: "v \<in> constants \<Longrightarrow> enc fr v = enc fr w \<Longrightarrow> w \<in> constants \<Longrightarrow> v = w"
  unfolding constants_def
  by (elim insertE emptyE; simp add: json_float_def float_str_def)

lemma scalar_inject:
  assumes "float_repr_ok fr" "is_scalar v" "is_scalar w" "enc fr v = enc fr w"
  shows "v = w"
proof -
  let ?W = "{''null'', ''true'', ''false'', ''NaN'', ''Infinity'', ''-Infinity''}"
  have int_no_dot: "CHR ''.'' \<notin> set (int_str i)" "CHR ''e'' \<notin> set (int_str i)" for i
    by (auto dest!: int_str_chars simp: is_digit_def)
  have float_not_int: "int_str i \<noteq> fr q" for i q
    using assms(1) int_no_dot [of i] by (metis float_repr_ok_def)
  have fin: "list_all is_num_char (fr q)" and inj: "inj fr" for q
    using assms(1) by (simp_all add: float_repr_ok_def)
  have word: "\<not> list_all is_num_char w" if "w \<in> ?W" for w
    using that by (auto simp: is_num_char_def is_digit_def)
  consider i where "v = PInt i" | q where "v = PFloat (Fin q)" | "v \<in> constants" "enc fr v \<in> ?W"
    using scalar_cases [OF assms(2)] by blast
  then show ?thesis
  proof cases
    case (1 i)
    with assms(3,4) show ?thesis
      using scalar_cases [OF assms(3), of fr] float_not_int word int_str_num [of i]
      by (auto simp: json_float_def float_str_def)
  next
    case (2 q)
    with assms(3,4) show ?thesis
      using scalar_cases [OF assms(3), of fr] float_not_int [symmetric] word fin [of q] inj
      by (auto simp: json_float_def float_str_def inj_eq)
  next
    case 3
    with word have "\<not> list_all is_num_char (enc fr w)" using assms(4) by metis
    then have "w \<in> constants"
      using scalar_cases [OF assms(3), of fr] fin int_str_num
      by (auto simp: json_float_def float_str_def)
    with 3(1) assms(4) show ?thesis by (rule constants_inject)
  qed
qed

lemma token_split:
  assumes "list_all token_char s" "list_all token_char t" "delimited x" "delimited y" "s @ x = t @ y"
  shows "s = t \<and> x = y"
proof -
  have "takeWhile token_char (s @ x) = s" "takeWhile token_char (t @ y) = t"
    using assms(1-4) delimited_not_token by (simp_all add: list_all_iff takeWhile_append)
  with assms(5) show ?thesis by (metis append_same_eq same_append_eq)
qed

text \<open>Items between separators, up to the closing bracket.\<close>

definition readable :: "('a \<Rightarrow> string) \<Rightarrow> 'a \<Rightarrow> 'a set \<Rightarrow> bool" where
  "readable e a B \<longleftrightarrow> (\<forall>b\<in>B. \<forall>x y. delimited x \<longrightarrow> delimited y \<longrightarrow> e a @ x = e b @ y \<longrightarrow> a = b \<and> x = y)"

definition opens :: "char \<Rightarrow> string \<Rightarrow> bool" where
  "opens cl s \<longleftrightarrow> (\<exists>c r. s = c # r \<and> c \<noteq> cl)"

lemma join_tail: "join sep (s # ts) = s @ (if ts = [] then [] else sep @ join sep ts)"
  by (cases ts) simp_all

lemma join_inject:
  assumes cl: "cl = CHR '']'' \<or> cl = CHR ''}''"
  shows "\<forall>a\<in>set as. readable e a (set bs) \<Longrightarrow> \<forall>a\<in>set as \<union> set bs. opens cl (e a) \<Longrightarrow>
    join '','' (map e as) @ cl # x = join '','' (map e bs) @ cl # y \<Longrightarrow> as = bs \<and> x = y"
proof (induction as arbitrary: bs)
  case Nil
  then show ?case by (cases bs) (auto simp: opens_def join_tail)
next
  case (Cons a as)
  show ?case
  proof (cases bs)
    case Nil
    with Cons.prems show ?thesis by (auto simp: opens_def join_tail)
  next
    case (Cons b bs')
    let ?rest = "\<lambda>cs z. (if cs = [] then cl # z else CHR '','' # join '','' (map e cs) @ cl # z)"
    have "e a @ ?rest as x = e b @ ?rest bs' y"
      using Cons.prems(3) Cons by (simp add: join_tail split: if_splits)
    moreover have "delimited (?rest as x)" "delimited (?rest bs' y)"
      using cl by auto
    ultimately have ab: "a = b" "?rest as x = ?rest bs' y"
      using Cons.prems(1) Cons by (auto simp: readable_def)
    then have "as = bs' \<and> x = y"
    proof (cases "as = [] \<or> bs' = []")
      case True
      then show ?thesis using ab(2) cl by (auto split: if_splits)
    next
      case False
      then have "join '','' (map e as) @ cl # x = join '','' (map e bs') @ cl # y"
        using ab(2) by simp
      moreover have "\<forall>a\<in>set as. readable e a (set bs')"
        using Cons.prems(1) Cons by (auto simp: readable_def)
      ultimately show ?thesis using Cons.IH Cons.prems(2) Cons by auto
    qed
    with ab(1) Cons show ?thesis by simp
  qed
qed

lemma token_first: "list_all token_char s \<Longrightarrow> s \<noteq> [] \<Longrightarrow> \<exists>c r. s = c # r \<and> token_char c"
  by (cases s) auto

lemma int_str_nonempty [simp]: "int_str i \<noteq> []"
  by (simp add: int_str_def)

lemma float_repr_nonempty: "float_repr_ok fr \<Longrightarrow> fr q \<noteq> []"
  unfolding float_repr_ok_def by (metis empty_iff list.set(1))

lemma scalar_nonempty: "float_repr_ok fr \<Longrightarrow> is_scalar v \<Longrightarrow> enc fr v \<noteq> []"
  using scalar_cases [of v fr] float_repr_nonempty [of fr]
  by (auto simp: json_float_def float_str_def)

lemma enc_shape:
  assumes "float_repr_ok fr" "json_able v"
  shows "\<exists>c r. enc fr v = c # r \<and>
    (if is_scalar v then token_char c
     else (case v of PStr _ \<Rightarrow> c = quote | PList _ \<Rightarrow> c = CHR ''['' | _ \<Rightarrow> c = CHR ''{''))"
proof (cases "is_scalar v")
  case True
  with token_first [OF scalar_token [OF assms(1) True] scalar_nonempty [OF assms(1) True]]
  show ?thesis by auto
next
  case False
  then show ?thesis using assms(2) by (cases v) (simp_all add: json_str_def)
qed

lemma enc_opens: "float_repr_ok fr \<Longrightarrow> json_able v \<Longrightarrow> cl = CHR '']'' \<or> cl = CHR ''}'' \<Longrightarrow> opens cl (enc fr v)"
  using enc_shape [of fr v] not_token_delims [of cl]
  by (cases v) (auto simp: opens_def)

lemma enc_kind:
  assumes "float_repr_ok fr" "json_able v" "json_able w" "enc fr v @ x = enc fr w @ y"
  shows "(is_scalar v \<and> is_scalar w) \<or> (\<exists>s t. v = PStr s \<and> w = PStr t)
    \<or> (\<exists>xs ys. v = PList xs \<and> w = PList ys) \<or> (\<exists>d e. v = PDict d \<and> w = PDict e)"
proof -
  obtain c r c' r' where
    "enc fr v = c # r" "if is_scalar v then token_char c
     else (case v of PStr _ \<Rightarrow> c = quote | PList _ \<Rightarrow> c = CHR ''['' | _ \<Rightarrow> c = CHR ''{'')"
    "enc fr w = c' # r'" "if is_scalar w then token_char c'
     else (case w of PStr _ \<Rightarrow> c' = quote | PList _ \<Rightarrow> c' = CHR ''['' | _ \<Rightarrow> c' = CHR ''{'')"
    using enc_shape [OF assms(1,2)] enc_shape [OF assms(1,3)] by blast
  moreover have "\<not> token_char quote" "\<not> token_char CHR ''[''" "\<not> token_char CHR ''{''"
    using not_token_delims by simp_all
  ultimately show ?thesis
    using assms(2-4) by (cases v; cases w) auto
qed

lemma enc_inject:
  assumes ok: "float_repr_ok fr"
  shows "json_able v \<Longrightarrow> json_able w \<Longrightarrow> delimited x \<Longrightarrow> delimited y \<Longrightarrow>
    enc fr v @ x = enc fr w @ y \<Longrightarrow> v = w \<and> x = y"
proof (induction v arbitrary: w x y)
  case (PStr s)
  then obtain t where "w = PStr t" using enc_kind [OF ok PStr.prems(1,2,5)] by auto
  with PStr.prems(5) show ?case by (auto dest: json_str_inject)
next
  case (PList xs)
  then obtain ys where w: "w = PList ys" using enc_kind [OF ok PList.prems(1,2,5)] by auto
  have "readable (enc fr) a (set ys)" if "a \<in> set xs" for a
    using PList.IH [OF that] PList.prems(1,2) that w by (auto simp: readable_def list_all_iff)
  moreover have "opens (CHR '']'') (enc fr a)" if "a \<in> set xs \<union> set ys" for a
    using enc_opens [OF ok] PList.prems(1,2) that w by (auto simp: list_all_iff)
  ultimately have "xs = ys \<and> x = y"
    using join_inject [of "CHR '']''" xs "enc fr" ys x y] PList.prems(5) w by simp
  with w show ?case by simp
next
  case (PDict d)
  then obtain e where w: "w = PDict e" using enc_kind [OF ok PDict.prems(1,2,5)] by auto
  let ?item = "\<lambda>(k, v). json_str k @ '':'' @ enc fr v"
  have "readable ?item p (set e)" if p: "p \<in> set d" for p
  proof -
    have "p = q \<and> x = y" if q: "q \<in> set e" and xy: "delimited x" "delimited y" "?item p @ x = ?item q @ y" for q x y
    proof -
      obtain k v l u where pq: "p = (k, v)" "q = (l, u)" by force
      with xy(3) have "json_str k @ (CHR '':'' # enc fr v @ x) = json_str l @ (CHR '':'' # enc fr u @ y)" by simp
      from json_str_inject [OF this] have kl: "k = l" and vu: "enc fr v @ x = enc fr u @ y" by simp_all
      have "json_able v" "json_able u"
        using PDict.prems(1,2) p q pq w by (auto simp: list_all_iff)
      with PDict.IH [of p v u x y] p pq xy(1,2) vu have "v = u \<and> x = y" by auto
      with kl pq show ?thesis by simp
    qed
    then show ?thesis unfolding readable_def by blast
  qed
  moreover have "opens (CHR ''}'') (?item p)" for p
    by (cases p) (simp add: opens_def json_str_def)
  ultimately have "d = e \<and> x = y"
    using join_inject [of "CHR ''}''" d ?item e x y] PDict.prems(5) w by simp
  with w show ?case by simp
next
  case (POther t)
  then show ?case by simp
qed (use ok enc_kind [OF ok] scalar_inject [OF ok] token_split scalar_token [OF ok] in
    \<open>metis is_scalar.simps\<close>)+

lemma json_error_None:
  "json_error True v = None \<longleftrightarrow> json_able v"
  "json_error_list True vs = None \<longleftrightarrow> list_all json_able vs"
  "json_error_items True d = None \<longleftrightarrow> list_all (\<lambda>(k, v). json_able v) d"
  by (induction True v and True vs and True d rule: json_error_json_error_list_json_error_items.induct)
     (auto split: option.splits)

lemma json_canonical_inject:
  assumes "float_repr_ok fr" "json_dumps_canonical fr v = Inr s" "json_dumps_canonical fr w = Inr s"
  shows "sort_keys v = sort_keys w"
proof -
  have "json_able (sort_keys v)" "json_able (sort_keys w)"
    "enc fr (sort_keys v) @ [] = enc fr (sort_keys w) @ []"
    using assms(2,3)
    by (auto simp: json_dumps_canonical_def json_dumps_def Let_def json_error_None split: option.splits)
  with enc_inject [OF assms(1), of "sort_keys v" "sort_keys w" "[]" "[]"] show ?thesis by simp
qed

text \<open>A float text with the documented properties: numerator and denominator.\<close>

definition ratio_repr :: "rat \<Rightarrow> string" where
  "ratio_repr q = int_str (fst (quotient_of q)) @ ''.'' @ int_str (snd (quotient_of q))"

lemma ratio_repr_ok: "float_repr_ok ratio_repr"
proof -
  have nodot: "CHR ''.'' \<notin> set (int_str i)" for i
    by (auto dest!: int_str_chars simp: is_digit_def)
  have "p = q" if "ratio_repr p = ratio_repr q" for p q
  proof -
    have "split_char CHR ''.'' (ratio_repr p) = [int_str (fst (quotient_of p)), int_str (snd (quotient_of p))]" for p
      using nodot by (simp add: ratio_repr_def split_char_append split_char_notin)
    with that have "quotient_of p = quotient_of q" by (metis int_str_inject list.inject prod_eqI)
    then show ?thesis by (metis quotient_of_inject)
  qed
  then have "inj ratio_repr" by (rule injI)
  moreover have "list_all is_num_char (ratio_repr q) \<and> CHR ''.'' \<in> set (ratio_repr q)" for q
    using int_str_num by (simp add: ratio_repr_def is_num_char_def)
  ultimately show ?thesis unfolding float_repr_ok_def by blast
qed

lemma json_able_sort_keys: "json_able v \<Longrightarrow> json_able (sort_keys v)"
  by (induction v rule: sort_keys.induct) (auto simp: list_all_iff)

lemma dumps_ok: "json_able v \<Longrightarrow> \<exists>s. json_dumps_canonical fr v = Inr s"
  using json_error_None(1) [of "sort_keys v"] json_able_sort_keys [of v]
  by (simp add: json_dumps_canonical_def json_dumps_def Let_def)

end
