(* ===== verification/Schemas.thy ===== *)
theory Schemas
  imports Regulatory_Facts Taxonomy Py_Json "HOL-Library.Multiset"
begin

text \<open>
  \<open>app/agents/schemas.py\<close>, the models the extraction agent, the auditor and the
  compiler exchange, with the validators Pydantic runs on construction, and
  \<open>compute_canonical_facts_digest\<close> of \<open>app/regulatory/facts.py\<close> on the
  thresholds of a rule. SHA-256 is the argument \<open>H\<close>, the text of a finite float
  the argument \<open>fr\<close>. A threshold's numbers are floats already (Pydantic
  coerces them); audit timestamps are left out.
\<close>

section \<open>Extraction output\<close>

datatype ObligationType = MANDATORY | PROHIBITED | CONDITIONAL | RECOMMENDED

fun obligation_value :: "ObligationType \<Rightarrow> string" where
  "obligation_value MANDATORY = ''mandatory''"
| "obligation_value PROHIBITED = ''prohibited''"
| "obligation_value CONDITIONAL = ''conditional''"
| "obligation_value RECOMMENDED = ''recommended''"

datatype ComparisonOperator = GTE | GT | LTE | LT | EQ | RANGE

fun operator_value :: "ComparisonOperator \<Rightarrow> string" where
  "operator_value GTE = ''>=''"
| "operator_value GT = ''>''"
| "operator_value LTE = ''<=''"
| "operator_value LT = ''<''"
| "operator_value EQ = ''==''"
| "operator_value RANGE = ''range''"

text \<open>\<open>str()\<close> of a member of a \<open>(str, Enum)\<close> class is its qualified name.\<close>

fun operator_str :: "ComparisonOperator \<Rightarrow> string" where
  "operator_str GTE = ''ComparisonOperator.GTE''"
| "operator_str GT = ''ComparisonOperator.GT''"
| "operator_str LTE = ''ComparisonOperator.LTE''"
| "operator_str LT = ''ComparisonOperator.LT''"
| "operator_str EQ = ''ComparisonOperator.EQ''"
| "operator_str RANGE = ''ComparisonOperator.RANGE''"

record TargetEntity =
  raw_text :: string
  normalized_entity :: "string option"
  te_evidence :: string

record TriggerCondition =
  tc_description :: string
  frequency :: "string option"
  tc_evidence :: string

record NumericalThreshold =
  metric :: string
  canonical_fact :: "string option"
  operator :: ComparisonOperator
  t_value :: pyfloat
  value_upper :: "pyfloat option"
  unit :: string
  applies_to :: "string option"
  nt_evidence :: string

record QualitativeDirective =
  directive_text :: string
  qd_evidence :: string

record ExtractedComplianceRule =
  rule_id :: string
  source_chunk_id :: string
  source_sha256 :: string
  source_document_sha256 :: "string option"
  extracted_text_sha256 :: "string option"
  circular_number :: "string option"
  clause_number :: "string option"
  section_path :: "string list"
  regulator :: Regulator
  regulatory_domain :: "string option"
  target_entities :: "TargetEntity list"
  trigger_conditions :: "TriggerCondition list"
  deterministic_logic :: "NumericalThreshold list"
  qualitative_directives :: "QualitativeDirective list"
  obligation_type :: ObligationType
  extraction_confidence :: pyfloat
  ambiguous_spans :: "string list"
  extraction_notes :: "string option"
  canonical_facts_digest :: "string option"

section \<open>Validators\<close>

definition resolve_threshold_fact :: "NumericalThreshold \<Rightarrow> NumericalThreshold" where
  "resolve_threshold_fact t =
     (if \<not> truthy_str (canonical_fact t) \<and> metric t \<noteq> [] then
        let res = resolve_canonical_fact (metric t) (Some (unit t)) (Some (t_value t)) (value_upper t) in
        if fr_is_valid res \<and> truthy_str (canonical_identifier res)
        then t\<lparr>canonical_fact := canonical_identifier res\<rparr> else t
      else t)"

definition upper_requires_range :: "NumericalThreshold \<Rightarrow> NumericalThreshold result" where
  "upper_requires_range t =
     (if value_upper t \<noteq> None \<and> operator t \<noteq> RANGE
      then raise (ValueError ''value_upper may only be set when operator is RANGE'') else Inr t)"

definition make_threshold :: "NumericalThreshold \<Rightarrow> NumericalThreshold result" where
  "make_threshold t = upper_requires_range (resolve_threshold_fact t)"

section \<open>The digest over canonical facts\<close>

definition threshold_record :: "NumericalThreshold \<Rightarrow> (string \<times> pyval) list" where
  "threshold_record t = [
     (''metric'', PStr (metric t)),
     (''canonical_fact'', PStr (str_or (canonical_fact t) [])),
     (''operator'', PStr (operator_str (operator t))),
     (''value'', PFloat (t_value t)),
     (''value_upper'', (case value_upper t of Some v \<Rightarrow> PFloat v | None \<Rightarrow> PNone)),
     (''unit'', PStr (if unit t = [] then [] else normalize_unit (unit t)))]"

definition record_key :: "(rat \<Rightarrow> string) \<Rightarrow> NumericalThreshold \<Rightarrow> string list" where
  "record_key fr t =
     [str_or (canonical_fact t) [], metric t, operator_str (operator t), py_float_str fr (t_value t)]"

definition facts_payload :: "(rat \<Rightarrow> string) \<Rightarrow> NumericalThreshold list \<Rightarrow> pyval" where
  "facts_payload fr ts = PList (map (PDict \<circ> threshold_record) (sort_key (record_key fr) ts))"

definition compute_canonical_facts_digest ::
  "(string \<Rightarrow> string) \<Rightarrow> (rat \<Rightarrow> string) \<Rightarrow> NumericalThreshold list \<Rightarrow> string" where
  "compute_canonical_facts_digest H fr ts =
     (if ts = [] then H ''[]''
      else H (json_enc fr '','' '':'' (sort_keys (facts_payload fr ts))))"

definition ensure_canonical_facts_digest ::
  "(string \<Rightarrow> string) \<Rightarrow> (rat \<Rightarrow> string) \<Rightarrow> ExtractedComplianceRule \<Rightarrow> ExtractedComplianceRule" where
  "ensure_canonical_facts_digest H fr rule =
     (if canonical_facts_digest rule = None
      then rule\<lparr>canonical_facts_digest := Some (compute_canonical_facts_digest H fr (deterministic_logic rule))\<rparr>
      else rule)"

section \<open>Audit output\<close>

datatype FindingType =
    HALLUCINATED_THRESHOLD | HALLUCINATED_ENTITY | INCORRECT_ENTITY_ASSIGNMENT | MISSING_CONTEXT
  | UNSUPPORTED_CLAIM | MISCLASSIFIED_OBLIGATION | SCOPE_OVERREACH | UNIT_OR_VALUE_MISMATCH | FINDING_OK

datatype Severity = BLOCKER | MAJOR | MINOR | INFO

record AuditFinding =
  finding_type :: FindingType
  severity :: Severity
  field_path :: string
  af_description :: string
  source_excerpt :: "string option"
  suggested_correction :: "string option"

datatype AuditVerdict = APPROVED | NEEDS_REVISION | REJECTED

record ComplianceRuleAudit =
  ca_rule_id :: string
  verdict :: AuditVerdict
  fidelity_score :: pyfloat
  findings :: "AuditFinding list"
  verified_quote_count :: int
  unverified_quote_count :: int

record AuditedComplianceRule =
  rule :: ExtractedComplianceRule
  audit :: ComplianceRuleAudit
  revision_round :: int

section \<open>What validation and the digest promise\<close>

lemma resolve_threshold_fact_fields [simp]:
  "metric (resolve_threshold_fact t) = metric t" "operator (resolve_threshold_fact t) = operator t"
  "t_value (resolve_threshold_fact t) = t_value t" "value_upper (resolve_threshold_fact t) = value_upper t"
  "unit (resolve_threshold_fact t) = unit t"
  by (simp_all add: resolve_threshold_fact_def Let_def)

text \<open>The payload is serialisable: the encoder has nothing to refuse in it.\<close>

lemma facts_payload_json_able: "json_able (sort_keys (facts_payload fr ts))"
  by (auto simp: facts_payload_def threshold_record_def list_all_iff split: option.splits)

lemma digest_is_dumps:
  "ts \<noteq> [] \<Longrightarrow> json_dumps_canonical fr (facts_payload fr ts) =
     Inr (json_enc fr '','' '':'' (sort_keys (facts_payload fr ts)))"
  using facts_payload_json_able [of fr ts]
  by (auto simp: json_dumps_canonical_def json_dumps_def json_error_None [symmetric])

text \<open>
  The canonical-facts digest does not depend on the order in which
  the thresholds of a clause were extracted, as long as no two of them agree on
  fact, metric, operator and value (the sort key of the digest).
\<close>

theorem digest_order_independent:
  assumes "mset ts = mset us" and "inj_on (record_key fr) (set ts)"
  shows "compute_canonical_facts_digest H fr ts = compute_canonical_facts_digest H fr us"
proof -
  have "sort_key (record_key fr) ts = sort_key (record_key fr) us"
    using assms by (intro sort_key_inj_key_eq) simp_all
  moreover have "ts = [] \<longleftrightarrow> us = []" using assms(1) by auto
  ultimately show ?thesis by (simp add: compute_canonical_facts_digest_def facts_payload_def)
qed

text \<open>The text that is hashed.\<close>

definition payload_text :: "(rat \<Rightarrow> string) \<Rightarrow> NumericalThreshold list \<Rightarrow> string" where
  "payload_text fr ts = json_enc fr '','' '':'' (sort_keys (facts_payload fr ts))"

lemma digest_payload_text: "compute_canonical_facts_digest H fr ts = H (payload_text fr ts)"
  by (simp add: compute_canonical_facts_digest_def payload_text_def facts_payload_def)

lemma assoc_list_by_keys: "distinct (map fst xs) \<Longrightarrow> xs = map (\<lambda>k. (k, the (map_of xs k))) (map fst xs)"
proof -
  assume d: "distinct (map fst xs)"
  have "map (\<lambda>p. (fst p, the (map_of xs (fst p)))) xs = xs"
    by (rule map_idI) (use d in \<open>auto simp: map_of_is_SomeI\<close>)
  then show ?thesis by (simp add: comp_def)
qed

lemma assoc_list_eq:
  assumes "distinct (map fst xs)" "map fst xs = map fst ys" "set xs = set ys"
  shows "xs = ys"
  using assoc_list_by_keys [of xs] assoc_list_by_keys [of ys] map_of_inject_set [of xs ys] assms by metis

lemma record_values_flat: "map (\<lambda>(k, v). (k, sort_keys v)) (threshold_record t) = threshold_record t"
  by (simp add: threshold_record_def split: option.splits)

lemma record_sort_inject:
  assumes "sort_keys (PDict (threshold_record t)) = sort_keys (PDict (threshold_record u))"
  shows "threshold_record t = threshold_record u"
proof (rule assoc_list_eq)
  have "set (sort_key fst (threshold_record t)) = set (sort_key fst (threshold_record u))"
    using assms by (simp add: record_values_flat)
  then show "set (threshold_record t) = set (threshold_record u)" by simp
qed (simp_all add: threshold_record_def)

lemma map_eq_transfer:
  assumes eq: "map f xs = map f ys" and tr: "\<And>a b. f a = f b \<Longrightarrow> g a = g b"
  shows "map g xs = map g ys"
proof (rule nth_equalityI)
  show len: "length (map g xs) = length (map g ys)" using eq by (metis length_map)
  fix i
  assume "i < length (map g xs)"
  then show "map g xs ! i = map g ys ! i"
    using tr [of "xs ! i" "ys ! i"] eq len by (metis length_map nth_map)
qed

lemma payload_text_inject:
  assumes "float_repr_ok fr" "payload_text fr ts = payload_text fr us"
  shows "map threshold_record (sort_key (record_key fr) ts) = map threshold_record (sort_key (record_key fr) us)"
proof -
  have "sort_keys (facts_payload fr ts) = sort_keys (facts_payload fr us)"
    using enc_inject [OF assms(1) facts_payload_json_able facts_payload_json_able, of "[]" "[]"] assms(2)
    by (simp add: payload_text_def)
  then have "map (\<lambda>t. sort_keys (PDict (threshold_record t))) (sort_key (record_key fr) ts) =
      map (\<lambda>t. sort_keys (PDict (threshold_record t))) (sort_key (record_key fr) us)"
    by (simp add: facts_payload_def comp_def del: sort_keys.simps(2) add: sort_keys.simps(1))
  then show ?thesis by (rule map_eq_transfer) (rule record_sort_inject)
qed

lemma mset_map_sort_key: "mset (map f (sort_key g xs)) = image_mset f (mset xs)"
  by simp

text \<open>
  The digest binds the thresholds: if two clauses have the same
  digest, they have the same thresholds (metric, canonical fact, operator,
  bounds and normalised unit, with multiplicity), or their two payload texts
  are a collision of the hash function.
\<close>

theorem digest_binds_thresholds:
  assumes "float_repr_ok fr"
    and "compute_canonical_facts_digest H fr ts = compute_canonical_facts_digest H fr us"
  shows "mset (map threshold_record ts) = mset (map threshold_record us)
    \<or> (payload_text fr ts \<noteq> payload_text fr us \<and> H (payload_text fr ts) = H (payload_text fr us))"
proof (cases "payload_text fr ts = payload_text fr us")
  case True
  from payload_text_inject [OF assms(1) True] show ?thesis
    by (metis mset_map mset_map_sort_key)
next
  case False
  with assms(2) show ?thesis by (simp add: digest_payload_text)
qed

text \<open>
  The digest is documented as a strict canonical ordering of the
  thresholds, but its sort key leaves out the upper bound and the unit: two
  thresholds that agree on the sort key and differ elsewhere (two ranges with
  one lower bound) hash different payload texts in the two extraction orders.
\<close>

theorem digest_order_dependent:
  assumes "float_repr_ok fr" and "record_key fr t = record_key fr u"
    and "threshold_record t \<noteq> threshold_record u"
  shows "payload_text fr [t, u] \<noteq> payload_text fr [u, t]"
proof
  assume "payload_text fr [t, u] = payload_text fr [u, t]"
  from payload_text_inject [OF assms(1) this] assms(2,3) show False by simp
qed

subsection \<open>Concrete thresholds\<close>

definition demo_range :: "rat \<Rightarrow> NumericalThreshold" where
  "demo_range hi = \<lparr>metric = ''Upfront Margin'', canonical_fact = Some ''upfront_margin_pct'',
     operator = RANGE, t_value = Fin 10, value_upper = Some (Fin hi), unit = ''%'', applies_to = None,
     nt_evidence = ''between''\<rparr>"

theorem digest_order_dependent_witness:
  "payload_text ratio_repr [demo_range 20, demo_range 30] \<noteq> payload_text ratio_repr [demo_range 30, demo_range 20]"
  by (rule digest_order_dependent [OF ratio_repr_ok])
     (simp_all add: demo_range_def record_key_def threshold_record_def)

definition demo_margin :: NumericalThreshold where
  "demo_margin = \<lparr>metric = ''Upfront Margin'', canonical_fact = Some ''upfront_margin_pct'',
     operator = GTE, t_value = Fin 20, value_upper = None, unit = ''%'', applies_to = None,
     nt_evidence = ''at least twenty per cent''\<rparr>"

theorem digest_order_independent_witness:
  "compute_canonical_facts_digest (\<lambda>s. s) ratio_repr [demo_margin, demo_range 30] =
   compute_canonical_facts_digest (\<lambda>s. s) ratio_repr [demo_range 30, demo_margin]"
  by (rule digest_order_independent)
     (simp_all add: demo_range_def demo_margin_def record_key_def)

theorem digest_binds_thresholds_witness:
  "mset (map threshold_record [demo_margin, demo_range 30]) = mset (map threshold_record [demo_range 30, demo_margin])
    \<or> (payload_text ratio_repr [demo_margin, demo_range 30] \<noteq> payload_text ratio_repr [demo_range 30, demo_margin]
       \<and> payload_text ratio_repr [demo_margin, demo_range 30] = payload_text ratio_repr [demo_range 30, demo_margin])"
proof -
  have "sort_key (record_key ratio_repr) [demo_margin, demo_range 30] =
      sort_key (record_key ratio_repr) [demo_range 30, demo_margin]"
    by (rule sort_key_inj_key_eq) (simp_all add: demo_range_def demo_margin_def record_key_def)
  then have "compute_canonical_facts_digest (\<lambda>s. s) ratio_repr [demo_margin, demo_range 30] =
      compute_canonical_facts_digest (\<lambda>s. s) ratio_repr [demo_range 30, demo_margin]"
    by (simp add: compute_canonical_facts_digest_def facts_payload_def)
  from digest_binds_thresholds [OF ratio_repr_ok this] show ?thesis .
qed

end
