(* ===== verification/Naming.thy ===== *)
theory Naming
  imports Schemas
begin

text \<open>
  \<open>app/compiler/naming.py\<close>: the slugs, the fact field names and the Rego package
  names both compiler back ends share. An \<open>UndefinedFactError\<close> carries the
  metric it is about.
\<close>

definition UNIT_SUFFIX :: "(string \<times> string) list" where
  "UNIT_SUFFIX = [
     (''%'', ''pct''), (''percent'', ''pct''), (''per cent'', ''pct''), (''bps'', ''bps''),
     (''basis points'', ''bps''), (''days'', ''days''), (''day'', ''days''), (''months'', ''months''),
     (''month'', ''months''), (''years'', ''years''), (''year'', ''years''), (''hours'', ''hours''),
     (''hour'', ''hours''), (''inr crore'', ''inr_crore''), (''inr lakh'', ''inr_lakh''),
     (''crore'', ''inr_crore''), (''lakh'', ''inr_lakh''), (''inr'', ''inr''), (''rs'', ''inr''),
     (''rs.'', ''inr'')]"

definition slugify :: "string \<Rightarrow> string" where
  "slugify text =
     (let slug = py_strip (\<lambda>c. c = CHR ''_'') (sub_runs (\<lambda>c. \<not> is_alnum_lower c) ''_'' (py_lower (strip text)))
      in if slug = [] then ''unnamed'' else slug)"

definition clause_slug :: "string option \<Rightarrow> string" where
  "clause_slug clause = (if truthy_str clause then slugify (the clause) else ''unscoped'')"

definition circular_slug :: "string option \<Rightarrow> string" where
  "circular_slug circular = (if truthy_str circular then slugify (the circular) else ''uncategorized_circular'')"

definition endswith :: "string \<Rightarrow> string \<Rightarrow> bool" where
  "endswith s suffix \<longleftrightarrow> startswith (rev s) (rev suffix)"

definition metric_field_name :: "string \<Rightarrow> string \<Rightarrow> bool \<Rightarrow> string result" where
  "metric_field_name m u allow_unmapped =
     (let res = resolve_canonical_fact m (Some u) None None in
      if fr_is_valid res \<and> truthy_str (canonical_identifier res) then Inr (the (canonical_identifier res))
      else if \<not> allow_unmapped then raise (UndefinedFactError m)
      else
        let base = slugify m in
        case map_of UNIT_SUFFIX (py_lower (strip u)) of
          Some suffix \<Rightarrow> Inr (if \<not> endswith base suffix then base @ ''_'' @ suffix else base)
        | None \<Rightarrow> Inr base)"

definition rego_package_name :: "Regulator \<Rightarrow> string \<Rightarrow> string option \<Rightarrow> string option \<Rightarrow> string" where
  "rego_package_name reg domain circular clause =
     regulator_value reg @ ''.'' @ domain @ ''.circulars.'' @ circular_slug circular @ ''.clause_'' @ clause_slug clause"

section \<open>Slugs\<close>

definition slug_char :: "char \<Rightarrow> bool" where
  "slug_char c \<longleftrightarrow> is_alnum_lower c \<or> c = CHR ''_''"

lemma slug_run_chars:
  "c \<in> set (sub_runs (\<lambda>c. \<not> is_alnum_lower c) ''_'' s) \<Longrightarrow> slug_char c"
  using set_sub_runs [of "\<lambda>c. \<not> is_alnum_lower c" "''_''" s] by (auto simp: slug_char_def)

lemma underscore_not_alnum [simp]: "\<not> is_alnum_lower CHR ''_''"
  by (simp add: is_alnum_lower_def)

lemma dot_not_slug: "\<not> slug_char CHR ''.''"
  by (simp add: slug_char_def is_alnum_lower_def)

lemma slugify_chars: "list_all slug_char (slugify text)"
proof -
  have "list_all slug_char ''unnamed''" by (simp add: slug_char_def is_alnum_lower_def)
  then show ?thesis
    using set_strip [of "\<lambda>c. c = CHR ''_''"]
    by (auto simp: slugify_def Let_def list_all_iff dest!: slug_run_chars subsetD)
qed

lemma slugify_nonempty [simp]: "slugify text \<noteq> []"
  by (simp add: slugify_def Let_def)

lemma slugify_ends: "hd (slugify text) \<noteq> CHR ''_'' \<and> last (slugify text) \<noteq> CHR ''_''"
  using strip_ends [of "\<lambda>c. c = CHR ''_''"] by (auto simp: slugify_def Let_def)

text \<open>
  Every slug is a non-empty text of lower-case ASCII letters, digits
  and underscores that neither starts nor ends with an underscore, whatever
  the clause or circular number it is made from.
\<close>

theorem slugify_shape:
  "slugify text \<noteq> [] \<and> list_all slug_char (slugify text)
   \<and> hd (slugify text) \<noteq> CHR ''_'' \<and> last (slugify text) \<noteq> CHR ''_''"
  by (simp add: slugify_chars slugify_ends)

lemma no_dot_slugs: "CHR ''.'' \<notin> set (circular_slug c)" "CHR ''.'' \<notin> set (clause_slug c)"
  using slugify_chars dot_not_slug
  by (auto simp: circular_slug_def clause_slug_def list_all_iff)

lemma no_dot_domains: "d \<in> set (domains (REGULATOR_PROFILES r)) \<Longrightarrow> CHR ''.'' \<notin> set d"
  by (cases r) (auto simp: regulator_profile_def)

lemma no_dot_regulator: "CHR ''.'' \<notin> set (regulator_value r)"
  by (cases r) simp_all

lemma regulator_value_inject: "regulator_value r = regulator_value r' \<longleftrightarrow> r = r'"
  by (cases r; cases r') simp_all

lemma package_segments:
  assumes "CHR ''.'' \<notin> set d"
  shows "split_char CHR ''.'' (rego_package_name r d c k) =
    [regulator_value r, d, ''circulars'', circular_slug c, ''clause_'' @ clause_slug k]"
proof -
  have name: "rego_package_name r d c k = regulator_value r @ CHR ''.'' # (d @ CHR ''.'' # (''circulars'' @ CHR ''.'' #
      (circular_slug c @ CHR ''.'' # (''clause_'' @ clause_slug k))))"
    by (simp add: rego_package_name_def)
  have fixed: "CHR ''.'' \<notin> set ''circulars''" by simp
  have last: "CHR ''.'' \<notin> set (''clause_'' @ clause_slug k)" using no_dot_slugs(2) by simp
  show ?thesis
    unfolding name split_char_append [OF no_dot_regulator] split_char_append [OF assms]
      split_char_append [OF fixed] split_char_append [OF no_dot_slugs(1)] split_char_notin [OF last] ..
qed

text \<open>
  Policy namespaces of different regulators never meet: two package
  names built with resolved domains are equal only if the regulator, the domain
  and the circular and clause slugs all agree, and a package name always splits
  at its dots into those five segments.
\<close>

theorem rego_package_name_inject:
  assumes "rego_package_name r (resolve_domain r e) c k = rego_package_name r' (resolve_domain r' e') c' k'"
  shows "r = r' \<and> resolve_domain r e = resolve_domain r' e' \<and> circular_slug c = circular_slug c'
    \<and> clause_slug k = clause_slug k'"
  using arg_cong [OF assms, of "split_char CHR ''.''"]
    no_dot_domains [OF resolve_domain_listed, of r e] no_dot_domains [OF resolve_domain_listed, of r' e']
  by (auto simp: package_segments regulator_value_inject)

theorem rego_package_name_inject_witness:
  "clause_slug (Some ''3.2'') = clause_slug (Some ''3-2'')"
proof -
  have "rego_package_name SEBI (resolve_domain SEBI None) (Some ''CIR'') (Some ''3.2'') =
      rego_package_name SEBI (resolve_domain SEBI (Some ''Unknown'')) (Some ''cir'') (Some ''3-2'')"
    by code_simp
  from rego_package_name_inject [OF this] show ?thesis by blast
qed

end
