(* ===== verification/Json_Logic.thy ===== *)
theory Json_Logic
  imports Naming
begin

text \<open>
  The JSON-Logic back end: \<open>app/compiler/jsonlogic_compiler.py\<close>, the structural
  validator \<open>app/compiler/jsonlogic_validator.py\<close> and the evaluator
  \<open>app/backtest/jsonlogic_evaluator.py\<close> that replays compiled rules. A
  \<open>MalformedASTError\<close> carries the failing path or the context, the other
  exceptions the fact they are about. The creation timestamp of a compiled rule
  is left out.
\<close>

section \<open>The evaluator\<close>

fun resolve_parts :: "string \<Rightarrow> string list \<Rightarrow> pyval \<Rightarrow> pyval result" where
  "resolve_parts path [] node = Inr node"
| "resolve_parts path (part # parts) node =
     (case node of
        PDict d \<Rightarrow>
          (case map_of d part of
             Some v \<Rightarrow> resolve_parts path parts v
           | None \<Rightarrow> raise (MissingFactError path))
      | _ \<Rightarrow> raise (MissingFactError path))"

definition resolve_var :: "string \<Rightarrow> pyval \<Rightarrow> pyval result" where
  "resolve_var path data = resolve_parts path (split_char CHR ''.'' path) data"

definition COMPARISON_OPS :: "(string \<times> (pyval \<Rightarrow> pyval \<Rightarrow> bool result)) list" where
  "COMPARISON_OPS = [
     (''=='', \<lambda>a b. Inr (py_eq a b)), (''>='', py_order Ge), (''>'', py_order Gt),
     (''<='', py_order Le), (''<'', py_order Lt)]"

fun evaluate_jsonlogic :: "pyval \<Rightarrow> pyval \<Rightarrow> pyval result"
  and evaluate_list :: "pyval list \<Rightarrow> pyval \<Rightarrow> pyval list result"
  and evaluate_all :: "pyval list \<Rightarrow> pyval \<Rightarrow> bool result"
  and evaluate_operator :: "string \<times> pyval \<Rightarrow> pyval \<Rightarrow> pyval result" where
  "evaluate_jsonlogic (PList items) data = bind_res (evaluate_list items data) (\<lambda>vs. Inr (PList vs))"
| "evaluate_jsonlogic (POther t) data = raise UnsupportedJsonLogicNodeError"
| "evaluate_jsonlogic (PDict d) data =
     (case d of [item] \<Rightarrow> evaluate_operator item data | _ \<Rightarrow> raise UnsupportedJsonLogicNodeError)"
| "evaluate_jsonlogic node data = Inr node"
| "evaluate_operator (opr, operands) data =
     (if opr = ''var'' then
        (case operands of PStr path \<Rightarrow> resolve_var path data | _ \<Rightarrow> raise AttributeError)
      else if opr = ''and'' then
        (case operands of
           PList children \<Rightarrow> bind_res (evaluate_all children data) (\<lambda>b. Inr (PBool b))
         | _ \<Rightarrow> raise UnsupportedJsonLogicNodeError)
      else if opr = ''in'' then
        (case operands of
           PList [a, b] \<Rightarrow>
             bind_res (evaluate_jsonlogic a data) (\<lambda>needle.
             bind_res (evaluate_jsonlogic b data) (\<lambda>haystack.
             bind_res (py_in needle haystack) (\<lambda>r. Inr (PBool r))))
         | _ \<Rightarrow> raise UnsupportedJsonLogicNodeError)
      else
        (case map_of COMPARISON_OPS opr of
           Some f \<Rightarrow>
             (case operands of
                PList [a, b] \<Rightarrow>
                  bind_res (evaluate_jsonlogic a data) (\<lambda>left.
                  bind_res (evaluate_jsonlogic b data) (\<lambda>right.
                  bind_res (f left right) (\<lambda>r. Inr (PBool r))))
              | _ \<Rightarrow> raise UnsupportedJsonLogicNodeError)
         | None \<Rightarrow> raise UnsupportedJsonLogicNodeError))"
| "evaluate_list [] data = Inr []"
| "evaluate_list (x # xs) data =
     bind_res (evaluate_jsonlogic x data) (\<lambda>v. bind_res (evaluate_list xs data) (\<lambda>vs. Inr (v # vs)))"
| "evaluate_all [] data = Inr True"
| "evaluate_all (x # xs) data =
     bind_res (evaluate_jsonlogic x data) (\<lambda>v. if truthy v then evaluate_all xs data else Inr False)"

section \<open>The compiler\<close>

record JsonLogicRule =
  jl_rule_id :: string
  logic :: pyval
  data_schema :: "(string \<times> string) list"
  violation_message_template :: string
  jl_thresholds_compiled :: nat

definition var_node :: "string \<Rightarrow> pyval" where
  "var_node path = PDict [(''var'', PStr path)]"

definition threshold_var_path :: "NumericalThreshold \<Rightarrow> string result" where
  "threshold_var_path t =
     (if truthy_str (canonical_fact t) then Inr (''facts.'' @ the (canonical_fact t))
      else bind_res (metric_field_name (metric t) (unit t) False) (\<lambda>f. Inr (''facts.'' @ f)))"

definition threshold_to_logic :: "NumericalThreshold \<Rightarrow> pyval result" where
  "threshold_to_logic t =
     bind_res (threshold_var_path t) (\<lambda>path.
       if operator t = RANGE then
         (case value_upper t of
            None \<Rightarrow> raise AssertionError
          | Some up \<Rightarrow>
              Inr (PDict [(''and'', PList [
                PDict [(''>='', PList [var_node path, PFloat (t_value t)])],
                PDict [(''<='', PList [var_node path, PFloat up])]])]))
       else Inr (PDict [(operator_value (operator t), PList [var_node path, PFloat (t_value t)])]))"

definition entity_names :: "ExtractedComplianceRule \<Rightarrow> string list" where
  "entity_names rl = sort (remdups (filter (\<lambda>s. s \<noteq> [])
     (map (\<lambda>e. str_or (normalized_entity e) (raw_text e)) (target_entities rl))))"

definition entity_logic :: "ExtractedComplianceRule \<Rightarrow> pyval option" where
  "entity_logic rl =
     (case entity_names rl of
        [] \<Rightarrow> None
      | [e] \<Rightarrow> Some (PDict [(''=='', PList [var_node ''entity_type'', PStr e])])
      | es \<Rightarrow> Some (PDict [(''in'', PList [var_node ''entity_type'', PList (map PStr es)])]))"

definition make_data_schema :: "ExtractedComplianceRule \<Rightarrow> (string \<times> string) list result" where
  "make_data_schema rl =
     bind_res (map_res threshold_var_path (deterministic_logic rl)) (\<lambda>paths.
       Inr (foldl (\<lambda>schema p. dict_set p ''number'' schema) [(''entity_type'', ''string'')] paths))"

definition message_part :: "(rat \<Rightarrow> string) \<Rightarrow> string \<Rightarrow> NumericalThreshold \<Rightarrow> string result" where
  "message_part fr clause t =
     bind_res (threshold_var_path t) (\<lambda>path.
       let placeholder = ''{'' @ path @ ''}'';
           scope = (if truthy_str (applies_to t) then '' for '' @ the (applies_to t) else [])
       in Inr (
         if operator t = RANGE then
           metric t @ '' is '' @ placeholder @ '' '' @ unit t @ '', required to be between ''
           @ py_float_str fr (t_value t) @ '' and ''
           @ (case value_upper t of Some u \<Rightarrow> py_float_str fr u | None \<Rightarrow> ''None'')
           @ '' '' @ unit t @ scope @ '' (clause '' @ clause @ '')''
         else
           metric t @ '' is '' @ placeholder @ '' '' @ unit t @ '', required to be ''
           @ operator_value (operator t) @ '' '' @ py_float_str fr (t_value t) @ '' '' @ unit t @ scope
           @ '' (clause '' @ clause @ '')''))"

definition message_template :: "(rat \<Rightarrow> string) \<Rightarrow> ExtractedComplianceRule \<Rightarrow> string result" where
  "message_template fr rl =
     (let clause = str_or (clause_number rl) ''unscoped'' in
      bind_res (map_res (message_part fr clause) (deterministic_logic rl)) (\<lambda>parts.
        Inr (join '' AND '' parts)))"

definition compile_rule_to_jsonlogic ::
  "(rat \<Rightarrow> string) \<Rightarrow> ExtractedComplianceRule \<Rightarrow> JsonLogicRule result" where
  "compile_rule_to_jsonlogic fr rl =
     (if deterministic_logic rl = [] then
        raise (ValueError (''Rule '' @ rule_id rl @ '' has no deterministic_logic to compile.''))
      else
        bind_res (map_res threshold_to_logic (deterministic_logic rl)) (\<lambda>threshold_clauses.
        let all_clauses = (case entity_logic rl of Some e \<Rightarrow> [e] | None \<Rightarrow> []) @ threshold_clauses;
            lg = (if length all_clauses = 1 then hd all_clauses else PDict [(''and'', PList all_clauses)])
        in bind_res (make_data_schema rl) (\<lambda>schema.
           bind_res (message_template fr rl) (\<lambda>template.
             Inr \<lparr>jl_rule_id = rule_id rl, logic = lg, data_schema = schema,
                   violation_message_template = template,
                   jl_thresholds_compiled = length (deterministic_logic rl)\<rparr>))))"

section \<open>The validator\<close>

fun validate_json_logic_ast :: "pyval \<Rightarrow> string \<Rightarrow> unit result"
  and validate_items :: "pyval list \<Rightarrow> string \<Rightarrow> nat \<Rightarrow> unit result"
  and validate_operator :: "string \<times> pyval \<Rightarrow> string \<Rightarrow> unit result" where
  "validate_json_logic_ast (PList items) path = validate_items items path 0"
| "validate_json_logic_ast (PDict d) path =
     (case d of [item] \<Rightarrow> validate_operator item path | _ \<Rightarrow> raise (MalformedASTError path))"
| "validate_json_logic_ast (POther t) path = raise (MalformedASTError path)"
| "validate_json_logic_ast node path = Inr ()"
| "validate_operator (opr, operand) path =
     (if opr = [] then raise (MalformedASTError path)
      else validate_json_logic_ast operand (path @ ''.'' @ opr))"
| "validate_items [] path i = Inr ()"
| "validate_items (x # xs) path i =
     bind_res (validate_json_logic_ast x (path @ ''['' @ nat_str i @ '']'')) (\<lambda>_. validate_items xs path (Suc i))"

definition validate_json_serializable :: "(rat \<Rightarrow> string) \<Rightarrow> pyval \<Rightarrow> string \<Rightarrow> unit result" where
  "validate_json_serializable fr node context =
     (case json_dumps fr False '', '' '': '' False node of
        Inl e \<Rightarrow> raise (MalformedASTError context)
      | Inr s \<Rightarrow> Inr ())"

section \<open>The meaning of a rule\<close>

text \<open>What a threshold demands of a number, read off the regulation.\<close>

definition threshold_holds :: "NumericalThreshold \<Rightarrow> pyfloat \<Rightarrow> bool" where
  "threshold_holds t x =
     (case operator t of
        GTE \<Rightarrow> flt_le (t_value t) x
      | GT \<Rightarrow> flt_less (t_value t) x
      | LTE \<Rightarrow> flt_le x (t_value t)
      | LT \<Rightarrow> flt_less x (t_value t)
      | EQ \<Rightarrow> flt_eq x (t_value t)
      | RANGE \<Rightarrow> flt_le (t_value t) x \<and> (\<exists>up. value_upper t = Some up \<and> flt_le x up))"

definition field_of :: "NumericalThreshold \<Rightarrow> string" where
  "field_of t =
     (if truthy_str (canonical_fact t) then the (canonical_fact t)
      else case metric_field_name (metric t) (unit t) False of Inr f \<Rightarrow> f | Inl _ \<Rightarrow> [])"

definition entity_applies :: "ExtractedComplianceRule \<Rightarrow> string \<Rightarrow> bool" where
  "entity_applies rl ent \<longleftrightarrow> entity_names rl = [] \<or> ent \<in> set (entity_names rl)"

definition fact_satisfies :: "(string \<times> pyval) list \<Rightarrow> NumericalThreshold \<Rightarrow> bool" where
  "fact_satisfies fs t \<longleftrightarrow>
     (\<exists>v x. map_of fs (field_of t) = Some v \<and> num_of v = Some x \<and> threshold_holds t x)"

text \<open>The document a rule is evaluated on.\<close>

definition input_document :: "string \<Rightarrow> (string \<times> pyval) list \<Rightarrow> pyval" where
  "input_document ent fs = PDict [(''entity_type'', PStr ent), (''facts'', PDict fs)]"

lemma threshold_var_path_field: "threshold_var_path t = Inr p \<Longrightarrow> p = ''facts.'' @ field_of t"
  by (auto simp: threshold_var_path_def field_of_def bind_res_eq_Inr split: if_splits)

lemma resolve_fact:
  assumes "CHR ''.'' \<notin> set f"
  shows "resolve_var (''facts.'' @ f) (input_document ent fs) =
    (case map_of fs f of Some v \<Rightarrow> Inr v | None \<Rightarrow> raise (MissingFactError (''facts.'' @ f)))"
proof -
  have "split_char CHR ''.'' (''facts'' @ CHR ''.'' # f) = [''facts'', f]"
    using assms by (subst split_char_append) (simp_all add: split_char_notin)
  then show ?thesis by (simp add: resolve_var_def input_document_def split: option.split)
qed

lemma resolve_entity: "resolve_var ''entity_type'' (input_document ent fs) = Inr (PStr ent)"
  by (simp add: resolve_var_def input_document_def)

lemma py_order_float:
  "py_order opr v (PFloat f) =
     (case num_of v of Some x \<Rightarrow> Inr (flt_order opr x f) | None \<Rightarrow> raise TypeError)"
  by (cases v) simp_all

lemma py_eq_float:
  "py_eq v (PFloat f) = (case num_of v of Some x \<Rightarrow> flt_eq x f | None \<Rightarrow> False)"
  by (cases v) simp_all

subsection \<open>One clause\<close>

text \<open>A clause evaluates to a boolean or raises.\<close>

definition boolean_node :: "pyval \<Rightarrow> pyval \<Rightarrow> bool" where
  "boolean_node data n \<longleftrightarrow> (\<forall>w. evaluate_jsonlogic n data = Inr w \<longrightarrow> (\<exists>b. w = PBool b))"

lemma evaluate_all_True:
  "\<forall>n\<in>set ns. boolean_node data n \<Longrightarrow>
   evaluate_all ns data = Inr True \<longleftrightarrow> (\<forall>n\<in>set ns. evaluate_jsonlogic n data = Inr (PBool True))"
  by (induction ns) (auto simp: bind_res_eq_Inr boolean_node_def)

lemma evaluate_all_bools:
  "list_all2 (\<lambda>n b. evaluate_jsonlogic n data = Inr (PBool b)) ns bs \<Longrightarrow>
   evaluate_all ns data = Inr (list_all id bs)"
  by (induction ns bs rule: list_all2_induct) simp_all

lemma eval_comparison:
  "map_of COMPARISON_OPS opr = Some f \<Longrightarrow>
   evaluate_jsonlogic (PDict [(opr, PList [var_node path, PFloat q])]) data =
     bind_res (resolve_var path data) (\<lambda>v. bind_res (f v (PFloat q)) (\<lambda>r. Inr (PBool r)))"
  by (auto simp: COMPARISON_OPS_def var_node_def split: if_splits)

lemma comparison_ops:
  "map_of COMPARISON_OPS ''=='' = Some (\<lambda>a b. Inr (py_eq a b))"
  "map_of COMPARISON_OPS ''>='' = Some (py_order Ge)"
  "map_of COMPARISON_OPS ''>'' = Some (py_order Gt)"
  "map_of COMPARISON_OPS ''<='' = Some (py_order Le)"
  "map_of COMPARISON_OPS ''<'' = Some (py_order Lt)"
  by (simp_all add: COMPARISON_OPS_def)

lemmas eval_ops = comparison_ops [THEN eval_comparison]

lemma eval_and: "evaluate_jsonlogic (PDict [(''and'', PList ns)]) data =
    bind_res (evaluate_all ns data) (\<lambda>b. Inr (PBool b))"
  by simp

lemma eval_threshold:
  assumes n: "threshold_to_logic t = Inr n"
    and dot: "CHR ''.'' \<notin> set (field_of t)"
  shows "evaluate_jsonlogic n (input_document ent fs) =
    (case map_of fs (field_of t) of
       None \<Rightarrow> raise (MissingFactError (''facts.'' @ field_of t))
     | Some v \<Rightarrow>
         (case num_of v of
            Some x \<Rightarrow> Inr (PBool (threshold_holds t x))
          | None \<Rightarrow> if operator t = EQ then Inr (PBool False) else raise TypeError))"
proof -
  obtain path where p: "threshold_var_path t = Inr path"
    using n by (auto simp: threshold_to_logic_def bind_res_eq_Inr)
  note path = threshold_var_path_field [OF p]
  note res = resolve_fact [OF dot, of ent fs]
  show ?thesis
  proof (cases "operator t")
    case RANGE
    then obtain up where up: "value_upper t = Some up"
      using n p by (auto simp: threshold_to_logic_def split: option.splits)
    have "n = PDict [(''and'', PList [
        PDict [(''>='', PList [var_node path, PFloat (t_value t)])],
        PDict [(''<='', PList [var_node path, PFloat up])]])]"
      using n p RANGE up by (simp add: threshold_to_logic_def)
    then show ?thesis
      using RANGE up path res
      by (auto simp: eval_and eval_ops py_order_float threshold_holds_def
          simp del: evaluate_jsonlogic.simps split: option.splits)
  qed (use n p path res in \<open>auto simp: threshold_to_logic_def eval_ops py_order_float py_eq_float
         threshold_holds_def simp del: evaluate_jsonlogic.simps split: option.splits\<close>)
qed

lemma eval_threshold_boolean:
  "threshold_to_logic t = Inr n \<Longrightarrow> CHR ''.'' \<notin> set (field_of t) \<Longrightarrow> boolean_node (input_document ent fs) n"
  unfolding boolean_node_def by (subst eval_threshold) (auto split: option.splits if_splits)

lemma eval_threshold_True:
  "threshold_to_logic t = Inr n \<Longrightarrow> CHR ''.'' \<notin> set (field_of t) \<Longrightarrow>
   evaluate_jsonlogic n (input_document ent fs) = Inr (PBool True) \<longleftrightarrow> fact_satisfies fs t"
  by (subst eval_threshold) (auto simp: fact_satisfies_def split: option.splits if_splits)

lemma evaluate_list_strs: "evaluate_list (map PStr es) data = Inr (map PStr es)"
  by (induction es) simp_all

lemma eval_entity:
  "entity_logic rl = Some n \<Longrightarrow>
   evaluate_jsonlogic n (input_document ent fs) = Inr (PBool (ent \<in> set (entity_names rl)))"
proof -
  assume n: "entity_logic rl = Some n"
  have str: "list_ex (py_eq (PStr ent)) (map PStr es) = (ent \<in> set es)" for es
    by (induction es) auto
  have eq: "evaluate_jsonlogic (PDict [(''=='', PList [var_node ''entity_type'', PStr e])]) (input_document ent fs)
      = Inr (PBool (e = ent))" for e
    using resolve_entity by (simp add: COMPARISON_OPS_def var_node_def)
  have isin: "evaluate_jsonlogic (PDict [(''in'', PList [var_node ''entity_type'', PList (map PStr es)])])
      (input_document ent fs) = Inr (PBool (ent \<in> set es))" for es
    using resolve_entity str [of es] evaluate_list_strs [of es] by (simp add: var_node_def)
  show ?thesis
  proof (cases "entity_names rl")
    case (Cons e es)
    show ?thesis
    proof (cases es)
      case Nil
      with n Cons eq show ?thesis by (auto simp: entity_logic_def)
    next
      case (Cons e' es')
      then have "n = PDict [(''in'', PList [var_node ''entity_type'', PList (map PStr (entity_names rl))])]"
        using n \<open>entity_names rl = e # es\<close> by (simp add: entity_logic_def)
      with isin show ?thesis by simp
    qed
  qed (use n in \<open>simp add: entity_logic_def\<close>)
qed

lemma entity_logic_None: "entity_logic rl = None \<longleftrightarrow> entity_names rl = []"
  by (simp add: entity_logic_def split: list.splits)

subsection \<open>The whole rule\<close>

definition combine_clauses :: "pyval list \<Rightarrow> pyval" where
  "combine_clauses cs = (if length cs = 1 then hd cs else PDict [(''and'', PList cs)])"

definition entity_clauses :: "ExtractedComplianceRule \<Rightarrow> pyval list" where
  "entity_clauses rl = (case entity_logic rl of Some e \<Rightarrow> [e] | None \<Rightarrow> [])"

lemma compiled_logic:
  assumes "compile_rule_to_jsonlogic fr rl = Inr j"
  obtains ns where "list_all2 (\<lambda>t n. threshold_to_logic t = Inr n) (deterministic_logic rl) ns"
    "ns \<noteq> []" "logic j = combine_clauses (entity_clauses rl @ ns)"
  using assms
  by (force simp: compile_rule_to_jsonlogic_def bind_res_eq_Inr Let_def map_res_Inr_iff
      combine_clauses_def entity_clauses_def split: if_splits)

lemma eval_combined_True:
  assumes "cs \<noteq> []" "\<forall>n\<in>set cs. boolean_node data n"
  shows "evaluate_jsonlogic (combine_clauses cs) data = Inr (PBool True) \<longleftrightarrow>
    (\<forall>n\<in>set cs. evaluate_jsonlogic n data = Inr (PBool True))"
proof (cases "length cs = 1")
  case True
  then obtain c where "cs = [c]" by (auto simp: length_Suc_conv)
  then show ?thesis by (simp add: combine_clauses_def)
next
  case False
  then have "combine_clauses cs = PDict [(''and'', PList cs)]" by (simp add: combine_clauses_def)
  with evaluate_all_True [OF assms(2)] show ?thesis
    by (simp only: eval_and bind_res_eq_Inr) auto
qed

lemma eval_combined_bools:
  assumes "cs \<noteq> []" "list_all2 (\<lambda>n b. evaluate_jsonlogic n data = Inr (PBool b)) cs bs"
  shows "evaluate_jsonlogic (combine_clauses cs) data = Inr (PBool (list_all id bs))"
proof (cases "length cs = 1")
  case True
  then obtain c where "cs = [c]" by (auto simp: length_Suc_conv)
  with assms(2) show ?thesis by (auto simp: combine_clauses_def list_all2_Cons1)
next
  case False
  then have "combine_clauses cs = PDict [(''and'', PList cs)]" by (simp add: combine_clauses_def)
  with evaluate_all_bools [OF assms(2)] show ?thesis by (simp only: eval_and bind_res_simps)
qed

lemma jsonlogic_allow_iff:
  assumes comp: "compile_rule_to_jsonlogic fr rl = Inr j"
    and dots: "\<forall>t\<in>set (deterministic_logic rl). CHR ''.'' \<notin> set (field_of t)"
  shows "evaluate_jsonlogic (logic j) (input_document ent fs) = Inr (PBool True) \<longleftrightarrow>
    entity_applies rl ent \<and> (\<forall>t\<in>set (deterministic_logic rl). fact_satisfies fs t)"
proof -
  let ?data = "input_document ent fs"
  obtain ns where ns: "list_all2 (\<lambda>t n. threshold_to_logic t = Inr n) (deterministic_logic rl) ns"
    and ne: "ns \<noteq> []" and lg: "logic j = combine_clauses (entity_clauses rl @ ns)"
    by (rule compiled_logic [OF comp])
  have "\<forall>n\<in>set ns. boolean_node ?data n"
    using list_all2_ex2 [OF ns] dots eval_threshold_boolean by blast
  moreover have "\<forall>n\<in>set (entity_clauses rl). boolean_node ?data n"
    using eval_entity by (auto simp: entity_clauses_def boolean_node_def split: option.splits)
  ultimately have "evaluate_jsonlogic (logic j) ?data = Inr (PBool True) \<longleftrightarrow>
      (\<forall>n\<in>set (entity_clauses rl). evaluate_jsonlogic n ?data = Inr (PBool True))
      \<and> (\<forall>n\<in>set ns. evaluate_jsonlogic n ?data = Inr (PBool True))"
    using ne eval_combined_True [of "entity_clauses rl @ ns" ?data] lg by auto
  moreover have "(\<forall>n\<in>set (entity_clauses rl). evaluate_jsonlogic n ?data = Inr (PBool True)) \<longleftrightarrow> entity_applies rl ent"
    using entity_logic_None [of rl]
    by (cases "entity_logic rl") (auto simp: entity_clauses_def entity_applies_def eval_entity)
  moreover have "(\<forall>n\<in>set ns. evaluate_jsonlogic n ?data = Inr (PBool True)) \<longleftrightarrow>
      (\<forall>t\<in>set (deterministic_logic rl). fact_satisfies fs t)"
  proof -
    have "list_all2 (\<lambda>t n. (evaluate_jsonlogic n ?data = Inr (PBool True)) = fact_satisfies fs t) (deterministic_logic rl) ns"
      using ns dots by (auto simp: list_all2_conv_all_nth eval_threshold_True)
    then show ?thesis by (auto simp: list_all2_conv_all_nth all_set_conv_all_nth)
  qed
  ultimately show ?thesis by blast
qed

lemma jsonlogic_total:
  assumes comp: "compile_rule_to_jsonlogic fr rl = Inr j"
    and dots: "\<forall>t\<in>set (deterministic_logic rl). CHR ''.'' \<notin> set (field_of t)"
    and facts: "\<forall>t\<in>set (deterministic_logic rl). \<exists>v x. map_of fs (field_of t) = Some v \<and> num_of v = Some x"
  shows "evaluate_jsonlogic (logic j) (input_document ent fs) =
    Inr (PBool (entity_applies rl ent \<and> (\<forall>t\<in>set (deterministic_logic rl). fact_satisfies fs t)))"
proof -
  let ?data = "input_document ent fs"
  obtain ns where ns: "list_all2 (\<lambda>t n. threshold_to_logic t = Inr n) (deterministic_logic rl) ns"
    and ne: "ns \<noteq> []" and lg: "logic j = combine_clauses (entity_clauses rl @ ns)"
    by (rule compiled_logic [OF comp])
  have one: "evaluate_jsonlogic n ?data = Inr (PBool (fact_satisfies fs t))"
    if "t \<in> set (deterministic_logic rl)" "threshold_to_logic t = Inr n" for t n
    using facts dots that eval_threshold [OF that(2), of ent fs] by (force simp: fact_satisfies_def)
  have bools: "list_all2 (\<lambda>n b. evaluate_jsonlogic n ?data = Inr (PBool b)) ns
      (map (fact_satisfies fs) (deterministic_logic rl))"
    using ns one by (auto simp: list_all2_conv_all_nth)
  have ents: "list_all2 (\<lambda>n b. evaluate_jsonlogic n ?data = Inr (PBool b)) (entity_clauses rl)
      (if entity_names rl = [] then [] else [ent \<in> set (entity_names rl)])"
    using entity_logic_None [of rl] eval_entity [of rl]
    by (cases "entity_logic rl") (auto simp: entity_clauses_def)
  have "evaluate_jsonlogic (logic j) ?data = Inr (PBool (list_all id
      ((if entity_names rl = [] then [] else [ent \<in> set (entity_names rl)]) @ map (fact_satisfies fs) (deterministic_logic rl))))"
    unfolding lg using ne by (intro eval_combined_bools list_all2_appendI ents bools) simp
  then show ?thesis by (simp add: entity_applies_def list_all_iff)
qed

section \<open>Validation of compiler output\<close>

lemma threshold_to_logic_valid: "threshold_to_logic t = Inr n \<Longrightarrow> validate_json_logic_ast n path = Inr ()"
  by (cases "operator t")
     (auto simp: threshold_to_logic_def bind_res_eq_Inr var_node_def split: option.splits)

lemma validate_items_ok: "\<forall>n\<in>set ns. \<forall>p. validate_json_logic_ast n p = Inr () \<Longrightarrow> validate_items ns path i = Inr ()"
  by (induction ns arbitrary: i) simp_all

lemma entity_logic_valid: "entity_logic rl = Some n \<Longrightarrow> validate_json_logic_ast n path = Inr ()"
  by (auto simp: entity_logic_def var_node_def validate_items_ok split: list.splits)

lemma compiled_validates:
  assumes "compile_rule_to_jsonlogic fr rl = Inr j"
  shows "validate_json_logic_ast (logic j) path = Inr ()"
proof -
  obtain ns where ns: "list_all2 (\<lambda>t n. threshold_to_logic t = Inr n) (deterministic_logic rl) ns"
    and lg: "logic j = combine_clauses (entity_clauses rl @ ns)" and ne: "ns \<noteq> []"
    by (rule compiled_logic [OF assms])
  have ok: "\<forall>n\<in>set (entity_clauses rl @ ns). \<forall>p. validate_json_logic_ast n p = Inr ()"
    using list_all2_ex2 [OF ns] threshold_to_logic_valid entity_logic_valid
    by (auto simp: entity_clauses_def split: option.splits)
  show ?thesis
  proof (cases "length (entity_clauses rl @ ns) = 1")
    case True
    then have "hd (entity_clauses rl @ ns) \<in> set (entity_clauses rl @ ns)" by (intro hd_in_set) auto
    with True ok lg show ?thesis by (simp add: combine_clauses_def)
  next
    case False
    with ok lg show ?thesis by (simp add: combine_clauses_def validate_items_ok)
  qed
qed

lemma json_error_list_None: "json_error_list b ns = None \<longleftrightarrow> (\<forall>n\<in>set ns. json_error b n = None)"
  by (induction ns) (auto split: option.splits)

lemma json_error_list_strs [simp]: "json_error_list b (map PStr es) = None"
  by (induction es) simp_all

text \<open>A threshold is finite when both its numbers are.\<close>

definition finite_threshold :: "NumericalThreshold \<Rightarrow> bool" where
  "finite_threshold t \<longleftrightarrow> flt_finite (t_value t)
     \<and> (operator t = RANGE \<longrightarrow> (\<forall>up. value_upper t = Some up \<longrightarrow> flt_finite up))"

lemma threshold_to_logic_json:
  "threshold_to_logic t = Inr n \<Longrightarrow> json_error False n = None \<longleftrightarrow> finite_threshold t"
  by (cases "operator t")
     (auto simp: threshold_to_logic_def bind_res_eq_Inr var_node_def finite_threshold_def
       split: option.splits if_splits)

lemma entity_logic_json: "entity_logic rl = Some n \<Longrightarrow> json_error False n = None"
  by (auto simp: entity_logic_def var_node_def split: list.splits)

lemma combine_json: "cs \<noteq> [] \<Longrightarrow> json_error b (combine_clauses cs) = None \<longleftrightarrow> (\<forall>n\<in>set cs. json_error b n = None)"
proof (cases "length cs = 1")
  case True
  then obtain c where "cs = [c]" by (auto simp: length_Suc_conv)
  then show ?thesis by (simp add: combine_clauses_def)
next
  case False
  then show ?thesis by (simp add: combine_clauses_def json_error_list_None option.case_eq_if)
qed

lemma compiled_serializable:
  assumes "compile_rule_to_jsonlogic fr rl = Inr j"
  shows "validate_json_serializable fr (logic j) context =
    (if \<forall>t\<in>set (deterministic_logic rl). finite_threshold t then Inr () else raise (MalformedASTError context))"
proof -
  obtain ns where ns: "list_all2 (\<lambda>t n. threshold_to_logic t = Inr n) (deterministic_logic rl) ns"
    and lg: "logic j = combine_clauses (entity_clauses rl @ ns)" and ne: "ns \<noteq> []"
    by (rule compiled_logic [OF assms])
  have "(\<forall>n\<in>set ns. json_error False n = None) \<longleftrightarrow> (\<forall>t\<in>set (deterministic_logic rl). finite_threshold t)"
    using list_all2_ex2 [OF ns] list_all2_ex1 [OF ns] threshold_to_logic_json by metis
  moreover have "\<forall>n\<in>set (entity_clauses rl). json_error False n = None"
    using entity_logic_json by (auto simp: entity_clauses_def split: option.splits)
  ultimately have "json_error False (logic j) = None \<longleftrightarrow> (\<forall>t\<in>set (deterministic_logic rl). finite_threshold t)"
    using ne combine_json [of "entity_clauses rl @ ns" False] lg by auto
  then show ?thesis
    by (auto simp: validate_json_serializable_def json_dumps_def split: option.splits)
qed

end
