(* ===== verification/Rego_Compiler.thy ===== *)
theory Rego_Compiler
  imports Json_Logic
begin

text \<open>
  The OPA back end, \<open>app/compiler/rego_compiler.py\<close>: the Rego module is built
  line by line, as the source builds it. SHA-256 (\<open>H\<close>), the float text (\<open>fr\<close>)
  and the ISO text of the clock (\<open>now_iso\<close>) are arguments. The conditions in
  the module are then read as the comparisons they print, to relate the
  \<open>allow\<close> and \<open>violation\<close> rules to the meaning of a threshold.
\<close>

section \<open>Pieces of the module\<close>

definition INDENT :: string where "INDENT = ''    ''"

abbreviation quoted :: "string \<Rightarrow> string" where
  "quoted s \<equiv> [quote] @ s @ [quote]"

fun OPERATOR_NEGATION :: "ComparisonOperator \<Rightarrow> string result" where
  "OPERATOR_NEGATION GTE = Inr ''<''"
| "OPERATOR_NEGATION GT = Inr ''<=''"
| "OPERATOR_NEGATION LTE = Inr ''>''"
| "OPERATOR_NEGATION LT = Inr ''>=''"
| "OPERATOR_NEGATION EQ = Inr ''!=''"
| "OPERATOR_NEGATION RANGE = raise (KeyError ''ComparisonOperator.RANGE'')"

definition rego_scalar :: "(rat \<Rightarrow> string) \<Rightarrow> pyfloat \<Rightarrow> string" where
  "rego_scalar fr v =
     (case v of
        Fin q \<Rightarrow> if snd (quotient_of q) = 1 then int_str (fst (quotient_of q)) else fr q
      | _ \<Rightarrow> py_float_str fr v)"

definition entity_guard :: "ExtractedComplianceRule \<Rightarrow> string option" where
  "entity_guard rl =
     (case entity_names rl of
        [] \<Rightarrow> None
      | [e] \<Rightarrow> Some (''input.entity_type == '' @ quoted e)
      | es \<Rightarrow> Some (''input.entity_type in {'' @ join '', '' (map quoted es) @ ''}''))"

definition threshold_field :: "NumericalThreshold \<Rightarrow> string result" where
  "threshold_field t =
     (if truthy_str (canonical_fact t) then
        (if get_canonical_fact (the (canonical_fact t)) = None
         then raise (UndefinedFactError (the (canonical_fact t)))
         else Inr (the (canonical_fact t)))
      else metric_field_name (metric t) (unit t) False)"

definition pass_condition :: "(rat \<Rightarrow> string) \<Rightarrow> NumericalThreshold \<Rightarrow> string result" where
  "pass_condition fr t =
     bind_res (threshold_field t) (\<lambda>f.
       let field = ''input.facts.'' @ f in
       if operator t = RANGE then
         (case value_upper t of
            None \<Rightarrow> raise AssertionError
          | Some up \<Rightarrow>
              Inr (field @ '' >= '' @ rego_scalar fr (t_value t) @ [CHR 0x0A] @ INDENT
                   @ field @ '' <= '' @ rego_scalar fr up))
       else Inr (field @ '' '' @ operator_value (operator t) @ '' '' @ rego_scalar fr (t_value t)))"

definition violation_clauses ::
  "(rat \<Rightarrow> string) \<Rightarrow> NumericalThreshold \<Rightarrow> (string \<times> string) list result" where
  "violation_clauses fr t =
     bind_res (threshold_field t) (\<lambda>f.
       let field = ''input.facts.'' @ f;
           scope = (if truthy_str (applies_to t) then '' for '' @ the (applies_to t) else []) in
       if operator t = RANGE then
         (case value_upper t of
            None \<Rightarrow> raise AssertionError
          | Some up \<Rightarrow>
              let low_msg = ''sprintf('' @ quoted (''%s is %v %s, below the required minimum of %v %s'' @ scope @ '' (clause {clause})'')
                    @ '', ['' @ quoted (metric t) @ '', '' @ field @ '', '' @ quoted (unit t) @ '', ''
                    @ rego_scalar fr (t_value t) @ '', '' @ quoted (unit t) @ ''])'';
                  high_msg = ''sprintf('' @ quoted (''%s is %v %s, above the allowed maximum of %v %s'' @ scope @ '' (clause {clause})'')
                    @ '', ['' @ quoted (metric t) @ '', '' @ field @ '', '' @ quoted (unit t) @ '', ''
                    @ rego_scalar fr up @ '', '' @ quoted (unit t) @ ''])''
              in Inr [(field @ '' < '' @ rego_scalar fr (t_value t), low_msg),
                      (field @ '' > '' @ rego_scalar fr up, high_msg)])
       else
         bind_res (OPERATOR_NEGATION (operator t)) (\<lambda>fail_op.
           let msg = ''sprintf('' @ quoted (''%s is %v %s, which fails the required condition (%s %v %s'' @ scope @ '', clause {clause})'')
                 @ '', ['' @ quoted (metric t) @ '', '' @ field @ '', '' @ quoted (unit t) @ '', ''
                 @ quoted (operator_value (operator t)) @ '', '' @ rego_scalar fr (t_value t) @ '', ''
                 @ quoted (unit t) @ ''])''
           in Inr [(field @ '' '' @ fail_op @ '' '' @ rego_scalar fr (t_value t), msg)]))"

section \<open>The module\<close>

record CompiledRego =
  cr_rule_id :: string
  cr_package :: string
  rego_code :: string
  entrypoints :: "string list"
  cr_thresholds_compiled :: nat
  rule_version :: int
  policy_sha256 :: "string option"
  cr_canonical_facts_digest :: "string option"
  compiler_version :: string

definition json_opt_str :: "string option \<Rightarrow> string" where
  "json_opt_str s = (case s of None \<Rightarrow> ''null'' | Some t \<Rightarrow> json_str t)"

definition rego_title :: "ExtractedComplianceRule \<Rightarrow> string" where
  "rego_title rl =
     (case deterministic_logic rl of
        [t] \<Rightarrow> metric t @ '' Compliance Rule''
      | ts \<Rightarrow> ''Multi-Condition Compliance Rule ('' @ join '', '' (map metric ts) @ '')'')"

definition rego_header ::
  "ExtractedComplianceRule \<Rightarrow> int \<Rightarrow> string \<Rightarrow> string \<Rightarrow> string \<Rightarrow> string \<Rightarrow> string list" where
  "rego_header rl version clause cf_digest now_iso pkg =
     [''# METADATA'',
      ''# title: '' @ rego_title rl,
      ''# description: Auto-compiled from SEBI clause '' @ clause,
      ''# custom:'',
      ''#   rule_id: '' @ rule_id rl,
      ''#   rule_version: '' @ int_str version,
      ''#   clause_number: '' @ clause,
      ''#   circular_number: '' @ str_or (circular_number rl) ''unknown'',
      ''#   source_sha256: '' @ source_sha256 rl]
     @ (if truthy_str (source_document_sha256 rl)
        then [''#   source_document_sha256: '' @ the (source_document_sha256 rl)] else [])
     @ (if truthy_str (extracted_text_sha256 rl)
        then [''#   extracted_text_sha256: '' @ the (extracted_text_sha256 rl)] else [])
     @ [''#   canonical_facts_digest: '' @ cf_digest,
        ''#   obligation_type: '' @ obligation_value (obligation_type rl),
        ''#   generated_at: '' @ now_iso @ ''Z'',
        ''#   compiler: sebi-rego-compiler/1.0.0'',
        ''package '' @ pkg,
        [],
        ''import rego.v1'',
        [],
        ''default allow := false'',
        []]"

definition rego_condition ::
  "(rat \<Rightarrow> string) \<Rightarrow> nat \<times> NumericalThreshold \<Rightarrow> string list result" where
  "rego_condition fr p =
     (case p of (i, t) \<Rightarrow>
        bind_res (pass_condition fr t) (\<lambda>cond.
          Inr ([''# '' @ metric t @ '' '' @ operator_value (operator t) @ '' '' @ py_float_str fr (t_value t) @ unit t,
                ''cond_'' @ nat_str i @ '' if {'']
               @ map (\<lambda>l. INDENT @ l) (splitlines cond)
               @ [''}'', []])))"

definition rego_allow :: "bool \<Rightarrow> nat \<Rightarrow> string list" where
  "rego_allow guarded n =
     [''allow if {''] @ (if guarded then [INDENT @ ''entity_matches''] else [])
     @ map (\<lambda>i. INDENT @ ''cond_'' @ nat_str i) [0..<n] @ [''}'', []]"

definition rego_violations ::
  "(rat \<Rightarrow> string) \<Rightarrow> bool \<Rightarrow> string \<Rightarrow> NumericalThreshold \<Rightarrow> string list result" where
  "rego_violations fr guarded clause t =
     bind_res (violation_clauses fr t) (\<lambda>cls.
       Inr (concat (map (\<lambda>(fail_condition, msg_expr).
         [''violation contains msg if {'']
         @ (if guarded then [INDENT @ ''entity_matches''] else [])
         @ [INDENT @ fail_condition,
            INDENT @ ''msg := '' @ replace_str ''{clause}'' clause msg_expr,
            ''}'', []]) cls)))"

definition rego_decision :: "ExtractedComplianceRule \<Rightarrow> int \<Rightarrow> string \<Rightarrow> string \<Rightarrow> string list" where
  "rego_decision rl version clause cf_digest =
     [''deny := violation'', [], ''decision := {'',
      INDENT @ quoted ''allow'' @ '': allow,'',
      INDENT @ quoted ''violations'' @ '': violation,'',
      INDENT @ quoted ''rule_id'' @ '': '' @ quoted (rule_id rl) @ '','',
      INDENT @ quoted ''rule_version'' @ '': '' @ int_str version @ '','',
      INDENT @ quoted ''clause_number'' @ '': '' @ quoted clause @ '','',
      INDENT @ quoted ''circular_number'' @ '': '' @ json_opt_str (circular_number rl) @ '','',
      INDENT @ quoted ''obligation_type'' @ '': '' @ quoted (obligation_value (obligation_type rl)) @ '','',
      INDENT @ quoted ''source_sha256'' @ '': '' @ quoted (source_sha256 rl) @ '','',
      INDENT @ quoted ''source_document_sha256'' @ '': '' @ json_opt_str (source_document_sha256 rl) @ '','',
      INDENT @ quoted ''extracted_text_sha256'' @ '': '' @ json_opt_str (extracted_text_sha256 rl) @ '','',
      INDENT @ quoted ''canonical_facts_digest'' @ '': '' @ quoted cf_digest @ '','',
      ''}'', []]"

definition rule_domain :: "ExtractedComplianceRule \<Rightarrow> string" where
  "rule_domain rl =
     (let primary_entity = (case target_entities rl of [] \<Rightarrow> None | e # _ \<Rightarrow> normalized_entity e) in
      str_or (regulatory_domain rl) (resolve_domain (regulator rl) primary_entity))"

definition compile_rule_to_rego ::
  "(string \<Rightarrow> string) \<Rightarrow> (rat \<Rightarrow> string) \<Rightarrow> string \<Rightarrow> ExtractedComplianceRule \<Rightarrow> int \<Rightarrow> CompiledRego result" where
  "compile_rule_to_rego H fr now_iso rl version =
     (if deterministic_logic rl = [] then
        raise (ValueError (''Rule '' @ rule_id rl @ '' has no deterministic_logic to compile.''))
      else
        let pkg = rego_package_name (regulator rl) (rule_domain rl) (circular_number rl) (clause_number rl);
            clause = str_or (clause_number rl) ''unscoped'';
            guard = entity_guard rl;
            cf_digest = str_or (canonical_facts_digest rl)
              (compute_canonical_facts_digest H fr (deterministic_logic rl))
        in
        bind_res (map_res (rego_condition fr) (List.enumerate 0 (deterministic_logic rl))) (\<lambda>conds.
        bind_res (map_res (rego_violations fr (guard \<noteq> None) clause) (deterministic_logic rl)) (\<lambda>viols.
          let lines = rego_header rl version clause cf_digest now_iso pkg
                @ (case guard of None \<Rightarrow> [] | Some g \<Rightarrow> [''entity_matches if { '' @ g @ '' }'', []])
                @ concat conds
                @ rego_allow (guard \<noteq> None) (length (deterministic_logic rl))
                @ concat viols
                @ rego_decision rl version clause cf_digest;
              code_text = join [CHR 0x0A] lines
          in Inr \<lparr>cr_rule_id = rule_id rl, cr_package = pkg, rego_code = code_text,
                   entrypoints = [''allow'', ''deny'', ''decision''],
                   cr_thresholds_compiled = length (deterministic_logic rl), rule_version = version,
                   policy_sha256 = Some (H code_text), cr_canonical_facts_digest = Some cf_digest,
                   compiler_version = ''1.0.0''\<rparr>)))"

section \<open>One input contract for both back ends\<close>

lemma canonical_ids_no_dot: "get_canonical_fact i \<noteq> None \<Longrightarrow> CHR ''.'' \<notin> set i"
proof -
  have "list_all (\<lambda>k. CHR ''.'' \<notin> set k) (map fst canonical_facts)"
    by (simp add: canonical_facts_def)
  then show "get_canonical_fact i \<noteq> None \<Longrightarrow> CHR ''.'' \<notin> set i"
    by (force simp: get_canonical_fact_def list_all_iff dest: map_of_SomeD)
qed

lemma resolve_valid_canonical:
  assumes "fr_is_valid (resolve_canonical_fact m u v w)"
  shows "\<exists>i. canonical_identifier (resolve_canonical_fact m u v w) = Some i \<and> get_canonical_fact i \<noteq> None"
proof -
  obtain f where f: "match_fact m = Some f" "\<not> (m = [] \<or> strip m = [])"
    using assms by (auto simp: fr_is_valid_def resolve_canonical_fact_def split: if_splits option.splits)
  from match_fact_SomeD [OF f(1)] f show ?thesis by (simp add: resolve_canonical_fact_def)
qed

lemma metric_field_name_canonical:
  "metric_field_name m u False = Inr f \<Longrightarrow> get_canonical_fact f \<noteq> None"
  using resolve_valid_canonical [of m "Some u" None None]
  by (auto simp: metric_field_name_def Let_def split: if_splits)

lemma threshold_field_Inr:
  assumes "threshold_field t = Inr f"
  shows "get_canonical_fact f \<noteq> None" "field_of t = f" "threshold_var_path t = Inr (''facts.'' @ f)"
    "CHR ''.'' \<notin> set f"
proof -
  show canon: "get_canonical_fact f \<noteq> None"
    using assms metric_field_name_canonical by (auto simp: threshold_field_def split: if_splits)
  show "field_of t = f" "threshold_var_path t = Inr (''facts.'' @ f)"
    using assms by (auto simp: threshold_field_def field_of_def threshold_var_path_def split: if_splits)
  show "CHR ''.'' \<notin> set f" by (rule canonical_ids_no_dot [OF canon])
qed

section \<open>The conditions as comparisons\<close>

text \<open>Rego's comparison of two numbers.\<close>

definition rego_cmp :: "pyfloat \<Rightarrow> string \<times> pyfloat \<Rightarrow> bool" where
  "rego_cmp x c =
     (case c of (opr, v) \<Rightarrow>
        if opr = ''>='' then flt_le v x else if opr = ''>'' then flt_less v x
        else if opr = ''<='' then flt_le x v else if opr = ''<'' then flt_less x v
        else if opr = ''=='' then flt_eq x v else if opr = ''!='' then \<not> flt_eq x v else False)"

definition cmp_text :: "(rat \<Rightarrow> string) \<Rightarrow> string \<Rightarrow> string \<times> pyfloat \<Rightarrow> string" where
  "cmp_text fr f c = ''input.facts.'' @ f @ '' '' @ fst c @ '' '' @ rego_scalar fr (snd c)"

definition pass_cmps :: "NumericalThreshold \<Rightarrow> (string \<times> pyfloat) list" where
  "pass_cmps t =
     (if operator t = RANGE then [(''>='', t_value t), (''<='', the (value_upper t))]
      else [(operator_value (operator t), t_value t)])"

definition fail_cmps :: "NumericalThreshold \<Rightarrow> (string \<times> pyfloat) list" where
  "fail_cmps t =
     (if operator t = RANGE then [(''<'', t_value t), (''>'', the (value_upper t))]
      else case OPERATOR_NEGATION (operator t) of Inr opr \<Rightarrow> [(opr, t_value t)] | Inl _ \<Rightarrow> [])"

lemma pass_condition_text:
  "pass_condition fr t = Inr c \<Longrightarrow>
   c = join ([CHR 0x0A] @ INDENT) (map (cmp_text fr (field_of t)) (pass_cmps t))"
  by (auto simp: pass_condition_def bind_res_eq_Inr Let_def pass_cmps_def cmp_text_def
      threshold_field_Inr split: if_splits option.splits)

lemma violation_clauses_text:
  "violation_clauses fr t = Inr cls \<Longrightarrow> map fst cls = map (cmp_text fr (field_of t)) (fail_cmps t)"
  by (cases "operator t")
     (auto simp: violation_clauses_def bind_res_eq_Inr Let_def fail_cmps_def cmp_text_def
      threshold_field_Inr split: option.splits)

lemma range_upper: "pass_condition fr t = Inr c \<Longrightarrow> operator t = RANGE \<Longrightarrow> \<exists>up. value_upper t = Some up"
  by (auto simp: pass_condition_def bind_res_eq_Inr Let_def split: option.splits)

lemma pass_cmps_holds:
  "(operator t = RANGE \<Longrightarrow> \<exists>up. value_upper t = Some up) \<Longrightarrow>
   list_all (rego_cmp x) (pass_cmps t) \<longleftrightarrow> threshold_holds t x"
  by (cases "operator t") (auto simp: pass_cmps_def rego_cmp_def threshold_holds_def)

lemma fail_cmps_holds:
  assumes "operator t = RANGE \<Longrightarrow> \<exists>up. value_upper t = Some up \<and> up \<noteq> NaN" "t_value t \<noteq> NaN" "x \<noteq> NaN"
  shows "list_ex (rego_cmp x) (fail_cmps t) \<longleftrightarrow> \<not> threshold_holds t x"
  using assms
  by (cases "operator t")
     (auto simp: fail_cmps_def rego_cmp_def threshold_holds_def flt_not_le flt_not_less flt_eq_def
        dest: flt_le_less_trans)

text \<open>
  The \<open>allow\<close> and \<open>violation\<close> rules of the generated Rego are exact
  opposites: the condition block prints comparisons that hold of a number
  exactly when the threshold does, and the violation bodies print comparisons
  one of which holds exactly when the threshold fails, for every operator and
  for both bounds of a range, on the one fact field that the JSON-Logic back
  end reads as well.
\<close>

theorem rego_conditions_complement:
  assumes pass: "pass_condition fr t = Inr c" and viol: "violation_clauses fr t = Inr cls"
    and nan: "x \<noteq> NaN" "t_value t \<noteq> NaN" "value_upper t \<noteq> Some NaN"
  shows "\<exists>f ps qs. threshold_var_path t = Inr (''facts.'' @ f)
    \<and> c = join ([CHR 0x0A] @ INDENT) (map (cmp_text fr f) ps)
    \<and> map fst cls = map (cmp_text fr f) qs
    \<and> (list_all (rego_cmp x) ps \<longleftrightarrow> threshold_holds t x)
    \<and> (list_ex (rego_cmp x) qs \<longleftrightarrow> \<not> threshold_holds t x)"
proof -
  obtain f where "threshold_field t = Inr f" using pass by (auto simp: pass_condition_def bind_res_eq_Inr)
  then have "threshold_var_path t = Inr (''facts.'' @ field_of t)" by (simp add: threshold_field_Inr)
  moreover have "list_all (rego_cmp x) (pass_cmps t) \<longleftrightarrow> threshold_holds t x"
    using pass_cmps_holds range_upper [OF pass] by blast
  moreover have "list_ex (rego_cmp x) (fail_cmps t) \<longleftrightarrow> \<not> threshold_holds t x"
    using fail_cmps_holds [of t x] range_upper [OF pass] nan by auto
  ultimately show ?thesis
    using pass_condition_text [OF pass] violation_clauses_text [OF viol] by blast
qed

lemma demo_range_field: "threshold_field (demo_range hi) = Inr ''upfront_margin_pct''"
  by (simp add: threshold_field_def demo_range_def get_canonical_fact_def canonical_facts_def)

theorem rego_conditions_complement_witness:
  "\<exists>f qs. threshold_var_path (demo_range 30) = Inr (''facts.'' @ f)
    \<and> map fst (projr (violation_clauses ratio_repr (demo_range 30))) = map (cmp_text ratio_repr f) qs
    \<and> (list_ex (rego_cmp (Fin 40)) qs \<longleftrightarrow> \<not> threshold_holds (demo_range 30) (Fin 40))"
proof -
  obtain c cls where c: "pass_condition ratio_repr (demo_range 30) = Inr c"
    and cls: "violation_clauses ratio_repr (demo_range 30) = Inr cls"
    using demo_range_field [of 30]
    by (simp add: pass_condition_def violation_clauses_def demo_range_def Let_def)
  from rego_conditions_complement [OF c cls, of "Fin 40"] cls show ?thesis
    by (auto simp: demo_range_def)
qed

end
