(* ===== verification/Policy_Registry.thy ===== *)
theory Policy_Registry
  imports Redis_Store Rego_Compiler
begin

text \<open>
  Which compiled policies apply to which entity type: the Redis registry
  (\<open>app/execution/policy_registry.py\<close>), its tenant-partitioned variant with the
  OPA namespacing (\<open>app/execution/tenant_policy_registry.py\<close>) and the in-process
  cache in front of either (\<open>app/execution/policy_cache.py\<close>). The JSON lists
  stored in Redis are identified with the lists of entries they encode, the HTTP
  calls to OPA are left out, and the monotonic clock is an argument. The cache's
  hit and miss counters are kept; its Prometheus counters are not.
\<close>

section \<open>The interface of a lookup\<close>

record PolicyEntry =
  pe_rule_id :: string
  pe_package :: string
  pe_rule_version :: "int option"
  pe_policy_sha256 :: "string option"
  pe_canonical_facts_digest :: "string option"

text \<open>
  \<open>PolicyLookup\<close>: what the evaluator and the cache rely on. Every
  implementation answers with at most one entry per rule.
\<close>

locale policy_lookup =
  fixes lookup :: "'r \<Rightarrow> string \<Rightarrow> PolicyEntry list"
  assumes one_entry_per_rule: "distinct (map pe_rule_id (lookup r entity_type))"
begin

lemma lookup_unique:
  "e \<in> set (lookup r t) \<Longrightarrow> e' \<in> set (lookup r t) \<Longrightarrow> pe_rule_id e = pe_rule_id e' \<Longrightarrow> e = e'"
  using one_entry_per_rule [of r t] by (metis distinct_map inj_on_contraD)

end

section \<open>The registry\<close>

type_synonym registry = "PolicyEntry list redis"

definition registry_entry :: "CompiledRego \<Rightarrow> PolicyEntry" where
  "registry_entry compiled =
     \<lparr>pe_rule_id = cr_rule_id compiled, pe_package = cr_package compiled,
      pe_rule_version = Some (rule_version compiled), pe_policy_sha256 = policy_sha256 compiled,
      pe_canonical_facts_digest = cr_canonical_facts_digest compiled\<rparr>"

definition field_entries :: "string \<Rightarrow> string \<Rightarrow> registry \<Rightarrow> PolicyEntry list" where
  "field_entries key t db = (case r_hget db key t of Some es \<Rightarrow> es | None \<Rightarrow> [])"

definition or_wildcard :: "string list \<Rightarrow> string list" where
  "or_wildcard ts = (if ts = [] then [''*''] else ts)"

definition register_one :: "string \<Rightarrow> PolicyEntry \<Rightarrow> registry \<Rightarrow> string \<Rightarrow> registry" where
  "register_one key entry db t =
     r_hset key t (filter (\<lambda>e. pe_rule_id e \<noteq> pe_rule_id entry) (field_entries key t db) @ [entry]) db"

definition register :: "string \<Rightarrow> CompiledRego \<Rightarrow> string list \<Rightarrow> registry \<Rightarrow> registry" where
  "register key compiled ts db = foldl (register_one key (registry_entry compiled)) db (or_wildcard ts)"

definition drop_rule :: "string \<Rightarrow> PolicyEntry list \<Rightarrow> PolicyEntry list option" where
  "drop_rule i entries =
     (let filtered = filter (\<lambda>e. pe_rule_id e \<noteq> i) entries in
      if filtered \<noteq> [] then Some filtered else None)"

definition unregister :: "string \<Rightarrow> string \<Rightarrow> registry \<Rightarrow> registry" where
  "unregister key i db = r_hmap (drop_rule i) key db"

fun dedup :: "string list \<Rightarrow> PolicyEntry list \<Rightarrow> PolicyEntry list" where
  "dedup seen [] = []"
| "dedup seen (r # rs) =
     (if pe_rule_id r \<notin> set seen then r # dedup (pe_rule_id r # seen) rs else dedup seen rs)"

definition policies_for :: "string \<Rightarrow> registry \<Rightarrow> string \<Rightarrow> PolicyEntry list" where
  "policies_for key db t = dedup [] (concat (map (\<lambda>k. field_entries key k db) [t, ''*'']))"

section \<open>The tenant registry\<close>

definition BASELINE_TENANT :: string where "BASELINE_TENANT = ''sebi_baseline''"

definition registry_key :: "string \<Rightarrow> string \<Rightarrow> string" where
  "registry_key prefix tenant = prefix @ '':'' @ tenant"

definition tenant_entry :: "CompiledRego \<Rightarrow> PolicyEntry" where
  "tenant_entry compiled =
     \<lparr>pe_rule_id = cr_rule_id compiled, pe_package = cr_package compiled, pe_rule_version = None,
      pe_policy_sha256 = None, pe_canonical_facts_digest = None\<rparr>"

definition tenant_register_one :: "string \<Rightarrow> PolicyEntry \<Rightarrow> registry \<Rightarrow> string \<Rightarrow> registry" where
  "tenant_register_one key entry db t =
     (let entries = field_entries key t db in
      r_hset key t (if entry \<notin> set entries then entries @ [entry] else entries) db)"

definition tenant_register :: "string \<Rightarrow> string \<Rightarrow> CompiledRego \<Rightarrow> string list \<Rightarrow> registry \<Rightarrow> registry" where
  "tenant_register prefix tenant compiled ts db =
     foldl (tenant_register_one (registry_key prefix tenant) (tenant_entry compiled)) db (or_wildcard ts)"

definition tenant_unregister :: "string \<Rightarrow> string \<Rightarrow> string \<Rightarrow> registry \<Rightarrow> registry" where
  "tenant_unregister prefix tenant i db = unregister (registry_key prefix tenant) i db"

definition tenant_policies_for :: "string \<Rightarrow> string \<Rightarrow> registry \<Rightarrow> string \<Rightarrow> PolicyEntry list" where
  "tenant_policies_for prefix tenant db t =
     dedup []
       (concat (map (\<lambda>k. field_entries (registry_key prefix tenant) k db) [t, ''*''])
        @ (if tenant \<noteq> BASELINE_TENANT
           then concat (map (\<lambda>k. field_entries (registry_key prefix BASELINE_TENANT) k db) [t, ''*''])
           else []))"

definition tenant_clear :: "string \<Rightarrow> string \<Rightarrow> registry \<Rightarrow> registry" where
  "tenant_clear prefix tenant db = r_hclear (registry_key prefix tenant) db"

section \<open>Tenant namespaces in OPA\<close>

definition scoped_rule_id :: "string \<Rightarrow> string \<Rightarrow> string" where
  "scoped_rule_id tenant i =
     (let prefix = ''tenants_'' @ tenant @ ''_'' in if startswith i prefix then i else prefix @ i)"

definition scoped_package :: "string \<Rightarrow> string \<Rightarrow> string" where
  "scoped_package tenant pkg =
     (let ns = ''tenants.'' @ tenant in if startswith pkg ns then pkg else ns @ ''.'' @ pkg)"

definition scoped_source :: "string \<Rightarrow> CompiledRego \<Rightarrow> string" where
  "scoped_source tenant compiled =
     join [CHR 0x0A] (map (\<lambda>line.
       if startswith (strip line) ''package ''
       then ''package '' @ scoped_package tenant (cr_package compiled) else line)
       (splitlines (rego_code compiled)))"

section \<open>The cache\<close>

record CacheEntry =
  ce_policies :: "PolicyEntry list"
  ce_cached_at :: time

record PolicyCache =
  c_entries :: "string \<rightharpoonup> CacheEntry"
  c_hits :: nat
  c_misses :: nat

definition empty_cache :: PolicyCache where
  "empty_cache = \<lparr>c_entries = Map.empty, c_hits = 0, c_misses = 0\<rparr>"

definition cache_policies_for ::
  "(string \<Rightarrow> PolicyEntry list) \<Rightarrow> time \<Rightarrow> time \<Rightarrow> string \<Rightarrow> PolicyCache \<Rightarrow> PolicyCache \<times> PolicyEntry list" where
  "cache_policies_for src ttl now t c =
     (case c_entries c t of
        Some entry \<Rightarrow>
          if now - ce_cached_at entry < ttl then (c\<lparr>c_hits := c_hits c + 1\<rparr>, ce_policies entry)
          else (c\<lparr>c_misses := c_misses c + 1,
                   c_entries := (c_entries c)(t \<mapsto> \<lparr>ce_policies = src t, ce_cached_at = now\<rparr>)\<rparr>, src t)
      | None \<Rightarrow>
          (c\<lparr>c_misses := c_misses c + 1,
              c_entries := (c_entries c)(t \<mapsto> \<lparr>ce_policies = src t, ce_cached_at = now\<rparr>)\<rparr>, src t))"

definition invalidate :: "string \<Rightarrow> PolicyCache \<Rightarrow> PolicyCache" where
  "invalidate t c = c\<lparr>c_entries := (c_entries c)(t := None)\<rparr>"

definition invalidate_all :: "PolicyCache \<Rightarrow> PolicyCache" where
  "invalidate_all c = c\<lparr>c_entries := Map.empty\<rparr>"

section \<open>One entry per rule\<close>

lemma dedup_ids: "set (map pe_rule_id (dedup seen rs)) = set (map pe_rule_id rs) - set seen"
  by (induction seen rs rule: dedup.induct) auto

lemma dedup_distinct: "distinct (map pe_rule_id (dedup seen rs))"
proof (induction seen rs rule: dedup.induct)
  case (2 seen r rs)
  then show ?case using dedup_ids [of "pe_rule_id r # seen" rs] by auto
qed simp

lemma dedup_find:
  "find (\<lambda>e. pe_rule_id e = i) (dedup seen rs) = (if i \<in> set seen then None else find (\<lambda>e. pe_rule_id e = i) rs)"
  by (induction seen rs rule: dedup.induct) auto

lemma find_append: "find P (xs @ ys) = (case find P xs of Some x \<Rightarrow> Some x | None \<Rightarrow> find P ys)"
  by (induction xs) auto

interpretation flat: policy_lookup "policies_for key" for key
  by unfold_locales (simp only: policies_for_def dedup_distinct)

interpretation tenant: policy_lookup "tenant_policies_for prefix tenant" for prefix tenant
  by unfold_locales (simp only: tenant_policies_for_def dedup_distinct)

section \<open>The registry as a table\<close>

text \<open>
  Abstractly the registry is a table from entity type and rule id to the entry
  of that rule.
\<close>

definition reg_table :: "string \<Rightarrow> registry \<Rightarrow> string \<Rightarrow> string \<Rightarrow> PolicyEntry option" where
  "reg_table key db t i = find (\<lambda>e. pe_rule_id e = i) (field_entries key t db)"

lemma find_filter_ne: "find (\<lambda>e. f e = i) (filter (\<lambda>e. f e \<noteq> j) xs) = (if i = j then None else find (\<lambda>e. f e = i) xs)"
  by (induction xs) auto

lemma field_entries_hset:
  "field_entries key t (r_hset key' t' es db) = (if key = key' \<and> t = t' then es else field_entries key t db)"
  by (simp add: field_entries_def redis_simps)

lemma register_one_table:
  "reg_table key (register_one key entry db t') t =
     (if t = t' then (reg_table key db t)(pe_rule_id entry \<mapsto> entry) else reg_table key db t)"
proof
  fix i
  show "reg_table key (register_one key entry db t') t i =
     (if t = t' then (reg_table key db t)(pe_rule_id entry \<mapsto> entry) else reg_table key db t) i"
    by (auto simp: reg_table_def register_one_def field_entries_hset find_append find_filter_ne
        split: option.splits)
qed

lemma register_fold_table:
  "reg_table key (foldl (register_one key entry) db ts) t =
     (if t \<in> set ts then (reg_table key db t)(pe_rule_id entry \<mapsto> entry) else reg_table key db t)"
  by (induction ts arbitrary: db) (auto simp: register_one_table)

lemma unregister_table: "reg_table key (unregister key i db) t = (reg_table key db t)(i := None)"
proof
  fix j
  have "field_entries key t (unregister key i db) = filter (\<lambda>e. pe_rule_id e \<noteq> i) (field_entries key t db)"
    by (auto simp: field_entries_def unregister_def redis_simps drop_rule_def Let_def split: option.splits)
  then show "reg_table key (unregister key i db) t j = ((reg_table key db t)(i := None)) j"
    by (simp add: reg_table_def find_filter_ne)
qed

lemma policies_for_table:
  "find (\<lambda>e. pe_rule_id e = i) (policies_for key db t) =
     (case reg_table key db t i of Some e \<Rightarrow> Some e | None \<Rightarrow> reg_table key db ''*'' i)"
  by (simp add: policies_for_def dedup_find find_append reg_table_def split: option.splits)

text \<open>
  Claim C10. The policy registry implements a table from entity type and rule
  to the current entry: \<open>register\<close> sets the rule's entry for each named entity
  type (for the wildcard when none is named) and nothing else, \<open>unregister\<close>
  removes the rule everywhere and nothing else, and \<open>policies_for\<close> answers with
  exactly one entry per applicable rule, the entity's own entry before the
  wildcard's.
\<close>

theorem policy_registry_refines:
  "reg_table key (register key compiled ts db) t =
     (if t \<in> set (or_wildcard ts)
      then (reg_table key db t)(cr_rule_id compiled \<mapsto> registry_entry compiled) else reg_table key db t)
   \<and> reg_table key (unregister key i db) t = (reg_table key db t)(i := None)
   \<and> find (\<lambda>e. pe_rule_id e = i) (policies_for key db t) =
       (case reg_table key db t i of Some e \<Rightarrow> Some e | None \<Rightarrow> reg_table key db ''*'' i)
   \<and> distinct (map pe_rule_id (policies_for key db t))"
  using flat.one_entry_per_rule [of key db t]
  by (simp add: register_def register_fold_table unregister_table policies_for_table registry_entry_def)

section \<open>Tenant isolation and its limits\<close>

lemma registry_key_inject [simp]: "registry_key p t = registry_key p u \<longleftrightarrow> t = u"
  by (simp add: registry_key_def)

lemma tenant_register_other:
  "key \<noteq> registry_key prefix tenant \<Longrightarrow>
   field_entries key t (tenant_register prefix tenant compiled ts db) = field_entries key t db"
proof -
  assume ne: "key \<noteq> registry_key prefix tenant"
  have "field_entries key t (foldl (tenant_register_one (registry_key prefix tenant) e) db ts) = field_entries key t db" for e ts db
    using ne by (induction ts arbitrary: db) (simp_all add: tenant_register_one_def Let_def field_entries_hset)
  then show ?thesis by (simp add: tenant_register_def)
qed

lemma tenant_unregister_other:
  "key \<noteq> registry_key prefix tenant \<Longrightarrow>
   field_entries key t (tenant_unregister prefix tenant i db) = field_entries key t db"
  by (simp add: tenant_unregister_def unregister_def field_entries_def redis_simps)

lemma tenant_clear_other:
  "key \<noteq> registry_key prefix tenant \<Longrightarrow>
   field_entries key t (tenant_clear prefix tenant db) = field_entries key t db"
  by (simp add: tenant_clear_def field_entries_def redis_simps)

text \<open>
  Registry writes of one tenant are invisible to every other tenant:
  registering, unregistering or clearing policies in a tenant's partition
  leaves the policies another tenant sees unchanged, unless the writing tenant
  is the shared SEBI baseline.
\<close>

theorem tenant_registry_isolated:
  assumes "a \<noteq> b" and "a \<noteq> BASELINE_TENANT"
  shows "tenant_policies_for p b (tenant_register p a compiled ts db) t = tenant_policies_for p b db t
    \<and> tenant_policies_for p b (tenant_unregister p a i db) t = tenant_policies_for p b db t
    \<and> tenant_policies_for p b (tenant_clear p a db) t = tenant_policies_for p b db t"
proof -
  have "registry_key p b \<noteq> registry_key p a" "registry_key p BASELINE_TENANT \<noteq> registry_key p a"
    using assms by auto
  then show ?thesis
    by (simp add: tenant_policies_for_def tenant_register_other tenant_unregister_other tenant_clear_other)
qed

definition demo_compiled :: "string \<Rightarrow> CompiledRego" where
  "demo_compiled pkg = \<lparr>cr_rule_id = ''r1'', cr_package = pkg, rego_code = [], entrypoints = [],
     cr_thresholds_compiled = 0, rule_version = 1, policy_sha256 = None,
     cr_canonical_facts_digest = None, compiler_version = ''1.0.0''\<rparr>"

theorem tenant_registry_isolated_witness:
  "tenant_policies_for ''reg'' ''amc_b'' (tenant_register ''reg'' ''broker_a'' (demo_compiled ''sebi.x'') [] redis_empty) ''Stockbroker'' = []"
proof -
  have "tenant_policies_for ''reg'' ''amc_b'' redis_empty ''Stockbroker'' = []"
    by (simp add: tenant_policies_for_def field_entries_def redis_empty_def redis_defs)
  with tenant_registry_isolated [of "''broker_a''" "''amc_b''" "''reg''" "demo_compiled ''sebi.x''" "[]" redis_empty "''Stockbroker''" "[]"]
  show ?thesis by (simp add: BASELINE_TENANT_def)
qed

text \<open>
  The OPA namespaces of tenants are not disjoint as documented. The
  policy id is the tenant name and the rule id joined by an underscore, so two
  tenants can write the same OPA policy; and a package is taken to be in the
  tenant's namespace when it merely starts with the tenant's name, so a package
  of tenant \<open>a @ s\<close> is evaluated as tenant \<open>a\<close>'s own.
\<close>

theorem tenant_namespaces_overlap:
  assumes "\<not> startswith (b @ ''_'' @ i) (''tenants_'' @ a @ ''_'')"
    and "\<not> startswith i (''tenants_'' @ a @ ''_'' @ b @ ''_'')"
  shows "scoped_rule_id a (b @ ''_'' @ i) = scoped_rule_id (a @ ''_'' @ b) i
    \<and> scoped_package a (scoped_package (a @ s) pkg) = scoped_package (a @ s) pkg"
proof -
  have "startswith (scoped_package (a @ s) pkg) (''tenants.'' @ a)"
    by (auto simp: scoped_package_def Let_def startswith_iff)
  then have "scoped_package a (scoped_package (a @ s) pkg) = scoped_package (a @ s) pkg"
    by (simp add: scoped_package_def [of a] Let_def)
  with assms show ?thesis by (simp add: scoped_rule_id_def Let_def)
qed

theorem tenant_namespaces_overlap_witness:
  "scoped_rule_id ''amc'' ''b_margin'' = scoped_rule_id ''amc_b'' ''margin''
   \<and> scoped_package ''amc'' (scoped_package (''amc'' @ ''_b'') ''sebi.x'') = scoped_package (''amc'' @ ''_b'') ''sebi.x''"
  using tenant_namespaces_overlap [of "''b''" "''margin''" "''amc''" "''_b''" "''sebi.x''"]
  by (simp add: startswith_def)

text \<open>
  The tenant registry keeps superseded entries: registering a rule
  again under a new package leaves the first entry in place, and the lookup,
  which keeps the first entry of a rule, goes on answering with the old package.
\<close>

theorem tenant_reregister_stale:
  assumes "r_hget db (registry_key p a) t = None" and "cr_package old \<noteq> cr_package new"
    and "cr_rule_id old = cr_rule_id new"
  shows "find (\<lambda>e. pe_rule_id e = cr_rule_id new)
    (tenant_policies_for p a (tenant_register p a new [t] (tenant_register p a old [t] db)) t) = Some (tenant_entry old)"
  using assms
  by (simp add: tenant_policies_for_def tenant_register_def or_wildcard_def tenant_register_one_def Let_def
      field_entries_hset field_entries_def [of "registry_key p a" t db] tenant_entry_def dedup_find find_append)

theorem tenant_reregister_stale_witness:
  "find (\<lambda>e. pe_rule_id e = ''r1'')
    (tenant_policies_for ''reg'' ''amc'' (tenant_register ''reg'' ''amc'' (demo_compiled ''v2'') [''Broker'']
      (tenant_register ''reg'' ''amc'' (demo_compiled ''v1'') [''Broker''] redis_empty)) ''Broker'')
   = Some (tenant_entry (demo_compiled ''v1''))"
  using tenant_reregister_stale [of redis_empty "''reg''" "''amc''" "''Broker''" "demo_compiled ''v1''" "demo_compiled ''v2''"]
  by (simp add: demo_compiled_def redis_empty_def redis_defs)

section \<open>Staleness of the cache\<close>

text \<open>
  \<open>src s\<close> is what the registry answers at time \<open>s\<close>. A run of the cache is any
  sequence of lookups, at times that never go back, and of evictions.
\<close>

inductive cache_run :: "(time \<Rightarrow> string \<Rightarrow> PolicyEntry list) \<Rightarrow> time \<Rightarrow> time \<Rightarrow> PolicyCache \<Rightarrow> bool"
  for src ttl where
  start: "cache_run src ttl now empty_cache"
| look: "cache_run src ttl s c \<Longrightarrow> s \<le> now \<Longrightarrow> cache_run src ttl now (fst (cache_policies_for (src now) ttl now t c))"
| evict: "cache_run src ttl now c \<Longrightarrow> cache_run src ttl now (invalidate t c)"
| evict_all: "cache_run src ttl now c \<Longrightarrow> cache_run src ttl now (invalidate_all c)"

definition cache_faithful :: "(time \<Rightarrow> string \<Rightarrow> PolicyEntry list) \<Rightarrow> time \<Rightarrow> PolicyCache \<Rightarrow> bool" where
  "cache_faithful src now c \<longleftrightarrow>
     (\<forall>t e. c_entries c t = Some e \<longrightarrow> ce_cached_at e \<le> now \<and> ce_policies e = src (ce_cached_at e) t)"

lemma cache_run_faithful: "cache_run src ttl now c \<Longrightarrow> cache_faithful src now c"
proof (induction rule: cache_run.induct)
  case (look s c now t)
  then show ?case
    by (fastforce simp: cache_faithful_def cache_policies_for_def split: option.splits if_splits)
qed (auto simp: cache_faithful_def empty_cache_def invalidate_def invalidate_all_def split: if_splits)

lemma cache_answer:
  assumes "cache_faithful src s c" "s \<le> now"
  shows "\<exists>u. u \<le> now \<and> (u = now \<or> now - u < ttl) \<and> snd (cache_policies_for (src now) ttl now t c) = src u t"
proof (cases "c_entries c t")
  case None
  then show ?thesis by (auto simp: cache_policies_for_def)
next
  case (Some e)
  then have "ce_cached_at e \<le> now" "ce_policies e = src (ce_cached_at e) t"
    using assms by (fastforce simp: cache_faithful_def)+
  with Some show ?thesis by (auto simp: cache_policies_for_def)
qed

text \<open>
  Staleness of the policy cache is bounded by its time to live: after
  any run of lookups and evictions, the answer to a lookup is what the registry
  answered at some instant less than \<open>ttl\<close> ago, and a lookup right after an
  eviction of that entity type is the registry's current answer.
\<close>

theorem cache_staleness_bounded:
  assumes "cache_run src ttl s c" and "s \<le> now"
  shows "(\<exists>u. u \<le> now \<and> (u = now \<or> now - u < ttl) \<and> snd (cache_policies_for (src now) ttl now t c) = src u t)
    \<and> snd (cache_policies_for (src now) ttl now t (invalidate t c)) = src now t"
  using cache_answer [OF cache_run_faithful [OF assms(1)] assms(2)]
  by (simp add: cache_policies_for_def invalidate_def)

theorem cache_staleness_bounded_witness:
  "snd (cache_policies_for (\<lambda>_. []) 30 5 ''Broker'' (invalidate ''Broker'' empty_cache)) = []"
  using cache_staleness_bounded [OF cache_run.start, where src = "\<lambda>_ _. []" and ttl = 30 and now = 5 and t = "''Broker''"]
  by (metis order_refl)

end
