(* ===== verification/Policy_Plane.thy ===== *)
theory Policy_Plane
  imports Policy_Registry
begin

text \<open>
  How an activated or revoked policy reaches live evaluation:
  \<open>app/execution/policy_publisher.py\<close> (the writer), the event contract of
  \<open>app/execution/policy_events.py\<close> and the subscriber
  \<open>app/execution/policy_hot_reload.py\<close>. OPA is the map from policy id to Rego
  source it holds; \<open>opa_up\<close> says whether a call to it succeeds, an
  \<open>OPAEngineError\<close> being raised otherwise. The reconnect loop and the decoding of
  raw Redis messages are left out, as are the emission times of events.
\<close>

section \<open>Data\<close>

datatype PolicyEventType = EV_APPROVED | EV_AMENDED | EV_REVOKED

record PolicyEvent =
  ev_type :: PolicyEventType
  pv_rule_id :: string
  pv_rule_version :: int
  pv_package :: string
  pv_entity_types :: "string list"
  pv_rego_code :: "string option"
  pv_compiled_rule_id :: int
  pv_approved_by :: "string option"

record CompiledRule =
  row_id :: int
  row_rule_id :: string
  row_rule_version :: int
  rego_policy :: "string option"
  opa_package_name :: "string option"
  is_compiled :: bool
  is_active :: bool

record policy_plane =
  opa_policies :: "string \<rightharpoonup> string"
  plane_registry :: registry
  plane_cache :: PolicyCache
  plane_events :: "PolicyEvent list"

definition event_rego :: "string \<Rightarrow> string \<Rightarrow> string \<Rightarrow> CompiledRego" where
  "event_rego i pkg source =
     \<lparr>cr_rule_id = i, cr_package = pkg, rego_code = source, entrypoints = [''allow'', ''deny'', ''decision''],
      cr_thresholds_compiled = 0, rule_version = 1, policy_sha256 = None,
      cr_canonical_facts_digest = None, compiler_version = ''1.0.0''\<rparr>"

definition publish_policy :: "CompiledRego \<Rightarrow> policy_plane \<Rightarrow> policy_plane" where
  "publish_policy c pl = pl\<lparr>opa_policies := (opa_policies pl)(cr_rule_id c \<mapsto> rego_code c)\<rparr>"

definition remove_policy :: "string \<Rightarrow> policy_plane \<Rightarrow> policy_plane" where
  "remove_policy i pl = pl\<lparr>opa_policies := (opa_policies pl)(i := None)\<rparr>"

section \<open>The subscriber\<close>

definition apply_active :: "string \<Rightarrow> bool \<Rightarrow> PolicyEvent \<Rightarrow> policy_plane \<Rightarrow> policy_plane \<times> unit result" where
  "apply_active key opa_up ev pl =
     (if \<not> truthy_str (pv_rego_code ev) then (pl, Inr ())
      else
        let compiled = event_rego (pv_rule_id ev) (pv_package ev) (the (pv_rego_code ev)) in
        if \<not> opa_up then (pl, raise OPAEngineError)
        else
          let pl' = publish_policy compiled pl in
          (pl'\<lparr>plane_registry := register key compiled (pv_entity_types ev) (plane_registry pl')\<rparr>, Inr ()))"

definition apply_revoked :: "string \<Rightarrow> bool \<Rightarrow> PolicyEvent \<Rightarrow> policy_plane \<Rightarrow> policy_plane \<times> unit result" where
  "apply_revoked key opa_up ev pl =
     (if \<not> opa_up then (pl, raise OPAEngineError)
      else
        let pl' = remove_policy (pv_rule_id ev) pl in
        (pl'\<lparr>plane_registry := unregister key (pv_rule_id ev) (plane_registry pl')\<rparr>, Inr ()))"

definition apply_event :: "string \<Rightarrow> bool \<Rightarrow> PolicyEvent \<Rightarrow> policy_plane \<Rightarrow> policy_plane \<times> unit result" where
  "apply_event key opa_up ev pl =
     (case (if ev_type ev = EV_REVOKED then apply_revoked key opa_up ev pl else apply_active key opa_up ev pl) of
        (pl', Inl e) \<Rightarrow> (pl', Inl e)
      | (pl', Inr _) \<Rightarrow>
          (pl'\<lparr>plane_cache := foldl (\<lambda>c t. invalidate t c) (plane_cache pl') (pv_entity_types ev)\<rparr>, Inr ()))"

definition reconcile_row :: "string \<Rightarrow> (string \<Rightarrow> bool) \<Rightarrow> policy_plane \<Rightarrow> CompiledRule \<Rightarrow> policy_plane" where
  "reconcile_row key opa_ok pl row =
     (if \<not> truthy_str (rego_policy row) \<or> \<not> truthy_str (opa_package_name row) \<or> \<not> opa_ok (row_rule_id row) then pl
      else
        let compiled = event_rego (row_rule_id row) (the (opa_package_name row)) (the (rego_policy row));
            pl' = publish_policy compiled pl
        in pl'\<lparr>plane_registry := register key compiled [''*''] (plane_registry pl')\<rparr>)"

definition reconcile_active_policies ::
  "string \<Rightarrow> (string \<Rightarrow> bool) \<Rightarrow> CompiledRule list \<Rightarrow> policy_plane \<Rightarrow> policy_plane" where
  "reconcile_active_policies key opa_ok rows pl =
     foldl (reconcile_row key opa_ok) pl (filter (\<lambda>row. is_active row \<and> is_compiled row) rows)"

section \<open>The publisher\<close>

text \<open>
  The publisher's optional collaborators are there when the corresponding flag
  is set; a failing call to OPA is logged and ignored.
\<close>

record publisher =
  has_opa :: bool
  has_registry :: bool
  has_cache :: bool

definition publish_active ::
  "publisher \<Rightarrow> string \<Rightarrow> bool \<Rightarrow> PolicyEventType \<Rightarrow> CompiledRule \<Rightarrow> string list \<Rightarrow> string option
   \<Rightarrow> policy_plane \<Rightarrow> policy_plane \<times> unit result" where
  "publish_active pub key opa_up ty row ts approved_by pl =
     (if \<not> truthy_str (rego_policy row) \<or> \<not> truthy_str (opa_package_name row)
      then (pl, raise (ValueError ''no compiled Rego/package to publish''))
      else
        let ets = or_wildcard ts;
            ev = \<lparr>ev_type = ty, pv_rule_id = row_rule_id row, pv_rule_version = row_rule_version row,
                  pv_package = the (opa_package_name row), pv_entity_types = ets,
                  pv_rego_code = rego_policy row, pv_compiled_rule_id = row_id row,
                  pv_approved_by = approved_by\<rparr>;
            compiled = event_rego (row_rule_id row) (the (opa_package_name row)) (the (rego_policy row));
            pl = pl\<lparr>plane_events := plane_events pl @ [ev]\<rparr>;
            pl = (if has_opa pub \<and> opa_up then publish_policy compiled pl else pl);
            pl = (if has_registry pub
                  then pl\<lparr>plane_registry := register key compiled ets (plane_registry pl)\<rparr> else pl);
            pl = (if has_cache pub
                  then pl\<lparr>plane_cache := foldl (\<lambda>c t. invalidate t c) (plane_cache pl) ets\<rparr> else pl)
        in (pl, Inr ()))"

definition publish_approved ::
  "publisher \<Rightarrow> string \<Rightarrow> bool \<Rightarrow> CompiledRule \<Rightarrow> string \<Rightarrow> string list \<Rightarrow> policy_plane \<Rightarrow> policy_plane \<times> unit result" where
  "publish_approved pub key opa_up row approved_by ts pl =
     publish_active pub key opa_up EV_APPROVED row ts (Some approved_by) pl"

definition publish_amended ::
  "publisher \<Rightarrow> string \<Rightarrow> bool \<Rightarrow> CompiledRule \<Rightarrow> string list \<Rightarrow> policy_plane \<Rightarrow> policy_plane \<times> unit result" where
  "publish_amended pub key opa_up row ts pl = publish_active pub key opa_up EV_AMENDED row ts None pl"

definition publish_revoked ::
  "publisher \<Rightarrow> string \<Rightarrow> bool \<Rightarrow> CompiledRule \<Rightarrow> string list \<Rightarrow> policy_plane \<Rightarrow> policy_plane" where
  "publish_revoked pub key opa_up row ts pl =
     (let ets = or_wildcard ts;
          ev = \<lparr>ev_type = EV_REVOKED, pv_rule_id = row_rule_id row, pv_rule_version = row_rule_version row,
                pv_package = str_or (opa_package_name row) [], pv_entity_types = ets,
                pv_rego_code = None, pv_compiled_rule_id = row_id row, pv_approved_by = None\<rparr>;
          pl = pl\<lparr>plane_events := plane_events pl @ [ev]\<rparr>;
          pl = (if has_opa pub \<and> opa_up then remove_policy (row_rule_id row) pl else pl);
          pl = (if has_registry pub
                then pl\<lparr>plane_registry := unregister key (row_rule_id row) (plane_registry pl)\<rparr> else pl)
      in if has_cache pub
         then pl\<lparr>plane_cache := foldl (\<lambda>c t. invalidate t c) (plane_cache pl) ets\<rparr> else pl)"

section \<open>What hot reload promises\<close>

lemma invalidate_fold:
  "c_entries (foldl (\<lambda>c t. invalidate t c) c ts) t = (if t \<in> set ts then None else c_entries c t)"
  by (induction ts arbitrary: c) (auto simp: invalidate_def)

lemma cache_miss: "c_entries c t = None \<Longrightarrow> snd (cache_policies_for src ttl now t c) = src t"
  by (simp add: cache_policies_for_def)

lemma event_rego_simps [simp]:
  "cr_rule_id (event_rego i pkg s) = i" "cr_package (event_rego i pkg s) = pkg" "rego_code (event_rego i pkg s) = s"
  by (simp_all add: event_rego_def)

text \<open>
  A revocation event takes effect at once: when OPA answers, applying
  it removes the policy from OPA, leaves no lookup of the registry that returns
  the rule, for any entity type, and makes the local cache refetch every entity
  type the event names; when OPA is down nothing changes and the error is
  raised.
\<close>

theorem revoke_event_effect:
  assumes "ev_type ev = EV_REVOKED"
  shows "apply_event key False ev pl = (pl, raise OPAEngineError)
    \<and> (case apply_event key True ev pl of (pl', res) \<Rightarrow>
        res = Inr ()
        \<and> opa_policies pl' (pv_rule_id ev) = None
        \<and> find (\<lambda>e. pe_rule_id e = pv_rule_id ev) (policies_for key (plane_registry pl') t) = None
        \<and> (t \<in> set (pv_entity_types ev) \<longrightarrow>
             snd (cache_policies_for (policies_for key (plane_registry pl')) ttl now t (plane_cache pl')) =
               policies_for key (plane_registry pl') t))"
  using assms
  by (simp add: apply_event_def apply_revoked_def remove_policy_def Let_def policies_for_table
      unregister_table invalidate_fold cache_miss)

definition demo_plane :: policy_plane where
  "demo_plane = \<lparr>opa_policies = Map.empty, plane_registry = redis_empty, plane_cache = empty_cache, plane_events = []\<rparr>"

definition demo_event :: "PolicyEventType \<Rightarrow> string list \<Rightarrow> PolicyEvent" where
  "demo_event ty ts = \<lparr>ev_type = ty, pv_rule_id = ''r1'', pv_rule_version = 1, pv_package = ''sebi.x'',
     pv_entity_types = ts, pv_rego_code = Some ''package sebi.x'', pv_compiled_rule_id = 1, pv_approved_by = None\<rparr>"

theorem revoke_event_effect_witness:
  "apply_event ''reg'' False (demo_event EV_REVOKED [''Broker'']) demo_plane = (demo_plane, raise OPAEngineError)"
  using revoke_event_effect [where ev = "demo_event EV_REVOKED [''Broker'']" and key = "''reg''" and pl = demo_plane
    and t = "''Broker''" and ttl = 30 and now = 5]
  by (simp add: demo_event_def)

text \<open>
  An approval event takes effect for the entity types it names: OPA
  holds the new source, the registry has the new entry under each of them, and
  the local cache answers with the registry's current list.
\<close>

theorem approve_event_effect:
  assumes "ev_type ev \<noteq> EV_REVOKED" and "pv_rego_code ev = Some (c # cs)" and "t \<in> set (pv_entity_types ev)"
  shows "case apply_event key True ev pl of (pl', res) \<Rightarrow>
      res = Inr () \<and> opa_policies pl' (pv_rule_id ev) = Some (c # cs)
      \<and> registry_entry (event_rego (pv_rule_id ev) (pv_package ev) (c # cs))
          \<in> set (snd (cache_policies_for (policies_for key (plane_registry pl')) ttl now t (plane_cache pl')))"
proof -
  let ?cr = "event_rego (pv_rule_id ev) (pv_package ev) (c # cs)"
  let ?db = "register key ?cr (pv_entity_types ev) (plane_registry pl)"
  have "t \<in> set (or_wildcard (pv_entity_types ev))" using assms(3) by (auto simp: or_wildcard_def)
  then have "reg_table key ?db t (pv_rule_id ev) = Some (registry_entry ?cr)"
    by (simp add: register_def register_fold_table registry_entry_def)
  then have "find (\<lambda>e. pe_rule_id e = pv_rule_id ev) (policies_for key ?db t) = Some (registry_entry ?cr)"
    by (simp add: policies_for_table)
  then have "registry_entry ?cr \<in> set (policies_for key ?db t)" by (metis find_Some_iff nth_mem)
  with assms show ?thesis
    by (simp add: apply_event_def apply_active_def publish_policy_def Let_def invalidate_fold cache_miss)
qed

theorem approve_event_effect_witness:
  "registry_entry (event_rego ''r1'' ''sebi.x'' ''package sebi.x'') \<in>
     set (snd (cache_policies_for
       (policies_for ''reg'' (plane_registry (fst (apply_event ''reg'' True (demo_event EV_APPROVED [''Broker'']) demo_plane))))
       30 5 ''Broker'' (plane_cache (fst (apply_event ''reg'' True (demo_event EV_APPROVED [''Broker'']) demo_plane)))))"
  using approve_event_effect [where ev = "demo_event EV_APPROVED [''Broker'']" and c = "CHR ''p''" and cs = "''ackage sebi.x''"
    and t = "''Broker''" and key = "''reg''" and pl = demo_plane and ttl = 30 and now = 5]
  by (simp add: demo_event_def case_prod_beta)

text \<open>
  The wildcard event, the default of every publisher, evicts nothing
  that live evaluation reads: the cache is keyed by concrete entity types and
  the event names only \<open>*\<close>. An entity type cached less than \<open>ttl\<close> ago keeps being
  answered from the old list after the policy was approved.
\<close>

theorem wildcard_event_keeps_stale_cache:
  assumes "ev_type ev \<noteq> EV_REVOKED" and "pv_entity_types ev = [''*'']" and "t \<noteq> ''*''"
    and "c_entries (plane_cache pl) t = Some entry" and "now - ce_cached_at entry < ttl"
  shows "snd (cache_policies_for src ttl now t (plane_cache (fst (apply_event key True ev pl)))) = ce_policies entry"
proof -
  have "c_entries (plane_cache (fst (apply_event key True ev pl))) t = Some entry"
    using assms(1-4)
    by (simp add: apply_event_def apply_active_def publish_policy_def Let_def invalidate_def)
  with assms(5) show ?thesis by (simp add: cache_policies_for_def)
qed

theorem wildcard_event_keeps_stale_cache_witness:
  "snd (cache_policies_for (policies_for ''reg'' (plane_registry (fst (apply_event ''reg'' True (demo_event EV_APPROVED [''*''])
      (demo_plane\<lparr>plane_cache := fst (cache_policies_for (\<lambda>_. []) 30 1 ''Broker'' empty_cache)\<rparr>))))) 30 5 ''Broker''
     (plane_cache (fst (apply_event ''reg'' True (demo_event EV_APPROVED [''*''])
        (demo_plane\<lparr>plane_cache := fst (cache_policies_for (\<lambda>_. []) 30 1 ''Broker'' empty_cache)\<rparr>))))) = []"
  by (subst wildcard_event_keeps_stale_cache [where entry = "\<lparr>ce_policies = [], ce_cached_at = 1\<rparr>"])
     (simp_all add: demo_event_def demo_plane_def cache_policies_for_def empty_cache_def)

end
