(* ===== verification/Hitl_Flags.thy ===== *)
theory Hitl_Flags
  imports Json_Logic
begin

text \<open>
  \<open>app/compiler/hitl.py\<close>: the checks that route what cannot be compiled safely
  to a human, and the flag models of \<open>app/compiler/models.py\<close>. A flag's random
  id, its prose description and its timestamp are left out.
\<close>

section \<open>Data\<close>

datatype HITLReasonCode =
    QUALITATIVE_DIRECTIVE | AMBIGUOUS_SPAN | LOW_EXTRACTION_CONFIDENCE | AUDIT_NOT_APPROVED
  | NO_DETERMINISTIC_LOGIC | CONFLICTING_THRESHOLDS | UNRESOLVED_ENTITY | SELF_HEALED_REQUIRES_REVIEW
  | UNKNOWN_FACT_METRIC | INVALID_METRIC_UNIT | INVALID_THRESHOLD_VALUE

datatype HITLSeverity = BLOCKING | ADVISORY

record HITLFlag =
  hf_rule_id :: string
  reason_code :: HITLReasonCode
  hf_severity :: HITLSeverity
  hf_source_excerpt :: "string option"
  hf_field_path :: "string option"

definition LOW_CONFIDENCE_THRESHOLD :: pyfloat where
  "LOW_CONFIDENCE_THRESHOLD = Fin (3 / 4)"

definition indexed_path :: "string \<Rightarrow> nat \<Rightarrow> string" where
  "indexed_path field i = field @ ''['' @ nat_str i @ '']''"

section \<open>The checks\<close>

definition flag_qualitative_directives :: "ExtractedComplianceRule \<Rightarrow> HITLFlag list" where
  "flag_qualitative_directives rl =
     map (\<lambda>(i, qd). \<lparr>hf_rule_id = rule_id rl, reason_code = QUALITATIVE_DIRECTIVE,
            hf_severity = ADVISORY, hf_source_excerpt = Some (qd_evidence qd),
            hf_field_path = Some (indexed_path ''qualitative_directives'' i)\<rparr>)
       (List.enumerate 0 (qualitative_directives rl))"

definition flag_ambiguous_spans :: "ExtractedComplianceRule \<Rightarrow> HITLFlag list" where
  "flag_ambiguous_spans rl =
     map (\<lambda>(i, span). \<lparr>hf_rule_id = rule_id rl, reason_code = AMBIGUOUS_SPAN,
            hf_severity = ADVISORY, hf_source_excerpt = Some span,
            hf_field_path = Some (indexed_path ''ambiguous_spans'' i)\<rparr>)
       (List.enumerate 0 (ambiguous_spans rl))"

definition flag_low_confidence :: "ExtractedComplianceRule \<Rightarrow> HITLFlag list" where
  "flag_low_confidence rl =
     (if flt_le LOW_CONFIDENCE_THRESHOLD (extraction_confidence rl) then []
      else [\<lparr>hf_rule_id = rule_id rl, reason_code = LOW_EXTRACTION_CONFIDENCE,
             hf_severity = BLOCKING, hf_source_excerpt = None,
             hf_field_path = Some ''extraction_confidence''\<rparr>])"

definition flag_unresolved_entities :: "ExtractedComplianceRule \<Rightarrow> HITLFlag list" where
  "flag_unresolved_entities rl =
     map (\<lambda>(i, e). \<lparr>hf_rule_id = rule_id rl, reason_code = UNRESOLVED_ENTITY,
            hf_severity = ADVISORY, hf_source_excerpt = Some (te_evidence e),
            hf_field_path = Some (indexed_path ''target_entities'' i)\<rparr>)
       (filter (\<lambda>(i, e). normalized_entity e = None) (List.enumerate 0 (target_entities rl)))"

definition flag_no_deterministic_logic :: "ExtractedComplianceRule \<Rightarrow> HITLFlag list" where
  "flag_no_deterministic_logic rl =
     (if deterministic_logic rl \<noteq> [] then []
      else if obligation_type rl \<notin> set [MANDATORY, PROHIBITED, CONDITIONAL] then []
      else [\<lparr>hf_rule_id = rule_id rl, reason_code = NO_DETERMINISTIC_LOGIC,
             hf_severity = BLOCKING, hf_source_excerpt = None,
             hf_field_path = Some ''deterministic_logic''\<rparr>])"

text \<open>Python's \<open>min\<close> and \<open>max\<close> of a non-empty list of floats.\<close>

definition py_min :: "pyfloat list \<Rightarrow> pyfloat" where
  "py_min xs = foldl (\<lambda>m x. if flt_less x m then x else m) (hd xs) (tl xs)"

definition py_max :: "pyfloat list \<Rightarrow> pyfloat" where
  "py_max xs = foldl (\<lambda>m x. if flt_less m x then x else m) (hd xs) (tl xs)"

definition field_key :: "NumericalThreshold \<Rightarrow> string" where
  "field_key t = metric t @ ''|'' @ unit t"

definition by_field :: "NumericalThreshold list \<Rightarrow> (string \<times> NumericalThreshold list) list" where
  "by_field ts = map (\<lambda>k. (k, filter (\<lambda>t. field_key t = k) ts)) (rev (remdups (rev (map field_key ts))))"

definition lower_bounds :: "NumericalThreshold list \<Rightarrow> pyfloat list" where
  "lower_bounds ts = map t_value (filter (\<lambda>t. operator_value (operator t) \<in> set [''>='', ''>'']) ts)"

definition upper_bounds :: "NumericalThreshold list \<Rightarrow> pyfloat list" where
  "upper_bounds ts = map t_value (filter (\<lambda>t. operator_value (operator t) \<in> set [''<='', ''<'']) ts)"

definition conflicting :: "NumericalThreshold list \<Rightarrow> bool" where
  "conflicting ts \<longleftrightarrow> \<not> length ts < 2 \<and> lower_bounds ts \<noteq> [] \<and> upper_bounds ts \<noteq> []
     \<and> flt_less (py_max (upper_bounds ts)) (py_min (lower_bounds ts))"

definition flag_conflicting_thresholds :: "ExtractedComplianceRule \<Rightarrow> HITLFlag list" where
  "flag_conflicting_thresholds rl =
     map (\<lambda>_. \<lparr>hf_rule_id = rule_id rl, reason_code = CONFLICTING_THRESHOLDS,
            hf_severity = BLOCKING, hf_source_excerpt = None,
            hf_field_path = Some ''deterministic_logic''\<rparr>)
       (filter (\<lambda>(k, ts). conflicting ts) (by_field (deterministic_logic rl)))"

definition flag_audit_not_approved :: "AuditedComplianceRule \<Rightarrow> HITLFlag list" where
  "flag_audit_not_approved audited =
     (if verdict (audit audited) = APPROVED then []
      else [\<lparr>hf_rule_id = rule_id (rule audited), reason_code = AUDIT_NOT_APPROVED,
             hf_severity = BLOCKING, hf_source_excerpt = None, hf_field_path = None\<rparr>])"

definition fact_flag :: "ExtractedComplianceRule \<Rightarrow> nat \<times> NumericalThreshold \<Rightarrow> HITLFlag list" where
  "fact_flag rl p =
     (case p of (i, t) \<Rightarrow>
        let flag = (\<lambda>code sub. [\<lparr>hf_rule_id = rule_id rl, reason_code = code, hf_severity = BLOCKING,
              hf_source_excerpt = Some (nt_evidence t),
              hf_field_path = Some (indexed_path ''deterministic_logic'' i @ sub)\<rparr>])
        in case fr_status (resolve_canonical_fact (metric t) (Some (unit t)) (Some (t_value t)) (value_upper t)) of
             MISSING_MAPPING \<Rightarrow> flag UNKNOWN_FACT_METRIC ''.metric''
           | WRONG_UNIT \<Rightarrow> flag INVALID_METRIC_UNIT ''.unit''
           | WRONG_THRESHOLD \<Rightarrow> flag INVALID_THRESHOLD_VALUE ''.value''
           | VALID \<Rightarrow> [])"

definition flag_unmapped_or_invalid_facts :: "ExtractedComplianceRule \<Rightarrow> HITLFlag list" where
  "flag_unmapped_or_invalid_facts rl =
     concat (map (fact_flag rl) (List.enumerate 0 (deterministic_logic rl)))"

definition collect_hitl_flags :: "AuditedComplianceRule \<Rightarrow> HITLFlag list" where
  "collect_hitl_flags audited =
     (let rl = rule audited in
      flag_audit_not_approved audited @ flag_low_confidence rl @ flag_unmapped_or_invalid_facts rl
      @ flag_conflicting_thresholds rl @ flag_no_deterministic_logic rl
      @ flag_qualitative_directives rl @ flag_ambiguous_spans rl @ flag_unresolved_entities rl)"

definition has_blocking_flags :: "HITLFlag list \<Rightarrow> bool" where
  "has_blocking_flags flags = list_ex (\<lambda>f. hf_severity f = BLOCKING) flags"

section \<open>Exactly what blocks a rule\<close>

definition threshold_valid :: "NumericalThreshold \<Rightarrow> bool" where
  "threshold_valid t \<longleftrightarrow>
     fr_status (resolve_canonical_fact (metric t) (Some (unit t)) (Some (t_value t)) (value_upper t)) = VALID"

lemma has_blocking_append [simp]:
  "has_blocking_flags (xs @ ys) \<longleftrightarrow> has_blocking_flags xs \<or> has_blocking_flags ys"
  by (simp add: has_blocking_flags_def)

lemma blocking_checks:
  "has_blocking_flags (flag_audit_not_approved a) \<longleftrightarrow> verdict (audit a) \<noteq> APPROVED"
  "has_blocking_flags (flag_low_confidence rl) \<longleftrightarrow> \<not> flt_le LOW_CONFIDENCE_THRESHOLD (extraction_confidence rl)"
  "has_blocking_flags (flag_no_deterministic_logic rl) \<longleftrightarrow>
     deterministic_logic rl = [] \<and> obligation_type rl \<noteq> RECOMMENDED"
  "\<not> has_blocking_flags (flag_qualitative_directives rl)"
  "\<not> has_blocking_flags (flag_ambiguous_spans rl)"
  "\<not> has_blocking_flags (flag_unresolved_entities rl)"
  by (cases "obligation_type rl";
      auto simp: has_blocking_flags_def flag_audit_not_approved_def flag_low_confidence_def
        flag_no_deterministic_logic_def flag_qualitative_directives_def flag_ambiguous_spans_def
        flag_unresolved_entities_def list_ex_iff)+

lemma blocking_fact_flag: "has_blocking_flags (fact_flag rl (i, t)) \<longleftrightarrow> \<not> threshold_valid t"
  by (simp add: fact_flag_def has_blocking_flags_def threshold_valid_def split: FactValidationStatus.split)

lemma blocking_facts:
  "has_blocking_flags (flag_unmapped_or_invalid_facts rl) \<longleftrightarrow>
     (\<exists>t\<in>set (deterministic_logic rl). \<not> threshold_valid t)"
proof -
  have "has_blocking_flags (concat (map (fact_flag rl) (List.enumerate n ts))) \<longleftrightarrow>
      (\<exists>t\<in>set ts. \<not> threshold_valid t)" for n ts
    by (induction ts arbitrary: n) (auto simp: blocking_fact_flag has_blocking_flags_def [of "[]"])
  then show ?thesis by (simp add: flag_unmapped_or_invalid_facts_def)
qed

lemma blocking_conflict:
  "has_blocking_flags (flag_conflicting_thresholds rl) \<longleftrightarrow>
     (\<exists>t\<in>set (deterministic_logic rl).
        conflicting (filter (\<lambda>u. field_key u = field_key t) (deterministic_logic rl)))"
  by (auto simp: flag_conflicting_thresholds_def has_blocking_flags_def by_field_def list_ex_iff)

text \<open>
  The gate in front of the compiler: a rule carries a blocking flag
  exactly when the auditor did not approve it, or the extraction confidence is
  below 0.75 (or not a number), or some threshold does not resolve to a
  canonical fact with an allowed unit and value, or two bounds on one field
  were found to conflict, or an obligation that is not a mere recommendation
  has no threshold at all. Qualitative directives, ambiguous spans and
  unresolved entities never block.
\<close>

theorem blocking_flags_iff:
  "(\<not> has_blocking_flags (collect_hitl_flags a)) \<longleftrightarrow>
     verdict (audit a) = APPROVED
     \<and> flt_le LOW_CONFIDENCE_THRESHOLD (extraction_confidence (rule a))
     \<and> list_all threshold_valid (deterministic_logic (rule a))
     \<and> list_all (\<lambda>t. \<not> conflicting (filter (\<lambda>u. field_key u = field_key t) (deterministic_logic (rule a))))
         (deterministic_logic (rule a))
     \<and> (if deterministic_logic (rule a) = [] then obligation_type (rule a) = RECOMMENDED else True)"
  by (auto simp: collect_hitl_flags_def Let_def blocking_checks blocking_facts blocking_conflict list_all_iff)

section \<open>The conflict check\<close>

lemma foldl_pick_in: "foldl (\<lambda>m x. if P m x then x else m) a xs \<in> insert a (set xs)"
proof (induction xs arbitrary: a)
  case (Cons x xs)
  then show ?case by (cases "P a x") (auto dest: subsetD [rotated])
qed simp

lemma py_min_in: "xs \<noteq> [] \<Longrightarrow> py_min xs \<in> set xs"
  using foldl_pick_in [of "\<lambda>m x. flt_less x m" "hd xs" "tl xs"] by (cases xs) (simp_all add: py_min_def)

lemma py_max_in: "xs \<noteq> [] \<Longrightarrow> py_max xs \<in> set xs"
  using foldl_pick_in [of "\<lambda>m x. flt_less m x" "hd xs" "tl xs"] by (cases xs) (simp_all add: py_max_def)

lemma bound_operators:
  "operator_value opr \<in> set [''>='', ''>''] \<longleftrightarrow> opr = GTE \<or> opr = GT"
  "operator_value opr \<in> set [''<='', ''<''] \<longleftrightarrow> opr = LTE \<or> opr = LT"
  by (cases opr; simp)+

lemma lower_bound_holds:
  "l \<in> set (lower_bounds ts) \<Longrightarrow> \<forall>t\<in>set ts. threshold_holds t x \<Longrightarrow> flt_le l x"
  by (force simp: lower_bounds_def bound_operators threshold_holds_def flt_le_def simp del: list.set
      dest: bspec)

lemma upper_bound_holds:
  "u \<in> set (upper_bounds ts) \<Longrightarrow> \<forall>t\<in>set ts. threshold_holds t x \<Longrightarrow> flt_le x u"
  by (force simp: upper_bounds_def bound_operators threshold_holds_def flt_le_def simp del: list.set
      dest: bspec)

text \<open>
  The conflict check raises no false alarm: thresholds it reports as
  conflicting cannot all hold of any number.
\<close>

theorem conflicting_unsatisfiable:
  assumes "conflicting ts"
  shows "\<not> list_all (\<lambda>t. threshold_holds t x) ts"
proof
  assume "list_all (\<lambda>t. threshold_holds t x) ts"
  then have all: "\<forall>t\<in>set ts. threshold_holds t x" by (simp add: list_all_iff)
  from assms have ne: "lower_bounds ts \<noteq> []" "upper_bounds ts \<noteq> []"
    and less: "flt_less (py_max (upper_bounds ts)) (py_min (lower_bounds ts))"
    by (simp_all add: conflicting_def)
  have "flt_le (py_min (lower_bounds ts)) (py_max (upper_bounds ts))"
    using lower_bound_holds [OF py_min_in [OF ne(1)] all] upper_bound_holds [OF py_max_in [OF ne(2)] all]
    by (rule flt_le_trans)
  from flt_le_less_trans [OF this less] show False by simp
qed

definition demo_bound :: "ComparisonOperator \<Rightarrow> pyfloat \<Rightarrow> NumericalThreshold" where
  "demo_bound opr v = \<lparr>metric = ''Upfront Margin'', canonical_fact = Some ''upfront_margin_pct'',
     operator = opr, t_value = v, value_upper = None, unit = ''%'', applies_to = None, nt_evidence = []\<rparr>"

theorem conflicting_unsatisfiable_witness:
  "conflicting [demo_bound GTE (Fin 20), demo_bound LT (Fin 15)]
   \<and> \<not> list_all (\<lambda>t. threshold_holds t (Fin 18)) [demo_bound GTE (Fin 20), demo_bound LT (Fin 15)]"
proof -
  have c: "conflicting [demo_bound GTE (Fin 20), demo_bound LT (Fin 15)]"
    by (simp add: conflicting_def demo_bound_def lower_bounds_def upper_bounds_def py_min_def py_max_def)
  from conflicting_unsatisfiable [OF c] c show ?thesis by blast
qed

text \<open>
  The conflict check is not complete although it is documented to
  find thresholds that cannot both be true: it compares the least lower bound
  with the greatest upper bound. With two lower bounds around an upper bound
  (at least \<open>a\<close>, at least \<open>b\<close>, at most \<open>u\<close>, where \<open>a \<le> u < b\<close>) nothing is
  reported, and no number satisfies the three.
\<close>

theorem conflict_check_incomplete:
  assumes "flt_le a u" and "flt_less u b"
  shows "\<not> conflicting [demo_bound GTE a, demo_bound GTE b, demo_bound LTE u]
    \<and> \<not> list_all (\<lambda>t. threshold_holds t x) [demo_bound GTE a, demo_bound GTE b, demo_bound LTE u]"
proof -
  have ab: "\<not> flt_less b a" using assms by (metis flt_le_less_trans flt_less_irrefl flt_less_trans)
  have ua: "\<not> flt_less u a" using assms(1) by (metis flt_le_less_trans flt_less_irrefl)
  have "\<not> conflicting [demo_bound GTE a, demo_bound GTE b, demo_bound LTE u]"
    using ab ua by (simp add: conflicting_def demo_bound_def lower_bounds_def upper_bounds_def py_min_def py_max_def)
  moreover have "\<not> (flt_le b x \<and> flt_le x u)"
    using assms(2) by (metis flt_le_less_trans flt_le_trans flt_less_irrefl)
  ultimately show ?thesis by (auto simp: threshold_holds_def demo_bound_def)
qed

theorem conflict_check_incomplete_witness:
  "\<not> conflicting [demo_bound GTE (Fin 10), demo_bound GTE (Fin 30), demo_bound LTE (Fin 20)]
   \<and> \<not> list_all (\<lambda>t. threshold_holds t (Fin 25))
       [demo_bound GTE (Fin 10), demo_bound GTE (Fin 30), demo_bound LTE (Fin 20)]"
  by (rule conflict_check_incomplete) (simp_all add: flt_le_def flt_eq_def)

end
