(* ===== verification/Compile_Pipeline.thy ===== *)
theory Compile_Pipeline
  imports Hitl_Flags Rego_Compiler
begin

text \<open>
  \<open>app/compiler/pipeline.py\<close>: the flags, the gate, both back ends and the two
  checks on the JSON-Logic output. The context of a serialisation error names
  the rule without Python's quotes around its id.
\<close>

record CompilationResult =
  cp_rule_id :: string
  compiled :: bool
  rego :: "CompiledRego option"
  json_logic :: "JsonLogicRule option"
  hitl_flags :: "HITLFlag list"

definition compile_audited_rule ::
  "(string \<Rightarrow> string) \<Rightarrow> (rat \<Rightarrow> string) \<Rightarrow> string \<Rightarrow> AuditedComplianceRule \<Rightarrow> int \<Rightarrow> CompilationResult result" where
  "compile_audited_rule H fr now_iso audited version =
     (let rl = rule audited; flags = collect_hitl_flags audited in
      if has_blocking_flags flags \<or> deterministic_logic rl = [] then
        Inr \<lparr>cp_rule_id = rule_id rl, compiled = False, rego = None, json_logic = None, hitl_flags = flags\<rparr>
      else
        bind_res (compile_rule_to_rego H fr now_iso rl version) (\<lambda>rg.
        bind_res (compile_rule_to_jsonlogic fr rl) (\<lambda>jl.
        bind_res (validate_json_logic_ast (logic jl) ''$'') (\<lambda>_.
        bind_res (validate_json_serializable fr (logic jl) (''JsonLogicRule.logic for rule_id='' @ rule_id rl)) (\<lambda>_.
          Inr \<lparr>cp_rule_id = rule_id rl, compiled = True, rego = Some rg, json_logic = Some jl,
                hitl_flags = flags\<rparr>)))))"

definition compile_audited_rules ::
  "(string \<Rightarrow> string) \<Rightarrow> (rat \<Rightarrow> string) \<Rightarrow> string \<Rightarrow> AuditedComplianceRule list \<Rightarrow> CompilationResult list result" where
  "compile_audited_rules H fr now_iso audited_rules =
     map_res (\<lambda>a. compile_audited_rule H fr now_iso a 1) audited_rules"

section \<open>When a back end succeeds\<close>

definition range_complete :: "NumericalThreshold \<Rightarrow> bool" where
  "range_complete t \<longleftrightarrow> (operator t = RANGE \<longrightarrow> value_upper t \<noteq> None)"

definition compilable :: "NumericalThreshold \<Rightarrow> bool" where
  "compilable t \<longleftrightarrow> (\<exists>f. threshold_field t = Inr f) \<and> range_complete t"

lemma pass_condition_ok: "(\<exists>c. pass_condition fr t = Inr c) \<longleftrightarrow> compilable t"
  by (cases "operator t = RANGE")
     (auto simp: pass_condition_def compilable_def range_complete_def bind_res_eq_Inr Let_def split: option.splits)

lemma violation_clauses_ok: "(\<exists>c. violation_clauses fr t = Inr c) \<longleftrightarrow> compilable t"
  by (cases "operator t")
     (auto simp: violation_clauses_def compilable_def range_complete_def bind_res_eq_Inr Let_def split: option.splits)

lemma threshold_to_logic_ok: "compilable t \<Longrightarrow> \<exists>n. threshold_to_logic t = Inr n"
  by (auto simp: threshold_to_logic_def compilable_def range_complete_def threshold_field_Inr split: option.splits)

lemma map_res_ok: "(\<exists>ys. map_res f xs = Inr ys) \<longleftrightarrow> (\<forall>x\<in>set xs. \<exists>y. f x = Inr y)"
  by (induction xs) (auto simp: bind_res_eq_Inr)

lemma compile_rego_ok:
  "(\<exists>r. compile_rule_to_rego H fr now rl version = Inr r) \<longleftrightarrow>
     deterministic_logic rl \<noteq> [] \<and> (\<forall>t\<in>set (deterministic_logic rl). compilable t)"
proof -
  have "(\<exists>y. rego_condition fr (i, t) = Inr y) \<longleftrightarrow> compilable t" for i t
    by (auto simp: rego_condition_def bind_res_eq_Inr pass_condition_ok [of fr, symmetric])
  then have cond: "(\<exists>y. rego_condition fr p = Inr y) \<longleftrightarrow> compilable (snd p)" for p by (cases p) simp
  have snds: "snd ` set (List.enumerate 0 ts) = set ts" for ts :: "NumericalThreshold list"
    by (metis list.set_map map_snd_enumerate)
  have conds: "(\<exists>ys. map_res (rego_condition fr) (List.enumerate 0 ts) = Inr ys) \<longleftrightarrow> (\<forall>t\<in>set ts. compilable t)" for ts
    unfolding map_res_ok cond by (simp flip: snds [of ts])
  have viols: "(\<exists>ys. map_res (rego_violations fr g cl) ts = Inr ys) \<longleftrightarrow> (\<forall>t\<in>set ts. compilable t)" for g cl ts
    unfolding map_res_ok
    by (auto simp: rego_violations_def bind_res_eq_Inr violation_clauses_ok [of fr, symmetric])
  show ?thesis
    unfolding compile_rule_to_rego_def Let_def
    using conds [of "deterministic_logic rl"] by (auto simp: bind_res_ex_Inr viols)
qed

lemma threshold_var_path_ok: "compilable t \<Longrightarrow> \<exists>p. threshold_var_path t = Inr p"
  by (auto simp: compilable_def threshold_field_Inr)

lemma compile_jsonlogic_ok:
  assumes "deterministic_logic rl \<noteq> []" "\<forall>t\<in>set (deterministic_logic rl). compilable t"
  shows "\<exists>j. compile_rule_to_jsonlogic fr rl = Inr j"
proof -
  obtain ns where "map_res threshold_to_logic (deterministic_logic rl) = Inr ns"
    using map_res_ok [THEN iffD2, of "deterministic_logic rl" threshold_to_logic] assms(2) threshold_to_logic_ok
    by metis
  moreover obtain ps where "map_res threshold_var_path (deterministic_logic rl) = Inr ps"
    using map_res_ok [THEN iffD2, of "deterministic_logic rl" threshold_var_path] assms(2) threshold_var_path_ok
    by metis
  moreover have "\<exists>m. message_part fr c t = Inr m" if "compilable t" for c t
    using threshold_var_path_ok [OF that] by (auto simp: message_part_def Let_def)
  then obtain ms where "map_res (message_part fr (str_or (clause_number rl) ''unscoped'')) (deterministic_logic rl) = Inr ms"
    using map_res_ok [THEN iffD2, of "deterministic_logic rl" "message_part fr (str_or (clause_number rl) ''unscoped'')"]
      assms(2) by metis
  ultimately show ?thesis
    using assms(1) by (simp add: compile_rule_to_jsonlogic_def make_data_schema_def message_template_def Let_def)
qed

lemma compiled_fields_no_dot:
  assumes "compile_rule_to_rego H fr now rl version = Inr r" "t \<in> set (deterministic_logic rl)"
  shows "CHR ''.'' \<notin> set (field_of t)"
proof -
  from assms compile_rego_ok have "compilable t" by blast
  then obtain f where "threshold_field t = Inr f" by (auto simp: compilable_def)
  from threshold_field_Inr [OF this] show ?thesis by simp
qed

lemma compile_audited_Inr:
  assumes "compile_audited_rule H fr now a version = Inr res" "json_logic res = Some j"
  shows "\<exists>r. compile_rule_to_rego H fr now (rule a) version = Inr r"
    "compile_rule_to_jsonlogic fr (rule a) = Inr j" "\<not> has_blocking_flags (collect_hitl_flags a)"
  using assms by (auto simp: compile_audited_rule_def Let_def bind_res_eq_Inr split: if_splits)

section \<open>What compilation promises\<close>

text \<open>
  Claim C3. Compilation is correct: if the pipeline hands out a JSON-Logic rule
  for an audited clause, then evaluating it on any input document answers true
  exactly when the document's entity type is one the clause names (or the
  clause names none) and every threshold's fact is present, is a number and
  meets the threshold. A missing or non-numeric fact never counts as compliant.
\<close>

theorem compiled_rule_correct:
  assumes "compile_audited_rule H fr now a version = Inr res" and "json_logic res = Some j"
  shows "evaluate_jsonlogic (logic j) (input_document ent fs) = Inr (PBool True) \<longleftrightarrow>
    entity_applies (rule a) ent \<and> (\<forall>t\<in>set (deterministic_logic (rule a)). fact_satisfies fs t)"
proof -
  note comp = compile_audited_Inr [OF assms]
  from comp(1) obtain r where r: "compile_rule_to_rego H fr now (rule a) version = Inr r" by blast
  show ?thesis
    by (rule jsonlogic_allow_iff [OF comp(2)]) (use compiled_fields_no_dot [OF r] in blast)
qed

text \<open>
  On a document that supplies a number for every threshold, the
  compiled rule always answers, and its answer is the meaning of the clause:
  the evaluator raises no exception and returns that boolean.
\<close>

theorem compiled_rule_answers:
  assumes "compile_audited_rule H fr now a version = Inr res" and "json_logic res = Some j"
    and facts: "\<forall>t\<in>set (deterministic_logic (rule a)). \<exists>v x. map_of fs (field_of t) = Some v \<and> num_of v = Some x"
  shows "evaluate_jsonlogic (logic j) (input_document ent fs) =
    Inr (PBool (entity_applies (rule a) ent \<and> (\<forall>t\<in>set (deterministic_logic (rule a)). fact_satisfies fs t)))"
proof -
  note comp = compile_audited_Inr [OF assms(1,2)]
  from comp(1) obtain r where r: "compile_rule_to_rego H fr now (rule a) version = Inr r" by blast
  show ?thesis
    by (rule jsonlogic_total [OF comp(2) _ facts]) (use compiled_fields_no_dot [OF r] in blast)
qed

lemma compile_audited_cases:
  assumes "\<not> has_blocking_flags (collect_hitl_flags a)" "deterministic_logic (rule a) \<noteq> []"
    and "\<forall>t\<in>set (deterministic_logic (rule a)). compilable t"
  shows "(\<exists>res. compile_audited_rule H fr now a version = Inr res \<and> compiled res) \<longleftrightarrow>
    (\<forall>t\<in>set (deterministic_logic (rule a)). finite_threshold t)"
proof -
  from compile_rego_ok assms(2,3) obtain r where r: "compile_rule_to_rego H fr now (rule a) version = Inr r" by blast
  from compile_jsonlogic_ok assms(2,3) obtain j where j: "compile_rule_to_jsonlogic fr (rule a) = Inr j" by blast
  show ?thesis
    using assms(1,2) by (simp add: compile_audited_rule_def Let_def r j compiled_validates [OF j] compiled_serializable [OF j])
qed

text \<open>
  Claim C29. Exactly which rules compile: the pipeline produces a compiled rule
  if and only if no blocking flag is raised, there is a threshold, every
  threshold names a fact of the taxonomy, every range has its upper bound, and
  every number is finite. The validator of the JSON-Logic tree never rejects
  what the compiler emits.
\<close>

theorem compile_succeeds_iff:
  "(\<exists>res. compile_audited_rule H fr now a version = Inr res \<and> compiled res) \<longleftrightarrow>
     \<not> has_blocking_flags (collect_hitl_flags a) \<and> deterministic_logic (rule a) \<noteq> []
     \<and> list_all (\<lambda>t. compilable t \<and> finite_threshold t) (deterministic_logic (rule a))"
  (is "?L \<longleftrightarrow> ?R")
proof
  assume L: ?L
  then have gate: "\<not> has_blocking_flags (collect_hitl_flags a)" "deterministic_logic (rule a) \<noteq> []"
    by (auto simp: compile_audited_rule_def Let_def split: if_splits)
  from L gate have "\<exists>r. compile_rule_to_rego H fr now (rule a) version = Inr r"
    by (auto simp: compile_audited_rule_def Let_def bind_res_eq_Inr)
  then have c: "\<forall>t\<in>set (deterministic_logic (rule a)). compilable t" using compile_rego_ok by blast
  with gate L compile_audited_cases [OF gate c, of H fr now version] show ?R by (simp add: list_all_iff)
next
  assume R: ?R
  then have "\<forall>t\<in>set (deterministic_logic (rule a)). compilable t" by (auto simp: list_all_iff)
  from compile_audited_cases [OF _ _ this] R show ?L by (auto simp: list_all_iff)
qed

subsection \<open>Where the gate and the compiler disagree\<close>

lemma map_res_first_error: "f x = Inl e \<Longrightarrow> map_res f (x # xs) = Inl e"
  by simp

text \<open>
  A range threshold without an upper bound passes every check of the
  gate and then stops the compiler with an \<open>AssertionError\<close>: the pipeline neither
  compiles the rule nor routes it to a human.
\<close>

theorem open_range_crashes:
  assumes gate: "\<not> has_blocking_flags (collect_hitl_flags a)"
    and first: "deterministic_logic (rule a) = t # ts"
    and open_range: "operator t = RANGE" "value_upper t = None"
    and field: "threshold_field t = Inr f"
  shows "compile_audited_rule H fr now a version = raise AssertionError"
proof -
  have "rego_condition fr (0, t) = raise AssertionError"
    using open_range field by (simp add: rego_condition_def pass_condition_def Let_def)
  then have "compile_rule_to_rego H fr now (rule a) version = raise AssertionError"
    by (simp add: compile_rule_to_rego_def Let_def first)
  with gate first show ?thesis by (simp add: compile_audited_rule_def Let_def)
qed

definition demo_rule :: "NumericalThreshold list \<Rightarrow> ExtractedComplianceRule" where
  "demo_rule ts = \<lparr>rule_id = ''r1'', source_chunk_id = ''c1'', source_sha256 = ''ab'',
     source_document_sha256 = None, extracted_text_sha256 = None, circular_number = Some ''SEBI/1'',
     clause_number = Some ''3.2'', section_path = [], regulator = SEBI, regulatory_domain = None,
     target_entities = [\<lparr>raw_text = ''stock broker'', normalized_entity = Some ''Stockbroker'', te_evidence = []\<rparr>],
     trigger_conditions = [], deterministic_logic = ts, qualitative_directives = [],
     obligation_type = MANDATORY, extraction_confidence = Fin 1, ambiguous_spans = [],
     extraction_notes = None, canonical_facts_digest = Some ''d''\<rparr>"

definition demo_audited :: "NumericalThreshold list \<Rightarrow> AuditedComplianceRule" where
  "demo_audited ts = \<lparr>rule = demo_rule ts,
     audit = \<lparr>ca_rule_id = ''r1'', verdict = APPROVED, fidelity_score = Fin 1, findings = [],
       verified_quote_count = 1, unverified_quote_count = 0\<rparr>, revision_round = 0\<rparr>"

lemma demo_metric_match: "match_fact ''Upfront Margin'' = Some fact_upfront_margin_pct"
proof -
  have "map_option fact_id (match_fact ''Upfront Margin'') = Some ''upfront_margin_pct''" by code_simp
  then obtain f where "match_fact ''Upfront Margin'' = Some f" "fact_id f = ''upfront_margin_pct''" by auto
  moreover have "get_canonical_fact ''upfront_margin_pct'' = Some fact_upfront_margin_pct"
    by (simp add: get_canonical_fact_def canonical_facts_def)
  ultimately show ?thesis using match_fact_by_id by blast
qed

lemma demo_unit_ok: "unit_ok fact_upfront_margin_pct (Some ''%'')"
proof -
  have "normalize_unit ''%'' = ''%''" by code_simp
  then show ?thesis by (simp add: unit_ok_def fact_upfront_margin_pct_def)
qed

lemma demo_threshold_valid:
  assumes "metric t = ''Upfront Margin''" "unit t = ''%''" "in_bounds fact_upfront_margin_pct (Some (t_value t))"
    "in_bounds fact_upfront_margin_pct (value_upper t)"
  shows "threshold_valid t"
proof -
  have "strip ''Upfront Margin'' \<noteq> []" by code_simp
  with assms demo_metric_match demo_unit_ok show ?thesis
    by (simp add: threshold_valid_def resolve_canonical_fact_def)
qed

lemma demo_not_blocked:
  assumes "\<forall>t\<in>set ts. threshold_valid t" "length ts = 1"
  shows "\<not> has_blocking_flags (collect_hitl_flags (demo_audited ts))"
proof -
  obtain t where t: "ts = [t]" using assms(2) by (auto simp: length_Suc_conv)
  have "flt_le LOW_CONFIDENCE_THRESHOLD (Fin 1)"
    by (simp add: LOW_CONFIDENCE_THRESHOLD_def flt_le_def)
  with assms(1) t show ?thesis
    by (auto simp: collect_hitl_flags_def Let_def blocking_checks blocking_facts blocking_conflict
        demo_audited_def demo_rule_def conflicting_def)
qed

definition open_range :: NumericalThreshold where
  "open_range = (demo_range 20)\<lparr>value_upper := None\<rparr>"

theorem open_range_crashes_witness:
  "compile_audited_rule (\<lambda>s. s) ratio_repr ''now'' (demo_audited [open_range]) 1 = raise AssertionError"
proof (rule open_range_crashes)
  have "threshold_valid open_range"
    by (rule demo_threshold_valid)
       (simp_all add: open_range_def demo_range_def in_bounds_def fact_upfront_margin_pct_def)
  then show "\<not> has_blocking_flags (collect_hitl_flags (demo_audited [open_range]))"
    by (intro demo_not_blocked) simp_all
  show "threshold_field open_range = Inr ''upfront_margin_pct''"
    by (simp add: open_range_def threshold_field_def demo_range_def get_canonical_fact_def canonical_facts_def)
qed (simp_all add: demo_audited_def demo_rule_def open_range_def demo_range_def)

text \<open>
  The extractor chooses the executable field after all: a threshold
  whose \<open>canonical_fact\<close> names any entry of the taxonomy raises exactly the
  flags it raised without it, because the check resolves the metric name only,
  and both back ends then read the supplied field, not the one the metric
  resolves to.
\<close>

theorem supplied_fact_bypasses_check:
  assumes "get_canonical_fact g \<noteq> None" and "g \<noteq> []"
  shows "fact_flag rl (i, t\<lparr>canonical_fact := Some g\<rparr>) = fact_flag rl (i, t)
    \<and> threshold_field (t\<lparr>canonical_fact := Some g\<rparr>) = Inr g
    \<and> threshold_var_path (t\<lparr>canonical_fact := Some g\<rparr>) = Inr (''facts.'' @ g)"
  using assms
  by (simp add: fact_flag_def threshold_field_def threshold_var_path_def split: FactValidationStatus.split)

theorem supplied_fact_bypasses_check_witness:
  "fact_flag (demo_rule []) (0, demo_margin\<lparr>canonical_fact := Some ''crar_pct''\<rparr>) = fact_flag (demo_rule []) (0, demo_margin)
    \<and> threshold_field (demo_margin\<lparr>canonical_fact := Some ''crar_pct''\<rparr>) = Inr ''crar_pct''
    \<and> threshold_var_path (demo_margin\<lparr>canonical_fact := Some ''crar_pct''\<rparr>) = Inr (''facts.crar_pct'')"
  using supplied_fact_bypasses_check [of "''crar_pct''" "demo_rule []" 0 demo_margin]
  by (simp add: get_canonical_fact_def canonical_facts_def)

subsection \<open>A compiled rule\<close>

lemma demo_compiles:
  obtains res j where "compile_audited_rule (\<lambda>s. s) ratio_repr ''now'' (demo_audited [demo_margin]) 1 = Inr res"
    "json_logic res = Some j"
proof -
  have "threshold_valid demo_margin"
    by (rule demo_threshold_valid)
       (simp_all add: demo_margin_def in_bounds_def fact_upfront_margin_pct_def)
  then have gate: "\<not> has_blocking_flags (collect_hitl_flags (demo_audited [demo_margin]))"
    by (intro demo_not_blocked) simp_all
  have "threshold_field demo_margin = Inr ''upfront_margin_pct''"
    by (simp add: threshold_field_def demo_margin_def get_canonical_fact_def canonical_facts_def)
  then have "compilable demo_margin" by (simp add: compilable_def range_complete_def demo_margin_def)
  moreover have "finite_threshold demo_margin" by (simp add: finite_threshold_def demo_margin_def flt_finite_def)
  moreover have ts: "deterministic_logic (rule (demo_audited [demo_margin])) = [demo_margin]"
    by (simp add: demo_audited_def demo_rule_def)
  ultimately obtain res where res: "compile_audited_rule (\<lambda>s. s) ratio_repr ''now'' (demo_audited [demo_margin]) 1 = Inr res"
    "compiled res"
    using compile_audited_cases [OF gate, of "\<lambda>s. s" ratio_repr "''now''" 1] by auto
  then have "\<exists>j. json_logic res = Some j"
    using gate ts by (auto simp: compile_audited_rule_def Let_def bind_res_eq_Inr split: if_splits)
  with res that show thesis by blast
qed

lemma demo_facts:
  "deterministic_logic (rule (demo_audited [demo_margin])) = [demo_margin]"
  "entity_applies (rule (demo_audited [demo_margin])) ''Stockbroker''"
  "field_of demo_margin = ''upfront_margin_pct''"
  "fact_satisfies [(''upfront_margin_pct'', PInt 25)] demo_margin"
  by (simp_all add: demo_audited_def demo_rule_def entity_applies_def entity_names_def field_of_def
      fact_satisfies_def threshold_holds_def demo_margin_def flt_le_def)

theorem compiled_rule_correct_witness:
  "\<exists>res j. compile_audited_rule (\<lambda>s. s) ratio_repr ''now'' (demo_audited [demo_margin]) 1 = Inr res
    \<and> json_logic res = Some j
    \<and> evaluate_jsonlogic (logic j) (input_document ''Stockbroker'' [(''upfront_margin_pct'', PInt 25)]) = Inr (PBool True)"
proof -
  obtain res j where res: "compile_audited_rule (\<lambda>s. s) ratio_repr ''now'' (demo_audited [demo_margin]) 1 = Inr res"
    "json_logic res = Some j" by (rule demo_compiles)
  from compiled_rule_correct [OF res, of "''Stockbroker''" "[(''upfront_margin_pct'', PInt 25)]"] demo_facts
  have "evaluate_jsonlogic (logic j) (input_document ''Stockbroker'' [(''upfront_margin_pct'', PInt 25)]) = Inr (PBool True)"
    by simp
  with res show ?thesis by blast
qed

theorem compiled_rule_answers_witness:
  "\<exists>res j. compile_audited_rule (\<lambda>s. s) ratio_repr ''now'' (demo_audited [demo_margin]) 1 = Inr res
    \<and> json_logic res = Some j
    \<and> evaluate_jsonlogic (logic j) (input_document ''Stockbroker'' [(''upfront_margin_pct'', PInt 25)]) = Inr (PBool True)"
proof -
  obtain res j where res: "compile_audited_rule (\<lambda>s. s) ratio_repr ''now'' (demo_audited [demo_margin]) 1 = Inr res"
    "json_logic res = Some j" by (rule demo_compiles)
  from compiled_rule_answers [OF res, of "[(''upfront_margin_pct'', PInt 25)]" "''Stockbroker''"] demo_facts
  have "evaluate_jsonlogic (logic j) (input_document ''Stockbroker'' [(''upfront_margin_pct'', PInt 25)]) = Inr (PBool True)"
    by simp
  with res show ?thesis by blast
qed

end
