(* ===== verification/Evaluator.thy ===== *)
theory Evaluator
  imports Kill_Switch Hitl_Queue Policy_Plane Compile_Pipeline
begin

text \<open>
  Live evaluation: \<open>app/execution/evaluator.py\<close> over the policy lookup, OPA, the
  kill switch and the queue of ambiguous transactions. OPA is the argument
  \<open>opa\<close>, from a package and an input document to an error, to None (undefined)
  or to a decision document of the shape the compiled modules produce; a
  document of another shape is outside the model. Latencies and counters are
  left out.
\<close>

section \<open>Data\<close>

record opa_decision =
  od_allow :: "bool option"
  od_violations :: "string list option"
  od_circular_number :: "string option"
  od_clause_number :: "string option"
  od_rule_version :: "int option"
  od_policy_sha256 :: "string option"
  od_canonical_facts_digest :: "string option"
  od_source_document_sha256 :: "string option"
  od_extracted_text_sha256 :: "string option"
  od_source_sha256 :: "string option"

type_synonym opa_engine = "string \<Rightarrow> pyval \<Rightarrow> opa_decision option result"

text \<open>
  The collaborators an evaluator is built with: the key prefix of the kill
  switch store, when it has one, the time to live of the cache in front of the
  registry, when there is one, the registry's key and the queue's key prefix.
\<close>

record Evaluator =
  ev_kill_switch :: "string option"
  ev_cache_ttl :: "time option"
  ev_registry_key :: string
  ev_hitl_prefix :: string

record exec_state =
  ex_switch :: "KillSwitchRedisState redis"
  ex_registry :: registry
  ex_cache :: PolicyCache
  ex_hitl :: hitl_queue

section \<open>One policy\<close>

definition undefined_outcome :: "PolicyEntry \<Rightarrow> int option \<Rightarrow> string option \<Rightarrow> PolicyOutcome" where
  "undefined_outcome e version sha =
     \<lparr>po_rule_id = pe_rule_id e, po_package = pe_package e, po_allow = None, po_violations = [],
      po_circular_number = None, po_clause_number = None, po_rule_version = version, po_policy_sha256 = sha,
      po_canonical_facts_digest = None, po_source_document_sha256 = None, po_extracted_text_sha256 = None,
      po_clause_sha256 = None\<rparr>"

definition entry_version :: "PolicyEntry \<Rightarrow> int" where
  "entry_version e = (case pe_rule_version e of None \<Rightarrow> 1 | Some v \<Rightarrow> v)"

definition defined_outcome :: "PolicyEntry \<Rightarrow> opa_decision \<Rightarrow> PolicyOutcome" where
  "defined_outcome e d =
     \<lparr>po_rule_id = pe_rule_id e, po_package = pe_package e, po_allow = Some (od_allow d = Some True),
      po_violations = (case od_violations d of None \<Rightarrow> [] | Some vs \<Rightarrow> vs),
      po_circular_number = od_circular_number d, po_clause_number = od_clause_number d,
      po_rule_version = Some (case od_rule_version d of
          Some v \<Rightarrow> if v \<noteq> 0 then v else entry_version e | None \<Rightarrow> entry_version e),
      po_policy_sha256 = opt_str_or (od_policy_sha256 d) (pe_policy_sha256 e),
      po_canonical_facts_digest = opt_str_or (od_canonical_facts_digest d) (pe_canonical_facts_digest e),
      po_source_document_sha256 = od_source_document_sha256 d,
      po_extracted_text_sha256 = od_extracted_text_sha256 d, po_clause_sha256 = od_source_sha256 d\<rparr>"

definition policy_outcome :: "opa_engine \<Rightarrow> pyval \<Rightarrow> PolicyEntry \<Rightarrow> PolicyOutcome result" where
  "policy_outcome opa doc e =
     (case opa (pe_package e) doc of
        Inl ex \<Rightarrow> if ex = OPAEngineError then Inr (undefined_outcome e (Some 1) None) else raise ex
      | Inr None \<Rightarrow> Inr (undefined_outcome e (Some (entry_version e)) (pe_policy_sha256 e))
      | Inr (Some d) \<Rightarrow> Inr (defined_outcome e d))"

definition reduce :: "PolicyOutcome list \<Rightarrow> Decision \<times> Reason list" where
  "reduce outcomes =
     (let violations = concat (map po_violations outcomes) in
      if violations \<noteq> [] then (DENY, map Violation violations)
      else
        let undef = map po_rule_id (filter (\<lambda>x. po_allow x = None) outcomes) in
        if undef \<noteq> [] then (FLAGGED, [UndefinedResult undef]) else (ALLOW, []))"

section \<open>One transaction\<close>

definition halted :: "Evaluator \<Rightarrow> TransactionPayload \<Rightarrow> exec_state \<Rightarrow> bool" where
  "halted ev tx st =
     (case ev_kill_switch ev of
        None \<Rightarrow> False
      | Some prefix \<Rightarrow> is_active_for prefix (broker_id tx) (ex_switch st))"

definition applicable_policies ::
  "Evaluator \<Rightarrow> time \<Rightarrow> string \<Rightarrow> exec_state \<Rightarrow> exec_state \<times> PolicyEntry list" where
  "applicable_policies ev now t st =
     (case ev_cache_ttl ev of
        None \<Rightarrow> (st, policies_for (ev_registry_key ev) (ex_registry st) t)
      | Some ttl \<Rightarrow>
          (case cache_policies_for (policies_for (ev_registry_key ev) (ex_registry st)) ttl now t (ex_cache st) of
             (c, ps) \<Rightarrow> (st\<lparr>ex_cache := c\<rparr>, ps)))"

definition evaluate_transaction ::
  "opa_engine \<Rightarrow> Evaluator \<Rightarrow> string \<Rightarrow> time \<Rightarrow> TransactionPayload \<Rightarrow> exec_state
   \<Rightarrow> exec_state \<times> EvaluationResult result" where
  "evaluate_transaction opa ev uuid now tx st =
     (if halted ev tx st then
        (case enqueue (ev_hitl_prefix ev) tx [KillSwitchActive] [] uuid now (ex_hitl st) of
           (q, c) \<Rightarrow>
             (st\<lparr>ex_hitl := q\<rparr>,
              Inr \<lparr>er_transaction_id = transaction_id tx, er_decision = FLAGGED, matched_policies = [],
                   reasons = [KillSwitchActive], hitl_case_id = Some (case_id c), evaluated_at = now\<rparr>))
      else
        case applicable_policies ev now (tx_entity_type tx) st of
          (st, applicable) \<Rightarrow>
            if applicable = [] then
              (st, Inr \<lparr>er_transaction_id = transaction_id tx, er_decision = ALLOW, matched_policies = [],
                        reasons = [NoApplicablePolicy], hitl_case_id = None, evaluated_at = now\<rparr>)
            else
              case map_res (policy_outcome opa (input_document (tx_entity_type tx) (tx_facts tx))) applicable of
                Inl ex \<Rightarrow> (st, raise ex)
              | Inr outcomes \<Rightarrow>
                  (case reduce outcomes of
                     (decision, why) \<Rightarrow>
                       if decision = FLAGGED then
                         (case enqueue (ev_hitl_prefix ev) tx why outcomes uuid now (ex_hitl st) of
                            (q, c) \<Rightarrow>
                              (st\<lparr>ex_hitl := q\<rparr>,
                               Inr \<lparr>er_transaction_id = transaction_id tx, er_decision = decision,
                                    matched_policies = outcomes, reasons = why,
                                    hitl_case_id = Some (case_id c), evaluated_at = now\<rparr>))
                       else
                         (st, Inr \<lparr>er_transaction_id = transaction_id tx, er_decision = decision,
                                   matched_policies = outcomes, reasons = why, hitl_case_id = None,
                                   evaluated_at = now\<rparr>)))"

section \<open>The reduction\<close>

lemma reduce_cases:
  "fst (reduce os) = DENY \<longleftrightarrow> (\<exists>x\<in>set os. po_violations x \<noteq> [])"
  "fst (reduce os) = FLAGGED \<longleftrightarrow> (\<forall>x\<in>set os. po_violations x = []) \<and> (\<exists>x\<in>set os. po_allow x = None)"
  "fst (reduce os) = ALLOW \<longleftrightarrow> (\<forall>x\<in>set os. po_violations x = [] \<and> po_allow x \<noteq> None)"
  by (auto simp: reduce_def Let_def filter_empty_conv)

text \<open>The outcome of a policy, as the answers of OPA it stands for.\<close>

lemma policy_outcome_fields:
  assumes "policy_outcome opa doc e = Inr x"
  shows "po_rule_id x = pe_rule_id e"
    "po_violations x \<noteq> [] \<longleftrightarrow> (\<exists>d v vs. opa (pe_package e) doc = Inr (Some d) \<and> od_violations d = Some (v # vs))"
    "po_allow x = None \<longleftrightarrow> (\<nexists>d. opa (pe_package e) doc = Inr (Some d))"
  using assms
  by (auto simp: policy_outcome_def undefined_outcome_def defined_outcome_def neq_Nil_conv
      split: sum.splits if_splits option.splits)

lemma outcomes_ex:
  assumes "map_res (policy_outcome opa doc) es = Inr os"
  shows "(\<exists>x\<in>set os. P x) \<longleftrightarrow> (\<exists>e\<in>set es. \<exists>x. policy_outcome opa doc e = Inr x \<and> P x)"
proof -
  have all2: "list_all2 (\<lambda>e x. policy_outcome opa doc e = Inr x) es os" using assms by (simp add: map_res_Inr_iff)
  show ?thesis using list_all2_ex1 [OF all2] list_all2_ex2 [OF all2] by (metis Inr_inject)
qed

definition violated :: "opa_engine \<Rightarrow> pyval \<Rightarrow> PolicyEntry \<Rightarrow> bool" where
  "violated opa doc e \<longleftrightarrow> (\<exists>d v vs. opa (pe_package e) doc = Inr (Some d) \<and> od_violations d = Some (v # vs))"

definition undecided :: "opa_engine \<Rightarrow> pyval \<Rightarrow> PolicyEntry \<Rightarrow> bool" where
  "undecided opa doc e \<longleftrightarrow> (\<nexists>d. opa (pe_package e) doc = Inr (Some d))"

lemma reduce_outcomes:
  assumes "map_res (policy_outcome opa doc) es = Inr os"
  shows "fst (reduce os) =
    (if \<exists>e\<in>set es. violated opa doc e then DENY
     else if \<exists>e\<in>set es. undecided opa doc e then FLAGGED else ALLOW)"
proof -
  have all2: "list_all2 (\<lambda>e x. policy_outcome opa doc e = Inr x) es os" using assms by (simp add: map_res_Inr_iff)
  have "(\<exists>x\<in>set os. po_violations x \<noteq> []) \<longleftrightarrow> (\<exists>e\<in>set es. violated opa doc e)"
    using list_all2_ex1 [OF all2] list_all2_ex2 [OF all2] policy_outcome_fields(2) unfolding violated_def by metis
  moreover have "(\<exists>x\<in>set os. po_allow x = None) \<longleftrightarrow> (\<exists>e\<in>set es. undecided opa doc e)"
    using list_all2_ex1 [OF all2] list_all2_ex2 [OF all2] policy_outcome_fields(3) unfolding undecided_def by metis
  ultimately show ?thesis using reduce_cases [of os] by (cases "fst (reduce os)") auto
qed

text \<open>Only an exception other than \<open>OPAEngineError\<close> escapes.\<close>

definition opa_raises_only_engine_errors :: "opa_engine \<Rightarrow> bool" where
  "opa_raises_only_engine_errors opa \<longleftrightarrow> (\<forall>pkg doc ex. opa pkg doc = Inl ex \<longrightarrow> ex = OPAEngineError)"

lemma outcomes_total:
  assumes "opa_raises_only_engine_errors opa"
  shows "\<exists>os. map_res (policy_outcome opa doc) es = Inr os"
proof (rule map_res_ok [THEN iffD2], rule ballI)
  fix e
  show "\<exists>y. policy_outcome opa doc e = Inr y"
    using assms
    by (cases "opa (pe_package e) doc")
       (auto simp: policy_outcome_def opa_raises_only_engine_errors_def split: option.splits)
qed

section \<open>What evaluation promises\<close>

lemma applicable_other [simp]:
  "ex_hitl (fst (applicable_policies ev now t st)) = ex_hitl st"
  "ex_switch (fst (applicable_policies ev now t st)) = ex_switch st"
  "ex_registry (fst (applicable_policies ev now t st)) = ex_registry st"
  by (simp_all add: applicable_policies_def split: option.split prod.split)

lemma enqueue_case_id [simp]: "case_id (snd (enqueue p tx why os uuid now q)) = uuid"
  by (simp add: enqueue_def Let_def)

text \<open>Every branch of an evaluation that is not halted, in one equation.\<close>

lemma evaluate_cases:
  assumes "\<not> halted ev tx st"
    and "map_res (policy_outcome opa (input_document (tx_entity_type tx) (tx_facts tx)))
           (snd (applicable_policies ev now (tx_entity_type tx) st)) = Inr os"
    and "snd (applicable_policies ev now (tx_entity_type tx) st) \<noteq> []"
  shows "evaluate_transaction opa ev uuid now tx st =
    (let st' = fst (applicable_policies ev now (tx_entity_type tx) st) in
     (if fst (reduce os) = FLAGGED
      then st'\<lparr>ex_hitl := fst (enqueue (ev_hitl_prefix ev) tx (snd (reduce os)) os uuid now (ex_hitl st))\<rparr> else st',
      Inr \<lparr>er_transaction_id = transaction_id tx, er_decision = fst (reduce os), matched_policies = os,
           reasons = snd (reduce os), hitl_case_id = (if fst (reduce os) = FLAGGED then Some uuid else None),
           evaluated_at = now\<rparr>))"
proof -
  obtain st' ps where ps: "applicable_policies ev now (tx_entity_type tx) st = (st', ps)"
    by (cases "applicable_policies ev now (tx_entity_type tx) st")
  have "ex_hitl st' = ex_hitl st" using applicable_other(1) [of ev now "tx_entity_type tx" st] by (simp add: ps)
  with assms ps show ?thesis
    by (simp add: evaluate_transaction_def Let_def enqueue_def split: prod.split)
qed

text \<open>What every result of an evaluation satisfies.\<close>

lemma evaluated_result:
  assumes "evaluate_transaction opa ev uuid now tx st = (st', Inr res)"
  shows "er_transaction_id res = transaction_id tx" "evaluated_at res = now"
    "hitl_case_id res = (if er_decision res = FLAGGED then Some uuid else None)"
    "matched_policies res \<noteq> [] \<Longrightarrow> (er_decision res, reasons res) = reduce (matched_policies res)"
    "matched_policies res = [] \<Longrightarrow> er_decision res \<noteq> DENY"
proof -
  obtain st1 ps where ps: "applicable_policies ev now (tx_entity_type tx) st = (st1, ps)"
    by (cases "applicable_policies ev now (tx_entity_type tx) st")
  have ne: "map_res (policy_outcome opa doc) ps = Inr os \<Longrightarrow> ps \<noteq> [] \<Longrightarrow> os \<noteq> []" for doc os
    using map_res_length by fastforce
  show "er_transaction_id res = transaction_id tx" "evaluated_at res = now"
    "hitl_case_id res = (if er_decision res = FLAGGED then Some uuid else None)"
    "matched_policies res \<noteq> [] \<Longrightarrow> (er_decision res, reasons res) = reduce (matched_policies res)"
    "matched_policies res = [] \<Longrightarrow> er_decision res \<noteq> DENY"
    using assms ne
    by (auto simp: evaluate_transaction_def ps enqueue_def Let_def split: if_splits sum.splits prod.splits)
qed


definition demo_exec :: exec_state where
  "demo_exec = \<lparr>ex_switch = activate_global ''gov'' ''incident'' ''ann'' 1 redis_empty, ex_registry = redis_empty,
     ex_cache = empty_cache, ex_hitl = redis_empty\<rparr>"

definition demo_evaluator :: Evaluator where
  "demo_evaluator = \<lparr>ev_kill_switch = Some ''gov'', ev_cache_ttl = Some 30, ev_registry_key = ''reg'', ev_hitl_prefix = ''hitl''\<rparr>"


text \<open>
  Claim C4. The decision is the documented reduction of OPA's answers, on every input and
  for every set of applicable policies: one reported violation denies; failing
  that, one policy that failed or came back undefined flags; otherwise the
  transaction is allowed. Exactly the flagged transactions are queued, with the
  id the caller is given, and the queue is otherwise untouched.
\<close>

theorem evaluation_decision:
  fixes tx :: TransactionPayload and ev :: Evaluator and st :: exec_state and now :: time
  defines "doc \<equiv> input_document (tx_entity_type tx) (tx_facts tx)"
    and "entries \<equiv> snd (applicable_policies ev now (tx_entity_type tx) st)"
  assumes "\<not> halted ev tx st" and "opa_raises_only_engine_errors opa"
  shows "\<exists>st' res. evaluate_transaction opa ev uuid now tx st = (st', Inr res)
    \<and> er_decision res = (if \<exists>e\<in>set entries. violated opa doc e then DENY
        else if \<exists>e\<in>set entries. undecided opa doc e then FLAGGED else ALLOW)
    \<and> (er_decision res \<noteq> FLAGGED \<longrightarrow> hitl_case_id res = None \<and> ex_hitl st' = ex_hitl st)
    \<and> (er_decision res = FLAGGED \<longrightarrow> hitl_case_id res = Some uuid
         \<and> ex_hitl st' = fst (enqueue (ev_hitl_prefix ev) tx (reasons res) (matched_policies res) uuid now (ex_hitl st)))"
proof (cases "entries = []")
  case True
  then have "snd (applicable_policies ev now (tx_entity_type tx) st) = []" by (simp add: entries_def)
  then obtain st' where st': "applicable_policies ev now (tx_entity_type tx) st = (st', [])"
    by (metis prod.collapse)
  with applicable_other(1) [of ev now "tx_entity_type tx" st] assms(3) show ?thesis
    by (simp add: evaluate_transaction_def entries_def)
next
  case False
  obtain os where os: "map_res (policy_outcome opa doc) entries = Inr os"
    using outcomes_total [OF assms(4)] by blast
  from evaluate_cases [OF assms(3) os [unfolded doc_def entries_def] False [unfolded entries_def]] reduce_outcomes [OF os]
  show ?thesis by (simp add: Let_def)
qed

definition demo_opa :: opa_engine where
  "demo_opa = (\<lambda>pkg doc. Inr None)"

theorem evaluation_decision_witness:
  "\<exists>st' res. evaluate_transaction demo_opa (demo_evaluator\<lparr>ev_kill_switch := None\<rparr>) ''c1'' 5 demo_tx
     (demo_exec\<lparr>ex_registry := register ''reg'' (demo_compiled ''r1'') [''Stockbroker''] redis_empty\<rparr>) = (st', Inr res)
     \<and> hitl_case_id res = (if er_decision res = FLAGGED then Some ''c1'' else None)"
  using evaluation_decision [of "demo_evaluator\<lparr>ev_kill_switch := None\<rparr>" demo_tx
      "demo_exec\<lparr>ex_registry := register ''reg'' (demo_compiled ''r1'') [''Stockbroker''] redis_empty\<rparr>" demo_opa "''c1''" 5]
  by (force simp: halted_def opa_raises_only_engine_errors_def demo_opa_def)

end
