(* ===== verification/Compliance_Chain.thy ===== *)
theory Compliance_Chain
  imports Evaluator
begin

text \<open>
  From an audited clause to a decision on a transaction: a clause compiled by
  the pipeline, its module registered and run by OPA, its answer reduced by the
  evaluator. OPA is not part of the source; what is assumed of it is the
  documented reading of the module the compiler prints: a rule body holds when
  all its comparisons hold, a comparison with an absent fact is undefined and
  makes the body fail, \<open>default allow := false\<close> gives \<open>allow\<close> a value in every
  case, and \<open>violation\<close> is the set of the messages of the bodies that hold. The
  assumption is about facts that are absent or numbers.
\<close>

section \<open>The meaning of a compiled module\<close>

fun rego_num :: "pyval \<Rightarrow> pyfloat option" where
  "rego_num (PInt i) = Some (Fin (of_int i))"
| "rego_num (PFloat (Fin q)) = Some (Fin q)"
| "rego_num _ = None"

definition fact_num :: "(string \<times> pyval) list \<Rightarrow> string \<Rightarrow> pyfloat option" where
  "fact_num fs f = Option.bind (map_of fs f) rego_num"

definition facts_numeric :: "ExtractedComplianceRule \<Rightarrow> (string \<times> pyval) list \<Rightarrow> bool" where
  "facts_numeric rl fs \<longleftrightarrow>
     list_all (\<lambda>t. map_of fs (field_of t) = None \<or> fact_num fs (field_of t) \<noteq> None) (deterministic_logic rl)"

definition module_allows :: "ExtractedComplianceRule \<Rightarrow> string \<Rightarrow> (string \<times> pyval) list \<Rightarrow> bool" where
  "module_allows rl ent fs \<longleftrightarrow> entity_applies rl ent \<and>
     list_all (\<lambda>t. case fact_num fs (field_of t) of None \<Rightarrow> False | Some x \<Rightarrow> list_all (rego_cmp x) (pass_cmps t))
       (deterministic_logic rl)"

definition module_violates :: "ExtractedComplianceRule \<Rightarrow> string \<Rightarrow> (string \<times> pyval) list \<Rightarrow> bool" where
  "module_violates rl ent fs \<longleftrightarrow> entity_applies rl ent \<and>
     list_ex (\<lambda>t. case fact_num fs (field_of t) of None \<Rightarrow> False | Some x \<Rightarrow> list_ex (rego_cmp x) (fail_cmps t))
       (deterministic_logic rl)"

definition runs_module :: "opa_engine \<Rightarrow> string \<Rightarrow> ExtractedComplianceRule \<Rightarrow> bool" where
  "runs_module opa pkg rl \<longleftrightarrow>
     (\<forall>ent fs. facts_numeric rl fs \<longrightarrow>
        (\<exists>d. opa pkg (input_document ent fs) = Inr (Some d) \<and> od_allow d = Some (module_allows rl ent fs)
           \<and> (\<exists>vs. od_violations d = Some vs \<and> (vs \<noteq> [] \<longleftrightarrow> module_violates rl ent fs))))"

section \<open>Facts the compiler guarantees\<close>

lemma rego_num_of: "rego_num v = Some x \<Longrightarrow> num_of v = Some x \<and> x \<noteq> NaN"
  by (induction v rule: rego_num.induct) auto

lemma fact_num_satisfies:
  "fact_num fs (field_of t) = Some x \<Longrightarrow> fact_satisfies fs t \<longleftrightarrow> threshold_holds t x"
  by (auto simp: fact_num_def fact_satisfies_def bind_eq_Some_conv dest: rego_num_of)

lemma compiled_thresholds:
  assumes "compile_audited_rule H fr now a version = Inr res" "json_logic res = Some j" "t \<in> set (deterministic_logic (rule a))"
  shows "finite_threshold t" "compilable t"
proof -
  have c: "compiled res" and gate: "\<not> has_blocking_flags (collect_hitl_flags a)" "deterministic_logic (rule a) \<noteq> []"
    using assms(1,2) by (auto simp: compile_audited_rule_def Let_def bind_res_eq_Inr split: if_splits)
  from compile_audited_Inr(1) [OF assms(1,2)] compile_rego_ok
  have "\<forall>t\<in>set (deterministic_logic (rule a)). compilable t" by blast
  from compile_audited_cases [OF gate this, of H fr now version] c assms this show "finite_threshold t" "compilable t"
    by blast+
qed

lemma finite_bounds: "finite_threshold t \<Longrightarrow> t_value t \<noteq> NaN \<and> value_upper t \<noteq> Some NaN \<or> operator t \<noteq> RANGE \<and> t_value t \<noteq> NaN"
  by (auto simp: finite_threshold_def flt_finite_def split: pyfloat.splits)

lemma fail_cmps_exact:
  assumes "finite_threshold t" "compilable t" "x \<noteq> NaN"
  shows "list_ex (rego_cmp x) (fail_cmps t) \<longleftrightarrow> \<not> threshold_holds t x"
  using assms finite_bounds [OF assms(1)]
  by (intro fail_cmps_holds) (auto simp: compilable_def range_complete_def)

text \<open>A violation is reported exactly when some fact is there and breaks its threshold.\<close>

lemma module_violates_iff:
  assumes "\<forall>t\<in>set (deterministic_logic rl). finite_threshold t \<and> compilable t" "facts_numeric rl fs"
  shows "module_violates rl ent fs \<longleftrightarrow> entity_applies rl ent \<and>
    (\<exists>t\<in>set (deterministic_logic rl). map_of fs (field_of t) \<noteq> None \<and> \<not> fact_satisfies fs t)"
proof -
  have "(case fact_num fs (field_of t) of None \<Rightarrow> False | Some x \<Rightarrow> list_ex (rego_cmp x) (fail_cmps t)) \<longleftrightarrow>
      map_of fs (field_of t) \<noteq> None \<and> \<not> fact_satisfies fs t" if t: "t \<in> set (deterministic_logic rl)" for t
  proof (cases "fact_num fs (field_of t)")
    case None
    then have "map_of fs (field_of t) = None" using assms(2) t by (auto simp: facts_numeric_def list_all_iff)
    then show ?thesis by (simp add: fact_num_def)
  next
    case (Some x)
    then have "x \<noteq> NaN" "map_of fs (field_of t) \<noteq> None"
      by (auto simp: fact_num_def bind_eq_Some_conv dest: rego_num_of)
    with Some assms(1) t fact_num_satisfies [OF Some] fail_cmps_exact [of t x] show ?thesis by auto
  qed
  then show ?thesis unfolding module_violates_def list_ex_iff by blast
qed

section \<open>The decision on a transaction\<close>

text \<open>One applicable policy, run by an OPA that answers.\<close>

lemma single_policy_decision:
  assumes "\<not> halted ev tx st" "opa_raises_only_engine_errors opa"
    and "snd (applicable_policies ev now (tx_entity_type tx) st) = [e]"
    and "opa (pe_package e) (input_document (tx_entity_type tx) (tx_facts tx)) = Inr (Some d)"
    and "od_violations d = Some vs"
  shows "\<exists>st' r. evaluate_transaction opa ev uuid now tx st = (st', Inr r) \<and> hitl_case_id r = None
    \<and> er_decision r = (if vs \<noteq> [] then DENY else ALLOW) \<and> map po_allow (matched_policies r) = [Some (od_allow d = Some True)]"
proof -
  let ?x = "defined_outcome e d"
  have os: "map_res (policy_outcome opa (input_document (tx_entity_type tx) (tx_facts tx)))
      (snd (applicable_policies ev now (tx_entity_type tx) st)) = Inr [?x]"
    using assms(3,4) by (simp add: policy_outcome_def)
  have "reduce [?x] = (if vs \<noteq> [] then (DENY, map Violation vs) else (ALLOW, []))"
    using assms(5) by (simp add: reduce_def defined_outcome_def Let_def)
  with evaluate_cases [OF assms(1) os] assms(3) show ?thesis by (simp add: Let_def defined_outcome_def)
qed

lemma compiled_policy_decision:
  assumes "compile_audited_rule H fr nowi a version = Inr res" "json_logic res = Some j"
    and "runs_module opa (pe_package e) (rule a)" "opa_raises_only_engine_errors opa" "\<not> halted ev tx st"
    and "snd (applicable_policies ev now (tx_entity_type tx) st) = [e]"
    and num: "facts_numeric (rule a) (tx_facts tx)"
  shows "\<exists>st' r. evaluate_transaction opa ev uuid now tx st = (st', Inr r) \<and> hitl_case_id r = None
    \<and> er_decision r = (if entity_applies (rule a) (tx_entity_type tx) \<and>
          (\<exists>t\<in>set (deterministic_logic (rule a)). map_of (tx_facts tx) (field_of t) \<noteq> None \<and> \<not> fact_satisfies (tx_facts tx) t)
        then DENY else ALLOW)
    \<and> map po_allow (matched_policies r) = [Some (module_allows (rule a) (tx_entity_type tx) (tx_facts tx))]"
proof -
  obtain d vs where d: "opa (pe_package e) (input_document (tx_entity_type tx) (tx_facts tx)) = Inr (Some d)"
    "od_allow d = Some (module_allows (rule a) (tx_entity_type tx) (tx_facts tx))" "od_violations d = Some vs"
    "vs \<noteq> [] \<longleftrightarrow> module_violates (rule a) (tx_entity_type tx) (tx_facts tx)"
    using assms(3) num unfolding runs_module_def by metis
  have "\<forall>t\<in>set (deterministic_logic (rule a)). finite_threshold t \<and> compilable t"
    using compiled_thresholds [OF assms(1,2)] by blast
  note module_violates_iff [OF this num, of "tx_entity_type tx"]
  with single_policy_decision [OF assms(5,4,6) d(1,3), of uuid] d(2,4) show ?thesis by simp
qed



section \<open>A chain that runs\<close>

definition module_opa :: "string \<Rightarrow> ExtractedComplianceRule \<Rightarrow> opa_engine" where
  "module_opa pkg rl = (\<lambda>p doc.
     case doc of
       PDict [(_, PStr ent), (_, PDict fs)] \<Rightarrow>
         if p = pkg then Inr (Some \<lparr>od_allow = Some (module_allows rl ent fs),
           od_violations = Some (if module_violates rl ent fs then [''violated''] else []),
           od_circular_number = None, od_clause_number = None, od_rule_version = None, od_policy_sha256 = None,
           od_canonical_facts_digest = None, od_source_document_sha256 = None, od_extracted_text_sha256 = None,
           od_source_sha256 = None\<rparr>)
         else Inr None
     | _ \<Rightarrow> Inr None)"

lemma module_opa_runs: "runs_module (module_opa pkg rl) pkg rl"
  by (simp add: runs_module_def module_opa_def input_document_def)

lemma module_opa_engine_errors: "opa_raises_only_engine_errors (module_opa pkg rl)"
  by (auto simp: opa_raises_only_engine_errors_def module_opa_def
      split: pyval.splits list.splits prod.splits if_splits)

definition demo_live :: "CompiledRego \<Rightarrow> exec_state" where
  "demo_live c = \<lparr>ex_switch = redis_empty, ex_registry = register ''reg'' c [''Stockbroker''] redis_empty,
     ex_cache = empty_cache, ex_hitl = redis_empty\<rparr>"

lemma demo_live_applicable:
  "snd (applicable_policies (demo_evaluator\<lparr>ev_kill_switch := Some ''gov''\<rparr>) 5 ''Stockbroker'' (demo_live c)) = [registry_entry c]"
  by (simp add: applicable_policies_def demo_evaluator_def demo_live_def cache_policies_for_def empty_cache_def
      policies_for_def register_def register_one_def or_wildcard_def field_entries_def redis_simps)
     (simp add: redis_empty_def redis_defs)

lemma demo_live_not_halted: "\<not> halted (demo_evaluator\<lparr>ev_kill_switch := Some ''gov''\<rparr>) tx (demo_live c)"
  by (simp add: halted_def demo_live_def is_active_for_def is_global_active_def is_tenant_active_def redis_empty_def
      redis_defs split: option.split)

lemma demo_compiles_rego:
  obtains res j c where "compile_audited_rule (\<lambda>s. s) ratio_repr ''now'' (demo_audited [demo_margin]) 1 = Inr res"
    "json_logic res = Some j" "rego res = Some c"
proof -
  obtain res j where r: "compile_audited_rule (\<lambda>s. s) ratio_repr ''now'' (demo_audited [demo_margin]) 1 = Inr res"
    "json_logic res = Some j" by (rule demo_compiles)
  then have "\<exists>c. rego res = Some c" by (auto simp: compile_audited_rule_def Let_def bind_res_eq_Inr split: if_splits)
  with r that show thesis by blast
qed



end
