(* ===== verification/Execution_Tasks.thy ===== *)
theory Execution_Tasks
  imports Evaluator
begin

text \<open>
  The queued paths into the evaluator, \<open>app/execution/tasks.py\<close>: batches of
  transactions and change events of the legacy database, with the route that
  accepts a change event (\<open>app/api/execution_routes.py\<close>). A batch runs its
  transactions concurrently; the model runs them in order, which
  \<open>worker_result\<close> below justifies for the results: what a worker answers does
  not depend on the cases other transactions queued. The dictionary form of a
  result (pydantic's \<open>model_dump\<close>) is an argument, as is the decimal text of a
  float.
\<close>

section \<open>Python's \<open>str\<close> of a column value\<close>

definition printable :: "char \<Rightarrow> bool" where
  "printable c \<longleftrightarrow> (let n = (of_char c :: nat) in 32 \<le> n \<and> n < 127 \<or> 160 < n \<and> n \<noteq> 173)"

definition repr_char :: "char \<Rightarrow> char \<Rightarrow> string" where
  "repr_char q c =
     (let bs = CHR 0x5C; n = (of_char c :: nat) in
      if c = bs \<or> c = q then [bs, c]
      else if n = 9 then [bs, CHR ''t''] else if n = 10 then [bs, CHR ''n''] else if n = 13 then [bs, CHR ''r'']
      else if printable c then [c]
      else [bs, CHR ''x'', hex_digit (n div 16), hex_digit (n mod 16)])"

definition repr_str :: "string \<Rightarrow> string" where
  "repr_str s =
     (let single = CHR 0x27; q = (if single \<in> set s \<and> quote \<notin> set s then quote else single)
      in [q] @ concat (map (repr_char q) s) @ [q])"

fun py_repr :: "(rat \<Rightarrow> string) \<Rightarrow> pyval \<Rightarrow> string" where
  "py_repr fr PNone = ''None''"
| "py_repr fr (PBool b) = (if b then ''True'' else ''False'')"
| "py_repr fr (PInt i) = int_str i"
| "py_repr fr (PFloat f) = py_float_str fr f"
| "py_repr fr (PStr s) = repr_str s"
| "py_repr fr (PList xs) = ''['' @ join '', '' (map (py_repr fr) xs) @ '']''"
| "py_repr fr (PDict d) = ''{'' @ join '', '' (map (\<lambda>(k, v). repr_str k @ '': '' @ py_repr fr v) d) @ ''}''"
| "py_repr fr (POther t) = ''<'' @ t @ ''>''"

definition py_str :: "(rat \<Rightarrow> string) \<Rightarrow> pyval \<Rightarrow> string" where
  "py_str fr v = (case v of PStr s \<Rightarrow> s | _ \<Rightarrow> py_repr fr v)"

section \<open>Data\<close>

record BatchIngestRequest =
  bi_batch_id :: string
  bi_source_channel :: SourceChannel
  bi_transactions :: "TransactionPayload list"
  result_webhook_url :: "string option"

datatype BatchJobStatus = BATCH_QUEUED | BATCH_RUNNING | BATCH_COMPLETED | BATCH_FAILED

record BatchJobResult =
  bj_batch_id :: string
  bj_status :: BatchJobStatus
  bj_total :: nat
  bj_allowed :: nat
  bj_denied :: nat
  bj_flagged :: nat
  bj_results :: "EvaluationResult list"
  bj_error :: "exc option"
  bj_started_at :: "time option"
  bj_completed_at :: "time option"

datatype CDCOperation = CDC_INSERT | CDC_UPDATE | CDC_DELETE | CDC_SNAPSHOT

record CDCEvent =
  source_table :: string
  cdc_operation :: CDCOperation
  cdc_after :: "(string \<times> pyval) list option"
  committed_at :: time

record worker_state =
  wk_exec :: exec_state
  wk_batches :: "BatchJobResult redis"
  wk_outbox :: outbox

section \<open>Batches\<close>

definition build_evaluator :: "string \<Rightarrow> string \<Rightarrow> Evaluator" where
  "build_evaluator policy_registry_key hitl_key_prefix =
     \<lparr>ev_kill_switch = None, ev_cache_ttl = None, ev_registry_key = policy_registry_key, ev_hitl_prefix = hitl_key_prefix\<rparr>"

definition batch_key :: "string \<Rightarrow> string \<Rightarrow> string" where
  "batch_key policy_registry_key batch_id = policy_registry_key @ '':batch:'' @ batch_id"

fun evaluate_batch ::
  "opa_engine \<Rightarrow> Evaluator \<Rightarrow> (nat \<Rightarrow> string) \<Rightarrow> time \<Rightarrow> nat \<Rightarrow> TransactionPayload list \<Rightarrow> exec_state
   \<Rightarrow> exec_state \<times> EvaluationResult list result" where
  "evaluate_batch opa ev uuid now k [] st = (st, Inr [])"
| "evaluate_batch opa ev uuid now k (tx # txs) st =
     (case evaluate_transaction opa ev (uuid k) now tx st of
        (st', Inl e) \<Rightarrow> (st', Inl e)
      | (st', Inr r) \<Rightarrow>
          (case evaluate_batch opa ev uuid now (Suc k) txs st' of
             (st'', Inl e) \<Rightarrow> (st'', Inl e)
           | (st'', Inr rs) \<Rightarrow> (st'', Inr (r # rs))))"

definition decided :: "Decision \<Rightarrow> EvaluationResult list \<Rightarrow> nat" where
  "decided d rs = length (filter (\<lambda>r. er_decision r = d) rs)"

definition process_batch_task ::
  "opa_engine \<Rightarrow> (BatchJobResult \<Rightarrow> (string \<times> pyval) list) \<Rightarrow> string \<Rightarrow> string \<Rightarrow> (nat \<Rightarrow> string) \<Rightarrow> time \<Rightarrow> time
   \<Rightarrow> BatchIngestRequest \<Rightarrow> worker_state \<Rightarrow> worker_state \<times> BatchJobResult" where
  "process_batch_task opa dump reg_key hitl_prefix uuid started finished req st =
     (let key = batch_key reg_key (bi_batch_id req);
          running = \<lparr>bj_batch_id = bi_batch_id req, bj_status = BATCH_RUNNING, bj_total = 0, bj_allowed = 0,
            bj_denied = 0, bj_flagged = 0, bj_results = [], bj_error = None, bj_started_at = Some started,
            bj_completed_at = None\<rparr>;
          st1 = st\<lparr>wk_batches := r_put key running (wk_batches st)\<rparr>
      in case evaluate_batch opa (build_evaluator reg_key hitl_prefix) uuid started 0 (bi_transactions req) (wk_exec st1) of
           (ex, outcome) \<Rightarrow>
             let result = (case outcome of
                   Inr rs \<Rightarrow> running\<lparr>bj_results := rs, bj_total := length rs, bj_allowed := decided ALLOW rs,
                       bj_denied := decided DENY rs, bj_flagged := decided FLAGGED rs, bj_status := BATCH_COMPLETED\<rparr>
                 | Inl e \<Rightarrow> running\<lparr>bj_status := BATCH_FAILED, bj_error := Some e\<rparr>)\<lparr>bj_completed_at := Some finished\<rparr>;
                 st2 = st1\<lparr>wk_exec := ex, wk_batches := r_put key result (wk_batches st1)\<rparr>;
                 st3 = (if truthy_str (result_webhook_url req)
                        then st2\<lparr>wk_outbox := wk_outbox st2 @ [(the (result_webhook_url req),
                          \<lparr>event_type = ''batch.completed'', wh_transaction_id = bi_batch_id req,
                           wh_decision = (if bj_status result = BATCH_COMPLETED then ALLOW else FLAGGED),
                           wh_payload = dump result, emitted_at = finished\<rparr>)]\<rparr>
                        else st2)
             in (st3, result))"

definition get_batch_result :: "string \<Rightarrow> string \<Rightarrow> worker_state \<Rightarrow> BatchJobResult option" where
  "get_batch_result reg_key batch_id st = r_get (wk_batches st) (batch_key reg_key batch_id)"

section \<open>Change events\<close>

definition str_field :: "pyval \<Rightarrow> string result" where
  "str_field v = (case v of PStr s \<Rightarrow> Inr s | _ \<Rightarrow> raise (ValueError ''validation''))"

definition opt_str_field :: "pyval option \<Rightarrow> string option result" where
  "opt_str_field v =
     (case v of None \<Rightarrow> Inr None | Some PNone \<Rightarrow> Inr None | Some (PStr s) \<Rightarrow> Inr (Some s)
      | _ \<Rightarrow> raise (ValueError ''validation''))"

definition dict_get :: "(string \<times> pyval) list \<Rightarrow> string \<Rightarrow> pyval \<Rightarrow> pyval" where
  "dict_get d k dflt = (case map_of d k of None \<Rightarrow> dflt | Some v \<Rightarrow> v)"

definition cdc_row_to_transaction :: "(rat \<Rightarrow> string) \<Rightarrow> time \<Rightarrow> CDCEvent \<Rightarrow> TransactionPayload result" where
  "cdc_row_to_transaction fr now event =
     (let row = (case cdc_after event of None \<Rightarrow> [] | Some r \<Rightarrow> r);
          facts = filter (\<lambda>(k, v). k \<notin> set [''transaction_id'', ''entity_type'', ''broker_id'']) row
      in bind_res (str_field (dict_get row ''entity_type'' (PStr ''Stockbroker''))) (\<lambda>ent.
         bind_res (opt_str_field (map_of row ''broker_id'')) (\<lambda>broker.
           Inr \<lparr>transaction_id = py_str fr (dict_get row ''transaction_id'' (dict_get row ''id'' (PStr []))),
                tx_entity_type = ent, tx_facts = facts, source_channel = DB_CDC, broker_id = broker,
                callback_url = None, received_at = now, tx_metadata = []\<rparr>)))"

definition process_cdc_event_task ::
  "opa_engine \<Rightarrow> (EvaluationResult \<Rightarrow> (string \<times> pyval) list) \<Rightarrow> (rat \<Rightarrow> string) \<Rightarrow> string \<Rightarrow> string \<Rightarrow> string \<Rightarrow> time
   \<Rightarrow> CDCEvent \<Rightarrow> string option \<Rightarrow> worker_state \<Rightarrow> worker_state \<times> EvaluationResult option result" where
  "process_cdc_event_task opa dump fr reg_key hitl_prefix uuid now event oms_webhook_url st =
     (if cdc_operation event = CDC_DELETE then (st, Inr None)
      else
        case cdc_row_to_transaction fr now event of
          Inl e \<Rightarrow> (st, raise e)
        | Inr tx \<Rightarrow>
            (case evaluate_transaction opa (build_evaluator reg_key hitl_prefix) uuid now tx (wk_exec st) of
               (ex, Inl e) \<Rightarrow> (st\<lparr>wk_exec := ex\<rparr>, raise e)
             | (ex, Inr r) \<Rightarrow>
                 let st' = st\<lparr>wk_exec := ex\<rparr> in
                 (if truthy_str oms_webhook_url
                  then st'\<lparr>wk_outbox := wk_outbox st' @ [(the oms_webhook_url,
                     \<lparr>event_type = ''cdc.transaction.evaluated'', wh_transaction_id = er_transaction_id r,
                      wh_decision = er_decision r, wh_payload = dump r, emitted_at = now\<rparr>)]\<rparr>
                  else st', Inr (Some r))))"

definition receive_cdc_event :: "(rat \<Rightarrow> string) \<Rightarrow> CDCEvent \<Rightarrow> (string \<times> string) list result" where
  "receive_cdc_event fr event =
     (let row = (case cdc_after event of None \<Rightarrow> [] | Some r \<Rightarrow> r) in
      if cdc_operation event \<noteq> CDC_DELETE \<and> row = []
      then raise (HTTPException 422 ''CDC insert/update event must include 'after'.'')
      else Inr [(''status'', ''queued''),
                (''transaction_id'', py_str fr (dict_get row ''transaction_id'' (dict_get row ''id'' (PStr ''unknown''))))])"

section \<open>Workers read the registry only\<close>

abbreviation worker_answer ::
  "opa_engine \<Rightarrow> string \<Rightarrow> string \<Rightarrow> string \<Rightarrow> time \<Rightarrow> TransactionPayload \<Rightarrow> registry \<Rightarrow> EvaluationResult result" where
  "worker_answer opa rk hp uuid now tx reg \<equiv>
     snd (evaluate_transaction opa (build_evaluator rk hp) uuid now tx
       \<lparr>ex_switch = redis_empty, ex_registry = reg, ex_cache = empty_cache, ex_hitl = redis_empty\<rparr>)"

lemma worker_unfold:
  "\<not> halted (build_evaluator rk hp) tx st"
  "applicable_policies (build_evaluator rk hp) now t st = (st, policies_for rk (ex_registry st) t)"
  by (simp_all add: halted_def applicable_policies_def build_evaluator_def)

lemma worker_result:
  "snd (evaluate_transaction opa (build_evaluator rk hp) uuid now tx st) =
     worker_answer opa rk hp uuid now tx (ex_registry st)"
  by (simp add: evaluate_transaction_def worker_unfold enqueue_def Let_def split: sum.split prod.split)

lemma worker_keeps:
  "ex_registry (fst (evaluate_transaction opa (build_evaluator rk hp) uuid now tx st)) = ex_registry st"
  "ex_switch (fst (evaluate_transaction opa (build_evaluator rk hp) uuid now tx st)) = ex_switch st"
  by (simp_all add: evaluate_transaction_def worker_unfold enqueue_def Let_def split: sum.split prod.split)

lemma evaluate_batch_results:
  "snd (evaluate_batch opa (build_evaluator rk hp) uuid now k txs st) =
     map_res (\<lambda>(i, tx). worker_answer opa rk hp (uuid i) now tx (ex_registry st)) (List.enumerate k txs)"
proof (induction txs arbitrary: k st)
  case (Cons tx txs)
  obtain st' r where r: "evaluate_transaction opa (build_evaluator rk hp) (uuid k) now tx st = (st', r)"
    by (cases "evaluate_transaction opa (build_evaluator rk hp) (uuid k) now tx st")
  then have "ex_registry st' = ex_registry st" "r = worker_answer opa rk hp (uuid k) now tx (ex_registry st)"
    using worker_keeps(1) [of opa rk hp "uuid k" now tx st] worker_result [of opa rk hp "uuid k" now tx st] by simp_all
  with Cons [of "Suc k" st'] r show ?case
    by (cases r) (auto simp: bind_res_def split: prod.splits sum.splits)
qed simp

lemma decided_sum: "decided ALLOW rs + decided DENY rs + decided FLAGGED rs = length rs"
proof (induction rs)
  case (Cons r rs)
  then show ?case by (cases "er_decision r") (simp_all add: decided_def)
qed (simp add: decided_def)

lemma process_batch_outcome:
  "snd (process_batch_task opa dump rk hp uuid started finished req st) =
     (case map_res (\<lambda>(i, tx). worker_answer opa rk hp (uuid i) started tx (ex_registry (wk_exec st)))
             (List.enumerate 0 (bi_transactions req)) of
        Inr rs \<Rightarrow> \<lparr>bj_batch_id = bi_batch_id req, bj_status = BATCH_COMPLETED, bj_total = length rs,
           bj_allowed = decided ALLOW rs, bj_denied = decided DENY rs, bj_flagged = decided FLAGGED rs, bj_results = rs,
           bj_error = None, bj_started_at = Some started, bj_completed_at = Some finished\<rparr>
      | Inl e \<Rightarrow> \<lparr>bj_batch_id = bi_batch_id req, bj_status = BATCH_FAILED, bj_total = 0,
           bj_allowed = 0, bj_denied = 0, bj_flagged = 0, bj_results = [],
           bj_error = Some e, bj_started_at = Some started, bj_completed_at = Some finished\<rparr>)"
proof -
  obtain ex outcome where eb: "evaluate_batch opa (build_evaluator rk hp) uuid started 0 (bi_transactions req) (wk_exec st) = (ex, outcome)"
    by (cases "evaluate_batch opa (build_evaluator rk hp) uuid started 0 (bi_transactions req) (wk_exec st)")
  from evaluate_batch_results [of opa rk hp uuid started 0 "bi_transactions req" "wk_exec st"]
  have "map_res (\<lambda>(i, tx). worker_answer opa rk hp (uuid i) started tx (ex_registry (wk_exec st)))
      (List.enumerate 0 (bi_transactions req)) = outcome" by (simp add: eb)
  then show ?thesis by (cases outcome) (simp_all add: process_batch_task_def Let_def eb)
qed

lemma process_cdc_outcome:
  "snd (process_cdc_event_task opa dump fr rk hp u now event url st) =
     (if cdc_operation event = CDC_DELETE then Inr None
      else bind_res (cdc_row_to_transaction fr now event) (\<lambda>tx.
        bind_res (worker_answer opa rk hp u now tx (ex_registry (wk_exec st))) (\<lambda>r. Inr (Some r))))"
proof (cases "cdc_row_to_transaction fr now event")
  case (Inr tx)
  obtain ex outcome where ev: "evaluate_transaction opa (build_evaluator rk hp) u now tx (wk_exec st) = (ex, outcome)"
    by (cases "evaluate_transaction opa (build_evaluator rk hp) u now tx (wk_exec st)")
  with worker_result [of opa rk hp u now tx "wk_exec st"]
  have "worker_answer opa rk hp u now tx (ex_registry (wk_exec st)) = outcome" by simp
  with Inr show ?thesis by (cases outcome) (simp_all add: process_cdc_event_task_def Let_def ev)
qed (simp add: process_cdc_event_task_def)

lemma process_batch_stored:
  "get_batch_result rk (bi_batch_id req) (fst (process_batch_task opa dump rk hp uuid started finished req st)) =
     Some (snd (process_batch_task opa dump rk hp uuid started finished req st))"
  by (simp add: process_batch_task_def get_batch_result_def Let_def redis_simps split: prod.split)

text \<open>
  A batch job reports exactly its evaluations: unless an exception other than an
  OPA failure stops it, the stored result is COMPLETED, holds for every
  transaction, in the order submitted, the result it gets when evaluated on its
  own, and its allowed, denied and flagged counts add up to the number of
  transactions submitted.
\<close>

theorem batch_job_exact:
  assumes "opa_raises_only_engine_errors opa"
  shows "\<exists>job. get_batch_result rk (bi_batch_id req)
        (fst (process_batch_task opa dump rk hp uuid started finished req st)) = Some job
    \<and> bj_status job = BATCH_COMPLETED
    \<and> map Inr (bj_results job) =
        map (\<lambda>(i, tx). worker_answer opa rk hp (uuid i) started tx (ex_registry (wk_exec st)))
          (List.enumerate 0 (bi_transactions req))
    \<and> bj_total job = length (bi_transactions req)
    \<and> bj_allowed job + bj_denied job + bj_flagged job = bj_total job"
proof -
  have ok: "\<exists>r. worker_answer opa rk hp u started tx reg = Inr r" for u tx reg
  proof -
    obtain os where "map_res (policy_outcome opa (input_document (tx_entity_type tx) (tx_facts tx)))
        (policies_for rk reg (tx_entity_type tx)) = Inr os"
      using outcomes_total [OF assms] by blast
    then show ?thesis
      by (simp add: evaluate_transaction_def worker_unfold enqueue_def Let_def split: prod.split)
  qed
  obtain rs where rs: "map_res (\<lambda>(i, tx). worker_answer opa rk hp (uuid i) started tx (ex_registry (wk_exec st)))
      (List.enumerate 0 (bi_transactions req)) = Inr rs"
    using map_res_ok [THEN iffD2] ok by (metis (no_types, lifting) case_prod_beta)
  then have "map Inr rs = map (\<lambda>(i, tx). worker_answer opa rk hp (uuid i) started tx (ex_registry (wk_exec st)))
      (List.enumerate 0 (bi_transactions req))"
    unfolding map_res_Inr_iff by (induction rule: list_all2_induct) auto
  moreover have "length rs = length (bi_transactions req)" using map_res_length [OF rs] by simp
  ultimately show ?thesis
    by (simp add: process_batch_stored process_batch_outcome rs decided_sum)
qed

definition demo_batch :: BatchIngestRequest where
  "demo_batch = \<lparr>bi_batch_id = ''b1'', bi_source_channel = SFTP_BATCH, bi_transactions = [demo_tx], result_webhook_url = None\<rparr>"

definition demo_worker :: worker_state where
  "demo_worker = \<lparr>wk_exec = demo_exec, wk_batches = redis_empty, wk_outbox = []\<rparr>"

theorem batch_job_exact_witness:
  "\<exists>job. get_batch_result ''reg'' ''b1''
      (fst (process_batch_task demo_opa (\<lambda>_. []) ''reg'' ''hitl'' (\<lambda>n. ''c1'') 1 2 demo_batch demo_worker)) = Some job
    \<and> bj_status job = BATCH_COMPLETED \<and> bj_total job = 1"
  using batch_job_exact [of demo_opa "''reg''" demo_batch "\<lambda>_. []" "''hitl''" "\<lambda>n. ''c1''" 1 2 demo_worker]
  by (auto simp: opa_raises_only_engine_errors_def demo_opa_def demo_batch_def)

text \<open>
  The queued paths do not see the kill switch: their evaluator is built without
  one, so a batch or a change event is decided by the policies exactly as if no
  halt were in force, whatever the switch says.
\<close>

theorem workers_ignore_kill_switch:
  "snd (process_batch_task opa dump rk hp uuid started finished req
        (st\<lparr>wk_exec := (wk_exec st)\<lparr>ex_switch := sw\<rparr>\<rparr>)) =
      snd (process_batch_task opa dump rk hp uuid started finished req st)
    \<and> snd (process_cdc_event_task opa dump' fr rk hp u now event url
        (st\<lparr>wk_exec := (wk_exec st)\<lparr>ex_switch := sw\<rparr>\<rparr>)) =
      snd (process_cdc_event_task opa dump' fr rk hp u now event url st)"
  by (simp add: process_batch_outcome process_cdc_outcome)

end
