(* ===== verification/Trace_Parser.thy ===== *)
theory Trace_Parser
  imports Rego_Compiler
begin

text \<open>
  Reading violation messages back (\<open>app/explainability/trace_parser.py\<close>). The
  three regular expressions are backtracking matchers in continuation style:
  each takes the rest of the pattern as a function from the remaining text to
  an optional match, and tries its own alternatives in the order Python's \<open>re\<close>
  does, so the first success is the match \<open>Pattern.match\<close> returns. \<open>float()\<close> of a
  numeral is an argument.
\<close>

section \<open>Matchers\<close>

definition orelse :: "'a option \<Rightarrow> 'a option \<Rightarrow> 'a option" where
  "orelse a b = (case a of None \<Rightarrow> b | Some x \<Rightarrow> Some x)"

fun first_some :: "('b \<Rightarrow> 'a option) \<Rightarrow> 'b list \<Rightarrow> 'a option" where
  "first_some f [] = None"
| "first_some f (x # xs) = orelse (f x) (first_some f xs)"

definition lit :: "string \<Rightarrow> (string \<Rightarrow> 'a option) \<Rightarrow> string \<Rightarrow> 'a option" where
  "lit p k s = (if startswith s p then k (drop (length p) s) else None)"

text \<open>The group \<open>(.+?)\<close>: one character or more, none a line feed, as few as possible.\<close>

fun lazy_from :: "string \<Rightarrow> (string \<Rightarrow> string \<Rightarrow> 'a option) \<Rightarrow> string \<Rightarrow> 'a option" where
  "lazy_from acc k [] = None"
| "lazy_from acc k (c # cs) =
     (if c = CHR 0x0A then None
      else orelse (k (acc @ [c]) cs) (lazy_from (acc @ [c]) k cs))"

abbreviation lazy_any :: "(string \<Rightarrow> string \<Rightarrow> 'a option) \<Rightarrow> string \<Rightarrow> 'a option" where
  "lazy_any \<equiv> lazy_from []"

text \<open>A run \<open>\d+\<close>, as long as possible.\<close>

definition digits :: "(string \<Rightarrow> string \<Rightarrow> 'a option) \<Rightarrow> string \<Rightarrow> 'a option" where
  "digits k s = first_some (\<lambda>n. k (take n s) (drop n s)) (rev [1..<Suc (length (takeWhile is_digit s))])"

definition fraction :: "(string \<Rightarrow> string \<Rightarrow> 'a option) \<Rightarrow> string \<Rightarrow> 'a option" where
  "fraction k s = orelse (lit ''.'' (digits (\<lambda>ds. k (CHR ''.'' # ds))) s) (k [] s)"

definition NUM :: "(string \<Rightarrow> string \<Rightarrow> 'a option) \<Rightarrow> string \<Rightarrow> 'a option" where
  "NUM k s =
     (let body = (\<lambda>sign. digits (\<lambda>ds. fraction (\<lambda>fs. k (sign @ ds @ fs))))
      in orelse (lit ''-'' (body ''-'') s) (body [] s))"

text \<open>The optional group \<open>(?: for (.+?))?\<close>, tried first with the group.\<close>

definition opt_for :: "(string option \<Rightarrow> string \<Rightarrow> 'a option) \<Rightarrow> string \<Rightarrow> 'a option" where
  "opt_for k s = orelse (lit '' for '' (lazy_any (\<lambda>x. k (Some x))) s) (k None s)"

definition clause_end :: "(string \<Rightarrow> 'a option) \<Rightarrow> string \<Rightarrow> 'a option" where
  "clause_end k s = lazy_any (\<lambda>c. lit '')'' (\<lambda>r. if r = [] then k c else None)) s"

definition operators :: "(string \<Rightarrow> string \<Rightarrow> 'a option) \<Rightarrow> string \<Rightarrow> 'a option" where
  "operators k s = first_some (\<lambda>x. lit x (k x) s) [''>='', ''<='', ''=='', ''>'', ''<'']"

section \<open>The three shapes\<close>

record groupdict =
  g_metric :: string
  g_value :: string
  g_unit :: string
  g_operator :: "string option"
  g_required :: string
  g_req_unit :: string
  g_applies_to :: "string option"
  g_clause :: string

definition measured :: "(string \<Rightarrow> string \<Rightarrow> string \<Rightarrow> string \<Rightarrow> 'a option) \<Rightarrow> string \<Rightarrow> 'a option" where
  "measured k s =
     lazy_any (\<lambda>m. lit '' is '' (NUM (\<lambda>v. lit '' '' (lazy_any (\<lambda>u. lit '', '' (k m v u)))))) s"

definition required :: "string \<Rightarrow> (string \<Rightarrow> string \<Rightarrow> string option \<Rightarrow> string \<Rightarrow> 'a option) \<Rightarrow> string \<Rightarrow> 'a option" where
  "required sep k s =
     NUM (\<lambda>q. lit '' '' (lazy_any (\<lambda>w. opt_for (\<lambda>a. lit sep (clause_end (k q w a)))))) s"

definition RE_CONDITION_FAIL :: "string \<Rightarrow> groupdict option" where
  "RE_CONDITION_FAIL s =
     measured (\<lambda>m v u. lit ''which fails the required condition ('' (operators (\<lambda>x. lit '' '' (required '', clause '' (\<lambda>q w a c.
       Some \<lparr>g_metric = m, g_value = v, g_unit = u, g_operator = Some x, g_required = q, g_req_unit = w,
             g_applies_to = a, g_clause = c\<rparr>))))) s"

definition RE_RANGE :: "string \<Rightarrow> string \<Rightarrow> groupdict option" where
  "RE_RANGE phrase s =
     measured (\<lambda>m v u. lit phrase (required '' (clause '' (\<lambda>q w a c.
       Some \<lparr>g_metric = m, g_value = v, g_unit = u, g_operator = None, g_required = q, g_req_unit = w,
             g_applies_to = a, g_clause = c\<rparr>))) s"

definition RE_RANGE_LOW :: "string \<Rightarrow> groupdict option" where
  "RE_RANGE_LOW = RE_RANGE ''below the required minimum of ''"

definition RE_RANGE_HIGH :: "string \<Rightarrow> groupdict option" where
  "RE_RANGE_HIGH = RE_RANGE ''above the allowed maximum of ''"

definition PATTERNS :: "((string \<Rightarrow> groupdict option) \<times> string) list" where
  "PATTERNS = [(RE_CONDITION_FAIL, ''condition_fail''), (RE_RANGE_LOW, ''range_low''), (RE_RANGE_HIGH, ''range_high'')]"

record StructuredViolation =
  sv_rule_id :: string
  sv_circular_number :: "string option"
  sv_clause_number :: "string option"
  sv_regulator :: string
  sv_metric :: string
  observed_value :: pyfloat
  sv_unit :: string
  sv_operator :: string
  required_value :: pyfloat
  sv_applies_to :: "string option"
  raw_violation_text :: string

text \<open>\<open>float\<close> raises \<open>ValueError\<close> on text it cannot read; the loop then goes on.\<close>

definition parse_violation ::
  "(string \<Rightarrow> pyfloat option) \<Rightarrow> string \<Rightarrow> string option \<Rightarrow> string option \<Rightarrow> string \<Rightarrow> string
   \<Rightarrow> StructuredViolation option" where
  "parse_violation flt rid circular clause reg raw =
     first_some (\<lambda>(pattern, kind).
       case pattern (strip raw) of
         None \<Rightarrow> None
       | Some g \<Rightarrow>
           (case (flt (g_value g), flt (g_required g)) of
              (Some observed, Some req) \<Rightarrow>
                Some \<lparr>sv_rule_id = rid, sv_circular_number = circular,
                      sv_clause_number = opt_str_or clause (Some (g_clause g)), sv_regulator = reg,
                      sv_metric = strip (g_metric g), observed_value = observed, sv_unit = strip (g_unit g),
                      sv_operator = (if kind = ''range_low'' \<or> kind = ''range_high'' then kind else the (g_operator g)),
                      required_value = req, sv_applies_to = g_applies_to g, raw_violation_text = raw\<rparr>
            | _ \<Rightarrow> None)) PATTERNS"


section \<open>What a match means\<close>

lemma orelse_simps [simp]: "orelse None b = b" "orelse (Some x) b = Some x"
  by (simp_all add: orelse_def)

lemma orelse_Some: "orelse a b = Some x \<longleftrightarrow> a = Some x \<or> a = None \<and> b = Some x"
  by (cases a) simp_all

lemma first_some_Some: "first_some f xs = Some y \<Longrightarrow> \<exists>x\<in>set xs. f x = Some y"
  by (induction xs) (auto simp: orelse_Some)

lemma lit_Some: "lit p k s = Some r \<longleftrightarrow> (\<exists>t. s = p @ t \<and> k t = Some r)"
  by (auto simp: lit_def startswith_iff)

lemma lit_append [simp]: "lit p k (p @ t) = k t"
  by (simp add: lit_def startswith_iff)

lemma lit_char [simp]: "lit [c] k (c # t) = k t"
  by (simp add: lit_def startswith_def)

lemma lazy_Some:
  "lazy_from acc k s = Some r \<Longrightarrow> \<exists>x t. s = x @ t \<and> x \<noteq> [] \<and> CHR 0x0A \<notin> set x \<and> k (acc @ x) t = Some r"
proof (induction acc k s rule: lazy_from.induct)
  case (2 acc k c cs)
  then have c: "c \<noteq> CHR 0x0A" by (auto split: if_splits)
  show ?case
  proof (cases "k (acc @ [c]) cs")
    case None
    with 2 c obtain x t where "cs = x @ t" "CHR 0x0A \<notin> set x" "k ((acc @ [c]) @ x) t = Some r" by fastforce
    with c show ?thesis by (intro exI [of _ "c # x"] exI [of _ t]) simp
  next
    case (Some r')
    with 2 c show ?thesis by (intro exI [of _ "[c]"] exI [of _ cs]) simp
  qed
qed simp

definition digit_text :: "string \<Rightarrow> bool" where
  "digit_text d \<longleftrightarrow> d \<noteq> [] \<and> (\<forall>c\<in>set d. is_digit c)"

lemma digits_Some:
  assumes "digits k s = Some r"
  shows "\<exists>d t. s = d @ t \<and> digit_text d \<and> k d t = Some r"
proof -
  obtain n where n: "1 \<le> n" "n \<le> length (takeWhile is_digit s)" "k (take n s) (drop n s) = Some r"
    using first_some_Some [OF assms [unfolded digits_def]] by auto
  have "take n s = take n (takeWhile is_digit s)"
    using n(2) by (metis take_append takeWhile_dropWhile_id diff_is_0_eq' take_0 append_Nil2)
  then have "set (take n s) \<subseteq> set (takeWhile is_digit s)" by (metis set_take_subset)
  moreover have "take n s \<noteq> []" using n(1,2) by auto
  ultimately have "digit_text (take n s)" unfolding digit_text_def by (meson set_takeWhileD subset_iff)
  with n(3) show ?thesis by (metis append_take_drop_id)
qed

definition frac_text :: "string \<Rightarrow> bool" where
  "frac_text f \<longleftrightarrow> f = [] \<or> (\<exists>e. f = CHR ''.'' # e \<and> digit_text e)"

definition num_text :: "string \<Rightarrow> bool" where
  "num_text v \<longleftrightarrow> (\<exists>sign d f. v = sign @ d @ f \<and> sign \<in> {[], ''-''} \<and> digit_text d \<and> frac_text f)"

lemma fraction_Some:
  assumes "fraction k s = Some r" shows "\<exists>f t. s = f @ t \<and> frac_text f \<and> k f t = Some r"
  using assms unfolding fraction_def orelse_Some lit_Some
proof (elim disjE exE conjE)
  fix t assume s: "s = ''.'' @ t" and "digits (\<lambda>ds. k (CHR ''.'' # ds)) t = Some r"
  from digits_Some [OF this(2)] obtain d t' where "t = d @ t'" "digit_text d" "k (CHR ''.'' # d) t' = Some r" by blast
  with s show ?thesis by (intro exI [of _ "CHR ''.'' # d"] exI [of _ t']) (simp add: frac_text_def)
qed (auto simp: frac_text_def intro: exI [of _ "[]"])

lemma NUM_Some:
  assumes "NUM k s = Some r"
  shows "\<exists>v t. s = v @ t \<and> num_text v \<and> k v t = Some r"
proof -
  have body: "\<exists>v t. sign @ s = v @ t \<and> num_text v \<and> k v t = Some r"
    if "digits (\<lambda>ds. fraction (\<lambda>fs. k (sign @ ds @ fs))) s = Some r" "sign \<in> {[], ''-''}" for sign s
  proof -
    from digits_Some [OF that(1)] obtain d t where d: "s = d @ t" "digit_text d"
      and "fraction (\<lambda>fs. k (sign @ d @ fs)) t = Some r" by blast
    from fraction_Some [OF this(3)] obtain f t' where f: "t = f @ t'" "frac_text f" "k (sign @ d @ f) t' = Some r" by blast
    have "num_text (sign @ d @ f)" using d(2) f(2) that(2) unfolding num_text_def by blast
    with d(1) f show ?thesis by (intro exI [of _ "sign @ d @ f"] exI [of _ t']) simp
  qed
  from assms show ?thesis unfolding NUM_def Let_def orelse_Some lit_Some
  proof (elim disjE exE conjE)
    fix t assume "s = ''-'' @ t" "digits (\<lambda>ds. fraction (\<lambda>fs. k (''-'' @ ds @ fs))) t = Some r"
    with body [of "''-''" t] show ?thesis by simp
  next
    assume "digits (\<lambda>ds. fraction (\<lambda>fs. k ([] @ ds @ fs))) s = Some r"
    with body [of "[]" s] show ?thesis by simp
  qed
qed

definition for_text :: "string option \<Rightarrow> string" where
  "for_text a = (case a of None \<Rightarrow> [] | Some x \<Rightarrow> '' for '' @ x)"

lemma opt_for_Some:
  assumes "opt_for k s = Some r" shows "\<exists>a t. s = for_text a @ t \<and> k a t = Some r"
  using assms unfolding opt_for_def orelse_Some lit_Some
proof (elim disjE exE conjE)
  fix t assume s: "s = '' for '' @ t" and "lazy_any (\<lambda>x. k (Some x)) t = Some r"
  from lazy_Some [OF this(2)] obtain x t' where "t = x @ t'" "k (Some x) t' = Some r" by auto
  with s show ?thesis by (intro exI [of _ "Some x"] exI [of _ t']) (simp add: for_text_def)
qed (auto simp: for_text_def intro: exI [of _ None])

lemma clause_end_Some: "clause_end k s = Some r \<Longrightarrow> \<exists>c. s = c @ '')'' \<and> c \<noteq> [] \<and> k c = Some r"
  unfolding clause_end_def by (drule lazy_Some) (auto simp: lit_Some split: if_splits)

lemma measured_Some:
  assumes "measured k s = Some r"
  shows "\<exists>m v u t. s = m @ '' is '' @ v @ '' '' @ u @ '', '' @ t \<and> num_text v \<and> k m v u t = Some r"
proof -
  obtain m t1 where 1: "s = m @ '' is '' @ t1" and "NUM (\<lambda>v. lit '' '' (lazy_any (\<lambda>u. lit '', '' (k m v u)))) t1 = Some r"
    using lazy_Some [OF assms [unfolded measured_def]] by (auto simp: lit_Some)
  from NUM_Some [OF this(2)] obtain v t2 where 2: "t1 = v @ '' '' @ t2" "num_text v"
      and "lazy_any (\<lambda>u. lit '', '' (k m v u)) t2 = Some r"
    by (auto simp: lit_Some)
  from lazy_Some [OF this(3)] obtain u t3 where "t2 = u @ '', '' @ t3" "k m v u t3 = Some r"
    by (auto simp: lit_Some)
  with 1 2 show ?thesis by auto
qed

lemma required_Some:
  assumes "required sep k s = Some r"
  shows "\<exists>q w a c. s = q @ '' '' @ w @ for_text a @ sep @ c @ '')'' \<and> num_text q \<and> k q w a c = Some r"
proof -
  obtain q t1 where 1: "s = q @ '' '' @ t1" "num_text q"
      and "lazy_any (\<lambda>w. opt_for (\<lambda>a. lit sep (clause_end (k q w a)))) t1 = Some r"
    using NUM_Some [OF assms [unfolded required_def]] by (auto simp: lit_Some)
  from lazy_Some [OF this(3)] obtain w t2 where 2: "t1 = w @ t2"
      and "opt_for (\<lambda>a. lit sep (clause_end (k q w a))) t2 = Some r" by auto
  from opt_for_Some [OF this(2)] obtain a t3 where "t2 = for_text a @ sep @ t3" "clause_end (k q w a) t3 = Some r"
    by (auto simp: lit_Some)
  with 1 2 show ?thesis by (auto dest!: clause_end_Some)
qed

section \<open>Nothing is invented\<close>

definition shape_text :: "string \<Rightarrow> string \<Rightarrow> string \<Rightarrow> string option \<Rightarrow> string \<Rightarrow> string" where
  "shape_text x q w a c =
     (if x = ''range_low'' then ''below the required minimum of '' @ q @ '' '' @ w @ for_text a @ '' (clause '' @ c @ '')''
      else if x = ''range_high'' then ''above the allowed maximum of '' @ q @ '' '' @ w @ for_text a @ '' (clause '' @ c @ '')''
      else ''which fails the required condition ('' @ x @ '' '' @ q @ '' '' @ w @ for_text a @ '', clause '' @ c @ '')'')"

definition message_text :: "string \<Rightarrow> string \<Rightarrow> string \<Rightarrow> string \<Rightarrow> string \<Rightarrow> string \<Rightarrow> string option \<Rightarrow> string \<Rightarrow> string" where
  "message_text m v u x q w a c = m @ '' is '' @ v @ '' '' @ u @ '', '' @ shape_text x q w a c"

definition comparison_signs :: "string list" where
  "comparison_signs = [''>='', ''<='', ''=='', ''>'', ''<'']"

lemma comparison_signs_not_range: "x \<in> set comparison_signs \<Longrightarrow> x \<noteq> ''range_low'' \<and> x \<noteq> ''range_high''"
  by (auto simp: comparison_signs_def)

lemma condition_fail_Some:
  assumes "RE_CONDITION_FAIL s = Some g"
  shows "\<exists>x\<in>set comparison_signs. g_operator g = Some x
    \<and> s = message_text (g_metric g) (g_value g) (g_unit g) x (g_required g) (g_req_unit g) (g_applies_to g) (g_clause g)"
proof -
  obtain m v u t where s: "s = m @ '' is '' @ v @ '' '' @ u @ '', '' @ ''which fails the required condition ('' @ t"
    and op: "operators (\<lambda>x. lit '' '' (required '', clause '' (\<lambda>q w a c.
       Some \<lparr>g_metric = m, g_value = v, g_unit = u, g_operator = Some x, g_required = q, g_req_unit = w,
             g_applies_to = a, g_clause = c\<rparr>))) t = Some g"
    using measured_Some [OF assms [unfolded RE_CONDITION_FAIL_def]] by (auto simp: lit_Some)
  obtain x t' where x: "x \<in> set comparison_signs" "t = x @ '' '' @ t'" and "required '', clause '' (\<lambda>q w a c.
       Some \<lparr>g_metric = m, g_value = v, g_unit = u, g_operator = Some x, g_required = q, g_req_unit = w,
             g_applies_to = a, g_clause = c\<rparr>) t' = Some g"
    using first_some_Some [OF op [unfolded operators_def]] unfolding comparison_signs_def lit_Some by blast
  from required_Some [OF this(3)] obtain q w a c where "t' = q @ '' '' @ w @ for_text a @ '', clause '' @ c @ '')''"
    "g = \<lparr>g_metric = m, g_value = v, g_unit = u, g_operator = Some x, g_required = q, g_req_unit = w,
          g_applies_to = a, g_clause = c\<rparr>" by blast
  with s x comparison_signs_not_range [OF x(1)] show ?thesis
    by (intro bexI [of _ x]) (simp_all add: message_text_def shape_text_def)
qed

lemma range_Some:
  assumes "RE_RANGE phrase s = Some g"
  shows "s = g_metric g @ '' is '' @ g_value g @ '' '' @ g_unit g @ '', '' @ phrase @ g_required g @ '' '' @ g_req_unit g
    @ for_text (g_applies_to g) @ '' (clause '' @ g_clause g @ '')''"
proof -
  obtain m v u t where s: "s = m @ '' is '' @ v @ '' '' @ u @ '', '' @ phrase @ t"
    and req: "required '' (clause '' (\<lambda>q w a c.
       Some \<lparr>g_metric = m, g_value = v, g_unit = u, g_operator = None, g_required = q, g_req_unit = w,
             g_applies_to = a, g_clause = c\<rparr>) t = Some g"
    using measured_Some [OF assms [unfolded RE_RANGE_def]] by (auto simp: lit_Some)
  from required_Some [OF req] obtain q w a c where "t = q @ '' '' @ w @ for_text a @ '' (clause '' @ c @ '')''"
    "g = \<lparr>g_metric = m, g_value = v, g_unit = u, g_operator = None, g_required = q, g_req_unit = w,
          g_applies_to = a, g_clause = c\<rparr>" by blast
  with s show ?thesis by simp
qed

text \<open>
  A parsed violation says nothing the message does not: the text is the metric,
  the observed numeral, the unit, the operator's phrase, the required numeral and
  the scope the result reports, put together in one of the three shapes.
\<close>

theorem parse_violation_sound:
  assumes "parse_violation flt rid circular clause reg raw = Some v"
  shows "\<exists>m n u q w c. strip raw = message_text m n u (sv_operator v) q w (sv_applies_to v) c
    \<and> sv_metric v = strip m \<and> sv_unit v = strip u
    \<and> flt n = Some (observed_value v) \<and> flt q = Some (required_value v)
    \<and> sv_clause_number v = opt_str_or clause (Some c) \<and> raw_violation_text v = raw"
proof -
  obtain pat kind g where mem: "(pat, kind) \<in> set PATTERNS" and g: "pat (strip raw) = Some g"
    and f: "flt (g_value g) = Some (observed_value v)" "flt (g_required g) = Some (required_value v)"
    and v: "sv_metric v = strip (g_metric g)" "sv_unit v = strip (g_unit g)" "sv_applies_to v = g_applies_to g"
      "sv_clause_number v = opt_str_or clause (Some (g_clause g))" "raw_violation_text v = raw"
      "sv_operator v = (if kind = ''range_low'' \<or> kind = ''range_high'' then kind else the (g_operator g))"
    using first_some_Some [OF assms [unfolded parse_violation_def]] by (auto split: option.splits)
  have "strip raw = message_text (g_metric g) (g_value g) (g_unit g) (sv_operator v) (g_required g) (g_req_unit g)
      (g_applies_to g) (g_clause g)"
  proof -
    consider "pat = RE_CONDITION_FAIL" "kind = ''condition_fail''" | "pat = RE_RANGE_LOW" "kind = ''range_low''"
      | "pat = RE_RANGE_HIGH" "kind = ''range_high''"
      using mem by (auto simp: PATTERNS_def)
    then show ?thesis
    proof cases
      case 1
      then have "sv_operator v = the (g_operator g)" using v(6) by simp
      moreover obtain x where "g_operator g = Some x" "strip raw = message_text (g_metric g) (g_value g) (g_unit g) x
          (g_required g) (g_req_unit g) (g_applies_to g) (g_clause g)"
        using condition_fail_Some [OF g [unfolded 1(1)]] by blast
      ultimately show ?thesis by (simp only: option.sel)
    next
      case 2
      show ?thesis using range_Some [OF g [unfolded 2(1) RE_RANGE_LOW_def]] v(6) 2(2)
        by (simp add: message_text_def shape_text_def)
    next
      case 3
      show ?thesis using range_Some [OF g [unfolded 3(1) RE_RANGE_HIGH_def]] v(6) 3(2)
        by (simp add: message_text_def shape_text_def)
    qed
  qed
  then show ?thesis using f v(1-5) by (metis (no_types))
qed

section \<open>The first success\<close>

lemma lazy_first:
  assumes "x \<noteq> []" "CHR 0x0A \<notin> set x" "k (acc @ x) t = Some r"
    and "\<And>y z. x = y @ z \<Longrightarrow> y \<noteq> [] \<Longrightarrow> z \<noteq> [] \<Longrightarrow> k (acc @ y) (z @ t) = None"
  shows "lazy_from acc k (x @ t) = Some r"
  using assms
proof (induction x arbitrary: acc)
  case (Cons c cs)
  show ?case
  proof (cases "cs = []")
    case False
    then have "k (acc @ [c]) (cs @ t) = None" using Cons.prems(4) [of "[c]" cs] by simp
    moreover have "lazy_from (acc @ [c]) k (cs @ t) = Some r"
    proof (rule Cons.IH [OF False])
      fix y z assume "cs = y @ z" "z \<noteq> []"
      then show "k ((acc @ [c]) @ y) (z @ t) = None" using Cons.prems(4) [of "c # y" z] by simp
    qed (use Cons.prems in simp_all)
    ultimately show ?thesis using Cons.prems(2) by auto
  qed (use Cons.prems in simp)
qed simp

definition stops :: "string \<Rightarrow> bool" where
  "stops t \<longleftrightarrow> t \<noteq> [] \<and> \<not> is_digit (hd t) \<and> hd t \<noteq> CHR ''.''"

lemma digits_first:
  assumes "digit_text d" "t = [] \<or> \<not> is_digit (hd t)" "k d t = Some r"
  shows "digits k (d @ t) = Some r"
proof -
  have "takeWhile is_digit (d @ t) = d"
    using assms(1,2) by (cases t) (auto simp: digit_text_def takeWhile_append2)
  moreover have "rev [1..<Suc (length d)] = length d # rev [1..<length d]"
    using assms(1) by (cases d) (simp_all add: digit_text_def)
  ultimately show ?thesis using assms(3) by (simp add: digits_def del: upt_Suc)
qed

lemma fraction_first:
  assumes "frac_text f" "stops t" "k f t = Some r" shows "fraction k (f @ t) = Some r"
proof (cases "f = []")
  case True
  have "lit ''.'' k' t = None" for k' :: "string \<Rightarrow> 'a option"
    using assms(2) by (cases t) (auto simp: lit_def startswith_def stops_def)
  with True assms(3) show ?thesis by (simp add: fraction_def)
next
  case False
  then obtain e where e: "f = ''.'' @ e" "digit_text e" using assms(1) by (auto simp: frac_text_def)
  have "digits (\<lambda>ds. k (CHR ''.'' # ds)) (e @ t) = Some r"
    using assms(2,3) e by (intro digits_first) (auto simp: stops_def)
  then show ?thesis by (simp add: fraction_def e(1))
qed

lemma NUM_first:
  assumes "num_text v" "stops t" "k v t = Some r" shows "NUM k (v @ t) = Some r"
proof -
  obtain sign d f where v: "v = sign @ d @ f" "sign \<in> {[], ''-''}" "digit_text d" "frac_text f"
    using assms(1) by (auto simp: num_text_def)
  have "f @ t = [] \<or> \<not> is_digit (hd (f @ t))"
    using assms(2) v(4) by (auto simp: frac_text_def stops_def is_digit_def)
  then have body: "digits (\<lambda>ds. fraction (\<lambda>fs. k (sign @ ds @ fs))) (d @ f @ t) = Some r"
    using v assms(2,3) by (intro digits_first fraction_first) simp_all
  show ?thesis
  proof (cases "sign = []")
    case True
    have "lit ''-'' k' (d @ f @ t) = None" for k' :: "string \<Rightarrow> 'a option"
      using v(3) by (cases d) (auto simp: lit_def startswith_def digit_text_def is_digit_def)
    with True body v(1) show ?thesis by (simp add: NUM_def Let_def)
  next
    case False
    then have "sign = ''-''" using v(2) by simp
    with body v(1) show ?thesis by (simp add: NUM_def Let_def)
  qed
qed

section \<open>Fields that can be read back\<close>

definition field_text :: "string \<Rightarrow> bool" where
  "field_text s \<longleftrightarrow> s \<noteq> [] \<and> CHR 0x0A \<notin> set s \<and> CHR '','' \<notin> set s \<and> \<not> substring '' ('' s"

definition metric_text :: "string \<Rightarrow> bool" where
  "metric_text m \<longleftrightarrow> field_text m \<and> \<not> substring '' is'' m"

definition unit_text :: "string \<Rightarrow> bool" where
  "unit_text u \<longleftrightarrow> field_text u \<and> \<not> substring '' for'' u"

definition breaks :: "string \<Rightarrow> bool" where
  "breaks r \<longleftrightarrow> r \<noteq> [] \<and> hd r \<in> {CHR '' '', CHR '',''}"

lemma substring_suffix: "substring n s \<Longrightarrow> substring n (p @ s)"
  by (induction p) auto

lemma substring_prefix: "startswith s n \<Longrightarrow> substring n s"
  by (cases s) (auto simp: startswith_def)

lemma field_tail:
  assumes "field_text x" "x = y @ z" "z \<noteq> []" "breaks r" "sep = '', clause '' \<or> sep = '' (clause ''"
  shows "\<not> startswith (z @ r) sep"
proof
  assume start: "startswith (z @ r) sep"
  obtain c z' where z: "z = c # z'" using assms(3) by (cases z) auto
  have "c \<noteq> CHR '',''" using assms(1,2) z by (auto simp: field_text_def)
  with start z assms(5) have sep: "c = CHR '' ''" "\<exists>e. z' @ r = CHR ''('' # e" by (auto simp: startswith_iff)
  then obtain z'' where "z' = CHR ''('' # z''"
    using assms(4) by (cases z'; cases r) (auto simp: breaks_def)
  then have "substring '' ('' z" using sep(1) z by (auto simp: startswith_def)
  with assms(1,2) show False by (simp add: field_text_def substring_suffix)
qed

lemma word_tail:
  assumes "\<not> substring (CHR '' '' # p) x" "x = y @ z" "z \<noteq> []" "breaks r" "CHR '' '' \<notin> set p" "CHR '','' \<notin> set p"
  shows "\<not> startswith (z @ r) (CHR '' '' # p)"
proof
  assume "startswith (z @ r) (CHR '' '' # p)"
  then obtain e where e: "z @ r = (CHR '' '' # p) @ e" by (auto simp: startswith_iff)
  then obtain d where "z = (CHR '' '' # p) @ d \<or> CHR '' '' # p = z @ d \<and> r = d @ e"
    using append_eq_append_conv2 [THEN iffD1, OF e] by metis
  then consider d where "z = (CHR '' '' # p) @ d" | d where "CHR '' '' # p = z @ d" "d \<noteq> []" "r = d @ e"
    by (metis append_Nil2)
  then show False
  proof cases
    case 1
    then have "substring (CHR '' '' # p) z" by (auto simp: substring_prefix startswith_iff)
    with assms(1,2) show False by (simp add: substring_suffix)
  next
    case 2
    then have "hd d \<in> set p" using assms(3) by (cases z; cases d) auto
    moreover have "hd d = hd r" using 2 by simp
    ultimately show False using assms(4-6) by (auto simp: breaks_def)
  qed
qed

lemma measured_first:
  assumes "metric_text m" "num_text v" "field_text u" "k m v u t = Some r"
  shows "measured k (m @ '' is '' @ v @ '' '' @ u @ '', '' @ t) = Some r"
proof -
  have u: "lazy_any (\<lambda>u. lit '', '' (k m v u)) (u @ '', '' @ t) = Some r"
  proof (rule lazy_first)
    fix y z assume "u = y @ z" "z \<noteq> []"
    then have "\<not> startswith (z @ '', '' @ t) '', ''"
      using assms(3) by (cases z) (auto simp: field_text_def startswith_def)
    then show "lit '', '' (k m v ([] @ y)) (z @ '', '' @ t) = None" by (simp add: lit_def)
  qed (use assms(3,4) in \<open>simp_all add: field_text_def lit_def startswith_iff\<close>)
  have v: "NUM (\<lambda>v. lit '' '' (lazy_any (\<lambda>u. lit '', '' (k m v u)))) (v @ '' '' @ u @ '', '' @ t) = Some r"
    using assms(2) u by (intro NUM_first) (simp_all add: stops_def is_digit_def)
  show ?thesis unfolding measured_def
  proof (rule lazy_first)
    fix y z assume "m = y @ z" "z \<noteq> []"
    then have "\<not> startswith (z @ '' is '' @ v @ '' '' @ u @ '', '' @ t) '' is''"
      using assms(1) by (intro word_tail [of _ m y]) (simp_all add: metric_text_def breaks_def)
    then have "\<not> startswith (z @ '' is '' @ v @ '' '' @ u @ '', '' @ t) '' is ''" by (auto simp: startswith_iff)
    then show "lit '' is '' (NUM (\<lambda>v. lit '' '' (lazy_any (\<lambda>u. lit '', '' (k ([] @ y) v u)))))
       (z @ '' is '' @ v @ '' '' @ u @ '', '' @ t) = None" by (simp add: lit_def)
  qed (use assms(1) v in \<open>simp_all add: metric_text_def field_text_def lit_def startswith_iff\<close>)
qed

lemma clause_end_first:
  assumes "c \<noteq> []" "CHR 0x0A \<notin> set c" "k c = Some r" shows "clause_end k (c @ '')'') = Some r"
  unfolding clause_end_def
proof (rule lazy_first)
  fix y z :: string assume "z \<noteq> []"
  then show "lit '')'' (\<lambda>r. if r = [] then k ([] @ y) else None) (z @ '')'') = None"
    by (cases z) (auto simp: lit_def)
qed (use assms in simp_all)

definition scope_text :: "string option \<Rightarrow> bool" where
  "scope_text a \<longleftrightarrow> (case a of None \<Rightarrow> True | Some x \<Rightarrow> field_text x)"

lemma required_first:
  assumes "num_text q" "unit_text w" "scope_text a" "c \<noteq> []" "CHR 0x0A \<notin> set c" "k q w a c = Some r"
    and sep: "sep = '', clause '' \<or> sep = '' (clause ''"
  shows "required sep k (q @ '' '' @ w @ for_text a @ sep @ c @ '')'') = Some r"
proof -
  let ?tail = "sep @ c @ '')''"
  have br: "breaks (for_text a @ ?tail)" "breaks ?tail"
    using sep by (auto simp: breaks_def for_text_def split: option.split)
  have e: "lit sep (clause_end (k q w a)) ?tail = Some r" using assms(4-6) by (simp add: clause_end_first)
  have a: "opt_for (\<lambda>a. lit sep (clause_end (k q w a))) (for_text a @ ?tail) = Some r"
  proof (cases a)
    case None
    then have "lit '' for '' k' (for_text a @ ?tail) = None" for k' :: "string \<Rightarrow> 'a option"
      using sep by (auto simp: lit_def startswith_def for_text_def)
    with None e show ?thesis by (simp add: opt_for_def for_text_def)
  next
    case (Some x)
    have "lazy_any (\<lambda>x. lit sep (clause_end (k q w (Some x)))) (x @ ?tail) = Some r"
    proof (rule lazy_first)
      fix y z assume "x = y @ z" "z \<noteq> []"
      then show "lit sep (clause_end (k q w (Some ([] @ y)))) (z @ ?tail) = None"
        using field_tail [of x y z ?tail sep] assms(3) Some br(2) sep by (simp add: lit_def scope_text_def)
    qed (use assms(3) Some e in \<open>simp_all add: scope_text_def field_text_def\<close>)
    then show ?thesis by (simp add: opt_for_def for_text_def Some lit_def startswith_iff)
  qed
  have "lazy_any (\<lambda>w. opt_for (\<lambda>a. lit sep (clause_end (k q w a)))) (w @ for_text a @ ?tail) = Some r"
  proof (rule lazy_first)
    fix y z assume yz: "w = y @ z" "z \<noteq> []"
    have "\<not> startswith (z @ for_text a @ ?tail) '' for''"
      using assms(2) yz br(1) by (intro word_tail [of _ w y]) (simp_all add: unit_text_def)
    then have "\<not> startswith (z @ for_text a @ ?tail) '' for ''" by (auto simp: startswith_iff)
    moreover have "\<not> startswith (z @ for_text a @ ?tail) sep"
      using assms(2) yz br(1) sep by (intro field_tail [of w y]) (simp_all add: unit_text_def)
    ultimately show "opt_for (\<lambda>a. lit sep (clause_end (k q ([] @ y) a))) (z @ for_text a @ ?tail) = None"
      by (simp add: opt_for_def lit_def)
  qed (use assms(2) a in \<open>simp_all add: unit_text_def field_text_def\<close>)
  then show ?thesis unfolding required_def
    using assms(1) by (intro NUM_first) (simp_all add: stops_def is_digit_def lit_def startswith_def)
qed

section \<open>The round trip\<close>

lemma num_text_plain: "num_text v \<Longrightarrow> c \<in> set v \<Longrightarrow> is_digit c \<or> c = CHR ''-'' \<or> c = CHR ''.''"
  by (auto simp: num_text_def frac_text_def digit_text_def)

lemma num_text_no: "num_text v \<Longrightarrow> CHR '','' \<notin> set v \<and> CHR ''{'' \<notin> set v"
  using num_text_plain by (fastforce simp: is_digit_def)

lemma strip_tight: "s \<noteq> [] \<Longrightarrow> \<not> is_space (hd s) \<Longrightarrow> \<not> is_space (last s) \<Longrightarrow> strip s = s"
proof -
  assume s: "s \<noteq> []" "\<not> is_space (hd s)" "\<not> is_space (last s)"
  have id: "t \<noteq> [] \<Longrightarrow> \<not> is_space (hd t) \<Longrightarrow> dropWhile is_space t = t" for t by (cases t) auto
  from s show "strip s = s" by (simp add: py_strip_def id hd_rev)
qed

lemma strip_hd: "s \<noteq> [] \<Longrightarrow> strip s = s \<Longrightarrow> \<not> is_space (hd s)"
proof
  assume s: "s \<noteq> []" "strip s = s" "is_space (hd s)"
  then obtain c t where "s = c # t" by (cases s) auto
  then have "length (dropWhile is_space s) < length s" using s(3) by (simp add: le_imp_less_Suc length_dropWhile_le)
  moreover have "length (strip s) \<le> length (dropWhile is_space s)"
    unfolding py_strip_def by (metis length_dropWhile_le length_rev)
  ultimately show False using s(2) by simp
qed

lemma strip_message: "m \<noteq> [] \<Longrightarrow> \<not> is_space (hd m) \<Longrightarrow> strip (message_text m v u x q w a c) = message_text m v u x q w a c"
  by (rule strip_tight) (simp_all add: message_text_def shape_text_def is_space_def)

lemma condition_fail_first:
  assumes "metric_text m" "num_text v" "unit_text u" "num_text q" "scope_text a" "c \<noteq> []" "CHR 0x0A \<notin> set c"
    and "x \<in> set comparison_signs"
  shows "RE_CONDITION_FAIL (message_text m v u x q u a c) = Some \<lparr>g_metric = m, g_value = v, g_unit = u, g_operator = Some x,
    g_required = q, g_req_unit = u, g_applies_to = a, g_clause = c\<rparr>"
proof -
  let ?K = "\<lambda>x q w a c. Some \<lparr>g_metric = m, g_value = v, g_unit = u, g_operator = Some x,
    g_required = q, g_req_unit = w, g_applies_to = a, g_clause = c\<rparr>"
  let ?t = "q @ '' '' @ u @ for_text a @ '', clause '' @ c @ '')''"
  have req: "required '', clause '' (?K x) ?t = ?K x q u a c"
    by (rule required_first) (use assms in simp_all)
  have "operators k (x @ '' '' @ t) = k x ('' '' @ t)" if "k x ('' '' @ t) \<noteq> None"
    for k :: "string \<Rightarrow> string \<Rightarrow> groupdict option" and t
    using assms(8) that by (auto simp: operators_def comparison_signs_def lit_def startswith_def)
  from this [of "\<lambda>x. lit '' '' (required '', clause '' (?K x))" ?t]
  have ops: "operators (\<lambda>x. lit '' '' (required '', clause '' (?K x))) (x @ '' '' @ ?t) = ?K x q u a c"
    unfolding lit_append req by blast
  have "message_text m v u x q u a c =
      m @ '' is '' @ v @ '' '' @ u @ '', '' @ ''which fails the required condition ('' @ x @ '' '' @ ?t"
    using comparison_signs_not_range [OF assms(8)] by (simp add: message_text_def shape_text_def)
  moreover have "RE_CONDITION_FAIL (m @ '' is '' @ v @ '' '' @ u @ '', '' @ ''which fails the required condition ('' @ x @ '' '' @ ?t)
      = ?K x q u a c"
    unfolding RE_CONDITION_FAIL_def
    by (rule measured_first) (use assms ops in \<open>simp_all only: unit_text_def lit_append\<close>)
  ultimately show ?thesis by (simp only:)
qed

lemma range_first:
  assumes "metric_text m" "num_text v" "unit_text u" "num_text q" "scope_text a" "c \<noteq> []" "CHR 0x0A \<notin> set c"
  shows "RE_RANGE phrase (m @ '' is '' @ v @ '' '' @ u @ '', '' @ phrase @ q @ '' '' @ u @ for_text a @ '' (clause '' @ c @ '')'')
    = Some \<lparr>g_metric = m, g_value = v, g_unit = u, g_operator = None,
    g_required = q, g_req_unit = u, g_applies_to = a, g_clause = c\<rparr>"
proof -
  have "required '' (clause '' (\<lambda>q w a c. Some \<lparr>g_metric = m, g_value = v, g_unit = u, g_operator = None,
      g_required = q, g_req_unit = w, g_applies_to = a, g_clause = c\<rparr>) (q @ '' '' @ u @ for_text a @ '' (clause '' @ c @ '')'')
    = Some \<lparr>g_metric = m, g_value = v, g_unit = u, g_operator = None,
      g_required = q, g_req_unit = u, g_applies_to = a, g_clause = c\<rparr>"
    by (rule required_first) (use assms in simp_all)
  then show ?thesis unfolding RE_RANGE_def
    by (intro measured_first) (use assms in \<open>simp_all only: unit_text_def lit_append\<close>)
qed

text \<open>A message whose fields have no comma of their own matches no other shape.\<close>

lemma two_commas: "RE_CONDITION_FAIL s = Some g \<Longrightarrow> 2 \<le> count_list s CHR '',''"
proof -
  assume "RE_CONDITION_FAIL s = Some g"
  then obtain x where "x \<in> set comparison_signs"
    "s = message_text (g_metric g) (g_value g) (g_unit g) x (g_required g) (g_req_unit g) (g_applies_to g) (g_clause g)"
    using condition_fail_Some by blast
  then show ?thesis using comparison_signs_not_range by (auto simp: message_text_def shape_text_def)
qed

definition plain_fields :: "string \<Rightarrow> string \<Rightarrow> string \<Rightarrow> string \<Rightarrow> string option \<Rightarrow> string \<Rightarrow> bool" where
  "plain_fields m v u q a c \<longleftrightarrow> metric_text m \<and> num_text v \<and> unit_text u \<and> num_text q \<and> scope_text a
     \<and> c \<noteq> [] \<and> CHR 0x0A \<notin> set c \<and> CHR '','' \<notin> set c"

lemma plain_no_comma:
  assumes "plain_fields m v u q a c"
  shows "CHR '','' \<notin> set (m @ '' is '' @ v @ '' '' @ u)" "CHR '','' \<notin> set (q @ '' '' @ u @ for_text a @ '' (clause '' @ c @ '')'')"
  using assms num_text_no
  by (auto simp: plain_fields_def metric_text_def unit_text_def field_text_def scope_text_def for_text_def split: option.splits)

lemma range_not_condition:
  assumes "plain_fields m v u q a c" "x = ''range_low'' \<or> x = ''range_high''"
  shows "RE_CONDITION_FAIL (message_text m v u x q u a c) = None"
proof (rule ccontr)
  assume "RE_CONDITION_FAIL (message_text m v u x q u a c) \<noteq> None"
  then have "2 \<le> count_list (message_text m v u x q u a c) CHR '',''" using two_commas by blast
  moreover have "count_list (message_text m v u x q u a c) CHR '','' = 1"
    using plain_no_comma [OF assms(1)] assms(2) by (auto simp: message_text_def shape_text_def count_list_0_iff)
  ultimately show False by simp
qed

lemma high_not_low:
  assumes "plain_fields m v u q a c"
  shows "RE_RANGE_LOW (message_text m v u ''range_high'' q u a c) = None"
proof (rule ccontr)
  let ?p = "m @ '' is '' @ v @ '' '' @ u" and ?r = "q @ '' '' @ u @ for_text a @ '' (clause '' @ c @ '')''"
  assume "RE_RANGE_LOW (message_text m v u ''range_high'' q u a c) \<noteq> None"
  then obtain g where "RE_RANGE ''below the required minimum of '' (message_text m v u ''range_high'' q u a c) = Some g"
    by (auto simp: RE_RANGE_LOW_def)
  from range_Some [OF this] obtain p' r' where
      "message_text m v u ''range_high'' q u a c = p' @ '', '' @ ''below'' @ r'"
    by (metis append.assoc append_Cons append_Nil)
  then have eq: "?p @ CHR '','' # '' above the allowed maximum of '' @ ?r = p' @ CHR '','' # '' below'' @ r'"
    by (simp add: message_text_def shape_text_def)
  have "CHR '','' \<notin> set ('' above the allowed maximum of '' @ ?r)" using plain_no_comma(2) [OF assms] by simp
  then have "'' above the allowed maximum of '' @ ?r = '' below'' @ r'"
    using append_Cons_eq_iff [OF plain_no_comma(1) [OF assms]] eq by blast
  then show False by simp
qed

definition violation_record ::
  "string \<Rightarrow> string option \<Rightarrow> string option \<Rightarrow> string \<Rightarrow> string \<Rightarrow> pyfloat \<Rightarrow> string \<Rightarrow> string \<Rightarrow> pyfloat \<Rightarrow> string option \<Rightarrow> string
   \<Rightarrow> StructuredViolation" where
  "violation_record rid circular clause reg m observed u x req a raw =
     \<lparr>sv_rule_id = rid, sv_circular_number = circular, sv_clause_number = clause, sv_regulator = reg, sv_metric = m,
      observed_value = observed, sv_unit = u, sv_operator = x, required_value = req, sv_applies_to = a, raw_violation_text = raw\<rparr>"

lemma parse_message:
  assumes "plain_fields m v u q a c" "strip m = m" "strip u = u" "flt v = Some observed" "flt q = Some req"
    and "x \<in> set comparison_signs \<or> x = ''range_low'' \<or> x = ''range_high''"
  shows "parse_violation flt rid circular clause reg (message_text m v u x q u a c) =
    Some (violation_record rid circular (opt_str_or clause (Some c)) reg m observed u x req a (message_text m v u x q u a c))"
proof -
  have f: "metric_text m" "num_text v" "unit_text u" "num_text q" "scope_text a" "c \<noteq> []" "CHR 0x0A \<notin> set c"
    using assms(1) by (simp_all add: plain_fields_def)
  have "\<not> is_space (hd m)" using f(1) assms(2) by (intro strip_hd) (simp_all add: metric_text_def field_text_def)
  then have st: "strip (message_text m v u x q u a c) = message_text m v u x q u a c"
    using f(1) by (intro strip_message) (simp_all add: metric_text_def field_text_def)
  have low: "message_text m v u ''range_low'' q u a c = m @ '' is '' @ v @ '' '' @ u @ '', '' @ ''below the required minimum of '' @ q @ '' '' @ u
      @ for_text a @ '' (clause '' @ c @ '')''" by (simp add: message_text_def shape_text_def)
  have high: "message_text m v u ''range_high'' q u a c = m @ '' is '' @ v @ '' '' @ u @ '', '' @ ''above the allowed maximum of '' @ q @ '' '' @ u
      @ for_text a @ '' (clause '' @ c @ '')''" by (simp add: message_text_def shape_text_def)
  from assms(6) show ?thesis
  proof (elim disjE)
    assume x: "x \<in> set comparison_signs"
    show ?thesis unfolding parse_violation_def st PATTERNS_def
      by (simp add: condition_fail_first [OF f x] assms(2-5) violation_record_def)
  next
    assume x: "x = ''range_low''"
    show ?thesis unfolding parse_violation_def st PATTERNS_def
      using range_not_condition [OF assms(1), of x] range_first [OF f, of "''below the required minimum of ''"]
      by (simp add: x assms(2-5) violation_record_def RE_RANGE_LOW_def low del: append.simps)
  next
    assume x: "x = ''range_high''"
    show ?thesis unfolding parse_violation_def st PATTERNS_def
      using range_not_condition [OF assms(1), of x] high_not_low [OF assms(1)] range_first [OF f, of "''above the allowed maximum of ''"]
      by (simp add: x assms(2-5) violation_record_def RE_RANGE_HIGH_def high del: append.simps)
  qed
qed

section \<open>The messages of a compiled threshold\<close>

text \<open>
  The generated module builds each message by a call of Rego's \<open>sprintf\<close>. The
  call is read as a template with its arguments; \<open>sprintf\<close> puts the text of the
  arguments in place of the verbs \<open>%s\<close> and \<open>%v\<close> of a template that has no other
  percent sign. The text OPA prints for the number of the transaction is an
  argument.
\<close>

datatype rego_arg = RStr string | RField | RNum string

fun arg_source :: "string \<Rightarrow> rego_arg \<Rightarrow> string" where
  "arg_source f (RStr s) = quoted s"
| "arg_source f RField = ''input.facts.'' @ f"
| "arg_source f (RNum s) = s"

fun arg_value :: "string \<Rightarrow> rego_arg \<Rightarrow> string" where
  "arg_value shown (RStr s) = s"
| "arg_value shown RField = shown"
| "arg_value shown (RNum s) = s"

definition sprintf_source :: "string \<Rightarrow> string \<times> rego_arg list \<Rightarrow> string" where
  "sprintf_source f m = ''sprintf('' @ quoted (fst m) @ '', ['' @ join '', '' (map (arg_source f) (snd m)) @ ''])''"

fun sprintf :: "string \<Rightarrow> string list \<Rightarrow> string" where
  "sprintf (c # d # r) (a # as) =
     (if c = CHR ''%'' \<and> (d = CHR ''s'' \<or> d = CHR ''v'') then a @ sprintf r as else c # sprintf (d # r) (a # as))"
| "sprintf r as = r"

definition violation_bounds :: "NumericalThreshold \<Rightarrow> (string \<times> pyfloat) list" where
  "violation_bounds t =
     (if operator t = RANGE then [(''range_low'', t_value t), (''range_high'', the (value_upper t))]
      else [(operator_value (operator t), t_value t)])"

definition scope_of :: "NumericalThreshold \<Rightarrow> string option" where
  "scope_of t = (if truthy_str (applies_to t) then applies_to t else None)"

definition template :: "(rat \<Rightarrow> string) \<Rightarrow> string \<Rightarrow> NumericalThreshold \<Rightarrow> string \<times> pyfloat \<Rightarrow> string \<times> rego_arg list" where
  "template fr clause t b =
     (if fst b = ''range_low'' then
        (''%s is %v %s, below the required minimum of %v %s'' @ for_text (scope_of t) @ '' (clause '' @ clause @ '')'',
         [RStr (metric t), RField, RStr (unit t), RNum (rego_scalar fr (snd b)), RStr (unit t)])
      else if fst b = ''range_high'' then
        (''%s is %v %s, above the allowed maximum of %v %s'' @ for_text (scope_of t) @ '' (clause '' @ clause @ '')'',
         [RStr (metric t), RField, RStr (unit t), RNum (rego_scalar fr (snd b)), RStr (unit t)])
      else
        (''%s is %v %s, which fails the required condition (%s %v %s'' @ for_text (scope_of t) @ '', clause '' @ clause @ '')'',
         [RStr (metric t), RField, RStr (unit t), RStr (fst b), RNum (rego_scalar fr (snd b)), RStr (unit t)]))"

lemma replace_str_skip: "CHR ''{'' \<notin> set a \<Longrightarrow> replace_str ''{clause}'' c (a @ s) = a @ replace_str ''{clause}'' c s"
  by (induction a) (auto simp: startswith_def)

lemma replace_str_hit: "replace_str ''{clause}'' c (''{clause}'' @ s) = c @ replace_str ''{clause}'' c s"
  by (simp add: startswith_def)

lemma replace_clause:
  assumes "CHR ''{'' \<notin> set a" "CHR ''{'' \<notin> set b"
  shows "replace_str ''{clause}'' c (a @ ''{clause}'' @ b) = a @ c @ b"
  unfolding replace_str_skip [OF assms(1)] replace_str_hit
  using replace_str_skip [OF assms(2), of c "[]"] by simp

definition no_brace :: "NumericalThreshold \<Rightarrow> bool" where
  "no_brace t \<longleftrightarrow> CHR ''{'' \<notin> set (metric t) \<and> CHR ''{'' \<notin> set (unit t) \<and> CHR ''{'' \<notin> set (for_text (scope_of t))"

lemma sprintf_replaced:
  assumes "CHR ''{'' \<notin> set a" "CHR ''{'' \<notin> set b" "CHR ''{'' \<notin> set args"
  shows "replace_str ''{clause}'' c (''sprintf('' @ quoted (a @ ''{clause}'' @ b) @ '', ['' @ args @ ''])'')
    = ''sprintf('' @ quoted (a @ c @ b) @ '', ['' @ args @ ''])''"
  using replace_clause [of "''sprintf('' @ CHR 0x22 # a" "b @ CHR 0x22 # '', ['' @ args @ ''])''" c] assms by simp

lemma canonical_ids_no_brace: "get_canonical_fact i \<noteq> None \<Longrightarrow> CHR ''{'' \<notin> set i"
proof -
  have "list_all (\<lambda>k. CHR ''{'' \<notin> set k) (map fst canonical_facts)"
    by (simp add: canonical_facts_def)
  then show "get_canonical_fact i \<noteq> None \<Longrightarrow> CHR ''{'' \<notin> set i"
    by (force simp: get_canonical_fact_def list_all_iff dest: map_of_SomeD)
qed

lemma message_sources:
  assumes cls: "violation_clauses fr t = Inr cls" and plain: "no_brace t"
    and nums: "list_all (\<lambda>b. num_text (rego_scalar fr (snd b))) (violation_bounds t)"
  shows "map (\<lambda>p. replace_str ''{clause}'' clause (snd p)) cls =
    map (\<lambda>b. sprintf_source (field_of t) (template fr clause t b)) (violation_bounds t)"
proof -
  obtain f where f: "threshold_field t = Inr f" using cls by (auto simp: violation_clauses_def bind_res_eq_Inr)
  have b: "CHR ''{'' \<notin> set f" by (rule canonical_ids_no_brace [OF threshold_field_Inr(1) [OF f]])
  have n: "CHR ''{'' \<notin> set (rego_scalar fr (snd b))" if "b \<in> set (violation_bounds t)" for b
    using nums that num_text_no by (auto simp: list_all_iff)
  have sc: "(if truthy_str (applies_to t) then '' for '' @ the (applies_to t) else []) = for_text (scope_of t)"
    by (cases "applies_to t") (simp_all add: scope_of_def for_text_def)
  have op: "CHR ''{'' \<notin> set (operator_value x)" for x by (cases x) simp_all
  let ?scope = "for_text (scope_of t)"
  let ?args = "\<lambda>v. join '', '' [quoted (metric t), ''input.facts.'' @ f, quoted (unit t), rego_scalar fr v, quoted (unit t)]"
  show ?thesis
  proof (cases "operator t = RANGE")
    case True
    then obtain up where up: "value_upper t = Some up"
      using cls f by (auto simp: violation_clauses_def Let_def split: option.splits)
    let ?low = "''%s is %v %s, below the required minimum of %v %s'' @ ?scope @ '' (clause ''"
    let ?high = "''%s is %v %s, above the allowed maximum of %v %s'' @ ?scope @ '' (clause ''"
    have snds: "map snd cls = [''sprintf('' @ quoted (?low @ ''{clause}'' @ '')'') @ '', ['' @ ?args (t_value t) @ ''])'',
        ''sprintf('' @ quoted (?high @ ''{clause}'' @ '')'') @ '', ['' @ ?args up @ ''])'']"
      using cls by (auto simp: violation_clauses_def f up True Let_def sc)
    have rep: "replace_str ''{clause}'' clause (''sprintf('' @ quoted (p @ ''{clause}'' @ '')'') @ '', ['' @ ?args v @ ''])'')
        = ''sprintf('' @ quoted (p @ clause @ '')'') @ '', ['' @ ?args v @ ''])''"
      if "CHR ''{'' \<notin> set p" "v \<in> {t_value t, up}" for p v
      using that n [of "(_, v)"] b plain
      by (intro sprintf_replaced) (auto simp: no_brace_def violation_bounds_def True up)
    have nb: "CHR ''{'' \<notin> set ?low" "CHR ''{'' \<notin> set ?high" using plain by (simp_all add: no_brace_def)
    have "map (replace_str ''{clause}'' clause) (map snd cls) =
      [''sprintf('' @ quoted (?low @ clause @ '')'') @ '', ['' @ ?args (t_value t) @ ''])'',
        ''sprintf('' @ quoted (?high @ clause @ '')'') @ '', ['' @ ?args up @ ''])'']"
      unfolding snds list.map using rep [OF nb(1), of "t_value t"] rep [OF nb(2), of up] by blast
    then show ?thesis
      by (simp add: comp_def violation_bounds_def True up template_def sprintf_source_def threshold_field_Inr(2) [OF f])
  next
    case False
    let ?op = "operator_value (operator t)"
    let ?cond = "''%s is %v %s, which fails the required condition (%s %v %s'' @ ?scope @ '', clause ''"
    let ?args = "join '', '' [quoted (metric t), ''input.facts.'' @ f, quoted (unit t), quoted ?op, rego_scalar fr (t_value t), quoted (unit t)]"
    have snds: "map snd cls = [''sprintf('' @ quoted (?cond @ ''{clause}'' @ '')'') @ '', ['' @ ?args @ ''])'']"
      using cls False by (cases "operator t") (auto simp: violation_clauses_def f Let_def sc)
    have rep: "replace_str ''{clause}'' clause (''sprintf('' @ quoted (?cond @ ''{clause}'' @ '')'') @ '', ['' @ ?args @ ''])'')
        = ''sprintf('' @ quoted (?cond @ clause @ '')'') @ '', ['' @ ?args @ ''])''"
      using n b plain op by (intro sprintf_replaced) (auto simp: no_brace_def violation_bounds_def False)
    have "map (replace_str ''{clause}'' clause) (map snd cls) =
      [''sprintf('' @ quoted (?cond @ clause @ '')'') @ '', ['' @ ?args @ ''])'']"
      unfolding snds list.map rep ..
    moreover have "?op \<noteq> ''range_low''" "?op \<noteq> ''range_high''" by (cases "operator t", simp_all)+
    ultimately show ?thesis
      by (simp add: comp_def violation_bounds_def False template_def sprintf_source_def threshold_field_Inr(2) [OF f])
  qed
qed

lemma sprintf_template:
  "sprintf (fst (template fr clause t b)) (map (arg_value shown) (snd (template fr clause t b))) =
   message_text (metric t) shown (unit t) (fst b) (rego_scalar fr (snd b)) (unit t) (scope_of t) clause"
  by (simp add: template_def message_text_def shape_text_def)

definition readable_threshold :: "NumericalThreshold \<Rightarrow> string \<Rightarrow> bool" where
  "readable_threshold t clause \<longleftrightarrow>
     metric_text (metric t) \<and> strip (metric t) = metric t \<and> unit_text (unit t) \<and> strip (unit t) = unit t
     \<and> scope_text (scope_of t) \<and> no_brace t \<and> CHR ''%'' \<notin> set (for_text (scope_of t))
     \<and> clause \<noteq> [] \<and> CHR 0x0A \<notin> set clause \<and> CHR '','' \<notin> set clause \<and> CHR ''%'' \<notin> set clause"


definition demo_float :: "string \<Rightarrow> pyfloat option" where
  "demo_float = map_of [(''15'', Fin 15), (''10'', Fin 10), (''30'', Fin 30)]"

lemma num_text_digits: "digit_text v \<Longrightarrow> num_text v"
  unfolding num_text_def by (intro exI [of _ "[]"] exI [of _ v]) (simp add: frac_text_def)

lemma demo_numerals: "int_str 10 = ''10''" "int_str 30 = ''30''" "num_text ''15''" "num_text ''10''" "num_text ''30''"
proof -
  have "digit 0 = CHR ''0''" "digit 1 = CHR ''1''" "digit 3 = CHR ''3''"
    unfolding digit_def by (rule char_of_codeI, simp)+
  then show "int_str 10 = ''10''" "int_str 30 = ''30''" by (simp_all add: int_str_def nat_str.simps)
  show "num_text ''15''" "num_text ''10''" "num_text ''30''"
    by (rule num_text_digits, simp add: digit_text_def is_digit_def)+
qed


theorem parse_violation_sound_witness:
  "\<exists>v m n u q w c. parse_violation demo_float ''r'' None None ''sebi'' ''Net Worth is 10 %, below the required minimum of 30 % (clause 4)'' = Some v
    \<and> strip ''Net Worth is 10 %, below the required minimum of 30 % (clause 4)'' = message_text m n u (sv_operator v) q w (sv_applies_to v) c
    \<and> demo_float n = Some (observed_value v) \<and> demo_float q = Some (required_value v)"
proof -
  have "plain_fields ''Net Worth'' ''10'' ''%'' ''30'' None ''4''"
    using demo_numerals by (simp add: plain_fields_def metric_text_def unit_text_def field_text_def scope_text_def startswith_def)
  moreover have "strip ''Net Worth'' = ''Net Worth''" "strip ''%'' = ''%''"
    by (simp_all add: py_strip_def is_space_code)
  ultimately obtain v where v: "parse_violation demo_float ''r'' None None ''sebi''
      (message_text ''Net Worth'' ''10'' ''%'' ''range_low'' ''30'' ''%'' None ''4'') = Some v"
    using parse_message [of "''Net Worth''" "''10''" "''%''" "''30''" None "''4''" demo_float "Fin 10" "Fin 30" "''range_low''"]
    by (auto simp: demo_float_def)
  have t: "message_text ''Net Worth'' ''10'' ''%'' ''range_low'' ''30'' ''%'' None ''4''
      = ''Net Worth is 10 %, below the required minimum of 30 % (clause 4)''"
    by (simp add: message_text_def shape_text_def for_text_def)
  from v parse_violation_sound [OF v] show ?thesis unfolding t by blast
qed

end
