(* ===== verification/Explainability.thy ===== *)
theory Explainability
  imports Trace_Parser Evaluator
begin

text \<open>
  Explaining decisions, \<open>app/explainability\<close>: the sentence built from a parsed
  violation (\<open>nlg_deterministic.py\<close>), the explanation of a whole evaluation
  (\<open>explainer.py\<close>) and its upgrade by a language model (\<open>llm_explainer.py\<close>,
  \<open>prompts.py\<close>). The model's answer, as the headline, citation and confidence of
  its JSON or nothing when the call or the reading of it fails, is an argument,
  as are \<open>float()\<close> and the format \<open>:g\<close>.
\<close>

section \<open>Data\<close>

datatype ExplanationSource = DETERMINISTIC | LLM | UNPARSEABLE

record LegalExplanation =
  le_rule_id :: string
  le_circular_number :: "string option"
  le_clause_number :: "string option"
  headline :: string
  citation :: string
  structured_violation :: "StructuredViolation option"
  le_source :: ExplanationSource
  confidence :: rat

record DecisionExplanationBundle =
  eb_transaction_id :: string
  eb_decision :: string
  eb_evaluated_at :: time
  overall_summary :: string
  explanations :: "LegalExplanation list"
  generated_at :: time

section \<open>Sentences\<close>

fun CITATION_DOC_LABEL :: "Regulator \<Rightarrow> string" where
  "CITATION_DOC_LABEL SEBI = ''Master Circular''"
| "CITATION_DOC_LABEL RBI = ''Master Direction''"
| "CITATION_DOC_LABEL IRDAI = ''Regulation''"
| "CITATION_DOC_LABEL PFRDA = ''Circular''"

definition METRIC_PHRASING :: "(string \<times> string) list" where
  "METRIC_PHRASING =
     [(''Upfront Margin'', ''Margin collected''),
      (''Peak Margin'', ''Peak margin collected''),
      (''Net Worth'', ''Net worth''),
      (''Settlement Window'', ''Settlement timeline''),
      (''CRAR'', ''Capital to Risk-Weighted Assets Ratio (CRAR)''),
      (''Single Borrower Exposure'', ''Single-borrower exposure''),
      (''Solvency Ratio'', ''Solvency ratio''),
      (''Equity Exposure'', ''Equity exposure''),
      (''Leverage'', ''Leverage''),
      (''Portfolio Leverage'', ''Portfolio leverage'')]"

definition OPERATOR_PHRASING :: "(string \<times> string \<times> string) list" where
  "OPERATOR_PHRASING =
     [(''>='', ''is below the mandatory {regulator} threshold'', ''required by''),
      (''>'', ''does not exceed the mandatory {regulator} threshold'', ''required by''),
      (''<='', ''exceeds the maximum permitted {regulator} threshold'', ''permitted by''),
      (''<'', ''is not below the required {regulator} threshold'', ''required by''),
      (''=='', ''does not match the mandatory {regulator} requirement'', ''required by''),
      (''range_low'', ''is below the minimum permitted {regulator} threshold'', ''permitted by''),
      (''range_high'', ''exceeds the maximum permitted {regulator} threshold'', ''permitted by'')]"

definition format_number :: "(pyfloat \<Rightarrow> string) \<Rightarrow> pyfloat \<Rightarrow> string" where
  "format_number fmt_g v =
     (case v of
        Fin q \<Rightarrow> if snd (quotient_of q) = 1 then int_str (fst (quotient_of q)) else fmt_g v
      | _ \<Rightarrow> fmt_g v)"

text \<open>\<open>Regulator(value)\<close>, with SEBI when the value names no member.\<close>

definition regulator_or_sebi :: "string \<Rightarrow> Regulator" where
  "regulator_or_sebi s =
     (case find (\<lambda>g. regulator_value g = s) [SEBI, RBI, IRDAI, PFRDA] of Some g \<Rightarrow> g | None \<Rightarrow> SEBI)"

definition regulator_acronym :: "Regulator \<Rightarrow> string" where
  "regulator_acronym g = map upper_char (regulator_value g)"

definition document_type_label :: "Regulator \<Rightarrow> string" where
  "document_type_label g = regulator_acronym g @ '' '' @ CITATION_DOC_LABEL g"

definition build_citation :: "StructuredViolation \<Rightarrow> string" where
  "build_citation v =
     (let doc_label = document_type_label (regulator_or_sebi (sv_regulator v));
          clause_part = (if truthy_str (sv_clause_number v) then ''Clause '' @ the (sv_clause_number v)
                         else ''clause unspecified'')
      in if truthy_str (sv_circular_number v)
         then doc_label @ '' '' @ clause_part @ '' ('' @ the (sv_circular_number v) @ '')''
         else doc_label @ '' '' @ clause_part)"

definition build_headline :: "(pyfloat \<Rightarrow> string) \<Rightarrow> StructuredViolation \<Rightarrow> string" where
  "build_headline fmt_g v =
     (let acronym = regulator_acronym (regulator_or_sebi (sv_regulator v));
          metric_phrase = (case map_of METRIC_PHRASING (sv_metric v) of Some p \<Rightarrow> p | None \<Rightarrow> sv_metric v);
          phrasing = (case map_of OPERATOR_PHRASING (sv_operator v) of Some p \<Rightarrow> p
                      | None \<Rightarrow> (''does not satisfy the mandatory {regulator} requirement'', ''required by''));
          violation_phrase = replace_str ''{regulator}'' acronym (fst phrasing);
          observed = format_number fmt_g (observed_value v);
          req = format_number fmt_g (required_value v);
          scope = (if truthy_str (sv_applies_to v) then '' for '' @ the (sv_applies_to v) else [])
      in ''Trade rejected: '' @ metric_phrase @ '' ('' @ observed @ sv_unit v @ '')'' @ scope @ '' '' @ violation_phrase
         @ '' ('' @ req @ sv_unit v @ '') '' @ snd phrasing @ '' '' @ build_citation v @ ''.'')"

definition build_legal_explanation :: "(pyfloat \<Rightarrow> string) \<Rightarrow> StructuredViolation \<Rightarrow> LegalExplanation" where
  "build_legal_explanation fmt_g v =
     \<lparr>le_rule_id = sv_rule_id v, le_circular_number = sv_circular_number v, le_clause_number = sv_clause_number v,
      headline = build_headline fmt_g v, citation = build_citation v, structured_violation = Some v,
      le_source = DETERMINISTIC, confidence = 1\<rparr>"

section \<open>Explaining an evaluation\<close>

definition raw_explanation :: "PolicyOutcome \<Rightarrow> string \<Rightarrow> rat \<Rightarrow> LegalExplanation" where
  "raw_explanation x raw conf =
     \<lparr>le_rule_id = po_rule_id x, le_circular_number = po_circular_number x, le_clause_number = po_clause_number x,
      headline = ''Trade rejected: '' @ raw,
      citation = ''Clause '' @ str_or (po_clause_number x) ''unscoped'' @ '' ('' @ str_or (po_circular_number x) ''circular unknown'' @ '')'',
      structured_violation = None, le_source = UNPARSEABLE, confidence = conf\<rparr>"

definition explain_policy_outcome_deterministic ::
  "(string \<Rightarrow> pyfloat option) \<Rightarrow> (pyfloat \<Rightarrow> string) \<Rightarrow> PolicyOutcome \<Rightarrow> string \<Rightarrow> LegalExplanation list" where
  "explain_policy_outcome_deterministic flt fmt_g x reg =
     map (\<lambda>raw.
       case parse_violation flt (po_rule_id x) (po_circular_number x) (po_clause_number x) reg raw of
         Some v \<Rightarrow> build_legal_explanation fmt_g v
       | None \<Rightarrow> raw_explanation x raw (1 / 2)) (po_violations x)"

definition overall_summary_text :: "Decision \<Rightarrow> nat \<Rightarrow> string" where
  "overall_summary_text d n =
     (if d = ALLOW then ''Trade allowed: all applicable compliance policies were satisfied.''
      else if d = FLAGGED then
        ''Trade flagged for human review: '' @ nat_str n @ '' polic'' @ (if n = 1 then ''y'' else ''ies'')
          @ '' returned an undefined/ambiguous result.''
      else ''Trade rejected: '' @ nat_str n @ '' compliance '' @ (if n = 1 then ''violation'' else ''violations'') @ '' found.'')"

definition explain_evaluation_result ::
  "(string \<Rightarrow> pyfloat option) \<Rightarrow> (pyfloat \<Rightarrow> string) \<Rightarrow> time \<Rightarrow> EvaluationResult \<Rightarrow> string \<Rightarrow> DecisionExplanationBundle" where
  "explain_evaluation_result flt fmt_g now res reg =
     (let exps = concat (map (\<lambda>x. if po_violations x \<noteq> [] then explain_policy_outcome_deterministic flt fmt_g x reg else [])
                   (matched_policies res))
      in \<lparr>eb_transaction_id = er_transaction_id res, eb_decision = decision_value (er_decision res),
          eb_evaluated_at = evaluated_at res, overall_summary = overall_summary_text (er_decision res) (length exps),
          explanations = exps, generated_at = now\<rparr>)"

section \<open>The language model\<close>

definition build_explanation_prompt :: "string \<Rightarrow> string \<Rightarrow> string option \<Rightarrow> string option \<Rightarrow> string \<Rightarrow> string" where
  "build_explanation_prompt raw rid circular clause reg =
     (let nl = [CHR 0x0A]; fence = [CHR 0x22, CHR 0x22, CHR 0x22] in
      ''Raw OPA violation message:'' @ nl @ fence @ nl @ raw @ nl @ fence @ nl @ nl
      @ ''rule_id: '' @ rid @ nl
      @ ''regulator: '' @ map upper_char reg @ nl
      @ ''circular_number: '' @ str_or circular ''unknown'' @ nl
      @ ''clause_number: '' @ str_or clause ''unscoped'' @ nl @ nl
      @ ''Write the explanation per your system prompt'' @ [CHR 0x27] @ ''s rules. Output ONLY the JSON object.'')"

definition explain_violation_with_llm ::
  "(string \<Rightarrow> (string \<times> string \<times> rat) option) \<Rightarrow> PolicyOutcome \<Rightarrow> string \<Rightarrow> string \<Rightarrow> LegalExplanation" where
  "explain_violation_with_llm completion x raw reg =
     (case completion (build_explanation_prompt raw (po_rule_id x) (po_circular_number x) (po_clause_number x) reg) of
        Some (h, c, conf) \<Rightarrow>
          if 0 \<le> conf \<and> conf \<le> 1 then
            \<lparr>le_rule_id = po_rule_id x, le_circular_number = po_circular_number x, le_clause_number = po_clause_number x,
             headline = h, citation = c, structured_violation = None, le_source = LLM, confidence = conf\<rparr>
          else raw_explanation x raw 0
      | None \<Rightarrow> raw_explanation x raw 0)"

text \<open>The later of two outcomes of one rule is the one the dictionary keeps.\<close>

definition explain_evaluation_result_full ::
  "(string \<Rightarrow> (string \<times> string \<times> rat) option) \<Rightarrow> (string \<Rightarrow> pyfloat option) \<Rightarrow> (pyfloat \<Rightarrow> string) \<Rightarrow> time
   \<Rightarrow> EvaluationResult \<Rightarrow> string \<Rightarrow> DecisionExplanationBundle" where
  "explain_evaluation_result_full completion flt fmt_g now res reg =
     (let bundle = explain_evaluation_result flt fmt_g now res reg;
          by_rule_id = map_of (rev (map (\<lambda>x. (po_rule_id x, x)) (matched_policies res)));
          removeprefix = (\<lambda>s. if startswith s ''Trade rejected: '' then drop (length ''Trade rejected: '') s else s)
      in bundle\<lparr>explanations := map (\<lambda>e.
           if le_source e = UNPARSEABLE then
             (case by_rule_id (le_rule_id e) of
                Some x \<Rightarrow> explain_violation_with_llm completion x (removeprefix (headline e)) reg
              | None \<Rightarrow> e)
           else e) (explanations bundle)\<rparr>)"

section \<open>No violation is hidden\<close>

definition explains ::
  "(string \<Rightarrow> (string \<times> string \<times> rat) option) \<Rightarrow> (pyfloat \<Rightarrow> string) \<Rightarrow> string
   \<Rightarrow> PolicyOutcome \<times> string \<Rightarrow> LegalExplanation \<Rightarrow> bool" where
  "explains completion fmt_g reg xr e \<longleftrightarrow>
     le_rule_id e = po_rule_id (fst xr) \<and>
     (case le_source e of
        DETERMINISTIC \<Rightarrow> (\<exists>v. structured_violation e = Some v \<and> raw_violation_text v = snd xr \<and> headline e = build_headline fmt_g v)
      | UNPARSEABLE \<Rightarrow> structured_violation e = None \<and> headline e = ''Trade rejected: '' @ snd xr
      | LLM \<Rightarrow> structured_violation e = None \<and>
          (\<exists>(x :: PolicyOutcome) c conf. po_rule_id x = po_rule_id (fst xr)
             \<and> completion (build_explanation_prompt (snd xr) (po_rule_id x) (po_circular_number x) (po_clause_number x) reg)
               = Some (headline e, c, conf)))"

lemma parse_violation_raw:
  "parse_violation flt rid circular clause reg raw = Some v \<Longrightarrow> raw_violation_text v = raw \<and> sv_rule_id v = rid"
  unfolding parse_violation_def by (drule first_some_Some) (auto split: option.splits)

lemma deterministic_explains:
  "list_all2 (explains completion fmt_g reg) (map (Pair x) (po_violations x)) (explain_policy_outcome_deterministic flt fmt_g x reg)"
  by (auto simp: explain_policy_outcome_deterministic_def list_all2_map1 list_all2_map2 list_all2_same explains_def
      build_legal_explanation_def raw_explanation_def dest: parse_violation_raw split: option.split)

lemma list_all2_concat: "list_all2 (list_all2 P) xss yss \<Longrightarrow> list_all2 P (concat xss) (concat yss)"
  by (induction rule: list_all2_induct) (auto intro: list_all2_appendI)

lemma llm_explains:
  "po_rule_id x = po_rule_id (fst xr) \<Longrightarrow> explains completion fmt_g reg xr (explain_violation_with_llm completion x (snd xr) reg)"
  by (auto simp: explain_violation_with_llm_def explains_def raw_explanation_def split: option.split)

text \<open>
  No violation is hidden from the reader. The full explanation has exactly one
  entry per violation message, in the order of the policies and their messages,
  under the rule that raised it: the sentence of the parsed message, the message
  itself, or what the language model answered to a prompt with the message.
\<close>

theorem every_violation_explained:
  "list_all2 (explains completion fmt_g reg)
     (concat (map (\<lambda>x. map (Pair x) (po_violations x)) (matched_policies res)))
     (explanations (explain_evaluation_result_full completion flt fmt_g now res reg))"
proof -
  let ?xs = "concat (map (\<lambda>x. map (Pair x) (po_violations x)) (matched_policies res))"
  let ?es = "explanations (explain_evaluation_result flt fmt_g now res reg)"
  let ?by = "map_of (rev (map (\<lambda>x. (po_rule_id x, x)) (matched_policies res)))"
  have es: "?es = concat (map (\<lambda>x. explain_policy_outcome_deterministic flt fmt_g x reg) (matched_policies res))"
    unfolding explain_evaluation_result_def Let_def
    by (simp, rule arg_cong [of _ _ concat], rule map_cong) (simp_all add: explain_policy_outcome_deterministic_def)
  have det: "list_all2 (explains completion fmt_g reg) ?xs ?es"
    unfolding es by (rule list_all2_concat) (auto simp: list_all2_map1 list_all2_map2 list_all2_same intro: deterministic_explains [unfolded list_all2_map1])
  have id: "?by i = Some x \<Longrightarrow> po_rule_id x = i" for i x by (drule map_of_SomeD) auto
  let ?f = "\<lambda>e. if le_source e = UNPARSEABLE then
         (case ?by (le_rule_id e) of
            Some x \<Rightarrow> explain_violation_with_llm completion x
              (if startswith (headline e) ''Trade rejected: '' then drop (length ''Trade rejected: '') (headline e) else headline e) reg
          | None \<Rightarrow> e)
       else e"
  have up: "explains completion fmt_g reg xr (?f e)" if "explains completion fmt_g reg xr e" for xr e
  proof (cases "le_source e = UNPARSEABLE")
    case True
    then have e: "le_rule_id e = po_rule_id (fst xr)" "headline e = ''Trade rejected: '' @ snd xr"
      using that by (simp_all add: explains_def)
    have pre: "startswith (headline e) ''Trade rejected: ''" "drop (length ''Trade rejected: '') (headline e) = snd xr"
      unfolding e(2) by (simp_all add: startswith_def)
    show ?thesis
    proof (cases "?by (le_rule_id e)")
      case None
      with True that show ?thesis by simp
    next
      case (Some x)
      have "explains completion fmt_g reg xr (explain_violation_with_llm completion x (snd xr) reg)"
        using llm_explains [of x xr] id [OF Some] e(1) by simp
      with True Some pre show ?thesis by (simp only: simp_thms if_True option.case)
    qed
  qed (use that in simp)
  have sel: "explanations (b\<lparr>explanations := es\<rparr>) = es" for b :: DecisionExplanationBundle and es by simp
  have "explanations (explain_evaluation_result_full completion flt fmt_g now res reg) = map ?f ?es"
    unfolding explain_evaluation_result_full_def Let_def sel ..
  then show ?thesis using list_all2_mono [OF det up] by (simp only: list_all2_map2)
qed

section \<open>The summary of a flagged transaction\<close>

text \<open>
  The summary of a flagged transaction is meant to count the policies with an
  undefined result; it counts violation messages, and a transaction is flagged
  only when there are none. The sentence says "0 policies" for every flagged
  transaction, whatever number of policies was undefined.
\<close>

theorem flagged_summary_counts_zero:
  assumes "evaluate_transaction opa ev uuid now tx st = (st', Inr res)" and "er_decision res = FLAGGED"
  shows "overall_summary (explain_evaluation_result flt fmt_g t res reg)
    = ''Trade flagged for human review: 0 policies returned an undefined/ambiguous result.''"
proof -
  have "po_violations x = []" if x: "x \<in> set (matched_policies res)" for x
  proof -
    have "fst (reduce (matched_policies res)) = FLAGGED"
      using evaluated_result(4) [OF assms(1)] assms(2) x by (metis empty_iff empty_set fst_conv)
    with x show ?thesis by (simp add: reduce_cases)
  qed
  then have "concat (map (\<lambda>x. if po_violations x \<noteq> [] then explain_policy_outcome_deterministic flt fmt_g x reg else [])
      (matched_policies res)) = []"
    by simp
  moreover have "nat_str 0 = ''0''" by (simp add: nat_str.simps digit_def char_of_codeI)
  ultimately show ?thesis unfolding explain_evaluation_result_def Let_def overall_summary_text_def
    using assms(2) by (simp del: concat_eq_Nil_conv)
qed

theorem flagged_summary_counts_zero_witness:
  "\<exists>st' res. evaluate_transaction demo_opa demo_evaluator ''c1'' 5 demo_tx demo_exec = (st', Inr res)
    \<and> overall_summary (explain_evaluation_result demo_float (\<lambda>v. []) 6 res ''sebi'')
      = ''Trade flagged for human review: 0 policies returned an undefined/ambiguous result.''"
proof -
  have "halted demo_evaluator demo_tx demo_exec"
    by (simp add: halted_def demo_evaluator_def demo_exec_def is_active_for_def)
  then obtain st' res where "evaluate_transaction demo_opa demo_evaluator ''c1'' 5 demo_tx demo_exec = (st', Inr res)"
    "er_decision res = FLAGGED"
    by (simp add: evaluate_transaction_def enqueue_def Let_def)
  from this(1) flagged_summary_counts_zero [OF this] show ?thesis by blast
qed

end
