(* ===== verification/Py_Datetime.thy ===== *)
theory Py_Datetime
  imports Py_Text
begin

text \<open>
  \<open>datetime.isoformat()\<close> of a UTC instant. An instant counts the microseconds
  since 0001-01-01 00:00 UTC, the first value of Python's \<open>datetime\<close>; its civil
  fields follow the proleptic Gregorian calendar. Distinct instants within the
  range of \<open>datetime\<close> have distinct texts.
\<close>

section \<open>The calendar\<close>

definition leap :: "nat \<Rightarrow> bool" where
  "leap y \<longleftrightarrow> 4 dvd y \<and> (\<not> 100 dvd y \<or> 400 dvd y)"

definition year_len :: "nat \<Rightarrow> nat" where
  "year_len y = (if leap y then 366 else 365)"

definition month_lens :: "nat \<Rightarrow> nat list" where
  "month_lens y = [31, if leap y then 29 else 28, 31, 30, 31, 30, 31, 31, 30, 31, 30, 31]"

function find_year :: "nat \<Rightarrow> nat \<Rightarrow> nat \<times> nat" where
  "find_year y d = (if d < year_len y then (y, d) else find_year (Suc y) (d - year_len y))"
  by pat_completeness auto
termination by (relation "measure snd") (auto simp: year_len_def)

fun find_month :: "nat list \<Rightarrow> nat \<Rightarrow> nat \<times> nat" where
  "find_month [] d = (0, d)"
| "find_month (l # ls) d = (if d < l then (0, d) else (case find_month ls (d - l) of (m, r) \<Rightarrow> (Suc m, r)))"

declare find_year.simps [simp del]

lemma find_year_ge: "y \<le> fst (find_year y d)"
proof (induction y d rule: find_year.induct)
  case (1 y d)
  then show ?case by (subst find_year.simps) auto
qed

lemma find_year_rest: "snd (find_year y d) < year_len (fst (find_year y d))"
proof (induction y d rule: find_year.induct)
  case (1 y d)
  then show ?case by (subst (1 2) find_year.simps) auto
qed

lemma find_year_inject: "find_year y d = find_year y e \<Longrightarrow> d = e"
proof (induction y d arbitrary: e rule: find_year.induct)
  case (1 y d)
  have later: "fst (find_year (Suc y) x) \<noteq> y" for x using find_year_ge [of "Suc y" x] by simp
  show ?case
  proof (cases "d < year_len y")
    case True
    then have "find_year y e = (y, d)" using "1.prems" by (simp add: find_year.simps [of y d])
    then show ?thesis using later by (subst (asm) find_year.simps) (metis fst_conv prod.inject)
  next
    case False
    then have eq: "find_year (Suc y) (d - year_len y) = find_year y e" using "1.prems" by (simp add: find_year.simps [of y d])
    then have "\<not> e < year_len y" using later by (metis find_year.simps fst_conv)
    with eq have "d - year_len y = e - year_len y" using "1.IH" [OF False] by (simp add: find_year.simps [of y e])
    with False \<open>\<not> e < year_len y\<close> show ?thesis by simp
  qed
qed

lemma find_month_inject: "find_month ls d = find_month ls e \<Longrightarrow> d = e"
proof (induction ls arbitrary: d e)
  case (Cons l ls)
  then show ?case
    by (auto split: if_splits prod.splits)
       (metis diff_diff_cancel diff_right_commute le_add_diff_inverse nat_le_linear not_less)
qed simp

lemma find_month_bounds:
  "d < sum_list ls \<Longrightarrow> \<forall>l\<in>set ls. l \<le> 31 \<Longrightarrow> fst (find_month ls d) < length ls \<and> snd (find_month ls d) < 31"
proof (induction ls arbitrary: d)
  case (Cons l ls)
  show ?case
  proof (cases "d < l")
    case False
    then have "d - l < sum_list ls" using Cons.prems(1) by simp
    with Cons.IH [OF this] Cons.prems(2) False show ?thesis by (simp add: case_prod_beta)
  qed (use Cons.prems in auto)
qed simp

lemma month_lens_sum: "sum_list (month_lens y) = year_len y"
  by (simp add: month_lens_def year_len_def)

section \<open>ISO text\<close>

fun pad :: "nat \<Rightarrow> nat \<Rightarrow> string" where
  "pad 0 n = []"
| "pad (Suc k) n = pad k (n div 10) @ [digit (n mod 10)]"

lemma pad_numeral: "pad (numeral k) n = pad (pred_numeral k) (n div 10) @ [digit (n mod 10)]"
  by (simp only: numeral_eq_Suc pad.simps)

lemma pad_length [simp]: "length (pad k n) = k"
  by (induction k arbitrary: n) simp_all

lemma pad_inject: "n < 10 ^ k \<Longrightarrow> m < 10 ^ k \<Longrightarrow> pad k n = pad k m \<Longrightarrow> n = m"
proof (induction k arbitrary: n m)
  case (Suc k)
  then have "n div 10 = m div 10" by (simp add: less_mult_imp_div_less mult.commute)
  moreover have "n mod 10 = m mod 10" using Suc.prems(3) by (simp add: digit_eq_iff)
  ultimately show ?case by (metis div_mult_mod_eq)
qed simp

definition utc_date :: "time \<Rightarrow> nat \<times> nat \<times> nat" where
  "utc_date t =
     (case find_year 1 (nat t div 86400000000) of (y, yd) \<Rightarrow>
      case find_month (month_lens y) yd of (m, d) \<Rightarrow> (y, Suc m, Suc d))"

definition iso_clock :: "nat \<Rightarrow> string" where
  "iso_clock us =
     (let s = us div 1000000; f = us mod 1000000 in
      pad 2 (s div 3600) @ '':'' @ pad 2 (s div 60 mod 60) @ '':'' @ pad 2 (s mod 60)
      @ (if f = 0 then [] else ''.'' @ pad 6 f))"

definition isoformat :: "time \<Rightarrow> string" where
  "isoformat t =
     (case utc_date t of (y, m, d) \<Rightarrow>
        pad 4 y @ ''-'' @ pad 2 m @ ''-'' @ pad 2 d @ ''T'' @ iso_clock (nat t mod 86400000000) @ ''+00:00'')"

definition datetime_ok :: "time \<Rightarrow> bool" where
  "datetime_ok t \<longleftrightarrow> 0 \<le> t \<and> fst (utc_date t) < 10000"

lemma iso_clock_inject:
  assumes "us < 86400000000" "vs < 86400000000" "iso_clock us = iso_clock vs"
  shows "us = vs"
proof -
  let ?s = "us div 1000000" and ?r = "vs div 1000000" and ?f = "us mod 1000000" and ?g = "vs mod 1000000"
  have b: "?s div 3600 < 100" "?r div 3600 < 100" using assms(1,2) by (simp_all add: div_mult2_eq [symmetric] less_mult_imp_div_less)
  have hms: "pad 2 (?s div 3600) = pad 2 (?r div 3600)" "pad 2 (?s div 60 mod 60) = pad 2 (?r div 60 mod 60)"
    "pad 2 (?s mod 60) = pad 2 (?r mod 60)"
    and tl: "(if ?f = 0 then [] else ''.'' @ pad 6 ?f) = (if ?g = 0 then [] else ''.'' @ pad 6 ?g)"
    using assms(3) by (simp_all add: iso_clock_def Let_def)
  have h: "?s div 3600 = ?r div 3600" using pad_inject [OF _ _ hms(1)] b by simp
  have m: "?s div 60 mod 60 = ?r div 60 mod 60"
    by (rule pad_inject [OF _ _ hms(2)]) (rule less_trans [of _ 60], simp_all)+
  have c: "?s mod 60 = ?r mod 60"
    by (rule pad_inject [OF _ _ hms(3)]) (rule less_trans [of _ 60], simp_all)+
  have split: "n = (n div 3600) * 3600 + (n div 60 mod 60) * 60 + n mod 60" for n :: nat
  proof -
    have "n div 3600 = n div 60 div 60" by (simp add: div_mult2_eq [symmetric])
    moreover have "n = n div 60 * 60 + n mod 60" "n div 60 = n div 60 div 60 * 60 + n div 60 mod 60" by simp_all
    ultimately show ?thesis by linarith
  qed
  have "?s = ?r" using split [of ?s] split [of ?r] unfolding h m c by simp
  moreover have "?f = ?g" using tl pad_inject [of ?f 6 ?g] by (auto split: if_splits)
  ultimately show ?thesis by (metis div_mult_mod_eq)
qed

lemma utc_date_bounds: "fst (snd (utc_date t)) < 100 \<and> snd (snd (utc_date t)) < 100"
proof -
  obtain y yd where y: "find_year 1 (nat t div 86400000000) = (y, yd)" by force
  have "yd < sum_list (month_lens y)" using find_year_rest [of 1 "nat t div 86400000000"] y by (metis fst_conv month_lens_sum snd_conv)
  moreover have "\<forall>l\<in>set (month_lens y). l \<le> 31" by (simp add: month_lens_def)
  ultimately have "fst (find_month (month_lens y) yd) < 12 \<and> snd (find_month (month_lens y) yd) < 31"
    using find_month_bounds [of yd "month_lens y"] by (simp add: month_lens_def)
  then show ?thesis by (auto simp: utc_date_def y [simplified] case_prod_beta)
qed

lemma utc_date_inject: "utc_date t = utc_date u \<Longrightarrow> nat t div 86400000000 = nat u div 86400000000"
  unfolding utc_date_def
  by (auto split: prod.splits dest!: find_month_inject intro!: find_year_inject [of 1]) (metis find_month_inject)

lemma isoformat_inject:
  assumes "datetime_ok t" "datetime_ok u" "isoformat t = isoformat u"
  shows "t = u"
proof -
  obtain y m d y' m' d' where dt: "utc_date t = (y, m, d)" "utc_date u = (y', m', d')" by (metis prod_cases3)
  have pads: "pad 4 y = pad 4 y'" "pad 2 m = pad 2 m'" "pad 2 d = pad 2 d'"
    and clock: "iso_clock (nat t mod 86400000000) = iso_clock (nat u mod 86400000000)"
    using assms(3) by (simp_all add: isoformat_def dt)
  have "y = y'" using pad_inject [OF _ _ pads(1)] assms(1,2) dt by (simp add: datetime_ok_def)
  moreover have "m = m'" "d = d'"
    using pad_inject [OF _ _ pads(2)] pad_inject [OF _ _ pads(3)] utc_date_bounds [of t] utc_date_bounds [of u] dt
    by simp_all
  ultimately have "nat t div 86400000000 = nat u div 86400000000" using utc_date_inject [of t u] dt by simp
  moreover have "nat t mod 86400000000 = nat u mod 86400000000" by (rule iso_clock_inject [OF _ _ clock]) simp_all
  ultimately have "nat t = nat u" by (metis div_mult_mod_eq)
  moreover have "0 \<le> t" "0 \<le> u" using assms(1,2) by (simp_all add: datetime_ok_def)
  ultimately show ?thesis by simp
qed

lemma isoformat_example: "isoformat 86399999999 = ''0001-01-01T23:59:59.999999+00:00''"
  by (simp add: isoformat_def utc_date_def find_year.simps year_len_def month_lens_def iso_clock_def Let_def pad_numeral digit_def) code_simp

end
