(* ===== verification/Ledger.thy ===== *)
theory Ledger
  imports Py_Json Py_Datetime
begin

text \<open>
  The audit ledger: \<open>app/ledger/hash_chain.py\<close>, \<open>models.py\<close>, \<open>service.py\<close> and
  \<open>verifier.py\<close>. SHA-256 (\<open>H\<close>) and the decimal text of a float (\<open>fr\<close>) are
  arguments. The table is the list of its rows; the advisory lock makes appends
  one atomic step each, which is how they are modelled, and the row id and the
  clock are arguments. A break's reason is a constructor per text of the source.
\<close>

section \<open>Data\<close>

datatype EvaluationOutcome = PASS | FAIL | HITL_REVIEW

fun outcome_value :: "EvaluationOutcome \<Rightarrow> string" where
  "outcome_value PASS = ''PASS''"
| "outcome_value FAIL = ''FAIL''"
| "outcome_value HITL_REVIEW = ''HITL_REVIEW''"

record ComplianceEvaluationEvent =
  lg_broker_id :: string
  lg_transaction_id :: string
  lg_evaluated_at :: time
  lg_circular_id :: string
  lg_clause_hash :: string
  lg_section_reference :: string
  lg_rule_id :: string
  lg_evaluation_result :: EvaluationOutcome
  lg_hitl_review_id :: "string option"
  lg_details :: "(string \<times> pyval) list"

record LedgerEntry = ComplianceEvaluationEvent +
  lg_id :: int
  lg_sequence_num :: int
  lg_payload_digest :: string
  lg_previous_hash :: string
  lg_current_hash :: string
  lg_created_at :: time

datatype break_reason =
  PREDECESSOR_MISSING | SEQUENCE_GAP | PREVIOUS_HASH_MISMATCH | PAYLOAD_ALTERED | BLOCK_HASH_MISMATCH

record ChainBreak =
  cb_sequence_num :: int
  cb_reason :: break_reason
  cb_expected :: string
  cb_actual :: string

record ChainVerificationResult =
  cv_valid :: bool
  cv_entries_checked :: nat
  range_start_sequence :: "int option"
  range_end_sequence :: "int option"
  cv_breaks :: "ChainBreak list"

type_synonym ledger = "LedgerEntry list"

definition hitl_review_id_consistency :: "ComplianceEvaluationEvent \<Rightarrow> ComplianceEvaluationEvent result" where
  "hitl_review_id_consistency ev =
     (if lg_evaluation_result ev = HITL_REVIEW \<and> \<not> truthy_str (lg_hitl_review_id ev)
      then raise (ValueError ''hitl_review_id is required when evaluation_result is HITL_REVIEW.'')
      else if lg_evaluation_result ev \<noteq> HITL_REVIEW \<and> truthy_str (lg_hitl_review_id ev)
      then raise (ValueError ''hitl_review_id must be omitted unless evaluation_result is HITL_REVIEW.'')
      else Inr ev)"

section \<open>Hashing\<close>

definition GENESIS_HASH :: string where
  "GENESIS_HASH = replicate 64 CHR ''0''"

definition payload_fields :: "'a ComplianceEvaluationEvent_scheme \<Rightarrow> pyval" where
  "payload_fields ev = PDict [
     (''broker_id'', PStr (lg_broker_id ev)),
     (''transaction_id'', PStr (lg_transaction_id ev)),
     (''evaluated_at'', PStr (isoformat (lg_evaluated_at ev))),
     (''circular_id'', PStr (lg_circular_id ev)),
     (''clause_hash'', PStr (lg_clause_hash ev)),
     (''section_reference'', PStr (lg_section_reference ev)),
     (''rule_id'', PStr (lg_rule_id ev)),
     (''evaluation_result'', PStr (outcome_value (lg_evaluation_result ev))),
     (''hitl_review_id'', case lg_hitl_review_id ev of None \<Rightarrow> PNone | Some i \<Rightarrow> PStr i),
     (''details'', PDict (lg_details ev))]"

definition canonical_payload :: "(rat \<Rightarrow> string) \<Rightarrow> 'a ComplianceEvaluationEvent_scheme \<Rightarrow> string result" where
  "canonical_payload fr ev = json_dumps_canonical fr (payload_fields ev)"

definition compute_payload_digest ::
  "(string \<Rightarrow> string) \<Rightarrow> (rat \<Rightarrow> string) \<Rightarrow> 'a ComplianceEvaluationEvent_scheme \<Rightarrow> string result" where
  "compute_payload_digest H fr ev = bind_res (canonical_payload fr ev) (\<lambda>s. Inr (H s))"

definition block_material :: "string \<Rightarrow> string \<Rightarrow> int \<Rightarrow> time \<Rightarrow> string" where
  "block_material previous_hash payload_digest sequence_num evaluated_at =
     previous_hash @ ''|'' @ payload_digest @ ''|'' @ int_str sequence_num @ ''|'' @ isoformat evaluated_at"

definition compute_block_hash :: "(string \<Rightarrow> string) \<Rightarrow> string \<Rightarrow> string \<Rightarrow> int \<Rightarrow> time \<Rightarrow> string" where
  "compute_block_hash H previous_hash payload_digest sequence_num evaluated_at =
     H (block_material previous_hash payload_digest sequence_num evaluated_at)"

section \<open>Appending\<close>

definition last_entry :: "ledger \<Rightarrow> (int \<times> string) option" where
  "last_entry L =
     (case rev (sort_key lg_sequence_num L) of
        [] \<Rightarrow> None
      | row # _ \<Rightarrow> Some (lg_sequence_num row, lg_current_hash row))"

definition append_entry ::
  "(string \<Rightarrow> string) \<Rightarrow> (rat \<Rightarrow> string) \<Rightarrow> int \<Rightarrow> time \<Rightarrow> ComplianceEvaluationEvent \<Rightarrow> ledger
   \<Rightarrow> ledger \<times> LedgerEntry result" where
  "append_entry H fr row_id now ev L =
     (let prior = last_entry L;
          sequence_num = (case prior of Some p \<Rightarrow> fst p + 1 | None \<Rightarrow> 0);
          previous_hash = (case prior of Some p \<Rightarrow> snd p | None \<Rightarrow> GENESIS_HASH)
      in case compute_payload_digest H fr ev of
           Inl e \<Rightarrow> (L, raise e)
         | Inr payload_digest \<Rightarrow>
             let current_hash = compute_block_hash H previous_hash payload_digest sequence_num (lg_evaluated_at ev);
                 row = \<lparr>lg_broker_id = lg_broker_id ev, lg_transaction_id = lg_transaction_id ev,
                   lg_evaluated_at = lg_evaluated_at ev, lg_circular_id = lg_circular_id ev,
                   lg_clause_hash = lg_clause_hash ev, lg_section_reference = lg_section_reference ev,
                   lg_rule_id = lg_rule_id ev, lg_evaluation_result = lg_evaluation_result ev,
                   lg_hitl_review_id = lg_hitl_review_id ev, lg_details = lg_details ev,
                   lg_id = row_id, lg_sequence_num = sequence_num, lg_payload_digest = payload_digest,
                   lg_previous_hash = previous_hash, lg_current_hash = current_hash, lg_created_at = now\<rparr>
             in (L @ [row], Inr row))"

section \<open>Verifying\<close>

definition row_breaks ::
  "(string \<Rightarrow> string) \<Rightarrow> string \<Rightarrow> int \<Rightarrow> string \<Rightarrow> LedgerEntry \<Rightarrow> ChainBreak list" where
  "row_breaks H previous_hash previous_sequence recomputed_digest row =
     (let seq = lg_sequence_num row;
          recomputed_block_hash = compute_block_hash H (lg_previous_hash row) (lg_payload_digest row) seq (lg_evaluated_at row)
      in (if seq \<noteq> previous_sequence + 1
          then [\<lparr>cb_sequence_num = seq, cb_reason = SEQUENCE_GAP, cb_expected = int_str (previous_sequence + 1),
                 cb_actual = int_str seq\<rparr>] else [])
       @ (if lg_previous_hash row \<noteq> previous_hash
          then [\<lparr>cb_sequence_num = seq, cb_reason = PREVIOUS_HASH_MISMATCH, cb_expected = previous_hash,
                 cb_actual = lg_previous_hash row\<rparr>] else [])
       @ (if recomputed_digest \<noteq> lg_payload_digest row
          then [\<lparr>cb_sequence_num = seq, cb_reason = PAYLOAD_ALTERED, cb_expected = recomputed_digest,
                 cb_actual = lg_payload_digest row\<rparr>] else [])
       @ (if recomputed_block_hash \<noteq> lg_current_hash row
          then [\<lparr>cb_sequence_num = seq, cb_reason = BLOCK_HASH_MISMATCH, cb_expected = recomputed_block_hash,
                 cb_actual = lg_current_hash row\<rparr>] else []))"

fun check_rows ::
  "(string \<Rightarrow> string) \<Rightarrow> (rat \<Rightarrow> string) \<Rightarrow> string \<Rightarrow> int \<Rightarrow> LedgerEntry list \<Rightarrow> ChainBreak list result" where
  "check_rows H fr previous_hash previous_sequence [] = Inr []"
| "check_rows H fr previous_hash previous_sequence (row # rows) =
     bind_res (compute_payload_digest H fr row) (\<lambda>digest.
     bind_res (check_rows H fr (lg_current_hash row) (lg_sequence_num row) rows) (\<lambda>bs.
       Inr (row_breaks H previous_hash previous_sequence digest row @ bs)))"

definition in_window :: "time option \<Rightarrow> time option \<Rightarrow> LedgerEntry \<Rightarrow> bool" where
  "in_window start_time end_time row \<longleftrightarrow>
     (case start_time of None \<Rightarrow> True | Some s \<Rightarrow> s \<le> lg_evaluated_at row)
     \<and> (case end_time of None \<Rightarrow> True | Some e \<Rightarrow> lg_evaluated_at row \<le> e)"

definition verify_chain ::
  "(string \<Rightarrow> string) \<Rightarrow> (rat \<Rightarrow> string) \<Rightarrow> ledger \<Rightarrow> time option \<Rightarrow> time option \<Rightarrow> ChainVerificationResult result" where
  "verify_chain H fr L start_time end_time =
     (let rows = sort_key lg_sequence_num (filter (in_window start_time end_time) L) in
      if rows = [] then
        Inr \<lparr>cv_valid = True, cv_entries_checked = 0, range_start_sequence = None, range_end_sequence = None, cv_breaks = []\<rparr>
      else
        let first_sequence = lg_sequence_num (hd rows);
            anchor = (if first_sequence > 0
                      then map_option lg_current_hash (find (\<lambda>r. lg_sequence_num r = first_sequence - 1) L)
                      else Some GENESIS_HASH)
        in case anchor of
             None \<Rightarrow>
               Inr \<lparr>cv_valid = False, cv_entries_checked = length rows, range_start_sequence = Some first_sequence,
                    range_end_sequence = Some (lg_sequence_num (last rows)),
                    cv_breaks = [\<lparr>cb_sequence_num = first_sequence, cb_reason = PREDECESSOR_MISSING,
                      cb_expected = ''a row with the previous sequence_num'', cb_actual = ''no row found''\<rparr>]\<rparr>
           | Some anchor_hash \<Rightarrow>
               bind_res (check_rows H fr anchor_hash (first_sequence - 1) rows) (\<lambda>breaks.
                 Inr \<lparr>cv_valid = (breaks = []), cv_entries_checked = length rows,
                      range_start_sequence = Some first_sequence,
                      range_end_sequence = Some (lg_sequence_num (last rows)), cv_breaks = breaks\<rparr>))"

text \<open>The exit code of the command-line verifier.\<close>

definition verify_main ::
  "(string \<Rightarrow> string) \<Rightarrow> (rat \<Rightarrow> string) \<Rightarrow> ledger \<Rightarrow> time option \<Rightarrow> time option \<Rightarrow> int result" where
  "verify_main H fr L start_time end_time =
     bind_res (verify_chain H fr L start_time end_time) (\<lambda>v. Inr (if cv_valid v then 0 else 1))"

section \<open>Chains\<close>

text \<open>What a run of rows has to satisfy to produce no break.\<close>

fun chained :: "(string \<Rightarrow> string) \<Rightarrow> (rat \<Rightarrow> string) \<Rightarrow> string \<Rightarrow> int \<Rightarrow> LedgerEntry list \<Rightarrow> bool" where
  "chained H fr prev seq [] \<longleftrightarrow> True"
| "chained H fr prev seq (r # rs) \<longleftrightarrow>
     lg_sequence_num r = seq \<and> lg_previous_hash r = prev
     \<and> compute_payload_digest H fr r = Inr (lg_payload_digest r)
     \<and> lg_current_hash r = compute_block_hash H prev (lg_payload_digest r) seq (lg_evaluated_at r)
     \<and> chained H fr (lg_current_hash r) (seq + 1) rs"

lemma check_rows_chained: "check_rows H fr prev seq rows = Inr [] \<longleftrightarrow> chained H fr prev (seq + 1) rows"
proof (induction rows arbitrary: prev seq)
  case (Cons r rows)
  then show ?case
    by (cases "lg_sequence_num r = seq + 1")
       (auto simp: bind_res_eq_Inr row_breaks_def Let_def)
qed simp

lemma chained_append:
  "chained H fr prev seq (xs @ ys) \<longleftrightarrow>
     chained H fr prev seq xs
     \<and> chained H fr (if xs = [] then prev else lg_current_hash (last xs)) (seq + int (length xs)) ys"
  by (induction xs arbitrary: prev seq) (auto simp: algebra_simps)

lemma chained_seq: "chained H fr prev seq rs \<Longrightarrow> i < length rs \<Longrightarrow> lg_sequence_num (rs ! i) = seq + int i"
proof (induction rs arbitrary: prev seq i)
  case (Cons r rs)
  then show ?case by (cases i) auto
qed simp

lemma chained_sorted:
  assumes "chained H fr prev seq rs" shows "sort_key lg_sequence_num rs = rs"
  by (rule sort_key_id_if_sorted) (auto simp: sorted_iff_nth_mono chained_seq [OF assms])

lemma chained_distinct:
  assumes "chained H fr prev seq rs" shows "distinct (map lg_sequence_num rs)"
  by (auto simp: distinct_conv_nth chained_seq [OF assms])

section \<open>Honest ledgers\<close>

inductive ledger_reachable :: "(string \<Rightarrow> string) \<Rightarrow> (rat \<Rightarrow> string) \<Rightarrow> ledger \<Rightarrow> bool" for H fr where
  empty: "ledger_reachable H fr []"
| append: "ledger_reachable H fr L \<Longrightarrow> ledger_reachable H fr (fst (append_entry H fr i now ev L))"

lemma last_entry_chained:
  assumes "chained H fr prev seq L"
  shows "last_entry L = (if L = [] then None else Some (seq + int (length L) - 1, lg_current_hash (last L)))"
proof (cases L rule: rev_cases)
  case (snoc xs r)
  with assms have "lg_sequence_num r = seq + int (length xs)" by (simp add: chained_append)
  with snoc show ?thesis unfolding last_entry_def chained_sorted [OF assms] by simp
qed (simp add: last_entry_def)

lemma append_chained:
  assumes "chained H fr GENESIS_HASH 0 L"
  shows "chained H fr GENESIS_HASH 0 (fst (append_entry H fr i now ev L))"
proof (cases "compute_payload_digest H fr ev")
  case (Inr d)
  then show ?thesis
    using assms
    by (simp add: append_entry_def last_entry_chained [OF assms] Let_def chained_append)
       (simp add: compute_payload_digest_def canonical_payload_def payload_fields_def)
qed (use assms in \<open>simp add: append_entry_def Let_def\<close>)

lemma reachable_chained: "ledger_reachable H fr L \<Longrightarrow> chained H fr GENESIS_HASH 0 L"
  by (induction rule: ledger_reachable.induct) (simp_all add: append_chained)

lemma in_window_all [simp]: "in_window None None r"
  by (simp add: in_window_def)

text \<open>
  Claim C8. An untouched ledger verifies: whatever events were appended, refused ones
  included, the verifier checks every row of the whole chain, finds no break
  and the command-line tool exits with 0.
\<close>

theorem honest_ledger_verifies:
  assumes "ledger_reachable H fr L"
  shows "\<exists>v. verify_chain H fr L None None = Inr v \<and> cv_valid v \<and> cv_entries_checked v = length L \<and> cv_breaks v = []
    \<and> verify_main H fr L None None = Inr 0"
proof -
  have c: "chained H fr GENESIS_HASH 0 L" by (rule reachable_chained [OF assms])
  show ?thesis
  proof (cases L)
    case (Cons r rs)
    have "check_rows H fr GENESIS_HASH (- 1) L = Inr []" using c check_rows_chained [of H fr GENESIS_HASH "- 1" L] by simp
    with Cons c chained_sorted [OF c] show ?thesis by (simp add: verify_chain_def verify_main_def Let_def)
  qed (simp add: verify_chain_def verify_main_def)
qed

definition demo_ledger_event :: "time \<Rightarrow> ComplianceEvaluationEvent" where
  "demo_ledger_event t = \<lparr>lg_broker_id = ''b'', lg_transaction_id = ''t'', lg_evaluated_at = t, lg_circular_id = ''c'',
     lg_clause_hash = ''h'', lg_section_reference = ''3.2'', lg_rule_id = ''r'', lg_evaluation_result = PASS,
     lg_hitl_review_id = None, lg_details = []\<rparr>"

text \<open>A function with 64 output characters, for concrete ledgers.\<close>

definition toy_hash :: "string \<Rightarrow> string" where
  "toy_hash s = take 64 (s @ replicate 64 CHR ''x'')"

definition demo_ledger :: "time list \<Rightarrow> ledger" where
  "demo_ledger ts = foldl (\<lambda>L t. fst (append_entry toy_hash ratio_repr 1 t (demo_ledger_event t) L)) [] ts"

lemma demo_ledger_reachable: "ledger_reachable toy_hash ratio_repr (demo_ledger ts)"
  by (induction ts rule: rev_induct) (simp_all add: demo_ledger_def ledger_reachable.intros)

theorem honest_ledger_verifies_witness:
  "verify_main toy_hash ratio_repr (demo_ledger [5, 6]) None None = Inr 0"
  using honest_ledger_verifies [OF demo_ledger_reachable [of "[5, 6]"]] by blast

section \<open>Tampering\<close>

text \<open>
  The strings that are hashed for a table, and the equality of two rows on
  everything an auditor reads (the details up to the order of their keys).
\<close>

definition row_material :: "LedgerEntry \<Rightarrow> string" where
  "row_material r = block_material (lg_previous_hash r) (lg_payload_digest r) (lg_sequence_num r) (lg_evaluated_at r)"

definition hashed :: "(rat \<Rightarrow> string) \<Rightarrow> LedgerEntry list \<Rightarrow> string set" where
  "hashed fr rows = {s. \<exists>r\<in>set rows. canonical_payload fr r = Inr s} \<union> row_material ` set rows"

definition same_record :: "LedgerEntry \<Rightarrow> LedgerEntry \<Rightarrow> bool" where
  "same_record r q \<longleftrightarrow>
     lg_sequence_num r = lg_sequence_num q \<and> lg_broker_id r = lg_broker_id q
     \<and> lg_transaction_id r = lg_transaction_id q \<and> lg_evaluated_at r = lg_evaluated_at q
     \<and> lg_circular_id r = lg_circular_id q \<and> lg_clause_hash r = lg_clause_hash q
     \<and> lg_section_reference r = lg_section_reference q \<and> lg_rule_id r = lg_rule_id q
     \<and> lg_evaluation_result r = lg_evaluation_result q \<and> lg_hitl_review_id r = lg_hitl_review_id q
     \<and> sort_keys (PDict (lg_details r)) = sort_keys (PDict (lg_details q))"

text \<open>
  What is asked of the hash function, on the strings of the two tables only:
  64 characters of output, no collision, no string hashed to the genesis value.
\<close>

definition sound_hash :: "(string \<Rightarrow> string) \<Rightarrow> string set \<Rightarrow> bool" where
  "sound_hash H S \<longleftrightarrow> (\<forall>s\<in>S. length (H s) = 64) \<and> inj_on H S \<and> GENESIS_HASH \<notin> H ` S"

lemma outcome_value_inject: "outcome_value x = outcome_value y \<Longrightarrow> x = y"
  by (cases x; cases y) simp_all

lemma payload_fields_inject:
  assumes "sort_keys (payload_fields r) = sort_keys (payload_fields q)" "lg_sequence_num r = lg_sequence_num q"
    "datetime_ok (lg_evaluated_at r)" "datetime_ok (lg_evaluated_at q)"
  shows "same_record r q"
proof -
  let ?get = "\<lambda>k v. case v of PDict d \<Rightarrow> map_of d k | _ \<Rightarrow> None"
  have field: "?get k (sort_keys (payload_fields x)) = map_option sort_keys (?get k (payload_fields x))" for k x
  proof -
    have "distinct (map fst (map (\<lambda>(k, v). (k, sort_keys v)) d))" if "payload_fields x = PDict d" for d
      using that by (auto simp: payload_fields_def)
    then have "map_of (sort_key fst (map (\<lambda>(k, v). (k, sort_keys v)) d)) k = map_option sort_keys (map_of d k)"
      if "payload_fields x = PDict d" for d
      using that map_of_sort_key [of "map (\<lambda>(k, v). (k, sort_keys v)) d"] by (simp add: map_of_map)
    then show ?thesis by (simp add: payload_fields_def)
  qed
  have eq: "map_option sort_keys (?get k (payload_fields r)) = map_option sort_keys (?get k (payload_fields q))" for k
    using assms(1) field [of k r] field [of k q] by metis
  show ?thesis
    using eq [of "''broker_id''"] eq [of "''transaction_id''"] eq [of "''evaluated_at''"] eq [of "''circular_id''"]
      eq [of "''clause_hash''"] eq [of "''section_reference''"] eq [of "''rule_id''"] eq [of "''evaluation_result''"]
      eq [of "''hitl_review_id''"] eq [of "''details''"] assms(2) isoformat_inject [OF assms(3,4)]
    by (auto simp: payload_fields_def same_record_def outcome_value_inject split: option.splits)
qed

lemma int_str_no_bar: "CHR ''|'' \<notin> set (int_str i)"
  by (auto dest!: int_str_chars simp: is_digit_def)

lemma append_bar_inject:
  assumes "CHR ''|'' \<notin> set a" "CHR ''|'' \<notin> set b" "a @ CHR ''|'' # x = b @ CHR ''|'' # y"
  shows "a = b \<and> x = y"
  using assms by (auto simp: append_eq_append_conv2 Cons_eq_append_conv append_eq_Cons_conv)

lemma block_material_inject:
  assumes "length p = length p'" "length d = length d'" "datetime_ok t" "datetime_ok t'"
    "block_material p d n t = block_material p' d' n' t'"
  shows "p = p' \<and> d = d' \<and> n = n' \<and> t = t'"
proof -
  have "p = p'" "d = d'" "int_str n @ CHR ''|'' # isoformat t = int_str n' @ CHR ''|'' # isoformat t'"
    using assms(1,2,5) by (simp_all add: block_material_def)
  moreover from append_bar_inject [OF int_str_no_bar int_str_no_bar this(3)]
  have "int_str n = int_str n'" "isoformat t = isoformat t'" by simp_all
  ultimately show ?thesis using isoformat_inject [OF assms(3,4)] by simp
qed

text \<open>The facts about one row of a chain.\<close>

lemma chained_row:
  assumes "chained H fr GENESIS_HASH seq (xs @ [r])" "sound_hash H S" "hashed fr (xs @ [r]) \<subseteq> S"
  shows "length (lg_previous_hash r) = 64" "length (lg_payload_digest r) = 64"
    "\<exists>s. canonical_payload fr r = Inr s \<and> s \<in> S \<and> lg_payload_digest r = H s"
    "row_material r \<in> S" "lg_current_hash r = H (row_material r)"
    "lg_previous_hash r = (if xs = [] then GENESIS_HASH else lg_current_hash (last xs))"
proof -
  have row: "compute_payload_digest H fr r = Inr (lg_payload_digest r)"
    "lg_previous_hash r = (if xs = [] then GENESIS_HASH else lg_current_hash (last xs))"
    "lg_current_hash r = H (row_material r)"
    using assms(1) by (auto simp: chained_append row_material_def compute_block_hash_def)
  then show "lg_current_hash r = H (row_material r)"
    "lg_previous_hash r = (if xs = [] then GENESIS_HASH else lg_current_hash (last xs))" by simp_all
  show S: "row_material r \<in> S" using assms(3) by (auto simp: hashed_def)
  show dig: "\<exists>s. canonical_payload fr r = Inr s \<and> s \<in> S \<and> lg_payload_digest r = H s"
    using row(1) assms(3) by (auto simp: compute_payload_digest_def bind_res_eq_Inr hashed_def)
  then show "length (lg_payload_digest r) = 64" using assms(2) by (auto simp: sound_hash_def)
  show "length (lg_previous_hash r) = 64"
  proof (cases xs rule: rev_cases)
    case (snoc ys q)
    then have "lg_current_hash q = H (row_material q)"
      using assms(1) by (auto simp: chained_append row_material_def compute_block_hash_def)
    moreover have "row_material q \<in> S" using assms(3) snoc by (auto simp: hashed_def)
    ultimately show ?thesis using row(2) snoc assms(2) by (simp add: sound_hash_def)
  qed (simp add: row(2) GENESIS_HASH_def)
qed

lemma last_rows_same:
  assumes "chained H fr GENESIS_HASH a (xs @ [r])" "chained H fr GENESIS_HASH b (ys @ [q])"
    and S: "sound_hash H S" "hashed fr (xs @ [r]) \<subseteq> S" "hashed fr (ys @ [q]) \<subseteq> S"
    and ok: "float_repr_ok fr" "datetime_ok (lg_evaluated_at r)" "datetime_ok (lg_evaluated_at q)"
    and eq: "lg_current_hash r = lg_current_hash q"
  shows "same_record r q" "lg_previous_hash r = lg_previous_hash q"
proof -
  note r = chained_row [OF assms(1) S(1,2)] and q = chained_row [OF assms(2) S(1,3)]
  have inj: "H s = H t \<Longrightarrow> s \<in> S \<Longrightarrow> t \<in> S \<Longrightarrow> s = t" for s t using S(1) by (auto simp: sound_hash_def dest: inj_onD)
  have "row_material r = row_material q" using eq r(4,5) q(4,5) inj by metis
  then have mat: "lg_previous_hash r = lg_previous_hash q" "lg_payload_digest r = lg_payload_digest q"
    "lg_sequence_num r = lg_sequence_num q"
    using block_material_inject [of "lg_previous_hash r" "lg_previous_hash q" "lg_payload_digest r" "lg_payload_digest q"]
      r(1,2) q(1,2) ok(2,3) unfolding row_material_def by metis+
  then show "lg_previous_hash r = lg_previous_hash q" by simp
  obtain s where "canonical_payload fr r = Inr s" "canonical_payload fr q = Inr s"
    using r(3) q(3) mat(2) inj by metis
  then have "sort_keys (payload_fields r) = sort_keys (payload_fields q)"
    unfolding canonical_payload_def by (rule json_canonical_inject [OF ok(1)])
  then show "same_record r q" using mat(3) ok(2,3) by (intro payload_fields_inject)
qed

lemma chains_agree:
  assumes "chained H fr GENESIS_HASH a xs" "chained H fr GENESIS_HASH b ys" "xs \<noteq> []" "ys \<noteq> []"
    and S: "sound_hash H S" "hashed fr xs \<subseteq> S" "hashed fr ys \<subseteq> S"
    and ok: "float_repr_ok fr" "\<forall>r\<in>set xs \<union> set ys. datetime_ok (lg_evaluated_at r)"
    and head: "lg_current_hash (last xs) = lg_current_hash (last ys)"
  shows "list_all2 same_record xs ys"
  using assms(1-4) S(2,3) ok(2) head
proof (induction xs arbitrary: ys rule: rev_induct)
  case (snoc r xs)
  obtain zs q where ys: "ys = zs @ [q]" using snoc.prems(4) by (cases ys rule: rev_cases) auto
  have chains: "chained H fr GENESIS_HASH a (xs @ [r])" "chained H fr GENESIS_HASH b (zs @ [q])"
    using snoc.prems(1,2) ys by simp_all
  have subs: "hashed fr (xs @ [r]) \<subseteq> S" "hashed fr (zs @ [q]) \<subseteq> S" using snoc.prems(5,6) ys by simp_all
  have "lg_current_hash r = lg_current_hash q" "datetime_ok (lg_evaluated_at r)" "datetime_ok (lg_evaluated_at q)"
    using snoc.prems(7,8) ys by simp_all
  note same = last_rows_same [OF chains S(1) subs ok(1) this(2,3,1)]
  have here: "\<exists>s\<in>S. lg_current_hash (last us) = H s" if c: "chained H fr GENESIS_HASH c (us @ [x])"
    and sub: "hashed fr (us @ [x]) \<subseteq> S" and ne: "us \<noteq> []" for c us x
  proof -
    obtain vs y where us: "us = vs @ [y]" using ne by (cases us rule: rev_cases) auto
    have "chained H fr GENESIS_HASH c (vs @ [y])" "hashed fr (vs @ [y]) \<subseteq> S"
      using c sub us by (auto simp: chained_append hashed_def)
    from chained_row(4,5) [OF this(1) S(1) this(2)] us show ?thesis by auto
  qed
  have genesis: "\<forall>s\<in>S. H s \<noteq> GENESIS_HASH" using S(1) by (metis imageI sound_hash_def)
  have prev: "(if xs = [] then GENESIS_HASH else lg_current_hash (last xs)) = (if zs = [] then GENESIS_HASH else lg_current_hash (last zs))"
    using same(2) chained_row(6) [OF chains(1) S(1) subs(1)] chained_row(6) [OF chains(2) S(1) subs(2)] by simp
  have "xs = [] \<longleftrightarrow> zs = []"
    using prev here [OF chains(1) subs(1)] here [OF chains(2) subs(2)] genesis by (auto split: if_splits)
  moreover have "list_all2 same_record xs zs" if "xs \<noteq> []" "zs \<noteq> []"
    using that prev snoc.prems(7) ys chains subs
    by (intro snoc.IH) (auto simp: chained_append hashed_def)
  ultimately show ?case using ys same(1) by (cases "xs = []") (auto intro: list_all2_appendI)
qed simp

lemma valid_chained:
  assumes "verify_chain H fr T None None = Inr v" "cv_valid v" "T \<noteq> []"
  shows "\<exists>b. chained H fr GENESIS_HASH b (sort_key lg_sequence_num T)"
proof -
  let ?rows = "sort_key lg_sequence_num T"
  obtain r rs where rows: "?rows = r # rs" using assms(3) by (metis list.exhaust set_empty set_sort)
  have "sorted (map lg_sequence_num ?rows)" by simp
  then have "\<forall>x\<in>set ?rows. lg_sequence_num r \<le> lg_sequence_num x" unfolding rows by auto
  then have "\<forall>x\<in>set T. lg_sequence_num r \<le> lg_sequence_num x" by simp
  then have none: "find (\<lambda>x. lg_sequence_num x = lg_sequence_num r - 1) T = None"
    unfolding find_None_iff by fastforce
  show ?thesis
  proof (cases "lg_sequence_num r > 0")
    case True
    then have "\<not> cv_valid v" using assms(1) none by (auto simp: verify_chain_def rows Let_def)
    with assms(2) show ?thesis by simp
  next
    case False
    then have "check_rows H fr GENESIS_HASH (lg_sequence_num r - 1) ?rows = Inr []"
      using assms(1,2) by (auto simp: verify_chain_def rows Let_def bind_res_eq_Inr simp del: check_rows.simps)
    then show ?thesis unfolding check_rows_chained by blast
  qed
qed

text \<open>
  Claim C2. Tampering is evident. Take any table whatever that the verifier declares
  valid and whose last row, by sequence number, carries the sequence number and
  hash of the last row of an honest ledger. Unless the hash function collides
  on the strings of these two tables, the table has the same rows as the honest
  ledger: as many, with the same sequence numbers, and in each the same broker,
  transaction, time, circular, clause, rule, verdict, review and details.
  Editing, deleting, inserting or reordering rows before a recorded head cannot
  go unnoticed.
\<close>

theorem ledger_tamper_evident:
  assumes "ledger_reachable H fr L" and "L \<noteq> []"
    and "verify_chain H fr T None None = Inr v" and "cv_valid v"
    and "last_entry T = last_entry L"
    and "sound_hash H (hashed fr T \<union> hashed fr L)" and "float_repr_ok fr"
    and "\<forall>r\<in>set T \<union> set L. datetime_ok (lg_evaluated_at r)"
  shows "list_all2 same_record (sort_key lg_sequence_num T) L"
proof -
  let ?rows = "sort_key lg_sequence_num T"
  have L: "chained H fr GENESIS_HASH 0 L" by (rule reachable_chained [OF assms(1)])
  have "last_entry L \<noteq> None" using last_entry_chained [OF L] assms(2) by simp
  then have "T \<noteq> []" using assms(5) by (auto simp: last_entry_def)
  from valid_chained [OF assms(3,4) this] obtain b where b: "chained H fr GENESIS_HASH b ?rows" ..
  have ne: "?rows \<noteq> []" using \<open>T \<noteq> []\<close> by (metis set_empty set_sort)
  have "last_entry ?rows = last_entry T" unfolding last_entry_def using chained_sorted [OF b] by simp
  then have "lg_current_hash (last ?rows) = lg_current_hash (last L)"
    using last_entry_chained [OF b] last_entry_chained [OF L] ne assms(2,5) by simp
  moreover have "hashed fr ?rows = hashed fr T" by (simp add: hashed_def)
  ultimately show ?thesis
    using assms(8) by (intro chains_agree [OF b L ne assms(2,6) _ _ assms(7)]) auto
qed

text \<open>A hash that is sound on a one-row ledger, and that ledger with its unhashed columns rewritten.\<close>

definition pair_hash :: "string \<Rightarrow> string" where
  "pair_hash s = replicate 64 (if hd s = CHR ''{'' then CHR ''a'' else CHR ''b'')"

definition demo_row_ledger :: "int \<Rightarrow> ledger" where
  "demo_row_ledger i = fst (append_entry pair_hash ratio_repr i 7 (demo_ledger_event 5) [])"

lemma demo_payload: "\<exists>s. canonical_payload ratio_repr (demo_ledger_event 5) = Inr (CHR ''{'' # s)"
  by (simp add: canonical_payload_def payload_fields_def demo_ledger_event_def json_dumps_canonical_def json_dumps_def)

lemma demo_row:
  obtains r where "demo_row_ledger i = [r]" "lg_evaluated_at r = 5" "hd (row_material r) = CHR ''0''"
    "\<exists>s. canonical_payload ratio_repr r = Inr (CHR ''{'' # s)"
    "lg_sequence_num r = 0" "lg_current_hash r = replicate 64 CHR ''b''" 
    "row_material r = block_material GENESIS_HASH (replicate 64 CHR ''a'') 0 5"
    "canonical_payload ratio_repr r = canonical_payload ratio_repr (demo_ledger_event 5)"
proof -
  obtain s where s: "canonical_payload ratio_repr (demo_ledger_event 5) = Inr (CHR ''{'' # s)" using demo_payload by blast
  then have d: "compute_payload_digest pair_hash ratio_repr (demo_ledger_event 5) = Inr (replicate 64 CHR ''a'')"
    by (simp add: compute_payload_digest_def pair_hash_def)
  have hd0: "hd (block_material GENESIS_HASH x y z) = CHR ''0''" for x y z
    by (simp add: block_material_def GENESIS_HASH_def)
  obtain r where r: "demo_row_ledger i = [r]" by (simp add: demo_row_ledger_def append_entry_def last_entry_def d Let_def)
  have t5: "lg_evaluated_at (demo_ledger_event 5) = 5" by (simp add: demo_ledger_event_def)
  have c: "canonical_payload ratio_repr r = canonical_payload ratio_repr (demo_ledger_event 5)"
    "lg_evaluated_at r = 5" "lg_sequence_num r = 0" "row_material r = block_material GENESIS_HASH (replicate 64 CHR ''a'') 0 5"
    "lg_current_hash r = replicate 64 CHR ''b''"
    unfolding canonical_payload_def payload_fields_def row_material_def
    using r hd0 by (auto simp: demo_row_ledger_def append_entry_def last_entry_def d Let_def t5 compute_block_hash_def pair_hash_def)
  show thesis by (rule that [OF r c(2) _ _ c(3,5,4,1)]) (use c s hd0 in simp_all)
qed

theorem ledger_tamper_evident_witness:
  "list_all2 same_record (sort_key lg_sequence_num (demo_row_ledger 99)) (demo_row_ledger 1)"
proof -
  obtain r where r: "demo_row_ledger 1 = [r]" "lg_evaluated_at r = 5" "hd (row_material r) = CHR ''0''"
    "\<exists>s. canonical_payload ratio_repr r = Inr (CHR ''{'' # s)"
    "lg_sequence_num r = 0" "lg_current_hash r = replicate 64 CHR ''b''" "row_material r = block_material GENESIS_HASH (replicate 64 CHR ''a'') 0 5"
    "canonical_payload ratio_repr r = canonical_payload ratio_repr (demo_ledger_event 5)"
    by (rule demo_row [of 1])
  obtain q where q: "demo_row_ledger 99 = [q]" "lg_evaluated_at q = 5" "hd (row_material q) = CHR ''0''"
    "\<exists>s. canonical_payload ratio_repr q = Inr (CHR ''{'' # s)"
    "lg_sequence_num q = 0" "lg_current_hash q = replicate 64 CHR ''b''" "row_material q = block_material GENESIS_HASH (replicate 64 CHR ''a'') 0 5"
    "canonical_payload ratio_repr q = canonical_payload ratio_repr (demo_ledger_event 5)"
    by (rule demo_row [of 99])
  have reach: "ledger_reachable pair_hash ratio_repr (demo_row_ledger i)" for i
    unfolding demo_row_ledger_def by (intro ledger_reachable.intros)
  have "chained pair_hash ratio_repr GENESIS_HASH 0 [q]" using reachable_chained [OF reach [of 99]] q(1) by simp
  then obtain v where v: "verify_chain pair_hash ratio_repr (demo_row_ledger 99) None None = Inr v" "cv_valid v"
    using check_rows_chained [of pair_hash ratio_repr GENESIS_HASH "- 1" "[q]"] q
    by (auto simp: verify_chain_def Let_def simp del: check_rows.simps chained.simps)
  have "hashed ratio_repr (demo_row_ledger 99) = hashed ratio_repr (demo_row_ledger 1)"
    using r q by (simp add: hashed_def)
  moreover have "sound_hash pair_hash (hashed ratio_repr (demo_row_ledger 1))"
    using r by (auto simp: sound_hash_def hashed_def pair_hash_def inj_on_def GENESIS_HASH_def)
  ultimately have S: "sound_hash pair_hash (hashed ratio_repr (demo_row_ledger 99) \<union> hashed ratio_repr (demo_row_ledger 1))" by simp
  have "datetime_ok 5"
    by (simp add: datetime_ok_def utc_date_def find_year.simps year_len_def month_lens_def)
  then show ?thesis
    using r q by (intro ledger_tamper_evident [OF reach _ v _ S ratio_repr_ok]) (simp_all add: last_entry_def)
qed

section \<open>Verifying a window\<close>

text \<open>The rows of a window are a run of the ledger when no row between two of them is outside it.\<close>

definition contiguous :: "('a \<Rightarrow> bool) \<Rightarrow> 'a list \<Rightarrow> bool" where
  "contiguous P xs \<longleftrightarrow> (\<forall>i j k. i < j \<and> j < k \<and> k < length xs \<and> P (xs ! i) \<and> P (xs ! k) \<longrightarrow> P (xs ! j))"

lemma contiguous_split:
  assumes "contiguous P xs"
  shows "\<exists>as bs cs. xs = as @ bs @ cs \<and> filter P xs = bs"
proof (cases "\<exists>x\<in>set xs. P x")
  case True
  let ?I = "{j. j < length xs \<and> P (xs ! j)}"
  have I: "finite ?I" "?I \<noteq> {}" using True by (auto simp: in_set_conv_nth)
  define i where "i = Min ?I"
  define k where "k = Max ?I"
  have ik: "i \<in> ?I" "k \<in> ?I" "\<forall>j\<in>?I. i \<le> j \<and> j \<le> k"
    using Min_in [OF I] Max_in [OF I] Min_le [OF I(1)] Max_ge [OF I(1)] unfolding i_def k_def by blast+
  let ?as = "take i xs" and ?bs = "take (Suc k - i) (drop i xs)" and ?cs = "drop (Suc k) xs"
  have "i \<le> k" using ik by blast
  then have xs: "xs = ?as @ ?bs @ ?cs"
    by (metis append_take_drop_id drop_drop le_SucI le_add_diff_inverse2)
  have "\<not> P x" if "x \<in> set ?as \<union> set ?cs" for x
  proof
    assume "P x"
    from that consider j where "j < i" "j < length xs" "x = xs ! j" | m where "Suc k + m < length xs" "x = xs ! (Suc k + m)"
      by (auto simp: in_set_conv_nth less_diff_conv2 less_diff_conv add.commute) blast
    then show False using ik(3) \<open>P x\<close> by cases force+
  qed
  then have "filter P ?as = []" "filter P ?cs = []" by (simp_all add: filter_empty_conv)
  moreover have "P x" if "x \<in> set ?bs" for x
  proof -
    from that obtain m where "m < Suc k - i" "i + m < length xs" "x = xs ! (i + m)" by (auto simp: in_set_conv_nth)
    show ?thesis
    proof (cases "m = 0 \<or> i + m = k")
      case False
      with \<open>m < Suc k - i\<close> have "i < i + m" "i + m < k" by auto
      with assms ik(1,2) \<open>x = xs ! (i + m)\<close> show ?thesis unfolding contiguous_def by blast
    qed (use ik(1,2) \<open>x = xs ! (i + m)\<close> in auto)
  qed
  then have "filter P ?bs = ?bs" by (simp add: filter_id_conv)
  ultimately have "filter P xs = ?bs" by (subst xs) (simp only: filter_append append_Nil append_Nil2)
  with xs show ?thesis by blast
next
  case False
  then have "xs = xs @ [] @ [] \<and> filter P xs = []" by (simp add: filter_empty_conv)
  then show ?thesis by blast
qed

lemma find_by_seq:
  assumes "distinct (map lg_sequence_num L)" "r \<in> set L"
  shows "find (\<lambda>x. lg_sequence_num x = lg_sequence_num r) L = Some r"
  using assms by (induction L) auto

lemma contiguous_window_chained:
  assumes c: "chained H fr GENESIS_HASH 0 L" and L: "L = as @ bs @ cs" and bs: "bs \<noteq> []"
    and rows: "sort_key lg_sequence_num (filter (in_window a b) L) = bs"
  shows "\<exists>v. verify_chain H fr L a b = Inr v \<and> cv_valid v"
proof -
  let ?prev = "if as = [] then GENESIS_HASH else lg_current_hash (last as)"
  have cb: "chained H fr ?prev (int (length as)) bs" using c unfolding L by (simp add: chained_append)
  have first: "lg_sequence_num (hd bs) = int (length as)"
    using chained_seq [OF cb, of 0] bs by (simp add: hd_conv_nth)
  have anchor: "(if 0 < lg_sequence_num (hd bs)
      then map_option lg_current_hash (find (\<lambda>r. lg_sequence_num r = lg_sequence_num (hd bs) - 1) L)
      else Some GENESIS_HASH) = Some ?prev"
  proof (cases as rule: rev_cases)
    case (snoc xs r)
    have "lg_sequence_num r = int (length as) - 1" using c unfolding L snoc by (simp add: chained_append)
    with find_by_seq [OF chained_distinct [OF c], of r] first snoc L show ?thesis by simp
  qed (use first in simp)
  have "check_rows H fr ?prev (int (length as) - 1) bs = Inr []" using cb by (simp add: check_rows_chained)
  with bs first show ?thesis unfolding verify_chain_def Let_def rows anchor by simp
qed

lemma honest_rows_checkable:
  assumes c: "chained H fr p0 s0 L"
  shows "set rows \<subseteq> set L \<Longrightarrow> \<exists>bs. check_rows H fr p s rows = Inr bs"
proof (induction rows arbitrary: p s)
  case (Cons r rows)
  then obtain l where "l < length L" "L ! l = r" by (auto simp: in_set_conv_nth)
  then have "L = take l L @ r # drop (Suc l) L" by (metis id_take_nth_drop)
  then have "compute_payload_digest H fr r = Inr (lg_payload_digest r)"
    using c by (metis chained.simps(2) chained_append)
  moreover obtain bs where "check_rows H fr (lg_current_hash r) (lg_sequence_num r) rows = Inr bs"
    using Cons.IH [of "lg_current_hash r" "lg_sequence_num r"] Cons.prems by auto
  ultimately show ?case by simp
qed simp

lemma scattered_not_chained:
  assumes c: "chained H fr p0 0 L" and scattered: "\<not> contiguous P L"
  shows "\<not> chained H fr p s (filter P L)"
proof
  let ?rows = "filter P L"
  obtain i j k where ijk: "i < j" "j < k" "k < length L" "P (L ! i)" "P (L ! k)" "\<not> P (L ! j)"
    using scattered unfolding contiguous_def by blast
  assume ch: "chained H fr p s ?rows"
  have "L ! i \<in> set ?rows" "L ! k \<in> set ?rows" using ijk by auto
  then obtain m n where mn: "m < length ?rows" "?rows ! m = L ! i" "n < length ?rows" "?rows ! n = L ! k"
    by (metis in_set_conv_nth)
  have seqs: "s + int m = int i" "s + int n = int k"
    using chained_seq [OF ch mn(1)] chained_seq [OF ch mn(3)] chained_seq [OF c] ijk mn by simp_all
  define q where "q = m + (j - i)"
  have q: "q < length ?rows" "lg_sequence_num (?rows ! q) = int j"
    using seqs ijk mn chained_seq [OF ch, of q] by (simp_all add: q_def)
  then have in_row: "?rows ! q \<in> set L" "P (?rows ! q)" using nth_mem [OF q(1)] by auto
  then obtain l where "l < length L" "L ! l = ?rows ! q" by (metis in_set_conv_nth)
  with q(2) chained_seq [OF c] have "?rows ! q = L ! j" by (metis add_0 of_nat_eq_iff)
  with in_row(2) ijk(6) show False by simp
qed

text \<open>The verdict once the rows are known and every digest can be computed.\<close>

lemma verify_broken:
  assumes rows: "sort_key lg_sequence_num (filter (in_window a b) L) = rows" "rows \<noteq> []"
    and total: "\<And>p s. \<exists>bs. check_rows H fr p s rows = Inr bs" and bad: "\<And>p s. \<not> chained H fr p s rows"
  shows "\<exists>v. verify_chain H fr L a b = Inr v \<and> \<not> cv_valid v"
proof -
  define A where "A = (if 0 < lg_sequence_num (hd rows)
    then map_option lg_current_hash (find (\<lambda>r. lg_sequence_num r = lg_sequence_num (hd rows) - 1) L)
    else Some GENESIS_HASH)"
  note v = verify_chain_def [of H fr L a b, unfolded rows(1) Let_def, folded A_def]
  show ?thesis
  proof (cases A)
    case (Some h)
    obtain bs where "check_rows H fr h (lg_sequence_num (hd rows) - 1) rows = Inr bs" using total by blast
    moreover have "bs \<noteq> []" using calculation bad check_rows_chained by metis
    ultimately show ?thesis using Some rows(2) unfolding v by simp
  qed (use rows(2) in \<open>simp add: v\<close>)
qed

text \<open>
  Exactly when verifying a window succeeds on an untouched ledger: the verifier
  answers, and its verdict is valid if and only if the rows whose evaluation
  time lies in the window are consecutive in the chain. Since rows are chained
  in the order of their insertion and not of their evaluation times, an honest
  ledger can be reported broken.
\<close>

theorem window_verification_exact:
  assumes "ledger_reachable H fr L"
  shows "\<exists>v. verify_chain H fr L a b = Inr v \<and> (cv_valid v \<longleftrightarrow> contiguous (in_window a b) L)"
proof -
  let ?W = "in_window a b" and ?rows = "filter (in_window a b) L"
  have c: "chained H fr GENESIS_HASH 0 L" by (rule reachable_chained [OF assms])
  have "sorted (map lg_sequence_num ?rows)"
    by (rule sorted_filter) (auto simp: sorted_iff_nth_mono chained_seq [OF c])
  then have srt: "sort_key lg_sequence_num ?rows = ?rows" by (rule sort_key_id_if_sorted)
  show ?thesis
  proof (cases "contiguous ?W L")
    case True
    then obtain as bs cs where split: "L = as @ bs @ cs" "?rows = bs" using contiguous_split by metis
    show ?thesis
    proof (cases "bs = []")
      case False
      from contiguous_window_chained [OF c split(1) False] srt split(2) True show ?thesis by metis
    qed (use split True in \<open>simp add: verify_chain_def srt\<close>)
  next
    case False
    then have "?rows \<noteq> []" unfolding contiguous_def filter_empty_conv by (metis nth_mem)
    from verify_broken [OF srt this] False honest_rows_checkable [OF c, of ?rows] scattered_not_chained [OF c False]
    show ?thesis by auto
  qed
qed

theorem window_verification_exact_witness:
  "\<exists>v. verify_chain toy_hash ratio_repr (demo_ledger [1, 9, 2]) (Some 0) (Some 5) = Inr v \<and> \<not> cv_valid v"
proof -
  have d: "compute_payload_digest toy_hash ratio_repr (demo_ledger_event t) = Inr (toy_hash (projr (canonical_payload ratio_repr (demo_ledger_event t))))" for t
    by (simp add: compute_payload_digest_def canonical_payload_def payload_fields_def demo_ledger_event_def
        json_dumps_canonical_def json_dumps_def)
  have "map lg_evaluated_at (demo_ledger ts) = ts" for ts
  proof (induction ts rule: rev_induct)
    case (snoc t ts)
    then show ?case by (simp add: demo_ledger_def append_entry_def d Let_def) (simp add: demo_ledger_event_def)
  qed (simp add: demo_ledger_def)
  from this [of "[1, 9, 2]"] obtain x y z where L: "demo_ledger [1, 9, 2] = [x, y, z]"
    and t: "lg_evaluated_at x = 1" "lg_evaluated_at y = 9" "lg_evaluated_at z = 2"
    by (auto simp: map_eq_Cons_conv)
  have "\<not> contiguous (in_window (Some 0) (Some 5)) [x, y, z]"
  proof
    assume "contiguous (in_window (Some 0) (Some 5)) [x, y, z]"
    from this [unfolded contiguous_def, rule_format, of 0 1 2] show False by (simp add: in_window_def t)
  qed
  with window_verification_exact [OF demo_ledger_reachable [of "[1, 9, 2]"], of "Some 0" "Some 5"] L
  show ?thesis by auto
qed

end
