(* ===== verification/Incident_Escalation.thy ===== *)
theory Incident_Escalation
  imports Hitl_Queue
begin

text \<open>
  Breach notification, \<open>app/incident\<close>: the events (\<open>models.py\<close>) and the call sites
  that build them (\<open>trigger_matrix.py\<close>), the Redis store (\<open>store.py\<close>), the entry
  point (\<open>publisher.py\<close>), the staged escalation policy (\<open>escalation_policy.py\<close>) and
  the Celery worker that walks it (\<open>tasks.py\<close>). Celery's queue is the list of
  scheduled tasks with the instant each is due; a notification sent is an entry
  of a log, made when the client of its channel is called. Which channels are
  configured is part of the settings; the text of the messages and the retry of
  a task after an infrastructure error are left out. Instants are seconds here,
  the unit of the scores, delays and deadlines of these modules.
\<close>

section \<open>Data\<close>

datatype BreachSeverity = CRITICAL | WARNING | SEV_INFO

datatype BreachEventType =
    CLAUSE_VIOLATION | AMBIGUOUS_HITL | POLICY_COMPILED | FILING_SUBMISSION_FAILED
  | GRIEVANCE_FILED | GRIEVANCE_STATUS_UPDATE

datatype AckStatus = ACK_PENDING | ACKNOWLEDGED | ACK_RESOLVED

record BreachEvent =
  be_event_id :: string
  severity :: BreachSeverity
  be_event_type :: BreachEventType
  title :: string
  description :: string
  be_tenant_id :: "string option"
  be_transaction_id :: "string option"
  be_rule_id :: "string option"
  be_circular_number :: "string option"
  be_clause_number :: "string option"
  be_hitl_case_id :: "string option"
  ack_status :: AckStatus
  acknowledged_by :: "string option"
  acknowledged_at :: "time option"
  escalation_stage :: nat
  be_created_at :: time
  be_metadata :: "(string \<times> pyval) list"

definition requires_acknowledgment :: "BreachEvent \<Rightarrow> bool" where
  "requires_acknowledgment e \<longleftrightarrow> severity e \<in> {CRITICAL, WARNING}"

section \<open>The trigger matrix\<close>

definition new_event :: "BreachSeverity \<Rightarrow> BreachEventType \<Rightarrow> string \<Rightarrow> string \<Rightarrow> string \<Rightarrow> time \<Rightarrow> BreachEvent" where
  "new_event sev ty t d uuid now =
     \<lparr>be_event_id = uuid, severity = sev, be_event_type = ty, title = t, description = d, be_tenant_id = None,
      be_transaction_id = None, be_rule_id = None, be_circular_number = None, be_clause_number = None,
      be_hitl_case_id = None, ack_status = ACK_PENDING, acknowledged_by = None, acknowledged_at = None,
      escalation_stage = 0, be_created_at = now, be_metadata = []\<rparr>"

definition clause_ref :: "string option \<Rightarrow> string option \<Rightarrow> string" where
  "clause_ref circular clause = str_or circular ''unknown circular'' @ '' clause '' @ str_or clause ''unscoped''"

definition clause_violation_event ::
  "TransactionPayload \<Rightarrow> EvaluationResult \<Rightarrow> PolicyOutcome \<Rightarrow> string \<Rightarrow> time \<Rightarrow> BreachEvent" where
  "clause_violation_event tx result outcome uuid now =
     (new_event CRITICAL CLAUSE_VIOLATION
        (''Clause violation: '' @ clause_ref (po_circular_number outcome) (po_clause_number outcome))
        (if po_violations outcome \<noteq> [] then join ''; '' (po_violations outcome)
         else ''Policy violated with no detailed message.'') uuid now)
     \<lparr>be_tenant_id := broker_id tx, be_transaction_id := Some (transaction_id tx), be_rule_id := Some (po_rule_id outcome),
      be_circular_number := po_circular_number outcome, be_clause_number := po_clause_number outcome,
      be_metadata := [(''package'', PStr (po_package outcome)), (''decision'', PStr (decision_value (er_decision result)))]\<rparr>"

definition ambiguous_hitl_event ::
  "TransactionPayload option \<Rightarrow> string \<Rightarrow> string option \<Rightarrow> string option \<Rightarrow> string option \<Rightarrow> string option \<Rightarrow> string \<Rightarrow> time
   \<Rightarrow> BreachEvent" where
  "ambiguous_hitl_event tx why case_ref rule circular clause uuid now =
     (new_event WARNING AMBIGUOUS_HITL (''Ambiguous rule requires review: '' @ clause_ref circular clause) why uuid now)
     \<lparr>be_tenant_id := Option.bind tx broker_id, be_transaction_id := map_option transaction_id tx, be_rule_id := rule,
      be_circular_number := circular, be_clause_number := clause, be_hitl_case_id := case_ref\<rparr>"

definition policy_compiled_event ::
  "string \<Rightarrow> string option \<Rightarrow> string option \<Rightarrow> string \<Rightarrow> string \<Rightarrow> time \<Rightarrow> BreachEvent" where
  "policy_compiled_event rule circular clause package uuid now =
     (new_event SEV_INFO POLICY_COMPILED (''Policy auto-compiled: '' @ clause_ref circular clause)
        (''Rule '' @ rule @ '' compiled successfully to OPA package '' @ [CHR 0x27] @ package @ [CHR 0x27] @ ''.'') uuid now)
     \<lparr>be_rule_id := Some rule, be_circular_number := circular, be_clause_number := clause,
      be_metadata := [(''package'', PStr package)]\<rparr>"

definition filing_submission_failed_event ::
  "string \<Rightarrow> string \<Rightarrow> string \<Rightarrow> nat \<Rightarrow> string \<Rightarrow> string \<Rightarrow> time \<Rightarrow> BreachEvent" where
  "filing_submission_failed_event filing_id filing_type destination attempts last_error uuid now =
     (new_event CRITICAL FILING_SUBMISSION_FAILED
        (''Regulatory filing submission failed: '' @ filing_type @ '' to '' @ destination)
        (''Filing '' @ filing_id @ '' ('' @ filing_type @ '') failed to submit to '' @ destination @ '' after ''
           @ nat_str attempts @ '' attempt(s). Last error: '' @ last_error) uuid now)
     \<lparr>be_metadata := [(''filing_id'', PStr filing_id), (''filing_type'', PStr filing_type), (''destination'', PStr destination),
        (''attempt_count'', PInt (int attempts))]\<rparr>"

section \<open>The store\<close>

record incident_store =
  in_events :: "BreachEvent redis"
  in_recent :: "string list"

definition event_key :: "string \<Rightarrow> string \<Rightarrow> string" where
  "event_key p i = p @ '':event:'' @ i"

definition pending_ack_set_key :: "string \<Rightarrow> string" where
  "pending_ack_set_key p = p @ '':pending_ack''"

definition save :: "string \<Rightarrow> BreachEvent \<Rightarrow> nat \<Rightarrow> incident_store \<Rightarrow> incident_store" where
  "save p e recent_cap s =
     (let db = r_put (event_key p (be_event_id e)) e (in_events s);
          db = (if requires_acknowledgment e \<and> ack_status e = ACK_PENDING
                then r_zadd (pending_ack_set_key p) (be_created_at e) (be_event_id e) db else db)
      in s\<lparr>in_events := db, in_recent := take recent_cap (be_event_id e # in_recent s)\<rparr>)"

definition event_get :: "string \<Rightarrow> string \<Rightarrow> incident_store \<Rightarrow> BreachEvent option" where
  "event_get p i s = r_get (in_events s) (event_key p i)"

definition list_recent :: "string \<Rightarrow> nat \<Rightarrow> incident_store \<Rightarrow> BreachEvent list" where
  "list_recent p limit s = List.map_filter (\<lambda>i. event_get p i s) (take limit (in_recent s))"

definition list_pending_ack :: "string \<Rightarrow> int option \<Rightarrow> time \<Rightarrow> incident_store \<Rightarrow> BreachEvent list" where
  "list_pending_ack p older_than now s =
     (let z = r_zset (in_events s) (pending_ack_set_key p);
          ids = (case older_than of
                   Some age \<Rightarrow> map snd (filter (\<lambda>q. fst q \<le> now - age) z)
                 | None \<Rightarrow> map snd z)
      in filter (\<lambda>e. ack_status e = ACK_PENDING) (List.map_filter (\<lambda>i. event_get p i s) ids))"

definition acknowledge :: "string \<Rightarrow> string \<Rightarrow> string \<Rightarrow> time \<Rightarrow> incident_store \<Rightarrow> incident_store \<times> BreachEvent option" where
  "acknowledge p i officer now s =
     (case event_get p i s of
        None \<Rightarrow> (s, None)
      | Some e \<Rightarrow>
          let e' = e\<lparr>ack_status := ACKNOWLEDGED, acknowledged_by := Some officer, acknowledged_at := Some now\<rparr>
          in (s\<lparr>in_events := r_zrem (pending_ack_set_key p) i (r_put (event_key p (be_event_id e)) e' (in_events s))\<rparr>, Some e'))"

definition update_escalation_stage :: "string \<Rightarrow> string \<Rightarrow> nat \<Rightarrow> incident_store \<Rightarrow> incident_store" where
  "update_escalation_stage p i k s =
     (case event_get p i s of
        None \<Rightarrow> s
      | Some e \<Rightarrow> s\<lparr>in_events := r_put (event_key p (be_event_id e)) (e\<lparr>escalation_stage := k\<rparr>) (in_events s)\<rparr>)"

section \<open>Escalation\<close>

datatype channel = SLACK | EMAIL | SMS | PAGERDUTY

record EscalationStage =
  stage_index :: nat
  delay_seconds :: int
  channels :: "channel list"

record incident_settings =
  critical_sms_stage :: int
  critical_ack_deadline :: int
  warning_ack_deadline :: int
  configured :: "channel list"

definition build_escalation_policies :: "incident_settings \<Rightarrow> BreachSeverity \<Rightarrow> EscalationStage list" where
  "build_escalation_policies cfg sev =
     (case sev of
        CRITICAL \<Rightarrow>
          [\<lparr>stage_index = 0, delay_seconds = 0, channels = [SLACK, EMAIL]\<rparr>,
           \<lparr>stage_index = 1, delay_seconds = critical_sms_stage cfg, channels = [SMS]\<rparr>,
           \<lparr>stage_index = 2, delay_seconds = critical_ack_deadline cfg - critical_sms_stage cfg, channels = [PAGERDUTY]\<rparr>]
      | WARNING \<Rightarrow>
          [\<lparr>stage_index = 0, delay_seconds = 0, channels = [SLACK]\<rparr>,
           \<lparr>stage_index = 1, delay_seconds = warning_ack_deadline cfg, channels = [EMAIL]\<rparr>]
      | SEV_INFO \<Rightarrow> [])"

record incident_state =
  st_store :: incident_store
  st_dashboard :: "BreachEvent list"
  st_tasks :: "(time \<times> string \<times> nat) list"
  st_sent :: "(string \<times> channel \<times> time) list"

definition dispatch_channels :: "incident_settings \<Rightarrow> time \<Rightarrow> BreachEvent \<Rightarrow> channel list \<Rightarrow> incident_state \<Rightarrow> incident_state" where
  "dispatch_channels cfg now e chs st =
     st\<lparr>st_sent := st_sent st @ map (\<lambda>c. (be_event_id e, c, now)) (filter (\<lambda>c. c \<in> set (configured cfg)) chs)\<rparr>"

definition process_stage :: "incident_settings \<Rightarrow> string \<Rightarrow> time \<Rightarrow> string \<Rightarrow> nat \<Rightarrow> incident_state \<Rightarrow> incident_state" where
  "process_stage cfg p now i k st =
     (case event_get p i (st_store st) of
        None \<Rightarrow> st
      | Some e \<Rightarrow>
          if ack_status e \<noteq> ACK_PENDING then st
          else
            let stages = build_escalation_policies cfg (severity e) in
            if length stages \<le> k then st
            else
              let st = dispatch_channels cfg now e (channels (stages ! k)) st;
                  st = st\<lparr>st_store := update_escalation_stage p i k (st_store st)\<rparr>
              in if Suc k < length stages
                 then st\<lparr>st_tasks := st_tasks st @ [(now + delay_seconds (stages ! Suc k), i, Suc k)]\<rparr>
                 else st)"

definition raise_breach_event :: "string \<Rightarrow> time \<Rightarrow> BreachEvent \<Rightarrow> incident_state \<Rightarrow> incident_state" where
  "raise_breach_event p now e st =
     (let st = st\<lparr>st_store := save p e 500 (st_store st)\<rparr>;
          st = st\<lparr>st_dashboard := st_dashboard st @ [e]\<rparr>
      in if requires_acknowledgment e
         then st\<lparr>st_tasks := st_tasks st @ [(now, be_event_id e, 0)]\<rparr> else st)"

definition sweep :: "incident_settings \<Rightarrow> string \<Rightarrow> time \<Rightarrow> incident_state \<Rightarrow> incident_state" where
  "sweep cfg p now st =
     (let min_deadline = min (critical_sms_stage cfg) (warning_ack_deadline cfg);
          overdue = list_pending_ack p (Some min_deadline) now (st_store st)
      in st\<lparr>st_tasks := st_tasks st @ map (\<lambda>e. (now, be_event_id e, escalation_stage e + 1)) overdue\<rparr>)"

definition run_task :: "incident_settings \<Rightarrow> string \<Rightarrow> time \<Rightarrow> time \<times> string \<times> nat \<Rightarrow> incident_state \<Rightarrow> incident_state" where
  "run_task cfg p now task st =
     process_stage cfg p now (fst (snd task)) (snd (snd task)) (st\<lparr>st_tasks := remove1 task (st_tasks st)\<rparr>)"

section \<open>Runs of the escalation service\<close>

text \<open>
  Events are raised under fresh ids at the clock's time, acknowledged, swept and
  escalated in any order. Time passes only as far as the next task that is due:
  the worker is assumed to keep up, to bound what it promises.
\<close>

inductive inc_step :: "incident_settings \<Rightarrow> string \<Rightarrow> time \<times> incident_state \<Rightarrow> time \<times> incident_state \<Rightarrow> bool" for cfg p where
  raise: "event_get p (be_event_id e) (st_store st) = None \<Longrightarrow> be_created_at e = now \<Longrightarrow>
    inc_step cfg p (now, st) (now, raise_breach_event p now e st)"
| ack: "inc_step cfg p (now, st) (now, st\<lparr>st_store := fst (acknowledge p i officer now (st_store st))\<rparr>)"
| run: "task \<in> set (st_tasks st) \<Longrightarrow> fst task \<le> now \<Longrightarrow> inc_step cfg p (now, st) (now, run_task cfg p now task st)"
| sweep: "inc_step cfg p (now, st) (now, sweep cfg p now st)"
| tick: "now \<le> now' \<Longrightarrow> \<forall>task\<in>set (st_tasks st). now' \<le> fst task \<Longrightarrow> inc_step cfg p (now, st) (now', st)"

definition no_incidents :: incident_state where
  "no_incidents = \<lparr>st_store = \<lparr>in_events = redis_empty, in_recent = []\<rparr>, st_dashboard = [], st_tasks = [], st_sent = []\<rparr>"

abbreviation inc_reachable :: "incident_settings \<Rightarrow> string \<Rightarrow> time \<Rightarrow> incident_state \<Rightarrow> bool" where
  "inc_reachable cfg p now st \<equiv> (\<exists>start. (inc_step cfg p)\<^sup>*\<^sup>* (start, no_incidents) (now, st))"

subsection \<open>What each operation does to one event\<close>

lemma event_key_inject [simp]: "event_key p i = event_key p j \<longleftrightarrow> i = j"
  by (simp add: event_key_def)

definition own_ids :: "string \<Rightarrow> incident_store \<Rightarrow> bool" where
  "own_ids p s \<longleftrightarrow> (\<forall>i e. event_get p i s = Some e \<longrightarrow> be_event_id e = i)"

lemma get_save: "event_get p i (save p e c s) = (if i = be_event_id e then Some e else event_get p i s)"
  by (simp add: event_get_def save_def Let_def redis_simps)

lemma get_acknowledge:
  assumes "own_ids p s"
  shows "event_get p i (fst (acknowledge p j officer now s)) =
    (if i = j then map_option (\<lambda>e. e\<lparr>ack_status := ACKNOWLEDGED, acknowledged_by := Some officer, acknowledged_at := Some now\<rparr>)
       (event_get p i s) else event_get p i s)"
  using assms by (auto simp: own_ids_def acknowledge_def event_get_def Let_def redis_simps split: option.splits)

lemma get_update_stage:
  assumes "own_ids p s"
  shows "event_get p i (update_escalation_stage p j k s) =
    (if i = j then map_option (\<lambda>e. e\<lparr>escalation_stage := k\<rparr>) (event_get p i s) else event_get p i s)"
  using assms by (auto simp: own_ids_def update_escalation_stage_def event_get_def redis_simps split: option.splits)

lemma own_ids_ops:
  "own_ids p s \<Longrightarrow> own_ids p (save p e c s)"
  "own_ids p s \<Longrightarrow> own_ids p (fst (acknowledge p j officer now s))"
  "own_ids p s \<Longrightarrow> own_ids p (update_escalation_stage p j k s)"
  by (auto simp: own_ids_def get_save)
     (auto simp: get_acknowledge [unfolded own_ids_def] get_update_stage [unfolded own_ids_def] split: if_splits)

text \<open>A task either does nothing or performs its stage.\<close>

lemma process_stage_cases:
  obtains (skip) "process_stage cfg p now i k st = st"
      "\<And>e. event_get p i (st_store st) = Some e \<Longrightarrow> ack_status e \<noteq> ACK_PENDING \<or> length (build_escalation_policies cfg (severity e)) \<le> k"
  | (act) e where "event_get p i (st_store st) = Some e" "ack_status e = ACK_PENDING"
      "k < length (build_escalation_policies cfg (severity e))"
      "st_store (process_stage cfg p now i k st) = update_escalation_stage p i k (st_store st)"
      "st_sent (process_stage cfg p now i k st) = st_sent st @
         map (\<lambda>c. (be_event_id e, c, now)) (filter (\<lambda>c. c \<in> set (configured cfg)) (channels (build_escalation_policies cfg (severity e) ! k)))"
      "st_tasks (process_stage cfg p now i k st) = st_tasks st @
         (if Suc k < length (build_escalation_policies cfg (severity e))
          then [(now + delay_seconds (build_escalation_policies cfg (severity e) ! Suc k), i, Suc k)] else [])"
proof (cases "event_get p i (st_store st)")
  case None
  then show ?thesis by (intro skip) (simp_all add: process_stage_def)
next
  case (Some e)
  show ?thesis
  proof (cases "ack_status e \<noteq> ACK_PENDING \<or> length (build_escalation_policies cfg (severity e)) \<le> k")
    case True
    with Some show ?thesis by (intro skip) (auto simp: process_stage_def Let_def)
  next
    case False
    with Some show ?thesis by (intro act [of e]) (simp_all add: process_stage_def dispatch_channels_def Let_def)
  qed
qed

subsection \<open>The escalation is never lost\<close>

definition sane :: "incident_settings \<Rightarrow> bool" where
  "sane cfg \<longleftrightarrow> 0 \<le> critical_sms_stage cfg \<and> critical_sms_stage cfg \<le> critical_ack_deadline cfg
     \<and> 0 \<le> warning_ack_deadline cfg \<and> PAGERDUTY \<in> set (configured cfg)"

definition due :: "incident_settings \<Rightarrow> nat \<Rightarrow> int" where
  "due cfg k = (if k = 0 then 0 else if k = 1 then critical_sms_stage cfg else critical_ack_deadline cfg)"

text \<open>Either the last stage was sent in time, or some stage is scheduled in time.\<close>

definition covered :: "incident_settings \<Rightarrow> incident_state \<Rightarrow> string \<Rightarrow> time \<Rightarrow> bool" where
  "covered cfg st i t0 \<longleftrightarrow>
     (\<exists>t. t \<le> t0 + critical_ack_deadline cfg \<and> (i, PAGERDUTY, t) \<in> set (st_sent st))
     \<or> (\<exists>k eta. k \<le> 2 \<and> eta \<le> t0 + due cfg k \<and> (eta, i, k) \<in> set (st_tasks st))"

definition inc_inv :: "incident_settings \<Rightarrow> string \<Rightarrow> time \<Rightarrow> incident_state \<Rightarrow> bool" where
  "inc_inv cfg p now st \<longleftrightarrow>
     own_ids p (st_store st) \<and> (\<forall>task\<in>set (st_tasks st). now \<le> fst task)
     \<and> (\<forall>i e. event_get p i (st_store st) = Some e \<and> severity e = CRITICAL \<and> ack_status e = ACK_PENDING
          \<longrightarrow> covered cfg st i (be_created_at e))"

lemma covered_mono:
  "covered cfg st i t \<Longrightarrow> set (st_sent st) \<subseteq> set (st_sent st') \<Longrightarrow> set (st_tasks st) \<subseteq> set (st_tasks st') \<Longrightarrow>
   covered cfg st' i t"
  unfolding covered_def by blast

lemma stage_delays: "sane cfg \<Longrightarrow> k < length (build_escalation_policies cfg sev) \<Longrightarrow>
    0 \<le> delay_seconds (build_escalation_policies cfg sev ! k)"
  by (cases sev) (auto simp: sane_def build_escalation_policies_def less_Suc_eq)

lemma critical_stages:
  "length (build_escalation_policies cfg CRITICAL) = 3"
  "channels (build_escalation_policies cfg CRITICAL ! 2) = [PAGERDUTY]"
  "k < 2 \<Longrightarrow> due cfg k + delay_seconds (build_escalation_policies cfg CRITICAL ! Suc k) = due cfg (Suc k)"
  by (auto simp: build_escalation_policies_def due_def less_Suc_eq numeral_2_eq_2)

lemma in_remove1: "x \<in> set xs \<Longrightarrow> x \<noteq> y \<Longrightarrow> x \<in> set (remove1 y xs)"
  by (induction xs) auto

text \<open>Running the task that covers an event covers it again, by the next stage or the page.\<close>

lemma covered_run:
  assumes sane: "sane cfg" and e: "event_get p i (st_store st) = Some e" "severity e = CRITICAL" "ack_status e = ACK_PENDING"
    and id: "be_event_id e = i" and k: "k \<le> 2" "now \<le> be_created_at e + due cfg k"
  shows "covered cfg (process_stage cfg p now i k st) i (be_created_at e)"
proof (cases rule: process_stage_cases [of cfg p now i k st])
  case skip
  then have False using skip(2) [OF e(1)] e(2,3) k(1) by (simp add: critical_stages)
  then show ?thesis ..
next
  case (act e')
  then have e': "e' = e" using e(1) by simp
  show ?thesis
  proof (cases "k = 2")
    case True
    then have "(i, PAGERDUTY, now) \<in> set (st_sent (process_stage cfg p now i k st))"
      using act(5) e' e(2) id sane by (simp add: critical_stages sane_def)
    moreover have "now \<le> be_created_at e + critical_ack_deadline cfg" using k(2) True by (simp add: due_def)
    ultimately show ?thesis unfolding covered_def by blast
  next
    case False
    let ?eta = "now + delay_seconds (build_escalation_policies cfg CRITICAL ! Suc k)"
    have "(?eta, i, Suc k) \<in> set (st_tasks (process_stage cfg p now i k st))"
      using act(6) e' e(2) False k(1) by (simp add: critical_stages)
    moreover have "?eta \<le> be_created_at e + due cfg (Suc k)"
      using k False critical_stages(3) [of k cfg] by simp
    moreover have "Suc k \<le> 2" using k(1) False by simp
    ultimately show ?thesis unfolding covered_def by blast
  qed
qed

lemma process_stage_events:
  assumes "own_ids p (st_store st)"
  shows "own_ids p (st_store (process_stage cfg p now j k st))"
    "event_get p i (st_store (process_stage cfg p now j k st)) = Some e' \<Longrightarrow>
     \<exists>e. event_get p i (st_store st) = Some e \<and> severity e = severity e' \<and> ack_status e = ack_status e'
       \<and> be_created_at e = be_created_at e'"
  by (cases rule: process_stage_cases [of cfg p now j k st];
      auto simp: assms own_ids_ops get_update_stage [OF assms] split: if_splits)+

lemma process_stage_grows:
  "set (st_sent st) \<subseteq> set (st_sent (process_stage cfg p now j k st))"
  "set (st_tasks st) \<subseteq> set (st_tasks (process_stage cfg p now j k st))"
  "sane cfg \<Longrightarrow> \<forall>task\<in>set (st_tasks st). now \<le> fst task \<Longrightarrow> \<forall>task\<in>set (st_tasks (process_stage cfg p now j k st)). now \<le> fst task"
  by (cases rule: process_stage_cases [of cfg p now j k st]; force simp: stage_delays)+

lemma inc_inv_run:
  assumes sane: "sane cfg" and inv: "inc_inv cfg p now st" and task: "task \<in> set (st_tasks st)" "fst task \<le> now"
  shows "inc_inv cfg p now (run_task cfg p now task st)"
proof -
  obtain eta j k where t: "task = (eta, j, k)" by (cases task)
  let ?st = "st\<lparr>st_tasks := remove1 task (st_tasks st)\<rparr>"
  let ?st' = "process_stage cfg p now j k ?st"
  have run: "run_task cfg p now task st = ?st'" by (simp add: run_task_def t)
  have ids: "own_ids p (st_store ?st)" and later: "\<forall>x\<in>set (st_tasks st). now \<le> fst x"
    using inv by (simp_all add: inc_inv_def)
  have "eta = now" using later task t by force
  have "covered cfg ?st' i (be_created_at e')"
    if get: "event_get p i (st_store ?st') = Some e'" "severity e' = CRITICAL" "ack_status e' = ACK_PENDING" for i e'
  proof -
    from process_stage_events(2) [OF ids get(1)] obtain e where
      e: "event_get p i (st_store st) = Some e" "severity e = CRITICAL" "ack_status e = ACK_PENDING" "be_created_at e = be_created_at e'"
      using get(2,3) by auto
    have cov: "covered cfg st i (be_created_at e)" using inv e(1-3) by (simp add: inc_inv_def)
    show ?thesis
    proof (cases "j = i \<and> k \<le> 2 \<and> now \<le> be_created_at e + due cfg k")
      case True
      have "be_event_id e = i" using inv e(1) by (simp add: inc_inv_def own_ids_def)
      with True e covered_run [OF sane, of p i ?st e k now] show ?thesis by simp
    next
      case False
      then have "covered cfg ?st i (be_created_at e)"
        using cov \<open>eta = now\<close> t unfolding covered_def by (auto intro: in_remove1)
      then show ?thesis
        unfolding e(4) [symmetric] by (rule covered_mono [OF _ process_stage_grows(1,2)])
    qed
  qed
  moreover have "\<forall>x\<in>set (st_tasks ?st'). now \<le> fst x"
    using later by (intro process_stage_grows(3) [OF sane]) (auto dest: notin_set_remove1)
  ultimately show ?thesis unfolding run inc_inv_def using process_stage_events(1) [OF ids] by blast
qed

lemma inc_inv_step:
  assumes "sane cfg" "inc_step cfg p c c'" "inc_inv cfg p (fst c) (snd c)"
  shows "inc_inv cfg p (fst c') (snd c')"
  using assms(2,3)
proof (induction rule: inc_step.induct)
  case (raise e st now)
  let ?st = "raise_breach_event p now e st"
  have store: "st_store ?st = save p e 500 (st_store st)" and sent: "st_sent ?st = st_sent st"
    and tasks: "st_tasks ?st = st_tasks st @ (if requires_acknowledgment e then [(now, be_event_id e, 0)] else [])"
    by (simp_all add: raise_breach_event_def Let_def)
  have "covered cfg ?st (be_event_id e) (be_created_at e)" if "severity e = CRITICAL"
  proof -
    have "(be_created_at e, be_event_id e, 0) \<in> set (st_tasks ?st)"
      using that raise.hyps(2) by (simp add: tasks requires_acknowledgment_def)
    then show ?thesis unfolding covered_def due_def by fastforce
  qed
  moreover have "covered cfg ?st i t" if "covered cfg st i t" for i t
    using that by (rule covered_mono) (simp_all add: sent tasks)
  ultimately show ?case
    using raise by (simp add: inc_inv_def store own_ids_ops get_save) (auto simp: tasks)
next
  case (ack now st i officer)
  then have ids: "own_ids p (st_store st)" by (simp add: inc_inv_def)
  have "covered cfg (st\<lparr>st_store := s\<rparr>) j t = covered cfg st j t" for s j t by (simp add: covered_def)
  with ack show ?case
    by (auto simp: inc_inv_def own_ids_ops get_acknowledge [OF ids] split: if_splits)
next
  case (sweep now st)
  have "covered cfg (sweep cfg p now st) i t" if "covered cfg st i t" for i t
    using that by (rule covered_mono) (simp_all add: sweep_def Let_def)
  with sweep show ?case by (auto simp: inc_inv_def sweep_def Let_def)
qed (use inc_inv_run [OF assms(1)] in \<open>auto simp: inc_inv_def\<close>)

lemma inc_reachable_inv: "sane cfg \<Longrightarrow> inc_reachable cfg p now st \<Longrightarrow> inc_inv cfg p now st"
proof (elim exE)
  fix start assume sane: "sane cfg" and run: "(inc_step cfg p)\<^sup>*\<^sup>* (start, no_incidents) (now, st)"
  from run have "inc_inv cfg p (fst (now, st)) (snd (now, st))"
  proof (induction rule: rtranclp_induct)
    case base
    show ?case by (simp add: inc_inv_def no_incidents_def own_ids_def event_get_def redis_empty_def redis_defs)
  qed (rule inc_inv_step [OF sane])
  then show "inc_inv cfg p now st" by simp
qed


subsection \<open>Acknowledging stops it\<close>

definition silenced :: "string \<Rightarrow> string \<Rightarrow> incident_state \<Rightarrow> bool" where
  "silenced p i st \<longleftrightarrow> own_ids p (st_store st)
     \<and> (\<exists>e. event_get p i (st_store st) = Some e \<and> ack_status e \<noteq> ACK_PENDING)"

abbreviation sent_for :: "string \<Rightarrow> incident_state \<Rightarrow> (string \<times> channel \<times> time) list" where
  "sent_for i st \<equiv> filter (\<lambda>m. fst m = i) (st_sent st)"

lemma silenced_process:
  assumes "silenced p i st"
  shows "silenced p i (process_stage cfg p now j k st) \<and> sent_for i (process_stage cfg p now j k st) = sent_for i st"
proof (cases rule: process_stage_cases [of cfg p now j k st])
  case (act e)
  have ids: "own_ids p (st_store st)" using assms by (simp add: silenced_def)
  then have "be_event_id e = j" using act(1) by (simp add: own_ids_def)
  moreover have "j \<noteq> i" using assms act(1,2) by (auto simp: silenced_def)
  ultimately show ?thesis
    using assms act(4,5) by (auto simp: silenced_def own_ids_ops get_update_stage [OF ids] filter_empty_conv)
qed (use assms in simp)

lemma silenced_step:
  assumes "inc_step cfg p c c'" "silenced p i (snd c)"
  shows "silenced p i (snd c') \<and> sent_for i (snd c') = sent_for i (snd c)"
  using assms
proof (induction rule: inc_step.induct)
  case (ack now st j officer)
  then have ids: "own_ids p (st_store st)" by (simp add: silenced_def)
  from ack show ?case by (auto simp: silenced_def own_ids_ops get_acknowledge [OF ids])
next
  case (run task st now)
  then have "silenced p i (st\<lparr>st_tasks := remove1 task (st_tasks st)\<rparr>)" by (simp add: silenced_def)
  from silenced_process [OF this] show ?case by (simp add: run_task_def)
next
  case (raise e st now)
  then show ?case by (auto simp: silenced_def raise_breach_event_def Let_def own_ids_ops get_save)
qed (simp_all add: silenced_def sweep_def Let_def)


subsection \<open>The sweep does not wait\<close>

text \<open>
  The sweep is described as re-checking which stage is due; it resumes at the
  stage after the recorded one at once. A critical event that the sweep lists
  at stage 1 is paged immediately, whatever is left of its deadline.
\<close>

theorem sweep_pages_at_once:
  assumes "inc_reachable cfg p now st" and "sane cfg"
    and "e \<in> set (list_pending_ack p (Some (min (critical_sms_stage cfg) (warning_ack_deadline cfg))) now (st_store st))"
    and "severity e = CRITICAL" and "escalation_stage e = 1"
  shows "(now, be_event_id e, 2) \<in> set (st_tasks (sweep cfg p now st))
    \<and> (be_event_id e, PAGERDUTY, now) \<in> set (st_sent (run_task cfg p now (now, be_event_id e, 2) (sweep cfg p now st)))"
proof -
  let ?i = "be_event_id e"
  have ids: "own_ids p (st_store st)" using inc_reachable_inv [OF assms(2,1)] by (simp add: inc_inv_def)
  obtain j where "event_get p j (st_store st) = Some e" "ack_status e = ACK_PENDING"
    using assms(3) by (auto simp: list_pending_ack_def Let_def set_map_filter)
  moreover from this ids have "j = ?i" by (simp add: own_ids_def)
  ultimately have e: "event_get p ?i (st_store st) = Some e" "ack_status e = ACK_PENDING" by simp_all
  have "(now, ?i, 2) \<in> set (st_tasks (sweep cfg p now st))"
    using assms(3,5) by (auto simp: sweep_def Let_def numeral_2_eq_2)
  moreover have "(?i, PAGERDUTY, now) \<in> set (st_sent (run_task cfg p now (now, ?i, 2) (sweep cfg p now st)))"
  proof (cases rule: process_stage_cases [of cfg p now ?i 2 "(sweep cfg p now st)\<lparr>st_tasks := remove1 (now, ?i, 2) (st_tasks (sweep cfg p now st))\<rparr>"])
    case skip
    then have False using skip(2) [of e] e assms(4) by (simp add: sweep_def Let_def critical_stages)
    then show ?thesis ..
  next
    case (act e')
    then have "e' = e" using e(1) by (simp add: sweep_def Let_def)
    with act(5) assms(2,4) show ?thesis by (simp add: run_task_def critical_stages sane_def)
  qed
  ultimately show ?thesis by blast
qed

section \<open>A run\<close>

definition demo_cfg :: incident_settings where
  "demo_cfg = \<lparr>critical_sms_stage = 300, critical_ack_deadline = 900, warning_ack_deadline = 600, configured = [PAGERDUTY]\<rparr>"

definition demo_breach :: BreachEvent where
  "demo_breach = new_event CRITICAL CLAUSE_VIOLATION ''t'' ''d'' ''b1'' 0"

definition demo_run :: "nat \<Rightarrow> incident_state" where
  "demo_run n = foldl (\<lambda>st (t, k). run_task demo_cfg ''inc'' t (t, ''b1'', k) st)
     (raise_breach_event ''inc'' 0 demo_breach no_incidents) (take n [(0, 0), (300, 1), (900, 2)])"

lemma demo_run_unfold:
  "demo_run 0 = raise_breach_event ''inc'' 0 demo_breach no_incidents"
  "demo_run 1 = run_task demo_cfg ''inc'' 0 (0, ''b1'', 0) (demo_run 0)"
  "demo_run 2 = run_task demo_cfg ''inc'' 300 (300, ''b1'', 1) (demo_run 1)"
  "demo_run 3 = run_task demo_cfg ''inc'' 900 (900, ''b1'', 2) (demo_run 2)"
  by (simp_all add: demo_run_def numeral_2_eq_2 numeral_3_eq_3)

lemma demo_states:
  "st_tasks (demo_run 0) = [(0, ''b1'', 0)] \<and> event_get ''inc'' ''b1'' (st_store (demo_run 0)) = Some demo_breach \<and> own_ids ''inc'' (st_store (demo_run 0))"
  "st_tasks (demo_run 1) = [(300, ''b1'', 1)] \<and> event_get ''inc'' ''b1'' (st_store (demo_run 1)) = Some demo_breach \<and> own_ids ''inc'' (st_store (demo_run 1))"
  "st_tasks (demo_run 2) = [(900, ''b1'', 2)] \<and> event_get ''inc'' ''b1'' (st_store (demo_run 2)) = Some (demo_breach\<lparr>escalation_stage := 1\<rparr>) \<and> own_ids ''inc'' (st_store (demo_run 2))"
  "st_tasks (demo_run 3) = [] \<and> event_get ''inc'' ''b1'' (st_store (demo_run 3)) = Some (demo_breach\<lparr>escalation_stage := 2\<rparr>)"
proof -
  have empty: "event_get ''inc'' i (st_store no_incidents) = None" "own_ids ''inc'' (st_store no_incidents)" for i
    by (simp_all add: no_incidents_def event_get_def own_ids_def redis_empty_def redis_defs)
  show 0: "st_tasks (demo_run 0) = [(0, ''b1'', 0)] \<and> event_get ''inc'' ''b1'' (st_store (demo_run 0)) = Some demo_breach \<and> own_ids ''inc'' (st_store (demo_run 0))"
    using empty by (simp add: demo_run_unfold raise_breach_event_def Let_def get_save own_ids_ops)
      (simp add: demo_breach_def new_event_def requires_acknowledgment_def no_incidents_def get_save)
  have stage: "st_tasks (run_task demo_cfg ''inc'' t (t, ''b1'', k) st) = (if k < 2 then [(t + (if k = 0 then 300 else 600), ''b1'', Suc k)] else [])
      \<and> event_get ''inc'' ''b1'' (st_store (run_task demo_cfg ''inc'' t (t, ''b1'', k) st)) = Some (e\<lparr>escalation_stage := k\<rparr>)
      \<and> own_ids ''inc'' (st_store (run_task demo_cfg ''inc'' t (t, ''b1'', k) st))"
    if "st_tasks st = [(t, ''b1'', k)]" "event_get ''inc'' ''b1'' (st_store st) = Some e" "own_ids ''inc'' (st_store st)"
      "severity e = CRITICAL" "ack_status e = ACK_PENDING" "k \<le> 2" for st t k e
    using that get_update_stage [OF that(3), of "''b1''" "''b1''" k] own_ids_ops(3) [OF that(3)]
    by (auto simp: run_task_def process_stage_def dispatch_channels_def build_escalation_policies_def demo_cfg_def Let_def
        less_Suc_eq numeral_2_eq_2 le_Suc_eq)
  have d: "severity demo_breach = CRITICAL" "ack_status demo_breach = ACK_PENDING" "demo_breach\<lparr>escalation_stage := 0\<rparr> = demo_breach"
    by (simp_all add: demo_breach_def new_event_def)
  show 1: "st_tasks (demo_run 1) = [(300, ''b1'', 1)] \<and> event_get ''inc'' ''b1'' (st_store (demo_run 1)) = Some demo_breach \<and> own_ids ''inc'' (st_store (demo_run 1))"
    unfolding demo_run_unfold(2) using stage [of "demo_run 0" 0 0 demo_breach] 0 d by simp
  show 2: "st_tasks (demo_run 2) = [(900, ''b1'', 2)] \<and> event_get ''inc'' ''b1'' (st_store (demo_run 2)) = Some (demo_breach\<lparr>escalation_stage := 1\<rparr>) \<and> own_ids ''inc'' (st_store (demo_run 2))"
    unfolding demo_run_unfold(3) using stage [of "demo_run 1" 300 1 demo_breach] 1 d by (simp add: numeral_2_eq_2)
  show "st_tasks (demo_run 3) = [] \<and> event_get ''inc'' ''b1'' (st_store (demo_run 3)) = Some (demo_breach\<lparr>escalation_stage := 2\<rparr>)"
    unfolding demo_run_unfold(4) using stage [of "demo_run 2" 900 2 "demo_breach\<lparr>escalation_stage := 1\<rparr>"] 2 d by simp
qed


lemma demo_zset: "k \<le> 2 \<Longrightarrow> r_zset (in_events (st_store (demo_run k))) (pending_ack_set_key ''inc'') = [(0, ''b1'')]"
proof -
  have update: "r_zset (in_events (update_escalation_stage p i k s)) z = r_zset (in_events s) z" for p i k s z
    by (simp add: update_escalation_stage_def redis_simps split: option.split)
  have run: "r_zset (in_events (st_store (run_task cfg p now task st))) z = r_zset (in_events (st_store st)) z"
    for cfg p now task st z
    by (simp add: run_task_def process_stage_def dispatch_channels_def Let_def update split: option.split)
  have "r_zset (in_events (st_store (demo_run 0))) (pending_ack_set_key ''inc'') = [(0, ''b1'')]"
    by (simp add: demo_run_unfold(1) raise_breach_event_def Let_def save_def no_incidents_def redis_empty_def redis_defs
        requires_acknowledgment_def demo_breach_def new_event_def z_remove_def)
  then show "k \<le> 2 \<Longrightarrow> ?thesis"
    using demo_run_unfold(2,3) by (auto simp: numeral_2_eq_2 le_Suc_eq run)
qed

lemma demo_reachable:
  "(inc_step demo_cfg ''inc'')\<^sup>*\<^sup>* (0, no_incidents) (0, demo_run 0)"
  "(inc_step demo_cfg ''inc'')\<^sup>*\<^sup>* (0, no_incidents) (300, demo_run 2)"
  "(inc_step demo_cfg ''inc'')\<^sup>*\<^sup>* (0, no_incidents) (901, demo_run 3)"
proof -
  have "event_get ''inc'' (be_event_id demo_breach) (st_store no_incidents) = None" "be_created_at demo_breach = 0"
    by (simp_all add: no_incidents_def event_get_def redis_empty_def redis_defs demo_breach_def new_event_def)
  from inc_step.raise [OF this]
  show 0: "(inc_step demo_cfg ''inc'')\<^sup>*\<^sup>* (0, no_incidents) (0, demo_run 0)"
    unfolding demo_run_unfold(1) by blast
  have "inc_step demo_cfg ''inc'' (0, demo_run 0) (0, demo_run 1)"
    unfolding demo_run_unfold(2) by (rule inc_step.run) (simp_all add: demo_states(1))
  moreover have "inc_step demo_cfg ''inc'' (0, demo_run 1) (300, demo_run 1)"
    by (rule inc_step.tick) (simp_all add: demo_states(2) [simplified])
  moreover have "inc_step demo_cfg ''inc'' (300, demo_run 1) (300, demo_run 2)"
    unfolding demo_run_unfold(3) by (rule inc_step.run) (simp_all add: demo_states(2) [simplified])
  ultimately show 2: "(inc_step demo_cfg ''inc'')\<^sup>*\<^sup>* (0, no_incidents) (300, demo_run 2)"
    using 0 by (meson rtranclp.rtrancl_into_rtrancl)
  have "inc_step demo_cfg ''inc'' (300, demo_run 2) (900, demo_run 2)"
    by (rule inc_step.tick) (simp_all add: demo_states(3))
  moreover have "inc_step demo_cfg ''inc'' (900, demo_run 2) (900, demo_run 3)"
    unfolding demo_run_unfold(4) by (rule inc_step.run) (simp_all add: demo_states(3))
  moreover have "inc_step demo_cfg ''inc'' (900, demo_run 3) (901, demo_run 3)"
    by (rule inc_step.tick) (simp_all add: demo_states(4))
  ultimately show "(inc_step demo_cfg ''inc'')\<^sup>*\<^sup>* (0, no_incidents) (901, demo_run 3)"
    using 2 by (meson rtranclp.rtrancl_into_rtrancl)
qed

lemma demo_breach_facts:
  "sane demo_cfg" "critical_ack_deadline demo_cfg = 900" "critical_sms_stage demo_cfg = 300" "warning_ack_deadline demo_cfg = 600"
  "severity demo_breach = CRITICAL" "ack_status demo_breach = ACK_PENDING" "be_created_at demo_breach = 0" "be_event_id demo_breach = ''b1''"
  by (simp_all add: sane_def demo_cfg_def demo_breach_def new_event_def)



theorem sweep_pages_at_once_witness:
  "(''b1'', PAGERDUTY, 300) \<in> set (st_sent (run_task demo_cfg ''inc'' 300 (300, ''b1'', 2) (sweep demo_cfg ''inc'' 300 (demo_run 2))))"
proof -
  have "list_pending_ack ''inc'' (Some 300) 300 (st_store (demo_run 2)) = [demo_breach\<lparr>escalation_stage := 1\<rparr>]"
    using demo_states(3) by (simp add: list_pending_ack_def Let_def demo_zset map_filter_simps demo_breach_facts)
  with sweep_pages_at_once [of demo_cfg "''inc''" 300 "demo_run 2" "demo_breach\<lparr>escalation_stage := 1\<rparr>"] demo_reachable(2)
  show ?thesis by (auto simp: demo_breach_facts)
qed

end
