(* ===== verification/Ledger_Integration.thy ===== *)
theory Ledger_Integration
  imports Explainability Ledger Incident_Escalation
begin

text \<open>
  From a decision to its records (\<open>app/ledger/integration.py\<close>) and the live
  evaluation route (\<open>app/api/execution_routes.py\<close>): one ledger row per policy
  that was checked, one for the transaction when none was, a breach event per
  violated or undecided policy, and what the caller is answered. The text of a
  reason is an argument, as are SHA-256, the text of a float and the identifiers
  and instants of new rows and evs. A grievance escalation is recorded as the
  ledger entry it is started for. The errors of Redis and the database are left
  out, save the refusal of a row.
\<close>

section \<open>Rows\<close>

definition clause_hash_of :: "string \<Rightarrow> string" where
  "clause_hash_of rid = hd (split_char CHR '':'' rid)"

definition outcome_result :: "PolicyOutcome \<Rightarrow> EvaluationOutcome" where
  "outcome_result x = (case po_allow x of None \<Rightarrow> HITL_REVIEW | Some b \<Rightarrow> if b then PASS else FAIL)"

definition decision_result :: "Decision \<Rightarrow> EvaluationOutcome" where
  "decision_result d = (if d = ALLOW then PASS else if d = DENY then FAIL else HITL_REVIEW)"

definition explanation_texts :: "(string \<Rightarrow> pyfloat option) \<Rightarrow> (pyfloat \<Rightarrow> string) \<Rightarrow> PolicyOutcome \<Rightarrow> string list" where
  "explanation_texts flt fmt_g x =
     (if po_violations x = [] then [] else map headline (explain_policy_outcome_deterministic flt fmt_g x ''sebi''))"

definition compute_transaction_digest :: "(string \<Rightarrow> string) \<Rightarrow> (rat \<Rightarrow> string) \<Rightarrow> TransactionPayload \<Rightarrow> string result" where
  "compute_transaction_digest H fr tx =
     bind_res (json_dumps_canonical fr (PDict [
        (''broker_id'', PStr (str_or (broker_id tx) [])),
        (''entity_type'', PStr (tx_entity_type tx)),
        (''facts'', PDict (tx_facts tx)),
        (''transaction_id'', PStr (transaction_id tx))])) (\<lambda>payload. Inr (H payload))"

definition compute_evidence_digest :: "(string \<Rightarrow> string) \<Rightarrow> (rat \<Rightarrow> string) \<Rightarrow> (string \<times> pyval) list \<Rightarrow> string result" where
  "compute_evidence_digest H fr evidence =
     bind_res (json_dumps_canonical fr (PDict evidence)) (\<lambda>payload. Inr (H payload))"

text \<open>The arguments that stand for SHA-256, \<open>repr(float)\<close>, \<open>float()\<close>, \<open>:g\<close> and the texts of reasons.\<close>

record texts =
  sha :: "string \<Rightarrow> string"
  float_repr :: "rat \<Rightarrow> string"
  to_float :: "string \<Rightarrow> pyfloat option"
  fmt_general :: "pyfloat \<Rightarrow> string"
  reason_text :: "Reason \<Rightarrow> string"

definition row_version :: "PolicyOutcome \<Rightarrow> int" where
  "row_version x = (case po_rule_version x of Some v \<Rightarrow> if v \<noteq> 0 then v else 1 | None \<Rightarrow> 1)"

definition row_review_id :: "EvaluationResult \<Rightarrow> PolicyOutcome \<Rightarrow> string option" where
  "row_review_id res x = (if outcome_result x = HITL_REVIEW then hitl_case_id res else None)"

definition evidence_payload :: "TransactionPayload \<Rightarrow> EvaluationResult \<Rightarrow> string \<Rightarrow> PolicyOutcome \<Rightarrow> (string \<times> pyval) list" where
  "evidence_payload tx res tx_digest x = [
     (''transaction_id'', PStr (transaction_id tx)),
     (''transaction_input_digest'', PStr tx_digest),
     (''rule_id'', PStr (po_rule_id x)),
     (''rule_version'', PInt (row_version x)),
     (''policy_sha256'', opt_str_val (po_policy_sha256 x)),
     (''package'', PStr (po_package x)),
     (''circular_id'', PStr (str_or (po_circular_number x) ''unknown'')),
     (''section_reference'', PStr (str_or (po_clause_number x) ''unscoped'')),
     (''clause_sha256'', PStr (str_or (po_clause_sha256 x) (clause_hash_of (po_rule_id x)))),
     (''source_document_sha256'', opt_str_val (po_source_document_sha256 x)),
     (''extracted_text_sha256'', opt_str_val (po_extracted_text_sha256 x)),
     (''canonical_facts_digest'', opt_str_val (po_canonical_facts_digest x)),
     (''evaluation_result'', PStr (outcome_value (outcome_result x))),
     (''violations'', PList (map PStr (po_violations x))),
     (''decision'', PStr (decision_value (er_decision res))),
     (''hitl_case_id'', opt_str_val (row_review_id res x))]"

definition outcome_event ::
  "texts \<Rightarrow> TransactionPayload \<Rightarrow> EvaluationResult \<Rightarrow> string \<Rightarrow> PolicyOutcome \<Rightarrow> ComplianceEvaluationEvent result" where
  "outcome_event env tx res tx_digest x =
     (let clause_hash = str_or (po_clause_sha256 x) (clause_hash_of (po_rule_id x)) in
      bind_res (compute_evidence_digest (sha env) (float_repr env) (evidence_payload tx res tx_digest x)) (\<lambda>ev_digest.
      let details = [
        (''violations'', PList (map PStr (po_violations x))),
        (''package'', PStr (po_package x)),
        (''transaction_decision'', PStr (decision_value (er_decision res))),
        (''explanation'', PList (map PStr (explanation_texts (to_float env) (fmt_general env) x))),
        (''entity_type'', PStr (tx_entity_type tx)),
        (''facts'', PDict (tx_facts tx)),
        (''transaction_input_digest'', PStr tx_digest),
        (''rule_version'', PInt (row_version x)),
        (''policy_sha256'', opt_str_val (po_policy_sha256 x)),
        (''canonical_facts_digest'', opt_str_val (po_canonical_facts_digest x)),
        (''source_document_sha256'', opt_str_val (po_source_document_sha256 x)),
        (''extracted_text_sha256'', opt_str_val (po_extracted_text_sha256 x)),
        (''clause_sha256'', PStr clause_hash),
        (''evidence_digest'', PStr ev_digest)]
      in hitl_review_id_consistency
        \<lparr>lg_broker_id = str_or (broker_id tx) ''unknown'', lg_transaction_id = transaction_id tx,
         lg_evaluated_at = evaluated_at res, lg_circular_id = str_or (po_circular_number x) ''unknown'',
         lg_clause_hash = clause_hash, lg_section_reference = str_or (po_clause_number x) ''unscoped'',
         lg_rule_id = po_rule_id x, lg_evaluation_result = outcome_result x, lg_hitl_review_id = row_review_id res x,
         lg_details = details\<rparr>))"

definition synthetic_rule_id :: "Decision \<Rightarrow> string" where
  "synthetic_rule_id d =
     (case d of FLAGGED \<Rightarrow> ''GLOBAL/KILL-SWITCH'' | DENY \<Rightarrow> ''GLOBAL/DENY'' | ALLOW \<Rightarrow> ''GLOBAL/NO-MATCHING-POLICY'')"

definition transaction_event ::
  "texts \<Rightarrow> TransactionPayload \<Rightarrow> EvaluationResult \<Rightarrow> string \<Rightarrow> ComplianceEvaluationEvent result" where
  "transaction_event env tx res tx_digest =
     (let rid = synthetic_rule_id (er_decision res);
          why = PList (map (\<lambda>r. PStr (reason_text env r)) (reasons res)) in
      bind_res (compute_evidence_digest (sha env) (float_repr env) [
        (''transaction_id'', PStr (transaction_id tx)),
        (''transaction_input_digest'', PStr tx_digest),
        (''rule_id'', PStr rid),
        (''evaluation_result'', PStr (outcome_value (decision_result (er_decision res)))),
        (''violations'', why),
        (''decision'', PStr (decision_value (er_decision res))),
        (''hitl_case_id'', opt_str_val (hitl_case_id res))]) (\<lambda>ev_digest.
      hitl_review_id_consistency
        \<lparr>lg_broker_id = str_or (broker_id tx) ''unknown'', lg_transaction_id = transaction_id tx,
         lg_evaluated_at = evaluated_at res, lg_circular_id = ''unknown'', lg_clause_hash = clause_hash_of rid,
         lg_section_reference = ''unscoped'', lg_rule_id = rid, lg_evaluation_result = decision_result (er_decision res),
         lg_hitl_review_id = (if er_decision res = FLAGGED then hitl_case_id res else None),
         lg_details = [(''decision'', PStr (decision_value (er_decision res))), (''reasons'', why),
           (''transaction_input_digest'', PStr tx_digest), (''evidence_digest'', PStr ev_digest)]\<rparr>))"

definition build_ledger_events ::
  "texts \<Rightarrow> TransactionPayload \<Rightarrow> EvaluationResult \<Rightarrow> ComplianceEvaluationEvent list result" where
  "build_ledger_events env tx res =
     bind_res (compute_transaction_digest (sha env) (float_repr env) tx) (\<lambda>tx_digest.
     bind_res (map_res (outcome_event env tx res tx_digest) (matched_policies res)) (\<lambda>evs.
       if evs = [] then bind_res (transaction_event env tx res tx_digest) (\<lambda>e. Inr [e]) else Inr evs))"

section \<open>Notifications and the log\<close>

record audit_state =
  au_ledger :: ledger
  au_incidents :: incident_state
  au_write_failures :: nat
  au_grievances :: "(LedgerEntry \<times> TransactionPayload) list"

record log_settings =
  incident_key_prefix :: string
  grievance_escalation_enabled :: bool

definition breach_for ::
  "TransactionPayload \<Rightarrow> EvaluationResult \<Rightarrow> string \<Rightarrow> time \<Rightarrow> PolicyOutcome \<Rightarrow> BreachEvent option" where
  "breach_for tx res uuid now x =
     (case outcome_result x of
        FAIL \<Rightarrow> Some (clause_violation_event tx res x uuid now)
      | HITL_REVIEW \<Rightarrow>
          Some (ambiguous_hitl_event (Some tx)
            (''OPA returned an undefined result for rule_id='' @ po_rule_id x @ ''; routed to HITL case ''
             @ (case hitl_case_id res of None \<Rightarrow> ''None'' | Some i \<Rightarrow> i) @ ''.'')
            (hitl_case_id res) (Some (po_rule_id x)) (po_circular_number x) (po_clause_number x) uuid now)
      | PASS \<Rightarrow> None)"

definition raise_breach_events ::
  "string \<Rightarrow> TransactionPayload \<Rightarrow> EvaluationResult \<Rightarrow> (nat \<Rightarrow> string) \<Rightarrow> time \<Rightarrow> incident_state \<Rightarrow> incident_state" where
  "raise_breach_events p tx res uuids now st =
     foldl (\<lambda>st (i, x). case breach_for tx res (uuids i) now x of
              None \<Rightarrow> st | Some e \<Rightarrow> raise_breach_event p now e st)
       st (List.enumerate 0 (matched_policies res))"

definition log_event ::
  "log_settings \<Rightarrow> texts \<Rightarrow> TransactionPayload \<Rightarrow> time \<Rightarrow> int \<Rightarrow> ComplianceEvaluationEvent \<Rightarrow> audit_state \<Rightarrow> audit_state" where
  "log_event cfg env tx now rowid ev st =
     (case append_entry (sha env) (float_repr env) rowid now ev (au_ledger st) of
        (L, Inl e) \<Rightarrow> st\<lparr>au_ledger := L, au_write_failures := au_write_failures st + 1\<rparr>
      | (L, Inr entry) \<Rightarrow>
          st\<lparr>au_ledger := L,
             au_grievances := (if lg_evaluation_result ev = FAIL \<and> grievance_escalation_enabled cfg
               then au_grievances st @ [(entry, tx)] else au_grievances st)\<rparr>)"

text \<open>The instants of the ledger are microseconds and those of the incident store seconds.\<close>

definition log_evaluation ::
  "log_settings \<Rightarrow> texts \<Rightarrow> (nat \<Rightarrow> string) \<Rightarrow> (nat \<Rightarrow> int) \<Rightarrow> time \<Rightarrow> TransactionPayload \<Rightarrow> EvaluationResult \<Rightarrow> audit_state
   \<Rightarrow> audit_state \<times> unit result" where
  "log_evaluation cfg env uuids row_ids now tx res st =
     (let st = st\<lparr>au_incidents := raise_breach_events (incident_key_prefix cfg) tx res uuids (now div 1000000) (au_incidents st)\<rparr>
      in case build_ledger_events env tx res of
           Inl e \<Rightarrow> (st, raise e)
         | Inr evs \<Rightarrow>
             (foldl (\<lambda>st (i, ev). log_event cfg env tx now (row_ids i) ev st) st (List.enumerate 0 evs), Inr ()))"

section \<open>The route\<close>

text \<open>The authenticated caller, as far as the route reads it; an unhandled exception is a 500.\<close>

record caller =
  caller_is_admin :: bool
  caller_tenant_id :: "string option"

datatype 'a response = OK_200 'a | FORBIDDEN_403 | UNAVAILABLE_503 | SERVER_ERROR_500 exc

definition evaluate_route ::
  "opa_engine \<Rightarrow> Evaluator \<Rightarrow> log_settings \<Rightarrow> texts \<Rightarrow> string \<Rightarrow> (nat \<Rightarrow> string) \<Rightarrow> (nat \<Rightarrow> int) \<Rightarrow> time \<Rightarrow> caller
   \<Rightarrow> TransactionPayload \<Rightarrow> exec_state \<times> audit_state \<Rightarrow> (exec_state \<times> audit_state) \<times> EvaluationResult response" where
  "evaluate_route opa ev cfg env case_uuid uuids row_ids now who tx st =
     (if \<not> caller_is_admin who \<and> truthy_str (broker_id tx) \<and> broker_id tx \<noteq> caller_tenant_id who then (st, FORBIDDEN_403)
      else
        case evaluate_transaction opa ev case_uuid now tx (fst st) of
          (ex, Inl e) \<Rightarrow> ((ex, snd st), if e = OPAEngineError then UNAVAILABLE_503 else SERVER_ERROR_500 e)
        | (ex, Inr res) \<Rightarrow>
            (case log_evaluation cfg env uuids row_ids now tx res (snd st) of
               (au, Inl e) \<Rightarrow> ((ex, au), SERVER_ERROR_500 e)
             | (au, Inr _) \<Rightarrow> ((ex, au), OK_200 res)))"

section \<open>When the rows can be built\<close>

lemma json_able_opt [simp]: "json_able (opt_str_val s)"
  by (simp add: opt_str_val_def split: option.split)

lemma json_able_strs [simp]: "list_all json_able (map PStr xs)" "list_all json_able (map (\<lambda>r. PStr (f r)) ys)"
  by (simp_all add: list_all_iff)

lemma evidence_ok: "list_all (\<lambda>(k, v). json_able v) d \<Longrightarrow> \<exists>g. compute_evidence_digest H fr d = Inr g"
  using dumps_ok [of "PDict d" fr] by (auto simp: compute_evidence_digest_def)

text \<open>The fields of an event an auditor goes by.\<close>

definition row_for :: "TransactionPayload \<Rightarrow> string \<Rightarrow> EvaluationOutcome \<Rightarrow> 'a ComplianceEvaluationEvent_scheme \<Rightarrow> bool" where
  "row_for tx rid out r \<longleftrightarrow> lg_transaction_id r = transaction_id tx \<and> lg_rule_id r = rid \<and> lg_evaluation_result r = out"

lemma outcome_event_cases:
  assumes "json_able (PDict (tx_facts tx))"
  shows "if outcome_result x = HITL_REVIEW \<and> \<not> truthy_str (hitl_case_id res)
    then \<exists>e. outcome_event env tx res d x = Inl e
    else \<exists>ev. outcome_event env tx res d x = Inr ev \<and> row_for tx (po_rule_id x) (outcome_result x) ev
       \<and> json_able (payload_fields ev)"
proof -
  obtain g where "compute_evidence_digest (sha env) (float_repr env) (evidence_payload tx res d x) = Inr g"
    using evidence_ok [of "evidence_payload tx res d x"] by (auto simp: evidence_payload_def)
  then show ?thesis using assms
    by (simp add: outcome_event_def Let_def hitl_review_id_consistency_def row_review_id_def row_for_def payload_fields_def
        split: option.split)
qed

lemma transaction_event_ok:
  assumes "er_decision res = FLAGGED \<Longrightarrow> truthy_str (hitl_case_id res)"
  shows "\<exists>ev. transaction_event env tx res d = Inr ev
    \<and> row_for tx (synthetic_rule_id (er_decision res)) (decision_result (er_decision res)) ev \<and> json_able (payload_fields ev)"
proof -
  obtain g where "compute_evidence_digest (sha env) (float_repr env) [
        (''transaction_id'', PStr (transaction_id tx)), (''transaction_input_digest'', PStr d),
        (''rule_id'', PStr (synthetic_rule_id (er_decision res))),
        (''evaluation_result'', PStr (outcome_value (decision_result (er_decision res)))),
        (''violations'', PList (map (\<lambda>r. PStr (reason_text env r)) (reasons res))),
        (''decision'', PStr (decision_value (er_decision res))),
        (''hitl_case_id'', opt_str_val (hitl_case_id res))] = Inr g"
    using evidence_ok by fastforce
  with assms show ?thesis
    by (cases "er_decision res")
       (auto simp: transaction_event_def Let_def hitl_review_id_consistency_def decision_result_def row_for_def payload_fields_def
        split: option.split)
qed

lemma transaction_digest_ok: "json_able (PDict (tx_facts tx)) \<Longrightarrow> \<exists>d. compute_transaction_digest H fr tx = Inr d"
  using dumps_ok [of "PDict [(''broker_id'', PStr (str_or (broker_id tx) [])), (''entity_type'', PStr (tx_entity_type tx)),
    (''facts'', PDict (tx_facts tx)), (''transaction_id'', PStr (transaction_id tx))]" fr]
  by (auto simp: compute_transaction_digest_def)

text \<open>What a decision leaves in the ledger: a row per policy, or one for the transaction.\<close>

definition expected_rows :: "EvaluationResult \<Rightarrow> (string \<times> EvaluationOutcome) list" where
  "expected_rows res =
     (if matched_policies res = [] then [(synthetic_rule_id (er_decision res), decision_result (er_decision res))]
      else map (\<lambda>x. (po_rule_id x, outcome_result x)) (matched_policies res))"

definition unrecordable :: "EvaluationResult \<Rightarrow> bool" where
  "unrecordable res \<longleftrightarrow> er_decision res \<noteq> FLAGGED \<and> (\<exists>x\<in>set (matched_policies res). po_allow x = None)"

lemma hitl_review_iff: "outcome_result x = HITL_REVIEW \<longleftrightarrow> po_allow x = None"
  by (auto simp: outcome_result_def split: option.splits)

lemma build_rows:
  assumes "evaluate_transaction opa ev uuid now tx st = (st', Inr res)" and "uuid \<noteq> []"
    and "json_able (PDict (tx_facts tx))" and "\<not> unrecordable res"
  shows "\<exists>evs. build_ledger_events env tx res = Inr evs
    \<and> list_all2 (\<lambda>p ev. row_for tx (fst p) (snd p) ev \<and> json_able (payload_fields ev)) (expected_rows res) evs"
proof -
  have hitl: "truthy_str (hitl_case_id res)" if "er_decision res = FLAGGED"
    using evaluated_result(3) [OF assms(1)] assms(2) that by simp
  obtain d where d: "compute_transaction_digest (sha env) (float_repr env) tx = Inr d"
    using transaction_digest_ok [OF assms(3)] by blast
  have "\<exists>ev. outcome_event env tx res d x = Inr ev \<and> row_for tx (po_rule_id x) (outcome_result x) ev
       \<and> json_able (payload_fields ev)" if "x \<in> set (matched_policies res)" for x
    using outcome_event_cases [OF assms(3), of x res env d] hitl assms(4) that
    by (auto simp: hitl_review_iff unrecordable_def split: if_splits)
  then obtain f where f: "\<And>x. x \<in> set (matched_policies res) \<Longrightarrow> outcome_event env tx res d x = Inr (f x)
      \<and> row_for tx (po_rule_id x) (outcome_result x) (f x) \<and> json_able (payload_fields (f x))"
    by metis
  then have evs: "map_res (outcome_event env tx res d) (matched_policies res) = Inr (map f (matched_policies res))"
    by (intro map_res_total) blast
  show ?thesis
  proof (cases "matched_policies res = []")
    case True
    with transaction_event_ok [of res env tx d] hitl d evs show ?thesis
      by (auto simp: build_ledger_events_def expected_rows_def)
  next
    case False
    with d evs f show ?thesis
      by (auto simp: build_ledger_events_def expected_rows_def list_all2_map1 list_all2_map2 list_all2_same)
  qed
qed

lemma log_event_ok:
  assumes "json_able (payload_fields ev)" "row_for tx' rid out ev"
  shows "\<exists>r. au_ledger (log_event cfg env tx now i ev st) = au_ledger st @ [r] \<and> row_for tx' rid out r"
proof -
  obtain s where s: "json_dumps_canonical (float_repr env) (payload_fields ev) = Inr s" using dumps_ok [OF assms(1)] by blast
  then show ?thesis using assms(2)
    by (simp add: log_event_def append_entry_def Let_def compute_payload_digest_def canonical_payload_def row_for_def)
qed

lemma log_fold:
  "list_all2 (\<lambda>p ev. row_for tx' (fst p) (snd p) ev \<and> json_able (payload_fields ev)) ps evs \<Longrightarrow>
   \<exists>rows. au_ledger (foldl (\<lambda>st (i, ev). log_event cfg env tx now (ids i) ev st) st (List.enumerate n evs)) = au_ledger st @ rows
     \<and> list_all2 (\<lambda>p r. row_for tx' (fst p) (snd p) r) ps rows"
proof (induction arbitrary: st n rule: list_all2_induct)
  case (Cons p ps ev evs)
  let ?st = "log_event cfg env tx now (ids n) ev st"
  obtain r where r: "au_ledger ?st = au_ledger st @ [r]" "row_for tx' (fst p) (snd p) r"
    using log_event_ok Cons.hyps(1) by blast
  obtain rows where "au_ledger (foldl (\<lambda>st (i, ev). log_event cfg env tx now (ids i) ev st) ?st (List.enumerate (Suc n) evs))
      = au_ledger ?st @ rows" "list_all2 (\<lambda>p r. row_for tx' (fst p) (snd p) r) ps rows"
    using Cons.IH by blast
  with r show ?case by (intro exI [of _ "r # rows"]) simp
qed simp

lemma log_event_reachable:
  "ledger_reachable (sha env) (float_repr env) (au_ledger st) \<Longrightarrow>
   ledger_reachable (sha env) (float_repr env) (au_ledger (log_event cfg env tx now i ev st))"
  using ledger_reachable.append [of "sha env" "float_repr env" "au_ledger st" i now ev]
  by (auto simp: log_event_def split: prod.splits sum.splits)

lemma log_fold_reachable:
  "ledger_reachable (sha env) (float_repr env) (au_ledger st) \<Longrightarrow> ledger_reachable (sha env) (float_repr env)
     (au_ledger (foldl (\<lambda>st (i, ev). log_event cfg env tx now (ids i) ev st) st xs))"
  by (induction xs arbitrary: st) (auto intro: log_event_reachable)

lemma log_event_incidents [simp]: "au_incidents (log_event cfg env tx now i ev st) = au_incidents st"
  by (simp add: log_event_def split: prod.split sum.split)

lemma log_fold_incidents [simp]:
  "au_incidents (foldl (\<lambda>st (i, ev). log_event cfg env tx now (ids i) ev st) st xs) = au_incidents st"
  by (induction xs arbitrary: st) (auto split: prod.split)

section \<open>Every evaluation is recorded, but one kind\<close>

definition may_submit :: "caller \<Rightarrow> TransactionPayload \<Rightarrow> bool" where
  "may_submit who tx \<longleftrightarrow> caller_is_admin who \<or> \<not> truthy_str (broker_id tx) \<or> broker_id tx = caller_tenant_id who"


text \<open>
  Claim C21. The kind that is not. A transaction that one policy denies and another leaves
  undecided is decided DENY without a case in the review queue; the row of the
  undecided policy needs one, its construction raises, and outside the guard
  around the writes: nothing is written to the ledger for the transaction, the
  denial included, and the caller gets an error instead of the decision.
\<close>

theorem mixed_denial_unrecorded:
  assumes "evaluate_transaction opa ev uuid now tx ex = (ex', Inr res)" and "may_submit who tx"
    and "er_decision res = DENY" and "x \<in> set (matched_policies res)" and "po_allow x = None"
  shows "\<exists>au e. evaluate_route opa ev cfg env uuid uuids ids now who tx (ex, au0) = ((ex', au), SERVER_ERROR_500 e)
    \<and> au_ledger au = au_ledger au0"
proof -
  have hitl: "hitl_case_id res = None" using evaluated_result(3) [OF assms(1)] assms(3) by simp
  have out: "outcome_result x = HITL_REVIEW" using assms(5) by (simp add: hitl_review_iff)
  have "outcome_event env tx res d x \<noteq> Inr evt" for d evt
    using hitl out by (auto simp: outcome_event_def Let_def bind_res_eq_Inr hitl_review_id_consistency_def row_review_id_def)
  then have "build_ledger_events env tx res \<noteq> Inr evs" for evs
    using assms(4) by (auto simp: build_ledger_events_def bind_res_eq_Inr map_res_Inr_iff dest: list_all2_ex1)
  then obtain e where "build_ledger_events env tx res = Inl e" by (cases "build_ledger_events env tx res") auto
  with assms(1,2) show ?thesis
    by (auto simp: evaluate_route_def may_submit_def log_evaluation_def Let_def)
qed

section \<open>Allowed, and recorded as a failure\<close>

lemma raise_fold_dashboard:
  "st_dashboard (foldl (\<lambda>st (i, x). case f i x of None \<Rightarrow> st | Some e \<Rightarrow> raise_breach_event p now e st) st xs)
   = st_dashboard st @ List.map_filter (\<lambda>(i, x). f i x) xs"
  by (induction xs arbitrary: st) (auto simp: map_filter_simps raise_breach_event_def Let_def split: option.split)

lemma breach_on_dashboard:
  assumes "x \<in> set (matched_policies res)" "outcome_result x = FAIL"
  shows "\<exists>uuid. clause_violation_event tx res x uuid now \<in> set (st_dashboard (raise_breach_events p tx res uuids now st))"
proof -
  obtain i where "i < length (matched_policies res)" "matched_policies res ! i = x" using assms(1) by (auto simp: in_set_conv_nth)
  then have "(i, x) \<in> set (List.enumerate 0 (matched_policies res))" by (auto simp: in_set_enumerate_eq)
  moreover have "breach_for tx res (uuids i) now x = Some (clause_violation_event tx res x (uuids i) now)"
    using assms(2) by (simp add: breach_for_def)
  ultimately show ?thesis unfolding raise_breach_events_def raise_fold_dashboard by (force simp: set_map_filter)
qed


section \<open>A run\<close>

definition demo_texts :: texts where
  "demo_texts = \<lparr>sha = toy_hash, float_repr = ratio_repr, to_float = demo_float, fmt_general = (\<lambda>v. ''x''), reason_text = (\<lambda>r. ''why'')\<rparr>"

definition demo_settings :: log_settings where
  "demo_settings = \<lparr>incident_key_prefix = ''inc'', grievance_escalation_enabled = False\<rparr>"

definition demo_audit :: audit_state where
  "demo_audit = \<lparr>au_ledger = [], au_incidents = no_incidents, au_write_failures = 0, au_grievances = []\<rparr>"

definition demo_caller :: caller where
  "demo_caller = \<lparr>caller_is_admin = False, caller_tenant_id = Some ''b1''\<rparr>"

definition plain_evaluator :: Evaluator where
  "plain_evaluator = \<lparr>ev_kill_switch = None, ev_cache_ttl = None, ev_registry_key = ''reg'', ev_hitl_prefix = ''hitl''\<rparr>"

definition two_policies :: exec_state where
  "two_policies = \<lparr>ex_switch = redis_empty,
     ex_registry = register ''reg'' ((demo_compiled ''p2'')\<lparr>cr_rule_id := ''r2''\<rparr>) [''Stockbroker'']
       (register ''reg'' (demo_compiled ''p1'') [''Stockbroker''] redis_empty),
     ex_cache = empty_cache, ex_hitl = redis_empty\<rparr>"

definition answer :: "bool \<Rightarrow> string list \<Rightarrow> opa_decision" where
  "answer b vs = \<lparr>od_allow = Some b, od_violations = Some vs, od_circular_number = None, od_clause_number = None,
     od_rule_version = None, od_policy_sha256 = None, od_canonical_facts_digest = None, od_source_document_sha256 = None,
     od_extracted_text_sha256 = None, od_source_sha256 = None\<rparr>"

definition two_answers :: "opa_decision option \<Rightarrow> opa_decision option \<Rightarrow> opa_engine" where
  "two_answers a b pkg doc = Inr (if pkg = ''p1'' then a else b)"

lemma two_policies_applicable:
  "snd (applicable_policies plain_evaluator now ''Stockbroker'' two_policies)
   = [registry_entry (demo_compiled ''p1''), registry_entry ((demo_compiled ''p2'')\<lparr>cr_rule_id := ''r2''\<rparr>)]"
  by (simp add: applicable_policies_def plain_evaluator_def two_policies_def policies_for_def register_def register_one_def
      or_wildcard_def field_entries_def redis_simps registry_entry_def demo_compiled_def)
     (simp add: redis_empty_def redis_defs)

lemma two_policies_evaluated:
  "\<exists>st' res. evaluate_transaction (two_answers a b) plain_evaluator ''c1'' 5 demo_tx two_policies = (st', Inr res)
    \<and> er_decision res = fst (reduce (matched_policies res))
    \<and> map po_allow (matched_policies res) = [map_option (\<lambda>d. od_allow d = Some True) a, map_option (\<lambda>d. od_allow d = Some True) b]
    \<and> map po_violations (matched_policies res) = map (\<lambda>d. case d of None \<Rightarrow> [] | Some d \<Rightarrow> (case od_violations d of None \<Rightarrow> [] | Some vs \<Rightarrow> vs)) [a, b]"
proof -
  have nh: "\<not> halted plain_evaluator demo_tx two_policies" by (simp add: halted_def plain_evaluator_def)
  have t: "tx_entity_type demo_tx = ''Stockbroker''" by (simp add: demo_tx_def)
  obtain os where os: "map_res (policy_outcome (two_answers a b) (input_document (tx_entity_type demo_tx) (tx_facts demo_tx)))
      (snd (applicable_policies plain_evaluator 5 (tx_entity_type demo_tx) two_policies)) = Inr os"
    "map po_allow os = [map_option (\<lambda>d. od_allow d = Some True) a, map_option (\<lambda>d. od_allow d = Some True) b]"
    "map po_violations os = map (\<lambda>d. case d of None \<Rightarrow> [] | Some d \<Rightarrow> (case od_violations d of None \<Rightarrow> [] | Some vs \<Rightarrow> vs)) [a, b]"
    unfolding t two_policies_applicable
    by (cases a; cases b) (auto simp: policy_outcome_def two_answers_def registry_entry_def demo_compiled_def undefined_outcome_def defined_outcome_def)
  have ne: "snd (applicable_policies plain_evaluator 5 (tx_entity_type demo_tx) two_policies) \<noteq> []"
    unfolding t two_policies_applicable by simp
  from evaluate_cases [OF nh os(1) ne, of "''c1''"] os(2,3) show ?thesis by (simp add: Let_def)
qed

lemmas demo_run_defs = demo_settings_def demo_texts_def demo_audit_def demo_caller_def demo_tx_def may_submit_def


theorem mixed_denial_unrecorded_witness:
  "\<exists>ex' au e. evaluate_route (two_answers (Some (answer False [''v''])) None) plain_evaluator demo_settings demo_texts
      ''c1'' (\<lambda>i. ''u'') int 5 demo_caller demo_tx (two_policies, demo_audit) = ((ex', au), SERVER_ERROR_500 e)
    \<and> au_ledger au = []"
proof -
  obtain st' res where res: "evaluate_transaction (two_answers (Some (answer False [''v''])) None) plain_evaluator ''c1'' 5 demo_tx
      two_policies = (st', Inr res)" "er_decision res = fst (reduce (matched_policies res))"
      "map po_allow (matched_policies res) = [Some False, None]" "map po_violations (matched_policies res) = [[''v''], []]"
    using two_policies_evaluated [of "Some (answer False [''v''])" None] by (auto simp: answer_def)
  then obtain y x where xy: "matched_policies res = [y, x]" "po_allow x = None" "po_violations y = [''v'']"
    by (auto simp: Cons_eq_map_conv)
  then have "er_decision res = DENY" using res(2) by (simp add: reduce_cases(1))
  from mixed_denial_unrecorded [OF res(1) _ this, of demo_caller x demo_settings demo_texts "\<lambda>i. ''u''" int demo_audit] xy
  show ?thesis by (auto simp: demo_caller_def demo_tx_def may_submit_def demo_audit_def)
qed


end
