(* ===== verification/Dead_Letter_Queue.thy ===== *)
theory Dead_Letter_Queue
  imports Redis_Store Py_Value
begin

text \<open>
  \<open>app/resilience/dead_letter_queue.py\<close> and its models: failed work parked in
  Redis, one document per entry plus sorted sets that index the entries by
  category and by status. The clock and the entry id (a \<open>uuid4\<close>) are arguments;
  an exception is given by its type name, message and traceback text. Scores
  are the instants themselves.
\<close>

section \<open>Data\<close>

datatype FailureCategory =
    PDF_PARSING | LLM_EXTRACTION | MALFORMED_AST | VECTOR_INGESTION | RSS_POLLING
  | POLICY_SELF_HEAL_EXHAUSTED | OTHER

fun category_value :: "FailureCategory \<Rightarrow> string" where
  "category_value PDF_PARSING = ''pdf_parsing''"
| "category_value LLM_EXTRACTION = ''llm_extraction''"
| "category_value MALFORMED_AST = ''malformed_ast''"
| "category_value VECTOR_INGESTION = ''vector_ingestion''"
| "category_value RSS_POLLING = ''rss_polling''"
| "category_value POLICY_SELF_HEAL_EXHAUSTED = ''policy_self_heal_exhausted''"
| "category_value OTHER = ''other''"

definition all_categories :: "FailureCategory list" where
  "all_categories = [PDF_PARSING, LLM_EXTRACTION, MALFORMED_AST, VECTOR_INGESTION, RSS_POLLING,
     POLICY_SELF_HEAL_EXHAUSTED, OTHER]"

datatype DLQStatus = PENDING | REQUEUED | RESOLVED | DISCARDED

fun status_value :: "DLQStatus \<Rightarrow> string" where
  "status_value PENDING = ''pending''"
| "status_value REQUEUED = ''requeued''"
| "status_value RESOLVED = ''resolved''"
| "status_value DISCARDED = ''discarded''"

definition all_statuses :: "DLQStatus list" where
  "all_statuses = [PENDING, REQUEUED, RESOLVED, DISCARDED]"

record DLQEntry =
  entry_id :: string
  category :: FailureCategory
  task_name :: string
  original_task_id :: "string option"
  payload :: pyval
  error_type :: string
  error_message :: string
  traceback :: "string option"
  attempt_count :: int
  first_failed_at :: time
  last_failed_at :: time
  status :: DLQStatus
  requeued_at :: "time option"
  requeued_by :: "string option"
  requeued_task_id :: "string option"
  resolution_notes :: "string option"
  resolved_by :: "string option"
  resolved_at :: "time option"

record DLQStats =
  total :: nat
  by_category :: "(string \<times> nat) list"
  by_status :: "(string \<times> nat) list"

type_synonym dlq = "DLQEntry redis"

section \<open>Keys\<close>

definition entry_key :: "string \<Rightarrow> string \<Rightarrow> string" where
  "entry_key prefix i = prefix @ '':entry:'' @ i"

definition category_key :: "string \<Rightarrow> FailureCategory \<Rightarrow> string" where
  "category_key prefix c = prefix @ '':category:'' @ category_value c"

definition status_key :: "string \<Rightarrow> DLQStatus \<Rightarrow> string" where
  "status_key prefix s = prefix @ '':status:'' @ status_value s"

definition all_key :: "string \<Rightarrow> string" where
  "all_key prefix = prefix @ '':all''"

section \<open>Operations\<close>

definition persist_new :: "string \<Rightarrow> DLQEntry \<Rightarrow> dlq \<Rightarrow> dlq" where
  "persist_new p e db =
     (let score = last_failed_at e in
      r_zadd (status_key p (status e)) score (entry_id e)
        (r_zadd (category_key p (category e)) score (entry_id e)
          (r_zadd (all_key p) score (entry_id e)
            (r_put (entry_key p (entry_id e)) e db))))"

definition send ::
  "string \<Rightarrow> FailureCategory \<Rightarrow> string \<Rightarrow> pyval \<Rightarrow> string \<times> string \<times> string \<Rightarrow> string option \<Rightarrow> int
   \<Rightarrow> string \<Rightarrow> time \<Rightarrow> dlq \<Rightarrow> dlq \<times> DLQEntry" where
  "send p cat task pl ex original attempts uuid now db =
     (let e = \<lparr>entry_id = uuid, category = cat, task_name = task, original_task_id = original,
            payload = pl, error_type = fst ex, error_message = fst (snd ex),
            traceback = Some (snd (snd ex)), attempt_count = attempts, first_failed_at = now,
            last_failed_at = now, status = PENDING, requeued_at = None, requeued_by = None,
            requeued_task_id = None, resolution_notes = None, resolved_by = None, resolved_at = None\<rparr>
      in (persist_new p e db, e))"

definition dlq_get :: "string \<Rightarrow> string \<Rightarrow> dlq \<Rightarrow> DLQEntry result" where
  "dlq_get p i db =
     (case r_get db (entry_key p i) of
        None \<Rightarrow> raise (DLQEntryNotFoundError i)
      | Some e \<Rightarrow> Inr e)"

fun list_loop ::
  "string \<Rightarrow> FailureCategory option \<Rightarrow> DLQStatus option \<Rightarrow> nat \<Rightarrow> dlq \<Rightarrow> string list \<Rightarrow> DLQEntry list \<Rightarrow> DLQEntry list" where
  "list_loop p cat st stop db [] acc = acc"
| "list_loop p cat st stop db (i # ids) acc =
     (case dlq_get p i db of
        Inl _ \<Rightarrow> list_loop p cat st stop db ids acc
      | Inr e \<Rightarrow>
          if cat \<noteq> None \<and> st \<noteq> None \<and> Some (status e) \<noteq> st then list_loop p cat st stop db ids acc
          else if stop \<le> length (acc @ [e]) then acc @ [e]
          else list_loop p cat st stop db ids (acc @ [e]))"

definition index_key :: "string \<Rightarrow> FailureCategory option \<Rightarrow> DLQStatus option \<Rightarrow> string" where
  "index_key p cat st =
     (case cat of
        Some c \<Rightarrow> category_key p c
      | None \<Rightarrow> (case st of Some s \<Rightarrow> status_key p s | None \<Rightarrow> all_key p))"

definition dlq_list ::
  "string \<Rightarrow> FailureCategory option \<Rightarrow> DLQStatus option \<Rightarrow> nat \<Rightarrow> nat \<Rightarrow> dlq \<Rightarrow> DLQEntry list" where
  "dlq_list p cat st limit offset db =
     (let ids = r_zrevrange_all db (index_key p cat st);
          entries = list_loop p cat st (offset + limit) db ids []
      in take limit (drop offset entries))"

definition dlq_count :: "string \<Rightarrow> FailureCategory option \<Rightarrow> DLQStatus option \<Rightarrow> dlq \<Rightarrow> nat" where
  "dlq_count p cat st db =
     (case cat of
        Some c \<Rightarrow> r_zcard db (category_key p c)
      | None \<Rightarrow> (case st of Some s \<Rightarrow> r_zcard db (status_key p s) | None \<Rightarrow> r_zcard db (all_key p)))"

definition stats :: "string \<Rightarrow> dlq \<Rightarrow> DLQStats" where
  "stats p db =
     \<lparr>total = dlq_count p None None db,
      by_category = map (\<lambda>c. (category_value c, dlq_count p (Some c) None db)) all_categories,
      by_status = map (\<lambda>s. (status_value s, dlq_count p None (Some s) db)) all_statuses\<rparr>"

definition move_status :: "string \<Rightarrow> DLQStatus \<Rightarrow> DLQEntry \<Rightarrow> dlq \<Rightarrow> dlq" where
  "move_status p old e db =
     r_zadd (status_key p (status e)) (last_failed_at e) (entry_id e)
       (r_zrem (status_key p old) (entry_id e)
         (r_put (entry_key p (entry_id e)) e db))"

definition update_payload :: "string \<Rightarrow> string \<Rightarrow> pyval \<Rightarrow> dlq \<Rightarrow> dlq \<times> DLQEntry result" where
  "update_payload p i pl db =
     (case dlq_get p i db of
        Inl ex \<Rightarrow> (db, Inl ex)
      | Inr e \<Rightarrow>
          if status e \<notin> set [PENDING, REQUEUED] then (db, raise (DLQInvalidTransitionError i))
          else let e' = e\<lparr>payload := pl\<rparr> in (r_put (entry_key p i) e' db, Inr e'))"

definition mark_requeued :: "string \<Rightarrow> string \<Rightarrow> string \<Rightarrow> string \<Rightarrow> time \<Rightarrow> dlq \<Rightarrow> dlq \<times> DLQEntry result" where
  "mark_requeued p i actor task_id now db =
     (case dlq_get p i db of
        Inl ex \<Rightarrow> (db, Inl ex)
      | Inr e \<Rightarrow>
          if status e \<notin> set [PENDING, REQUEUED] then (db, raise (DLQInvalidTransitionError i))
          else
            let e' = e\<lparr>status := REQUEUED, requeued_at := Some now, requeued_by := Some actor,
                        requeued_task_id := Some task_id\<rparr>
            in (move_status p (status e) e' db, Inr e'))"

definition mark_resolved :: "string \<Rightarrow> string \<Rightarrow> string \<Rightarrow> string option \<Rightarrow> time \<Rightarrow> dlq \<Rightarrow> dlq \<times> DLQEntry result" where
  "mark_resolved p i actor notes now db =
     (case dlq_get p i db of
        Inl ex \<Rightarrow> (db, Inl ex)
      | Inr e \<Rightarrow>
          let e' = e\<lparr>status := RESOLVED, resolved_by := Some actor, resolution_notes := notes,
                      resolved_at := Some now\<rparr>
          in (move_status p (status e) e' db, Inr e'))"

definition discard :: "string \<Rightarrow> string \<Rightarrow> string \<Rightarrow> string option \<Rightarrow> time \<Rightarrow> dlq \<Rightarrow> dlq \<times> DLQEntry result" where
  "discard p i actor notes now db =
     (case dlq_get p i db of
        Inl ex \<Rightarrow> (db, Inl ex)
      | Inr e \<Rightarrow>
          if status e \<in> set [RESOLVED, DISCARDED] then (db, raise (DLQInvalidTransitionError i))
          else
            let e' = e\<lparr>status := DISCARDED, resolved_by := Some actor, resolution_notes := notes,
                        resolved_at := Some now\<rparr>
            in (move_status p (status e) e' db, Inr e'))"

section \<open>The keys do not meet\<close>

lemma entry_key_inject [simp]: "entry_key p i = entry_key p j \<longleftrightarrow> i = j"
  by (simp add: entry_key_def)

lemma category_value_inject [simp]: "category_value c = category_value d \<longleftrightarrow> c = d"
  by (cases c; cases d) simp_all

lemma status_value_inject [simp]: "status_value s = status_value t \<longleftrightarrow> s = t"
  by (cases s; cases t) simp_all

lemma index_keys [simp]:
  "category_key p c = category_key p d \<longleftrightarrow> c = d" "status_key p s = status_key p t \<longleftrightarrow> s = t"
  "category_key p c \<noteq> status_key p s" "status_key p s \<noteq> category_key p c"
  "all_key p \<noteq> status_key p s" "status_key p s \<noteq> all_key p"
  "all_key p \<noteq> category_key p c" "category_key p c \<noteq> all_key p"
  by (simp_all add: category_key_def status_key_def all_key_def)

section \<open>The invariant of the indexes\<close>

text \<open>
  Every index is the sorted list of exactly the entries it is about, each once
  and scored with its last failure.
\<close>

definition indexed :: "string \<Rightarrow> (DLQEntry \<Rightarrow> bool) \<Rightarrow> dlq \<Rightarrow> (int \<times> string) set" where
  "indexed p about db =
     {q. \<exists>e. r_get db (entry_key p (snd q)) = Some e \<and> about e \<and> fst q = last_failed_at e}"

definition index_exact :: "string \<Rightarrow> (DLQEntry \<Rightarrow> bool) \<Rightarrow> string \<Rightarrow> dlq \<Rightarrow> bool" where
  "index_exact p about k db \<longleftrightarrow>
     set (r_zset db k) = indexed p about db
     \<and> distinct (map snd (r_zset db k)) \<and> sorted (map fst (r_zset db k))"

definition dlq_inv :: "string \<Rightarrow> dlq \<Rightarrow> bool" where
  "dlq_inv p db \<longleftrightarrow>
     (\<forall>i e. r_get db (entry_key p i) = Some e \<longrightarrow> entry_id e = i)
     \<and> index_exact p (\<lambda>e. True) (all_key p) db
     \<and> (\<forall>c. index_exact p (\<lambda>e. category e = c) (category_key p c) db)
     \<and> (\<forall>s. index_exact p (\<lambda>e. status e = s) (status_key p s) db)"

text \<open>One document changes: the index is rebuilt at that id, or left alone.\<close>

definition doc_update :: "string \<Rightarrow> string \<Rightarrow> DLQEntry \<Rightarrow> dlq \<Rightarrow> dlq \<Rightarrow> bool" where
  "doc_update p i e db db' \<longleftrightarrow>
     (\<forall>j. r_get db' (entry_key p j) = (if j = i then Some e else r_get db (entry_key p j)))"

lemma indexed_update:
  "doc_update p i e db db' \<Longrightarrow>
   indexed p about db' = {q \<in> indexed p about db. snd q \<noteq> i} \<union> (if about e then {(last_failed_at e, i)} else {})"
  by (auto simp: indexed_def doc_update_def)

lemma set_z_remove: "set (z_remove i z) = {q \<in> set z. snd q \<noteq> i}"
  by (auto simp: z_remove_def)

lemma index_exact_insert:
  assumes "index_exact p about k db" "doc_update p i e db db'" "about e"
    "r_zset db' k = z_insert (last_failed_at e, i) (z_remove i (r_zset db k))"
  shows "index_exact p about k db'"
proof -
  have "i \<notin> z_members (z_remove i (r_zset db k))" by simp
  with assms(1,3,4) show ?thesis
    unfolding index_exact_def indexed_update [OF assms(2)]
    by (simp add: z_distinct_insert z_sorted_insert z_sorted_remove set_z_remove)
qed

lemma index_exact_remove:
  assumes "index_exact p about k db" "doc_update p i e db db'" "\<not> about e"
    "r_zset db' k = z_remove i (r_zset db k)"
  shows "index_exact p about k db'"
  using assms(1,3,4) unfolding index_exact_def indexed_update [OF assms(2)]
  by (simp add: z_sorted_remove set_z_remove)

lemma index_exact_keep:
  assumes "index_exact p about k db" "doc_update p i e db db'" "r_zset db' k = r_zset db k"
    and old: "case r_get db (entry_key p i) of
        None \<Rightarrow> \<not> about e
      | Some e0 \<Rightarrow> about e0 = about e \<and> last_failed_at e0 = last_failed_at e"
  shows "index_exact p about k db'"
proof -
  have "indexed p about db' = indexed p about db"
    unfolding indexed_update [OF assms(2)] using old by (auto simp: indexed_def split: option.splits)
  with assms(1,3) show ?thesis by (simp add: index_exact_def)
qed

lemma dlq_inv_ids: "dlq_inv p db \<Longrightarrow> r_get db (entry_key p i) = Some e \<Longrightarrow> entry_id e = i"
  by (simp add: dlq_inv_def)

lemma dlq_inv_persist_new:
  assumes inv: "dlq_inv p db" and fresh: "r_get db (entry_key p (entry_id e)) = None"
  shows "dlq_inv p (persist_new p e db)"
proof -
  let ?db = "persist_new p e db" and ?i = "entry_id e"
  have doc: "doc_update p ?i e db ?db"
    by (simp add: doc_update_def persist_new_def Let_def redis_simps)
  have z: "r_zset ?db k = (if k = all_key p \<or> k = category_key p (category e) \<or> k = status_key p (status e)
      then z_insert (last_failed_at e, ?i) (z_remove ?i (r_zset db k)) else r_zset db k)" for k
    by (simp add: persist_new_def Let_def redis_simps)
  have "index_exact p (\<lambda>e. True) (all_key p) ?db"
    using inv by (intro index_exact_insert [OF _ doc]) (simp_all add: dlq_inv_def z)
  moreover have "index_exact p (\<lambda>e. category e = c) (category_key p c) ?db" for c
  proof (cases "c = category e")
    case True
    then show ?thesis using inv by (intro index_exact_insert [OF _ doc]) (simp_all add: dlq_inv_def z)
  next
    case False
    then show ?thesis using inv fresh by (intro index_exact_keep [OF _ doc]) (simp_all add: dlq_inv_def z)
  qed
  moreover have "index_exact p (\<lambda>e. status e = s) (status_key p s) ?db" for s
  proof (cases "s = status e")
    case True
    then show ?thesis using inv by (intro index_exact_insert [OF _ doc]) (simp_all add: dlq_inv_def z)
  next
    case False
    then show ?thesis using inv fresh by (intro index_exact_keep [OF _ doc]) (simp_all add: dlq_inv_def z)
  qed
  ultimately show ?thesis
    using inv doc by (auto simp: dlq_inv_def doc_update_def)
qed

lemma dlq_inv_move_status:
  assumes inv: "dlq_inv p db" and old: "r_get db (entry_key p (entry_id e)) = Some e0"
    and same: "category e = category e0" "last_failed_at e = last_failed_at e0"
  shows "dlq_inv p (move_status p (status e0) e db)"
proof -
  let ?db = "move_status p (status e0) e db" and ?i = "entry_id e"
  have doc: "doc_update p ?i e db ?db"
    by (simp add: doc_update_def move_status_def redis_simps)
  have z: "r_zset ?db k = (if k = status_key p (status e)
      then z_insert (last_failed_at e, ?i) (z_remove ?i (r_zset db k))
      else if k = status_key p (status e0) then z_remove ?i (r_zset db k) else r_zset db k)" for k
    by (auto simp: move_status_def redis_simps z_remove_def)
  have "index_exact p (\<lambda>e. True) (all_key p) ?db"
    using inv old same by (intro index_exact_keep [OF _ doc]) (simp_all add: dlq_inv_def z)
  moreover have "index_exact p (\<lambda>e. category e = c) (category_key p c) ?db" for c
    using inv old same by (intro index_exact_keep [OF _ doc]) (simp_all add: dlq_inv_def z)
  moreover have "index_exact p (\<lambda>e. status e = s) (status_key p s) ?db" for s
  proof -
    have exact: "index_exact p (\<lambda>e. status e = s) (status_key p s) db" using inv by (simp add: dlq_inv_def)
    consider "s = status e" | "s \<noteq> status e" "s = status e0" | "s \<noteq> status e" "s \<noteq> status e0" by blast
    then show ?thesis
    proof cases
      case 1
      then show ?thesis using exact by (intro index_exact_insert [OF _ doc]) (simp_all add: z)
    next
      case 2
      then show ?thesis using exact by (intro index_exact_remove [OF _ doc]) (simp_all add: z)
    next
      case 3
      then show ?thesis using exact old same by (intro index_exact_keep [OF _ doc]) (auto simp: z)
    qed
  qed
  ultimately show ?thesis
    using inv doc by (auto simp: dlq_inv_def doc_update_def)
qed

lemma dlq_inv_put:
  assumes inv: "dlq_inv p db" and old: "r_get db (entry_key p i) = Some e0"
    and same: "entry_id e = i" "category e = category e0" "last_failed_at e = last_failed_at e0" "status e = status e0"
  shows "dlq_inv p (r_put (entry_key p i) e db)"
proof -
  let ?db = "r_put (entry_key p i) e db"
  have doc: "doc_update p i e db ?db" by (simp add: doc_update_def redis_simps)
  have z: "r_zset ?db k = r_zset db k" for k by (simp add: redis_simps)
  have keep: "index_exact p about k db \<Longrightarrow> about e0 = about e \<Longrightarrow> index_exact p about k ?db" for about k
    using old same by (intro index_exact_keep [OF _ doc z]) simp_all
  show ?thesis
    using inv old same doc keep by (simp add: dlq_inv_def doc_update_def)
qed

section \<open>Reachable queues\<close>

inductive dlq_reachable :: "string \<Rightarrow> dlq \<Rightarrow> bool" for p where
  empty: "dlq_reachable p redis_empty"
| send: "dlq_reachable p db \<Longrightarrow> r_get db (entry_key p uuid) = None \<Longrightarrow>
    dlq_reachable p (fst (send p cat task pl ex original attempts uuid now db))"
| update_payload: "dlq_reachable p db \<Longrightarrow> dlq_reachable p (fst (update_payload p i pl db))"
| mark_requeued: "dlq_reachable p db \<Longrightarrow> dlq_reachable p (fst (mark_requeued p i actor task_id now db))"
| mark_resolved: "dlq_reachable p db \<Longrightarrow> dlq_reachable p (fst (mark_resolved p i actor notes now db))"
| discard: "dlq_reachable p db \<Longrightarrow> dlq_reachable p (fst (discard p i actor notes now db))"

lemma dlq_get_Inr: "dlq_get p i db = Inr e \<longleftrightarrow> r_get db (entry_key p i) = Some e"
  by (simp add: dlq_get_def split: option.splits)

lemma dlq_inv_updates:
  assumes inv: "dlq_inv p db"
  shows "dlq_inv p (fst (update_payload p i pl db))"
    "dlq_inv p (fst (mark_requeued p i actor task_id now db))"
    "dlq_inv p (fst (mark_resolved p i actor notes now db))"
    "dlq_inv p (fst (discard p i actor notes now db))"
proof -
  have move: "dlq_inv p (move_status p (status e) e' db)"
    if "dlq_get p i db = Inr e" "entry_id e' = entry_id e" "category e' = category e" "last_failed_at e' = last_failed_at e" for e e'
    using that dlq_inv_ids [OF inv, of i e] by (intro dlq_inv_move_status [OF inv]) (simp_all add: dlq_get_Inr)
  have put: "dlq_inv p (r_put (entry_key p i) (e\<lparr>payload := pl\<rparr>) db)" if "dlq_get p i db = Inr e" for e
    using that dlq_inv_ids [OF inv, of i e] by (intro dlq_inv_put [OF inv, of i e]) (simp_all add: dlq_get_Inr)
  show "dlq_inv p (fst (update_payload p i pl db))"
    using inv put by (simp add: update_payload_def Let_def split: sum.split)
  show "dlq_inv p (fst (mark_requeued p i actor task_id now db))"
    using inv move by (simp add: mark_requeued_def Let_def split: sum.split)
  show "dlq_inv p (fst (mark_resolved p i actor notes now db))"
    using inv move by (simp add: mark_resolved_def Let_def split: sum.split)
  show "dlq_inv p (fst (discard p i actor notes now db))"
    using inv move by (simp add: discard_def Let_def split: sum.split)
qed

lemma dlq_inv_empty: "dlq_inv p redis_empty"
  by (auto simp: dlq_inv_def index_exact_def indexed_def redis_empty_def redis_defs)

lemma dlq_inv_send:
  "dlq_inv p db \<Longrightarrow> r_get db (entry_key p uuid) = None \<Longrightarrow>
   dlq_inv p (fst (send p cat task pl ex original attempts uuid now db))"
  by (simp add: send_def Let_def dlq_inv_persist_new)

lemma dlq_reachable_inv: "dlq_reachable p db \<Longrightarrow> dlq_inv p db"
  by (induction rule: dlq_reachable.induct) (simp_all add: dlq_inv_empty dlq_inv_send dlq_inv_updates)

lemma index_members:
  assumes "index_exact p about k db"
  shows "i \<in> z_members (r_zset db k) \<longleftrightarrow> (\<exists>e. r_get db (entry_key p i) = Some e \<and> about e)"
proof -
  have "z_members (r_zset db k) = snd ` indexed p about db"
    using assms by (simp add: index_exact_def z_members_def)
  also have "i \<in> \<dots> \<longleftrightarrow> (\<exists>sc. (sc, i) \<in> indexed p about db)" by force
  finally show ?thesis by (auto simp: indexed_def)
qed

lemma status_members: "dlq_inv p db \<Longrightarrow>
   i \<in> z_members (r_zset db (status_key p s)) \<longleftrightarrow> (\<exists>e. r_get db (entry_key p i) = Some e \<and> status e = s)"
  by (subst index_members) (auto simp: dlq_inv_def)

lemma category_members: "dlq_inv p db \<Longrightarrow>
   i \<in> z_members (r_zset db (category_key p c)) \<longleftrightarrow> (\<exists>e. r_get db (entry_key p i) = Some e \<and> category e = c)"
  by (subst index_members) (auto simp: dlq_inv_def)

lemma all_members: "dlq_inv p db \<Longrightarrow>
   i \<in> z_members (r_zset db (all_key p)) \<longleftrightarrow> (\<exists>e. r_get db (entry_key p i) = Some e)"
  by (subst index_members) (auto simp: dlq_inv_def)

text \<open>
  Claim C11. The index promise of the module: after any sequence of operations,
  refused ones included, every parked entry is in exactly one category set
  (that of its category) and exactly one status set (that of its current
  status), and no set names an entry that does not exist.
\<close>

theorem dlq_indexes_exact:
  assumes "dlq_reachable p db"
  shows "(i \<in> z_members (r_zset db (status_key p s)) \<longleftrightarrow> (\<exists>e. dlq_get p i db = Inr e \<and> status e = s))
    \<and> (i \<in> z_members (r_zset db (category_key p c)) \<longleftrightarrow> (\<exists>e. dlq_get p i db = Inr e \<and> category e = c))
    \<and> (i \<in> z_members (r_zset db (all_key p)) \<longleftrightarrow> (\<exists>e. dlq_get p i db = Inr e))"
  using dlq_reachable_inv [OF assms]
  by (simp add: status_members category_members all_members dlq_get_Inr)

definition demo_dlq :: dlq where
  "demo_dlq = fst (send ''dlq'' MALFORMED_AST ''compile'' PNone (''MalformedASTError'', ''bad'', []) None 1 ''e1'' 7 redis_empty)"

lemma demo_dlq_reachable: "dlq_reachable ''dlq'' demo_dlq"
  unfolding demo_dlq_def
  by (intro dlq_reachable.send dlq_reachable.empty) (simp add: redis_empty_def redis_defs)

theorem dlq_indexes_exact_witness:
  "''e1'' \<in> z_members (r_zset (fst (discard ''dlq'' ''e1'' ''eng'' None 9 demo_dlq)) (status_key ''dlq'' DISCARDED))
   \<and> ''e1'' \<notin> z_members (r_zset (fst (discard ''dlq'' ''e1'' ''eng'' None 9 demo_dlq)) (status_key ''dlq'' PENDING))"
proof -
  let ?db = "fst (discard ''dlq'' ''e1'' ''eng'' None 9 demo_dlq)"
  have "dlq_reachable ''dlq'' ?db" by (intro dlq_reachable.discard demo_dlq_reachable)
  note exact = dlq_indexes_exact [OF this, of "''e1''"]
  have "\<exists>e. dlq_get ''dlq'' ''e1'' ?db = Inr e \<and> status e = DISCARDED"
    by (simp add: demo_dlq_def send_def persist_new_def discard_def dlq_get_Inr dlq_get_def
        move_status_def Let_def redis_simps)
  then show ?thesis using exact by fastforce
qed

section \<open>Listing and counting\<close>

definition list_hit :: "string \<Rightarrow> FailureCategory option \<Rightarrow> DLQStatus option \<Rightarrow> dlq \<Rightarrow> string \<Rightarrow> DLQEntry option" where
  "list_hit p cat st db i =
     (case dlq_get p i db of
        Inl _ \<Rightarrow> None
      | Inr e \<Rightarrow> if cat \<noteq> None \<and> st \<noteq> None \<and> Some (status e) \<noteq> st then None else Some e)"

lemma list_loop_hits:
  "length acc < stop \<Longrightarrow>
   list_loop p cat st stop db ids acc = take stop (acc @ List.map_filter (list_hit p cat st db) ids)"
proof (induction ids arbitrary: acc)
  case (Cons i ids)
  show ?case
  proof (cases "list_hit p cat st db i")
    case None
    then show ?thesis
      using Cons by (auto simp: list_hit_def List.map_filter_simps split: sum.splits if_splits)
  next
    case (Some e)
    then have step: "list_loop p cat st stop db (i # ids) acc =
        (if stop \<le> length (acc @ [e]) then acc @ [e] else list_loop p cat st stop db ids (acc @ [e]))"
      by (auto simp: list_hit_def split: sum.splits if_splits)
    show ?thesis
    proof (cases "stop \<le> Suc (length acc)")
      case True
      with Cons.prems have "stop = Suc (length acc)" by simp
      with step Some show ?thesis by (simp add: List.map_filter_simps)
    next
      case False
      with step Some Cons.IH [of "acc @ [e]"] show ?thesis by (simp add: List.map_filter_simps)
    qed
  qed
qed simp

lemma dlq_list_slice:
  "dlq_list p cat st limit offset db =
     take limit (drop offset (List.map_filter (list_hit p cat st db) (r_zrevrange_all db (index_key p cat st))))"
proof (cases "offset + limit = 0")
  case False
  then show ?thesis by (simp add: dlq_list_def Let_def list_loop_hits take_drop add.commute)
qed (simp add: dlq_list_def)

definition matches :: "FailureCategory option \<Rightarrow> DLQStatus option \<Rightarrow> DLQEntry \<Rightarrow> bool" where
  "matches cat st e \<longleftrightarrow> (cat = None \<or> cat = Some (category e)) \<and> (st = None \<or> st = Some (status e))"

definition index_about :: "FailureCategory option \<Rightarrow> DLQStatus option \<Rightarrow> DLQEntry \<Rightarrow> bool" where
  "index_about cat st e =
     (case cat of Some c \<Rightarrow> category e = c | None \<Rightarrow> (case st of Some s \<Rightarrow> status e = s | None \<Rightarrow> True))"

lemma index_key_exact: "dlq_inv p db \<Longrightarrow> index_exact p (index_about cat st) (index_key p cat st) db"
  by (cases cat; cases st) (simp_all add: index_key_def index_about_def [abs_def] dlq_inv_def)

lemma list_hit_matches:
  "r_get db (entry_key p i) = Some e \<Longrightarrow>
   index_about cat st e \<and> list_hit p cat st db i = Some e \<longleftrightarrow> matches cat st e"
  by (cases cat; cases st) (auto simp: index_about_def list_hit_def dlq_get_def matches_def)

lemma list_hit_get: "list_hit p cat st db i = Some e \<Longrightarrow> r_get db (entry_key p i) = Some e"
  by (auto simp: list_hit_def dlq_get_def split: sum.splits option.splits if_splits)

lemma hits_ids:
  "dlq_inv p db \<Longrightarrow> map entry_id (List.map_filter (list_hit p cat st db) ids) =
     filter (\<lambda>i. list_hit p cat st db i \<noteq> None) ids"
  by (induction ids) (auto simp: List.map_filter_simps dest!: list_hit_get dlq_inv_ids split: option.splits)

lemma hits_times:
  "set z \<subseteq> indexed p about db \<Longrightarrow>
   map last_failed_at (List.map_filter (list_hit p cat st db) (map snd z)) =
     map fst (filter (\<lambda>q. list_hit p cat st db (snd q) \<noteq> None) z)"
  by (induction z) (auto simp: List.map_filter_simps indexed_def dest!: list_hit_get split: option.splits)

text \<open>
  Listing is exact: for any combination of category and status filter
  there is one list of entries, newest failure first and without repetition,
  that holds exactly the parked entries matching the filter, and every page
  \<open>list(limit, offset)\<close> is the corresponding slice of it.
\<close>

theorem dlq_list_exact:
  assumes "dlq_reachable p db"
  shows "\<exists>L. (\<forall>limit offset. dlq_list p cat st limit offset db = take limit (drop offset L))
    \<and> set L = {e. (\<exists>i. dlq_get p i db = Inr e) \<and> matches cat st e}
    \<and> distinct (map entry_id L) \<and> sorted (rev (map last_failed_at L))"
proof -
  let ?z = "r_zset db (index_key p cat st)" and ?hit = "list_hit p cat st db"
  let ?L = "List.map_filter ?hit (r_zrevrange_all db (index_key p cat st))"
  have inv: "dlq_inv p db" by (rule dlq_reachable_inv [OF assms])
  let ?about = "index_about cat st"
  have idx: "index_exact p ?about (index_key p cat st) db" by (rule index_key_exact [OF inv])
  have ids: "r_zrevrange_all db (index_key p cat st) = map snd (rev ?z)" by (simp add: r_zrevrange_all_def)
  have z: "set (rev ?z) \<subseteq> indexed p ?about db" "distinct (map snd (rev ?z))" "sorted (map fst ?z)"
    using idx by (simp_all add: index_exact_def rev_map [symmetric])
  have "e \<in> set ?L \<longleftrightarrow> (\<exists>i. dlq_get p i db = Inr e) \<and> matches cat st e" for e
  proof -
    have "e \<in> set ?L \<longleftrightarrow> (\<exists>i. i \<in> z_members ?z \<and> ?hit i = Some e)"
      by (auto simp: set_map_filter ids z_members_def)
    also have "\<dots> \<longleftrightarrow> (\<exists>i. r_get db (entry_key p i) = Some e \<and> ?about e \<and> ?hit i = Some e)"
      using index_members [OF idx] list_hit_get [of p cat st db] by (metis option.inject)
    also have "\<dots> \<longleftrightarrow> (\<exists>i. r_get db (entry_key p i) = Some e) \<and> matches cat st e"
      using list_hit_matches [of db p _ e cat st] by blast
    finally show ?thesis by (simp add: dlq_get_Inr)
  qed
  moreover have "distinct (map entry_id ?L)" using z(2) by (simp add: hits_ids [OF inv] ids)
  moreover have "sorted (rev (map last_failed_at ?L))"
    using z(3) by (simp add: ids hits_times [OF z(1)] rev_map rev_filter [symmetric] sorted_filter)
  ultimately show ?thesis using dlq_list_slice by blast
qed

theorem dlq_list_exact_witness:
  "\<exists>L. (\<forall>limit offset. dlq_list ''dlq'' None (Some PENDING) limit offset demo_dlq = take limit (drop offset L))
    \<and> set L = {e. (\<exists>i. dlq_get ''dlq'' i demo_dlq = Inr e) \<and> matches None (Some PENDING) e}"
  using dlq_list_exact [OF demo_dlq_reachable, of None "Some PENDING"] by blast

lemma index_card:
  assumes "index_exact p about k db"
  shows "length (r_zset db k) = card (z_members (r_zset db k))"
  using assms distinct_card [of "map snd (r_zset db k)"] by (simp add: index_exact_def z_members_def)

lemma sum_index_cards:
  assumes "distinct ks" "finite A" "\<And>x. x \<in> A \<Longrightarrow> f x \<in> set ks"
  shows "sum_list (map (\<lambda>k. card {x \<in> A. f x = k}) ks) = card A"
proof -
  have "sum_list (map (\<lambda>k. card {x \<in> A. f x = k}) ks) = (\<Sum>k\<in>set ks. card {x \<in> A. f x = k})"
    using assms(1) by (simp add: sum_list_distinct_conv_sum_set)
  also have "\<dots> = card (\<Union>k\<in>set ks. {x \<in> A. f x = k})"
    using assms(2) by (intro card_UN_disjoint [symmetric]) auto
  also have "(\<Union>k\<in>set ks. {x \<in> A. f x = k}) = A" using assms(3) by auto
  finally show ?thesis .
qed

text \<open>
  The statistics add up: in every reachable queue the counts by
  status and the counts by category each sum to the total number of entries.
\<close>

theorem dlq_stats_add_up:
  assumes "dlq_reachable p db"
  shows "sum_list (map snd (by_status (stats p db))) = total (stats p db)
    \<and> sum_list (map snd (by_category (stats p db))) = total (stats p db)"
proof -
  have inv: "dlq_inv p db" by (rule dlq_reachable_inv [OF assms])
  let ?A = "z_members (r_zset db (all_key p))" and ?doc = "\<lambda>i. the (r_get db (entry_key p i))"
  have idx: "index_exact p (\<lambda>e. True) (all_key p) db" "\<And>s. index_exact p (\<lambda>e. status e = s) (status_key p s) db"
    "\<And>c. index_exact p (\<lambda>e. category e = c) (category_key p c) db"
    using inv by (simp_all add: dlq_inv_def)
  have s: "z_members (r_zset db (status_key p s)) = {i \<in> ?A. status (?doc i) = s}" for s
    using status_members [OF inv] all_members [OF inv] by auto
  have c: "z_members (r_zset db (category_key p c)) = {i \<in> ?A. category (?doc i) = c}" for c
    using category_members [OF inv] all_members [OF inv] by auto
  have fin: "finite ?A" by (simp add: z_members_def)
  have "x \<in> set all_statuses" for x by (cases x) (simp_all add: all_statuses_def)
  then have "sum_list (map (\<lambda>s. card {i \<in> ?A. status (?doc i) = s}) all_statuses) = card ?A"
    by (intro sum_index_cards [OF _ fin]) (simp_all add: all_statuses_def)
  moreover have "x \<in> set all_categories" for x by (cases x) (simp_all add: all_categories_def)
  then have "sum_list (map (\<lambda>c. card {i \<in> ?A. category (?doc i) = c}) all_categories) = card ?A"
    by (intro sum_index_cards [OF _ fin]) (simp_all add: all_categories_def)
  ultimately show ?thesis
    by (simp add: stats_def dlq_count_def r_zcard_def index_card [OF idx(1)] index_card [OF idx(2)]
        index_card [OF idx(3)] s c comp_def)
qed

theorem dlq_stats_add_up_witness:
  "sum_list (map snd (by_status (stats ''dlq'' demo_dlq))) = total (stats ''dlq'' demo_dlq)"
  using dlq_stats_add_up [OF demo_dlq_reachable] by blast

section \<open>Terminal states\<close>

text \<open>
  A resolved or discarded entry cannot be edited, requeued or
  discarded again: each of these calls raises and leaves the queue unchanged.
  \<open>mark_resolved\<close> has no such guard: it turns a discarded entry into a resolved
  one and overwrites who closed it and why.
\<close>

theorem terminal_entries:
  assumes "dlq_get p i db = Inr e" and "status e \<in> {RESOLVED, DISCARDED}"
  shows "update_payload p i pl db = (db, raise (DLQInvalidTransitionError i))
    \<and> mark_requeued p i actor task_id now db = (db, raise (DLQInvalidTransitionError i))
    \<and> discard p i actor notes now db = (db, raise (DLQInvalidTransitionError i))
    \<and> snd (mark_resolved p i actor notes now db) =
        Inr (e\<lparr>status := RESOLVED, resolved_by := Some actor, resolution_notes := notes, resolved_at := Some now\<rparr>)"
  using assms
  by (auto simp: update_payload_def mark_requeued_def discard_def mark_resolved_def Let_def)

theorem terminal_entries_witness:
  "\<exists>e. dlq_get ''dlq'' ''e1'' (fst (discard ''dlq'' ''e1'' ''eng'' None 9 demo_dlq)) = Inr e
    \<and> status e = DISCARDED
    \<and> snd (mark_resolved ''dlq'' ''e1'' ''other'' None 10 (fst (discard ''dlq'' ''e1'' ''eng'' None 9 demo_dlq))) =
        Inr (e\<lparr>status := RESOLVED, resolved_by := Some ''other'', resolution_notes := None, resolved_at := Some 10\<rparr>)"
proof -
  let ?db = "fst (discard ''dlq'' ''e1'' ''eng'' None 9 demo_dlq)"
  obtain e where e: "dlq_get ''dlq'' ''e1'' ?db = Inr e" "status e = DISCARDED"
    by (simp add: demo_dlq_def send_def persist_new_def discard_def dlq_get_def
        move_status_def Let_def redis_simps)
  from terminal_entries [OF e(1), of PNone "''other''" "[]" 10 None] e show ?thesis by auto
qed

end
