(* ===== verification/Review_Db.thy ===== *)
theory Review_Db
  imports Compile_Pipeline Policy_Plane
begin

text \<open>
  The regulatory tables of \<open>app/db/models.py\<close> (tenants, circulars, clauses, compiled
  rules, reviews, state transitions) as lists of rows, with the unique, check and
  foreign-key constraints the services can run into. Enumerated text columns are
  datatypes: their check constraints admit exactly the constructors. A surrogate
  key is drawn from a counter. Column widths, timestamps the services do not
  read, JSON columns they never read back and row-level security are left out.
\<close>

section \<open>Rows\<close>

datatype ProcessingState =
  PS_INGESTED | PS_EXTRACTING | PS_EXTRACTED | PS_COMPILING | PS_AWAITING_HITL | PS_APPROVED | PS_DEPLOYED | PS_FAILED

datatype ClauseProcessingState =
  CS_PENDING | CS_EXTRACTING | CS_EXTRACTED | CS_COMPILING | CS_COMPILED | CS_FAILED

datatype ReviewStatus = RV_PENDING | RV_IN_REVIEW | RV_RESOLVED | RV_REJECTED | RV_REVISION_REQUIRED

datatype RuleHitlStatus = HS_NONE | HS_ADVISORY | HS_BLOCKING | HS_RESOLVED

record Tenant =
  te_tenant_id :: string
  te_display_name :: string
  te_tenant_type :: string
  te_is_active :: bool
  te_opa_bundle_prefix :: string

record Circular =
  ci_id :: int
  ci_tenant_id :: string
  ci_is_shared :: bool
  ci_circular_number :: string
  ci_title :: "string option"
  ci_source_url :: "string option"
  ci_source_filename :: "string option"
  ci_source_retrieved_at :: "time option"
  ci_department :: "string option"
  ci_source_document_sha256 :: "string option"
  ci_raw_text_digest :: string
  ci_processing_state :: ProcessingState
  ci_error_message :: "string option"
  ci_updated_at :: time

record Clause =
  cl_id :: int
  cl_circular_id :: int
  cl_tenant_id :: string
  cl_clause_number :: "string option"
  cl_section_title :: "string option"
  cl_section_path :: "string list"
  cl_text :: string
  cl_sha256 :: string
  cl_page_start :: "int option"
  cl_page_end :: "int option"
  cl_contains_table :: bool
  cl_processing_status :: ClauseProcessingState
  cl_error_message :: "string option"

record RuleRow = CompiledRule +
  rr_clause_id :: int
  rr_tenant_id :: string
  jsonlogic_ast :: "pyval option"
  rr_hitl_status :: RuleHitlStatus
  rr_policy_sha256 :: "string option"

record HITLReview =
  rv_id :: int
  rv_review_id :: string
  rv_clause_id :: int
  rv_compiled_rule_id :: "int option"
  rv_tenant_id :: string
  rv_reason_code :: HITLReasonCode
  rv_severity :: HITLSeverity
  rv_description :: string
  rv_source_excerpt :: "string option"
  rv_field_path :: "string option"
  rv_status :: ReviewStatus
  rv_compliance_officer_id :: "string option"
  rv_resolution_notes :: "string option"
  rv_resolved_at :: "time option"
  rv_approved_rule_version :: "int option"
  rv_approved_policy_sha256 :: "string option"

record CircularStateTransition =
  tr_circular_id :: int
  tr_from_state :: ProcessingState
  tr_to_state :: ProcessingState
  tr_triggered_by :: string
  tr_error_message :: "string option"

record reg_db =
  tenants :: "Tenant list"
  circulars :: "Circular list"
  clauses :: "Clause list"
  compiled_rules :: "RuleRow list"
  hitl_reviews :: "HITLReview list"
  state_transitions :: "CircularStateTransition list"
  next_key :: int

definition empty_db :: reg_db where
  "empty_db = \<lparr>tenants = [], circulars = [], clauses = [], compiled_rules = [], hitl_reviews = [], state_transitions = [], next_key = 1\<rparr>"

section \<open>Queries and writes\<close>

text \<open>SQLAlchemy's \<open>scalar_one_or_none\<close>.\<close>

definition scalar_one_or_none :: "'a list \<Rightarrow> 'a option result" where
  "scalar_one_or_none rows = (case rows of [] \<Rightarrow> Inr None | [r] \<Rightarrow> Inr (Some r) | _ \<Rightarrow> raise MultipleResultsFound)"

definition update_rows :: "('a \<Rightarrow> bool) \<Rightarrow> ('a \<Rightarrow> 'a) \<Rightarrow> 'a list \<Rightarrow> 'a list" where
  "update_rows p f rows = map (\<lambda>r. if p r then f r else r) rows"

abbreviation set_rule :: "int \<Rightarrow> (RuleRow \<Rightarrow> RuleRow) \<Rightarrow> reg_db \<Rightarrow> reg_db" where
  "set_rule i f db \<equiv> db\<lparr>compiled_rules := update_rows (\<lambda>r. row_id r = i) f (compiled_rules db)\<rparr>"

abbreviation set_review :: "int \<Rightarrow> (HITLReview \<Rightarrow> HITLReview) \<Rightarrow> reg_db \<Rightarrow> reg_db" where
  "set_review i f db \<equiv> db\<lparr>hitl_reviews := update_rows (\<lambda>r. rv_id r = i) f (hitl_reviews db)\<rparr>"

abbreviation set_clause :: "int \<Rightarrow> (Clause \<Rightarrow> Clause) \<Rightarrow> reg_db \<Rightarrow> reg_db" where
  "set_clause i f db \<equiv> db\<lparr>clauses := update_rows (\<lambda>r. cl_id r = i) f (clauses db)\<rparr>"

abbreviation set_circular :: "int \<Rightarrow> (Circular \<Rightarrow> Circular) \<Rightarrow> reg_db \<Rightarrow> reg_db" where
  "set_circular i f db \<equiv> db\<lparr>circulars := update_rows (\<lambda>r. ci_id r = i) f (circulars db)\<rparr>"

definition get_circular :: "reg_db \<Rightarrow> int \<Rightarrow> Circular option" where
  "get_circular db i = find (\<lambda>r. ci_id r = i) (circulars db)"

definition get_clause :: "reg_db \<Rightarrow> int \<Rightarrow> Clause option" where
  "get_clause db i = find (\<lambda>r. cl_id r = i) (clauses db)"

definition get_rule :: "reg_db \<Rightarrow> int \<Rightarrow> RuleRow option" where
  "get_rule db i = find (\<lambda>r. row_id r = i) (compiled_rules db)"

definition reviews_of_rule :: "reg_db \<Rightarrow> int \<Rightarrow> HITLReview list" where
  "reviews_of_rule db i = filter (\<lambda>v. rv_compiled_rule_id v = Some i) (hitl_reviews db)"

definition add_transition ::
  "int \<Rightarrow> ProcessingState \<Rightarrow> ProcessingState \<Rightarrow> string \<Rightarrow> string option \<Rightarrow> reg_db \<Rightarrow> reg_db" where
  "add_transition i from_state to_state by err db =
     db\<lparr>state_transitions := state_transitions db @
       [\<lparr>tr_circular_id = i, tr_from_state = from_state, tr_to_state = to_state, tr_triggered_by = by, tr_error_message = err\<rparr>]\<rparr>"

abbreviation tenant_ids :: "reg_db \<Rightarrow> string set" where
  "tenant_ids db \<equiv> te_tenant_id ` set (tenants db)"

text \<open>
  An INSERT is refused with an \<open>IntegrityError\<close> where a constraint fails: the
  digest lengths and unique keys of a circular and a clause, the unique
  (rule_id, tenant_id, rule_version) of a rule and its partial unique index on the
  active row, the unique review id and the check on the reason code, which lacks
  one member of the enumeration; and the reference to the tenant everywhere.
\<close>

definition circular_checks :: "Circular \<Rightarrow> bool" where
  "circular_checks c \<longleftrightarrow> length (ci_raw_text_digest c) = 64
     \<and> (case ci_source_document_sha256 c of None \<Rightarrow> True | Some h \<Rightarrow> length h = 64)"

definition insert_circular :: "Circular \<Rightarrow> reg_db \<Rightarrow> (reg_db \<times> Circular) result" where
  "insert_circular c db =
     (if \<not> circular_checks c \<or> ci_tenant_id c \<notin> tenant_ids db
         \<or> list_ex (\<lambda>d. ci_circular_number d = ci_circular_number c \<or> ci_raw_text_digest d = ci_raw_text_digest c) (circulars db)
      then raise IntegrityError
      else let c = c\<lparr>ci_id := next_key db\<rparr>
           in Inr (db\<lparr>circulars := circulars db @ [c], next_key := next_key db + 1\<rparr>, c))"

definition insert_clause :: "Clause \<Rightarrow> reg_db \<Rightarrow> (reg_db \<times> Clause) result" where
  "insert_clause c db =
     (if length (cl_sha256 c) \<noteq> 64 \<or> cl_tenant_id c \<notin> tenant_ids db
         \<or> list_ex (\<lambda>d. cl_circular_id d = cl_circular_id c \<and> cl_sha256 d = cl_sha256 c) (clauses db)
         \<or> cl_circular_id c \<notin> ci_id ` set (circulars db)
      then raise IntegrityError
      else let c = c\<lparr>cl_id := next_key db\<rparr>
           in Inr (db\<lparr>clauses := clauses db @ [c], next_key := next_key db + 1\<rparr>, c))"

definition rule_conflict :: "RuleRow \<Rightarrow> RuleRow \<Rightarrow> bool" where
  "rule_conflict r q \<longleftrightarrow> row_rule_id r = row_rule_id q \<and> rr_tenant_id r = rr_tenant_id q
     \<and> (row_rule_version r = row_rule_version q \<or> is_active r \<and> is_active q)"

definition insert_rule :: "RuleRow \<Rightarrow> reg_db \<Rightarrow> (reg_db \<times> RuleRow) result" where
  "insert_rule r db =
     (if rr_tenant_id r \<notin> tenant_ids db \<or> rr_clause_id r \<notin> cl_id ` set (clauses db)
         \<or> list_ex (rule_conflict r) (compiled_rules db) then raise IntegrityError
      else let r = r\<lparr>row_id := next_key db\<rparr>
           in Inr (db\<lparr>compiled_rules := compiled_rules db @ [r], next_key := next_key db + 1\<rparr>, r))"

definition terminal_review :: "HITLReview \<Rightarrow> bool" where
  "terminal_review v \<longleftrightarrow> rv_status v \<in> {RV_RESOLVED, RV_REJECTED, RV_REVISION_REQUIRED}"

definition insert_review :: "HITLReview \<Rightarrow> reg_db \<Rightarrow> (reg_db \<times> HITLReview) result" where
  "insert_review v db =
     (if rv_tenant_id v \<notin> tenant_ids db \<or> rv_clause_id v \<notin> cl_id ` set (clauses db)
         \<or> (case rv_compiled_rule_id v of None \<Rightarrow> False | Some i \<Rightarrow> i \<notin> row_id ` set (compiled_rules db))
         \<or> list_ex (\<lambda>w. rv_review_id w = rv_review_id v) (hitl_reviews db)
         \<or> rv_reason_code v = SELF_HEALED_REQUIRES_REVIEW
         \<or> terminal_review v \<noteq> (rv_resolved_at v \<noteq> None) then raise IntegrityError
      else let v = v\<lparr>rv_id := next_key db\<rparr>
           in Inr (db\<lparr>hitl_reviews := hitl_reviews db @ [v], next_key := next_key db + 1\<rparr>, v))"

text \<open>Deleting a rule sets the references of its reviews to NULL.\<close>

definition delete_rules :: "(RuleRow \<Rightarrow> bool) \<Rightarrow> reg_db \<Rightarrow> reg_db" where
  "delete_rules p db =
     (let gone = map row_id (filter p (compiled_rules db)) in
      db\<lparr>compiled_rules := filter (\<lambda>r. \<not> p r) (compiled_rules db),
         hitl_reviews := update_rows (\<lambda>v. \<exists>i\<in>set gone. rv_compiled_rule_id v = Some i)
           (\<lambda>v. v\<lparr>rv_compiled_rule_id := None\<rparr>) (hitl_reviews db)\<rparr>)"

section \<open>Well-formed tables\<close>

definition circulars_ok :: "reg_db \<Rightarrow> bool" where
  "circulars_ok db \<longleftrightarrow>
     distinct (map ci_id (circulars db)) \<and> distinct (map ci_circular_number (circulars db))
     \<and> distinct (map ci_raw_text_digest (circulars db))
     \<and> (\<forall>c\<in>set (circulars db). ci_id c < next_key db \<and> circular_checks c \<and> ci_tenant_id c \<in> tenant_ids db)"

definition clauses_ok :: "reg_db \<Rightarrow> bool" where
  "clauses_ok db \<longleftrightarrow>
     distinct (map cl_id (clauses db)) \<and> distinct (map (\<lambda>c. (cl_circular_id c, cl_sha256 c)) (clauses db))
     \<and> (\<forall>c\<in>set (clauses db). cl_id c < next_key db \<and> length (cl_sha256 c) = 64 \<and> cl_tenant_id c \<in> tenant_ids db
          \<and> cl_circular_id c \<in> ci_id ` set (circulars db))"

definition rules_ok :: "reg_db \<Rightarrow> bool" where
  "rules_ok db \<longleftrightarrow>
     distinct (map row_id (compiled_rules db))
     \<and> distinct (map (\<lambda>r. (row_rule_id r, rr_tenant_id r, row_rule_version r)) (compiled_rules db))
     \<and> distinct (map (\<lambda>r. (row_rule_id r, rr_tenant_id r)) (filter is_active (compiled_rules db)))
     \<and> (\<forall>r\<in>set (compiled_rules db). row_id r < next_key db \<and> rr_tenant_id r \<in> tenant_ids db
          \<and> rr_clause_id r \<in> cl_id ` set (clauses db))"

definition reviews_ok :: "reg_db \<Rightarrow> bool" where
  "reviews_ok db \<longleftrightarrow>
     distinct (map rv_id (hitl_reviews db)) \<and> distinct (map rv_review_id (hitl_reviews db))
     \<and> (\<forall>v\<in>set (hitl_reviews db). rv_id v < next_key db \<and> rv_tenant_id v \<in> tenant_ids db
          \<and> rv_clause_id v \<in> cl_id ` set (clauses db) \<and> (terminal_review v \<longleftrightarrow> rv_resolved_at v \<noteq> None)
          \<and> set_option (rv_compiled_rule_id v) \<subseteq> row_id ` set (compiled_rules db))"

definition tables_ok :: "reg_db \<Rightarrow> bool" where
  "tables_ok db \<longleftrightarrow> distinct (map te_tenant_id (tenants db))
     \<and> circulars_ok db \<and> clauses_ok db \<and> rules_ok db \<and> reviews_ok db"

text \<open>The promise of the review service: an active rule has no review that is not resolved.\<close>

definition gate_kept :: "reg_db \<Rightarrow> bool" where
  "gate_kept db \<longleftrightarrow>
     (\<forall>r\<in>set (compiled_rules db). is_active r \<longrightarrow> (\<forall>v\<in>set (reviews_of_rule db (row_id r)). rv_status v = RV_RESOLVED))"

definition db_ok :: "reg_db \<Rightarrow> bool" where
  "db_ok db \<longleftrightarrow> tables_ok db \<and> gate_kept db"

lemmas tables_defs = db_ok_def tables_ok_def circulars_ok_def clauses_ok_def rules_ok_def reviews_ok_def

lemma db_ok_empty: "db_ok empty_db"
  by (simp add: tables_defs gate_kept_def empty_db_def)

section \<open>What writes keep\<close>

lemma set_update_rows: "set (update_rows p f xs) = {if p x then f x else x | x. x \<in> set xs}"
  by (auto simp: update_rows_def)

lemma update_rowsE:
  assumes "y \<in> set (update_rows p f xs)"
  obtains x where "x \<in> set xs" "p x" "y = f x" | "y \<in> set xs" "\<not> p y"
  using assms by (auto simp: set_update_rows split: if_splits)

lemma map_update_rows: "(\<And>x. p x \<Longrightarrow> g (f x) = g x) \<Longrightarrow> map g (update_rows p f xs) = map g xs"
  by (simp add: update_rows_def)

lemma image_update_rows: "(\<And>x. p x \<Longrightarrow> g (f x) = g x) \<Longrightarrow> g ` set (update_rows p f xs) = g ` set xs"
  by (metis map_update_rows set_map)

lemma ball_update_rows:
  "(\<forall>x\<in>set (update_rows p f xs). Q x) \<longleftrightarrow> (\<forall>x\<in>set xs. if p x then Q (f x) else Q x)"
  by (auto simp: update_rows_def)

lemma distinct_map_filter_subset:
  "distinct (map g (filter P xs)) \<Longrightarrow> (\<And>x. Q x \<Longrightarrow> P x) \<Longrightarrow> distinct (map g (filter Q xs))"
  by (induction xs) (auto split: if_splits)

lemma filter_update_rows:
  assumes "\<And>x. p x \<Longrightarrow> g (f x) = g x" "\<And>x. p x \<Longrightarrow> P (f x) \<Longrightarrow> P x"
    and "distinct (map g (filter P xs))"
  shows "distinct (map g (filter P (update_rows p f xs)))"
proof -
  have eq: "map g (filter P (update_rows p f xs)) = map g (filter (\<lambda>x. if p x then P (f x) else P x) xs)"
    using assms(1) by (induction xs) (auto simp: update_rows_def)
  show ?thesis unfolding eq by (rule distinct_map_filter_subset [OF assms(3)]) (use assms(2) in \<open>auto split: if_splits\<close>)
qed

lemma db_ok_circulars:
  assumes "db_ok db" "\<And>c. p c \<Longrightarrow> ci_id (f c) = ci_id c \<and> ci_circular_number (f c) = ci_circular_number c
      \<and> ci_raw_text_digest (f c) = ci_raw_text_digest c \<and> ci_tenant_id (f c) = ci_tenant_id c
      \<and> (circular_checks c \<longrightarrow> circular_checks (f c))"
  shows "db_ok (db\<lparr>circulars := update_rows p f (circulars db)\<rparr>)"
  using assms by (auto simp: tables_defs gate_kept_def reviews_of_rule_def map_update_rows image_update_rows ball_update_rows)

lemma db_ok_clauses:
  assumes "db_ok db" "\<And>c. p c \<Longrightarrow> cl_id (f c) = cl_id c \<and> cl_circular_id (f c) = cl_circular_id c
      \<and> cl_sha256 (f c) = cl_sha256 c \<and> cl_tenant_id (f c) = cl_tenant_id c"
  shows "db_ok (db\<lparr>clauses := update_rows p f (clauses db)\<rparr>)"
  using assms by (auto simp: tables_defs gate_kept_def reviews_of_rule_def map_update_rows image_update_rows ball_update_rows)

lemma db_ok_transitions: "db_ok db \<Longrightarrow> db_ok (add_transition i a b c d db)"
  by (simp add: tables_defs gate_kept_def reviews_of_rule_def add_transition_def)

text \<open>A change of rule rows that activates none, and one of review rows that resolves or detaches.\<close>

definition keeps_rule_key :: "RuleRow \<Rightarrow> RuleRow \<Rightarrow> bool" where
  "keeps_rule_key r q \<longleftrightarrow> row_id q = row_id r \<and> row_rule_id q = row_rule_id r \<and> rr_tenant_id q = rr_tenant_id r
     \<and> row_rule_version q = row_rule_version r \<and> rr_clause_id q = rr_clause_id r \<and> (is_active q \<longrightarrow> is_active r)"

lemma db_ok_rules:
  assumes "db_ok db" and k: "\<And>r. p r \<Longrightarrow> keeps_rule_key r (f r)"
  shows "db_ok (db\<lparr>compiled_rules := update_rows p f (compiled_rules db)\<rparr>)"
proof -
  note k = k [unfolded keeps_rule_key_def]
  have "distinct (map (\<lambda>r. (row_rule_id r, rr_tenant_id r)) (filter is_active (update_rows p f (compiled_rules db))))"
    by (rule filter_update_rows) (use assms k in \<open>auto simp: tables_defs\<close>)
  then show ?thesis
    using assms k by (auto simp: tables_defs gate_kept_def reviews_of_rule_def map_update_rows image_update_rows ball_update_rows)
qed

lemma db_ok_reviews:
  assumes "db_ok db"
    and "\<And>v. p v \<Longrightarrow> rv_id (f v) = rv_id v \<and> rv_review_id (f v) = rv_review_id v \<and> rv_tenant_id (f v) = rv_tenant_id v
      \<and> rv_clause_id (f v) = rv_clause_id v \<and> set_option (rv_compiled_rule_id (f v)) \<subseteq> set_option (rv_compiled_rule_id v)"
    and "\<And>v. v \<in> set (hitl_reviews db) \<Longrightarrow> p v \<Longrightarrow> terminal_review (f v) \<longleftrightarrow> rv_resolved_at (f v) \<noteq> None"
    and "\<And>v r. v \<in> set (hitl_reviews db) \<Longrightarrow> p v \<Longrightarrow> r \<in> set (compiled_rules db) \<Longrightarrow> is_active r
      \<Longrightarrow> rv_compiled_rule_id (f v) = Some (row_id r) \<Longrightarrow> rv_status (f v) = RV_RESOLVED"
  shows "db_ok (db\<lparr>hitl_reviews := update_rows p f (hitl_reviews db)\<rparr>)"
proof -
  let ?db = "db\<lparr>hitl_reviews := update_rows p f (hitl_reviews db)\<rparr>"
  have "reviews_ok ?db"
    using assms(1-3) by (fastforce simp: db_ok_def tables_ok_def reviews_ok_def map_update_rows ball_update_rows)
  then have "tables_ok ?db" using assms(1) by (simp add: db_ok_def tables_ok_def circulars_ok_def clauses_ok_def rules_ok_def)
  moreover have "gate_kept ?db"
    using assms(1,4) by (auto simp: db_ok_def gate_kept_def reviews_of_rule_def ball_update_rows set_update_rows split: if_splits)
  ultimately show ?thesis by (simp add: db_ok_def)
qed

lemma db_ok_delete: "db_ok db \<Longrightarrow> db_ok (delete_rules p db)"
proof -
  assume ok: "db_ok db"
  let ?db = "delete_rules p db"
  have rules: "compiled_rules ?db = filter (\<lambda>r. \<not> p r) (compiled_rules db)" by (simp add: delete_rules_def Let_def)
  have "rules_ok ?db"
    using ok by (simp add: db_ok_def tables_ok_def rules_ok_def delete_rules_def Let_def distinct_map_filter)
      (auto elim!: distinct_map_filter_subset)
  moreover have "reviews_ok ?db"
    using ok by (fastforce simp: db_ok_def tables_ok_def reviews_ok_def delete_rules_def Let_def map_update_rows ball_update_rows terminal_review_def)
  moreover have "gate_kept ?db"
    using ok by (auto simp: db_ok_def gate_kept_def reviews_of_rule_def delete_rules_def Let_def set_update_rows split: if_splits)
  ultimately show ?thesis
    using ok by (simp add: db_ok_def tables_ok_def circulars_ok_def clauses_ok_def delete_rules_def Let_def)
qed

lemma less_next_key: "(i :: int) < k \<Longrightarrow> i < k + 1" by simp

lemma insert_circular_Inr:
  assumes "insert_circular c db = Inr (db', c')"
  shows "c' = c\<lparr>ci_id := next_key db\<rparr>" "db' = db\<lparr>circulars := circulars db @ [c'], next_key := next_key db + 1\<rparr>"
    "circular_checks c" "ci_tenant_id c \<in> tenant_ids db"
    "\<forall>d\<in>set (circulars db). ci_circular_number d \<noteq> ci_circular_number c \<and> ci_raw_text_digest d \<noteq> ci_raw_text_digest c"
  using assms by (auto simp: insert_circular_def Let_def list_ex_iff split: if_splits)

lemma db_ok_insert_circular:
  assumes "db_ok db" "insert_circular c db = Inr (db', c')" shows "db_ok db'"
proof -
  note ins = insert_circular_Inr [OF assms(2)]
  have "circulars_ok db'" using assms(1) ins(3-5)
    unfolding ins(1,2) by (force simp: db_ok_def tables_ok_def circulars_ok_def circular_checks_def)
  moreover have "clauses_ok db'" "rules_ok db'" "reviews_ok db'" "gate_kept db'"
    using assms(1) unfolding ins(2) by (auto simp: db_ok_def tables_ok_def clauses_ok_def rules_ok_def reviews_ok_def gate_kept_def
        reviews_of_rule_def intro!: less_next_key)
  ultimately show ?thesis using assms(1) by (simp add: db_ok_def tables_ok_def ins(2))
qed

lemma insert_clause_Inr:
  assumes "insert_clause c db = Inr (db', c')"
  shows "c' = c\<lparr>cl_id := next_key db\<rparr>" "db' = db\<lparr>clauses := clauses db @ [c'], next_key := next_key db + 1\<rparr>"
    "length (cl_sha256 c) = 64" "cl_tenant_id c \<in> tenant_ids db" "cl_circular_id c \<in> ci_id ` set (circulars db)"
    "\<forall>d\<in>set (clauses db). (cl_circular_id d, cl_sha256 d) \<noteq> (cl_circular_id c, cl_sha256 c)"
  using assms by (auto simp: insert_clause_def Let_def list_ex_iff split: if_splits)

lemma db_ok_insert_clause:
  assumes "db_ok db" "insert_clause c db = Inr (db', c')" shows "db_ok db'"
proof -
  note ins = insert_clause_Inr [OF assms(2)]
  have "clauses_ok db'" using assms(1) ins(3-6)
    unfolding ins(1,2) by (force simp: db_ok_def tables_ok_def clauses_ok_def)
  moreover have "circulars_ok db'" "rules_ok db'" "reviews_ok db'" "gate_kept db'"
    using assms(1) unfolding ins(2) by (auto simp: db_ok_def tables_ok_def circulars_ok_def rules_ok_def reviews_ok_def gate_kept_def
        reviews_of_rule_def intro!: less_next_key)
  ultimately show ?thesis using assms(1) by (simp add: db_ok_def tables_ok_def ins(2))
qed

lemma insert_rule_Inr:
  assumes "insert_rule r db = Inr (db', r')"
  shows "r' = r\<lparr>row_id := next_key db\<rparr>" "db' = db\<lparr>compiled_rules := compiled_rules db @ [r'], next_key := next_key db + 1\<rparr>"
    "rr_tenant_id r \<in> tenant_ids db" "rr_clause_id r \<in> cl_id ` set (clauses db)"
    "\<forall>q\<in>set (compiled_rules db). \<not> rule_conflict r q"
  using assms by (auto simp: insert_rule_def Let_def list_ex_iff split: if_splits)

lemma db_ok_insert_rule:
  assumes "db_ok db" "insert_rule r db = Inr (db', r')" "\<not> is_active r" shows "db_ok db'"
proof -
  note ins = insert_rule_Inr [OF assms(2)]
  have "rules_ok db'" using assms(1,3) ins(3-5)
    unfolding ins(1,2) by (force simp: db_ok_def tables_ok_def rules_ok_def rule_conflict_def)
  moreover have "gate_kept db'" using assms(1,3) unfolding ins(1,2) by (auto simp: db_ok_def gate_kept_def reviews_of_rule_def)
  moreover have "circulars_ok db'" "clauses_ok db'" "reviews_ok db'"
    using assms(1) unfolding ins(2) by (auto simp: db_ok_def tables_ok_def circulars_ok_def clauses_ok_def reviews_ok_def intro!: less_next_key)
  ultimately show ?thesis using assms(1) by (simp add: db_ok_def tables_ok_def ins(2))
qed

lemma insert_review_Inr:
  assumes "insert_review v db = Inr (db', v')"
  shows "v' = v\<lparr>rv_id := next_key db\<rparr>" "db' = db\<lparr>hitl_reviews := hitl_reviews db @ [v'], next_key := next_key db + 1\<rparr>"
    "rv_tenant_id v \<in> tenant_ids db" "rv_clause_id v \<in> cl_id ` set (clauses db)"
    "set_option (rv_compiled_rule_id v) \<subseteq> row_id ` set (compiled_rules db)"
    "rv_review_id v \<notin> rv_review_id ` set (hitl_reviews db)" "terminal_review v \<longleftrightarrow> rv_resolved_at v \<noteq> None"
  using assms by (auto simp: insert_review_def Let_def list_ex_iff split: if_splits option.splits)

lemma db_ok_insert_review:
  assumes "db_ok db" "insert_review v db = Inr (db', v')"
    and "\<And>r. r \<in> set (compiled_rules db) \<Longrightarrow> is_active r \<Longrightarrow> rv_compiled_rule_id v \<noteq> Some (row_id r)"
  shows "db_ok db'"
proof -
  note ins = insert_review_Inr [OF assms(2)]
  have "reviews_ok db'" using assms(1) ins(3-7)
    unfolding ins(1,2) by (auto simp: db_ok_def tables_ok_def reviews_ok_def terminal_review_def simp del: image_iff intro!: less_next_key)
  moreover have "gate_kept db'" using assms(1,3) unfolding ins(1,2) by (auto simp: db_ok_def gate_kept_def reviews_of_rule_def)
  moreover have "circulars_ok db'" "clauses_ok db'" "rules_ok db'"
    using assms(1) unfolding ins(2) by (auto simp: db_ok_def tables_ok_def circulars_ok_def clauses_ok_def rules_ok_def intro!: less_next_key)
  ultimately show ?thesis using assms(1) by (simp add: db_ok_def tables_ok_def ins(2))
qed

end
