(* ===== verification/Hitl_Service.thy ===== *)
theory Hitl_Service
  imports Review_Db
begin

text \<open>
  The review service, \<open>app/services/hitl_service.py\<close>: the gate a compiled rule has to
  pass and the three resolutions of a review. The row locks make each call
  atomic; a call that raises leaves the tables as they were, its transaction
  being rolled back. The reason of a refusal by the gate is only logged and left
  out, as is the indexing of approved reviews as precedents. Request handlers are
  those of \<open>app/api/hitl_review_routes.py\<close>.
\<close>

section \<open>The gate\<close>

definition evaluate_rule_hitl_gate :: "HITLReview list \<Rightarrow> bool \<times> RuleHitlStatus" where
  "evaluate_rule_hitl_gate vs =
     (if vs = [] then (True, HS_RESOLVED)
      else if list_ex (\<lambda>v. rv_status v \<in> {RV_REJECTED, RV_REVISION_REQUIRED}) vs then (False, HS_BLOCKING)
      else if filter (\<lambda>v. rv_severity v = BLOCKING \<and> rv_status v \<noteq> RV_RESOLVED) vs \<noteq> [] then (False, HS_BLOCKING)
      else if filter (\<lambda>v. rv_status v \<in> {RV_PENDING, RV_IN_REVIEW}) vs \<noteq> [] then (False, HS_ADVISORY)
      else if filter (\<lambda>v. rv_status v \<noteq> RV_RESOLVED) vs \<noteq> [] then (False, HS_BLOCKING)
      else (True, HS_RESOLVED))"

definition get_review_or_404 :: "reg_db \<Rightarrow> string \<Rightarrow> HITLReview result" where
  "get_review_or_404 db i =
     (case find (\<lambda>v. rv_review_id v = i) (hitl_reviews db) of
        None \<Rightarrow> raise (HTTPException 404 (''No HITL review '' @ i))
      | Some v \<Rightarrow> Inr v)"

definition get_pending_review :: "reg_db \<Rightarrow> string \<Rightarrow> HITLReview result" where
  "get_pending_review db i =
     bind_res (get_review_or_404 db i) (\<lambda>v.
       if rv_status v \<noteq> RV_PENDING then raise (HTTPException 409 i) else Inr v)"

section \<open>Approval\<close>

definition circular_of_review :: "reg_db \<Rightarrow> HITLReview \<Rightarrow> (Clause \<times> Circular) option" where
  "circular_of_review db v =
     (if rv_clause_id v = 0 then None
      else case get_clause db (rv_clause_id v) of
        None \<Rightarrow> None
      | Some cl \<Rightarrow> if cl_circular_id cl = 0 then None else map_option (Pair cl) (get_circular db (cl_circular_id cl)))"

text \<open>The parent circular is approved with the last of its reviews.\<close>

definition approve_circular :: "string \<Rightarrow> time \<Rightarrow> HITLReview \<Rightarrow> reg_db \<Rightarrow> reg_db" where
  "approve_circular subject now v db =
     (case circular_of_review db v of
        None \<Rightarrow> db
      | Some (cl, ci) \<Rightarrow>
          if ci_processing_state ci \<noteq> PS_AWAITING_HITL then db
          else
            let clause_ids = map cl_id (filter (\<lambda>c. cl_circular_id c = ci_id ci) (clauses db));
                all_circ_reviews = filter (\<lambda>w. rv_clause_id w \<in> set clause_ids) (hitl_reviews db);
                unresolved = filter (\<lambda>w. rv_status w \<in> {RV_PENDING, RV_IN_REVIEW}) all_circ_reviews;
                disqualified = filter (\<lambda>w. rv_status w \<in> {RV_REJECTED, RV_REVISION_REQUIRED}) all_circ_reviews
            in if clause_ids \<noteq> [] \<and> unresolved = [] \<and> disqualified = []
               then add_transition (ci_id ci) PS_AWAITING_HITL PS_APPROVED subject None
                      (set_circular (ci_id ci) (\<lambda>c. c\<lparr>ci_processing_state := PS_APPROVED, ci_updated_at := now\<rparr>) db)
               else db)"

definition resolve_row :: "string \<Rightarrow> string option \<Rightarrow> time \<Rightarrow> ReviewStatus \<Rightarrow> HITLReview \<Rightarrow> HITLReview" where
  "resolve_row subject note now st v =
     v\<lparr>rv_status := st, rv_compliance_officer_id := Some subject, rv_resolution_notes := note, rv_resolved_at := Some now\<rparr>"

definition policy_hash_of :: "(string \<Rightarrow> string) \<Rightarrow> RuleRow \<Rightarrow> string option" where
  "policy_hash_of H r =
     (if \<not> truthy_str (rr_policy_sha256 r) \<and> truthy_str (rego_policy r) then Some (H (the (rego_policy r))) else rr_policy_sha256 r)"

definition activate_rule :: "RuleRow \<Rightarrow> reg_db \<Rightarrow> reg_db" where
  "activate_rule r db =
     db\<lparr>compiled_rules := update_rows (\<lambda>q. row_id q = row_id r) (\<lambda>q. q\<lparr>is_active := True, rr_hitl_status := HS_RESOLVED\<rparr>)
       (update_rows (\<lambda>q. row_rule_id q = row_rule_id r \<and> row_id q \<noteq> row_id r) (\<lambda>q. q\<lparr>is_active := False\<rparr>) (compiled_rules db))\<rparr>"

definition approve_rule :: "(string \<Rightarrow> string) \<Rightarrow> string \<Rightarrow> string option \<Rightarrow> time \<Rightarrow> HITLReview \<Rightarrow> RuleRow \<Rightarrow> reg_db \<Rightarrow> reg_db \<times> bool" where
  "approve_rule H subject note now v r db =
     (let hash = policy_hash_of H r;
          db = set_review (rv_id v) (\<lambda>w. (resolve_row subject note now RV_RESOLVED w)
                 \<lparr>rv_approved_rule_version := Some (row_rule_version r), rv_approved_policy_sha256 := hash\<rparr>) db;
          db = set_rule (row_id r) (\<lambda>q. q\<lparr>rr_policy_sha256 := hash\<rparr>) db;
          gate = evaluate_rule_hitl_gate (reviews_of_rule db (row_id r))
      in if fst gate then (activate_rule r db, True)
         else (set_rule (row_id r) (\<lambda>q. q\<lparr>is_active := False, rr_hitl_status := snd gate\<rparr>) db, False))"

definition approve_review ::
  "(string \<Rightarrow> string) \<Rightarrow> publisher option \<Rightarrow> string \<Rightarrow> bool \<Rightarrow> string \<Rightarrow> string \<Rightarrow> string option \<Rightarrow> time \<Rightarrow> reg_db \<times> policy_plane
   \<Rightarrow> (reg_db \<times> policy_plane) \<times> (bool \<times> RuleRow option) result" where
  "approve_review H pub key opa_up review_id subject note now st =
     (let db = fst st in
      case get_pending_review db review_id of
        Inl e \<Rightarrow> (st, raise e)
      | Inr v \<Rightarrow>
          (case rv_compiled_rule_id v of
             None \<Rightarrow>
               ((approve_circular subject now v (set_review (rv_id v) (resolve_row subject note now RV_RESOLVED) db), snd st),
                Inr (False, None))
           | Some i \<Rightarrow>
               (case get_rule db i of
                  None \<Rightarrow> (st, raise (HTTPException 404 ''Associated compiled_rules row no longer exists.''))
                | Some r \<Rightarrow>
                    (case approve_rule H subject note now v r db of
                       (db', activated) \<Rightarrow>
                         let db' = approve_circular subject now v db';
                             row = get_rule db' i;
                             pl = (case (row, pub) of
                               (Some q, Some p) \<Rightarrow>
                                 if activated \<and> truthy_str (rego_policy q)
                                 then fst (publish_approved p key opa_up (CompiledRule.truncate q) subject [] (snd st)) else snd st
                             | _ \<Rightarrow> snd st)
                         in ((db', pl), Inr (activated, row))))))"

section \<open>Refusal\<close>

definition fail_circular :: "string \<Rightarrow> time \<Rightarrow> HITLReview \<Rightarrow> reg_db \<Rightarrow> reg_db" where
  "fail_circular subject now v db =
     (case circular_of_review db v of
        None \<Rightarrow> db
      | Some (cl, ci) \<Rightarrow>
          if ci_processing_state ci = PS_FAILED then db
          else
            let msg = ''HITL review '' @ [CHR 0x27] @ rv_review_id v @ [CHR 0x27] @ '' rejected by '' @ subject in
            add_transition (ci_id ci) (ci_processing_state ci) PS_FAILED subject (Some msg)
              (set_circular (ci_id ci)
                (\<lambda>c. c\<lparr>ci_processing_state := PS_FAILED, ci_error_message := Some msg, ci_updated_at := now\<rparr>) db))"

definition reject_review ::
  "string \<Rightarrow> string \<Rightarrow> string option \<Rightarrow> time \<Rightarrow> reg_db \<Rightarrow> reg_db result" where
  "reject_review review_id subject note now db =
     bind_res (get_pending_review db review_id) (\<lambda>v.
       let db = (case rv_compiled_rule_id v of
                   None \<Rightarrow> db
                 | Some i \<Rightarrow> set_rule i (\<lambda>r. r\<lparr>is_active := False, rr_hitl_status := HS_BLOCKING\<rparr>) db);
           db = set_review (rv_id v) (resolve_row subject note now RV_REJECTED) db
       in Inr (fail_circular subject now v db))"

text \<open>
  \<open>ClauseProcessingState\<close> is not imported by the module: the branch that uses it
  raises a \<open>NameError\<close> before anything is committed.
\<close>

definition request_revision ::
  "string \<Rightarrow> string \<Rightarrow> string option \<Rightarrow> time \<Rightarrow> reg_db \<Rightarrow> reg_db result" where
  "request_revision review_id subject note now db =
     bind_res (get_pending_review db review_id) (\<lambda>v.
       let db = (case rv_compiled_rule_id v of
                   None \<Rightarrow> db
                 | Some i \<Rightarrow> set_rule i (\<lambda>r. r\<lparr>is_active := False, rr_hitl_status := HS_BLOCKING, is_compiled := False\<rparr>) db);
           db = set_review (rv_id v) (\<lambda>w. (resolve_row subject note now RV_REVISION_REQUIRED w)\<lparr>rv_compiled_rule_id := None\<rparr>) db
       in case circular_of_review db v of
            None \<Rightarrow> Inr db
          | Some (cl, ci) \<Rightarrow>
              if ci_processing_state ci \<in> {PS_AWAITING_HITL, PS_APPROVED}
              then raise (NameError ''ClauseProcessingState'') else Inr db)"

definition list_reviews :: "ReviewStatus option \<Rightarrow> reg_db \<Rightarrow> HITLReview list" where
  "list_reviews status_filter db =
     (case status_filter of None \<Rightarrow> hitl_reviews db | Some s \<Rightarrow> filter (\<lambda>v. rv_status v = s) (hitl_reviews db))"

section \<open>What the gate means\<close>

lemma gate_iff: "fst (evaluate_rule_hitl_gate vs) \<longleftrightarrow> (\<forall>v\<in>set vs. rv_status v = RV_RESOLVED)"
proof (cases "\<forall>v\<in>set vs. rv_status v = RV_RESOLVED")
  case True
  then show ?thesis by (auto simp: evaluate_rule_hitl_gate_def list_ex_iff filter_empty_conv)
next
  case False
  then obtain v where "v \<in> set vs" "rv_status v \<noteq> RV_RESOLVED" by blast
  then show ?thesis by (cases "rv_status v") (auto simp: evaluate_rule_hitl_gate_def list_ex_iff filter_empty_conv)
qed

section \<open>What the service keeps\<close>

lemma get_pending_Inr:
  "get_pending_review db i = Inr v \<longleftrightarrow>
     find (\<lambda>v. rv_review_id v = i) (hitl_reviews db) = Some v \<and> rv_status v = RV_PENDING"
  by (auto simp: get_pending_review_def get_review_or_404_def bind_res_eq_Inr split: option.splits if_splits)

lemma find_SomeD: "find P xs = Some x \<Longrightarrow> x \<in> set xs \<and> P x"
  by (auto simp: find_Some_iff)

lemma review_unique:
  assumes "tables_ok db" "v \<in> set (hitl_reviews db)" "w \<in> set (hitl_reviews db)" "rv_id w = rv_id v" shows "w = v"
  using assms by (metis distinct_map inj_onD reviews_ok_def tables_ok_def)

lemma rule_unique:
  assumes "tables_ok db" "r \<in> set (compiled_rules db)" "q \<in> set (compiled_rules db)" "row_id q = row_id r" shows "q = r"
proof -
  from assms(1) have "inj_on row_id (set (compiled_rules db))" by (simp add: tables_ok_def rules_ok_def distinct_map)
  then show ?thesis by (rule inj_onD) (use assms(2-4) in simp_all)
qed

lemma db_ok_approve_circular: "db_ok db \<Longrightarrow> db_ok (approve_circular subject now v db)"
  by (auto simp: approve_circular_def Let_def circular_checks_def split: option.splits prod.splits
      intro!: db_ok_transitions db_ok_circulars)

lemma db_ok_fail_circular: "db_ok db \<Longrightarrow> db_ok (fail_circular subject now v db)"
  by (auto simp: fail_circular_def Let_def circular_checks_def split: option.splits prod.splits
      intro!: db_ok_transitions db_ok_circulars)

text \<open>A resolution other than approval: the rule of the review is switched off first.\<close>

lemma db_ok_resolve:
  assumes "db_ok db" and "st \<in> {RV_RESOLVED, RV_REJECTED, RV_REVISION_REQUIRED}"
    and "\<And>v. g v \<in> {rv_compiled_rule_id v, None}"
    and "\<And>v r. v \<in> set (hitl_reviews db) \<Longrightarrow> rv_id v = i \<Longrightarrow> r \<in> set (compiled_rules db) \<Longrightarrow> is_active r
      \<Longrightarrow> rv_compiled_rule_id v = Some (row_id r) \<Longrightarrow> st = RV_RESOLVED"
  shows "db_ok (set_review i (\<lambda>v. (resolve_row subject note now st v)\<lparr>rv_compiled_rule_id := g v\<rparr>) db)"
proof (rule db_ok_reviews [OF assms(1)])
  fix v r
  assume *: "v \<in> set (hitl_reviews db)" "rv_id v = i" "r \<in> set (compiled_rules db)" "is_active r"
    "rv_compiled_rule_id (resolve_row subject note now st v\<lparr>rv_compiled_rule_id := g v\<rparr>) = Some (row_id r)"
  then have "rv_compiled_rule_id v = Some (row_id r)" using assms(3) [of v] by auto
  with * assms(4) show "rv_status (resolve_row subject note now st v\<lparr>rv_compiled_rule_id := g v\<rparr>) = RV_RESOLVED"
    by (auto simp: resolve_row_def)
next
  fix v
  show "rv_id (resolve_row subject note now st v\<lparr>rv_compiled_rule_id := g v\<rparr>) = rv_id v \<and>
      rv_review_id (resolve_row subject note now st v\<lparr>rv_compiled_rule_id := g v\<rparr>) = rv_review_id v \<and>
      rv_tenant_id (resolve_row subject note now st v\<lparr>rv_compiled_rule_id := g v\<rparr>) = rv_tenant_id v \<and>
      rv_clause_id (resolve_row subject note now st v\<lparr>rv_compiled_rule_id := g v\<rparr>) = rv_clause_id v \<and>
      set_option (rv_compiled_rule_id (resolve_row subject note now st v\<lparr>rv_compiled_rule_id := g v\<rparr>)) \<subseteq> set_option (rv_compiled_rule_id v)"
    using assms(3) [of v] by (auto simp: resolve_row_def)
qed (use assms(2) in \<open>auto simp: resolve_row_def terminal_review_def\<close>)

lemma db_ok_rule_off:
  assumes "db_ok db"
    and "\<And>r. keeps_rule_key r (f r)" "\<And>r. \<not> is_active (f r)"
  shows "db_ok (set_rule i f db)" "\<And>r. r \<in> set (compiled_rules (set_rule i f db)) \<Longrightarrow> is_active r \<Longrightarrow> row_id r \<noteq> i"
proof -
  show "db_ok (set_rule i f db)" using assms(2) by (intro db_ok_rules [OF assms(1)])
  fix r assume "r \<in> set (compiled_rules (set_rule i f db))" "is_active r"
  with assms(3) show "row_id r \<noteq> i" by (auto simp: set_update_rows split: if_splits) metis
qed

lemma db_ok_activate:
  assumes ok: "db_ok db" and r: "r \<in> set (compiled_rules db)"
    and gate: "\<forall>v\<in>set (reviews_of_rule db (row_id r)). rv_status v = RV_RESOLVED"
  shows "db_ok (activate_rule r db)"
proof -
  let ?off = "update_rows (\<lambda>q. row_rule_id q = row_rule_id r \<and> row_id q \<noteq> row_id r) (\<lambda>q. q\<lparr>is_active := False\<rparr>) (compiled_rules db)"
  let ?on = "update_rows (\<lambda>q. row_id q = row_id r) (\<lambda>q. q\<lparr>is_active := True, rr_hitl_status := HS_RESOLVED\<rparr>) ?off"
  have ok1: "db_ok (db\<lparr>compiled_rules := ?off\<rparr>)" by (rule db_ok_rules [OF ok]) (simp add: keeps_rule_key_def)
  have same: "q = r" if "q \<in> set (compiled_rules db)" "row_id q = row_id r" for q
    using rule_unique ok r that by (auto simp: db_ok_def)
  have act: "row_id q = row_id r" if "q \<in> set ?on" "is_active q" "row_rule_id q = row_rule_id r" for q
    using that(1)
  proof (rule update_rowsE)
    assume "q \<in> set ?off"
    then show ?thesis by (rule update_rowsE) (use that in simp_all)
  qed simp
  have "distinct (map (\<lambda>q. (row_rule_id q, rr_tenant_id q)) (filter is_active ?on))"
  proof -
    have "distinct (map row_id ?on)" using ok by (simp add: map_update_rows db_ok_def tables_ok_def rules_ok_def)
    then have "distinct (map row_id (filter is_active ?on))" by (rule distinct_map_filter)
    moreover have "inj_on (\<lambda>q. (row_rule_id q, rr_tenant_id q)) (set (filter is_active ?on))"
    proof (rule inj_onI)
      fix x y assume xy: "x \<in> set (filter is_active ?on)" "y \<in> set (filter is_active ?on)"
        "(row_rule_id x, rr_tenant_id x) = (row_rule_id y, rr_tenant_id y)"
      show "x = y"
      proof (cases "row_rule_id x = row_rule_id r")
        case True
        moreover from True xy(3) have "row_rule_id y = row_rule_id r" by simp
        ultimately have "row_id x = row_id y" using act [of x] act [of y] xy(1,2) by (simp only: set_filter mem_Collect_eq)
        from \<open>distinct (map row_id ?on)\<close> have "inj_on row_id (set ?on)" by (simp add: distinct_map)
        then show ?thesis using \<open>row_id x = row_id y\<close> by (rule inj_onD) (use xy in simp_all)
      next
        case False
        have old: "z \<in> set (filter is_active (compiled_rules db))" if z: "z \<in> set ?on" "is_active z" "row_rule_id z \<noteq> row_rule_id r" for z
          using z(1)
        proof (rule update_rowsE)
          fix q assume q: "q \<in> set ?off" "row_id q = row_id r" "z = q\<lparr>is_active := True, rr_hitl_status := HS_RESOLVED\<rparr>"
          from q(1) have "row_rule_id q = row_rule_id r" by (rule update_rowsE) (use same q(2) in auto)
          with q(3) z(3) show ?thesis by simp
        next
          assume "z \<in> set ?off"
          then show ?thesis by (rule update_rowsE) (use z in simp_all)
        qed
        from ok have "inj_on (\<lambda>q. (row_rule_id q, rr_tenant_id q)) (set (filter is_active (compiled_rules db)))"
          by (simp add: db_ok_def tables_ok_def rules_ok_def distinct_map)
        then show ?thesis using xy(3) by (rule inj_onD) (use old xy False in simp_all)
      qed
    qed
    ultimately show ?thesis by (simp add: distinct_map distinct_filter)
  qed
  then have "tables_ok (activate_rule r db)"
    using ok1 by (auto simp: activate_rule_def tables_defs map_update_rows image_update_rows ball_update_rows)
  moreover have "gate_kept (activate_rule r db)"
    unfolding gate_kept_def
  proof (intro ballI impI)
    fix q v assume q: "q \<in> set (compiled_rules (activate_rule r db))" "is_active q" "v \<in> set (reviews_of_rule (activate_rule r db) (row_id q))"
    show "rv_status v = RV_RESOLVED"
    proof (cases "row_id q = row_id r")
      case True
      with q(3) gate show ?thesis by (simp add: activate_rule_def reviews_of_rule_def)
    next
      case False
      from q(1) False have "q \<in> set ?off" by (auto simp: activate_rule_def elim!: update_rowsE)
      then have "q \<in> set (compiled_rules db)" by (rule update_rowsE) (use q(2) in simp_all)
      with q(2,3) ok show ?thesis by (simp add: db_ok_def gate_kept_def activate_rule_def reviews_of_rule_def)
    qed
  qed
  ultimately show ?thesis by (simp add: db_ok_def)
qed

lemma resolve_row_keep: "resolve_row subject note now st v = (resolve_row subject note now st v)\<lparr>rv_compiled_rule_id := rv_compiled_rule_id v\<rparr>"
  by (simp add: resolve_row_def)

lemma db_ok_approve_rule:
  assumes ok: "db_ok db" and r: "get_rule db i = Some r" and v: "v \<in> set (hitl_reviews db)" "rv_compiled_rule_id v = Some i"
  shows "db_ok (fst (approve_rule H subject note now v r db))"
proof -
  let ?h = "policy_hash_of H r"
  let ?f = "\<lambda>w. resolve_row subject note now RV_RESOLVED w\<lparr>rv_approved_rule_version := Some (row_rule_version r), rv_approved_policy_sha256 := ?h\<rparr>"
  define db1 where "db1 = set_review (rv_id v) ?f db"
  define db2 where "db2 = set_rule (row_id r) (\<lambda>q. q\<lparr>rr_policy_sha256 := ?h\<rparr>) db1"
  have "db_ok db1" unfolding db1_def
    by (rule db_ok_reviews [OF ok]) (auto simp: resolve_row_def terminal_review_def)
  then have ok2: "db_ok db2" unfolding db2_def by (rule db_ok_rules) (simp add: keeps_rule_key_def)
  have "r \<in> set (compiled_rules db1)" using r by (auto simp: db1_def get_rule_def dest: find_SomeD)
  then have r2: "r\<lparr>rr_policy_sha256 := ?h\<rparr> \<in> set (compiled_rules db2)" by (force simp: db2_def set_update_rows)
  have same: "activate_rule r db2 = activate_rule (r\<lparr>rr_policy_sha256 := ?h\<rparr>) db2" by (simp add: activate_rule_def)
  let ?gate = "evaluate_rule_hitl_gate (reviews_of_rule db2 (row_id r))"
  have step: "approve_rule H subject note now v r db = (if fst ?gate then (activate_rule r db2, True)
      else (set_rule (row_id r) (\<lambda>q. q\<lparr>is_active := False, rr_hitl_status := snd ?gate\<rparr>) db2, False))"
    unfolding approve_rule_def Let_def db1_def db2_def by (rule refl)
  show ?thesis
  proof (cases "fst ?gate")
    case True
    then have "db_ok (activate_rule r db2)" unfolding same by (intro db_ok_activate [OF ok2 r2]) (simp add: gate_iff)
    with True show ?thesis by (simp add: step)
  next
    case False
    have "db_ok (set_rule (row_id r) (\<lambda>q. q\<lparr>is_active := False, rr_hitl_status := s\<rparr>) db2)" for s
      by (rule db_ok_rule_off [OF ok2]) (simp_all add: keeps_rule_key_def)
    with False show ?thesis by (simp add: step)
  qed
qed

lemma db_ok_approve:
  assumes "db_ok (fst st)"
  shows "db_ok (fst (fst (approve_review H pub key up i subject note now st)))"
proof (cases "get_pending_review (fst st) i")
  case (Inr v)
  then have v: "v \<in> set (hitl_reviews (fst st))" by (auto simp: get_pending_Inr dest: find_SomeD)
  show ?thesis
  proof (cases "rv_compiled_rule_id v")
    case None
    have "db_ok (set_review (rv_id v) (resolve_row subject note now RV_RESOLVED) (fst st))"
      by (rule db_ok_reviews [OF assms]) (auto simp: resolve_row_def terminal_review_def)
    with Inr None show ?thesis by (simp add: approve_review_def Let_def db_ok_approve_circular)
  next
    case (Some k)
    show ?thesis
    proof (cases "get_rule (fst st) k")
      case r: (Some r)
      show ?thesis using db_ok_approve_circular [OF db_ok_approve_rule [OF assms r v Some], of subject now v H subject "note" now] Inr Some r
        by (auto simp: approve_review_def Let_def split: prod.splits)
    qed (use Inr Some assms in \<open>simp add: approve_review_def Let_def\<close>)
  qed
qed (use assms in \<open>simp add: approve_review_def Let_def\<close>)

text \<open>Switching the rule of a review off, then closing the review with any verdict.\<close>

lemma db_ok_refuse:
  assumes ok: "db_ok db" and v: "v \<in> set (hitl_reviews db)" and st: "st \<in> {RV_REJECTED, RV_REVISION_REQUIRED}"
    and f: "\<And>r. keeps_rule_key r (f r)" "\<And>r. \<not> is_active (f r)" and g: "\<And>w. g w \<in> {rv_compiled_rule_id w, None}"
  shows "db_ok (set_review (rv_id v) (\<lambda>w. (resolve_row subject note now st w)\<lparr>rv_compiled_rule_id := g w\<rparr>)
    (case rv_compiled_rule_id v of None \<Rightarrow> db | Some i \<Rightarrow> set_rule i f db))"
proof -
  have same: "w = v" if "w \<in> set (hitl_reviews db)" "rv_id w = rv_id v" for w
    using review_unique ok v that by (auto simp: db_ok_def)
  show ?thesis
  proof (cases "rv_compiled_rule_id v")
    case None
    show ?thesis unfolding None option.case by (rule db_ok_resolve [OF ok]) (use st g in \<open>auto dest: same simp: None\<close>)
  next
    case (Some i)
    show ?thesis unfolding Some option.case
    proof (rule db_ok_resolve [OF db_ok_rule_off(1) [OF ok f]])
      fix w r assume w: "w \<in> set (hitl_reviews (set_rule i f db))" "rv_id w = rv_id v"
        and r: "r \<in> set (compiled_rules (set_rule i f db))" "is_active r" "rv_compiled_rule_id w = Some (row_id r)"
      from same w have "w = v" by simp
      with r(3) Some db_ok_rule_off(2) [OF ok f r(1,2)] show "st = RV_RESOLVED" by simp
    qed (use st g in auto)
  qed
qed

lemma db_ok_reject:
  assumes "db_ok db" "reject_review i subject note now db = Inr db'" shows "db_ok db'"
proof -
  let ?off = "\<lambda>r. r\<lparr>is_active := False, rr_hitl_status := HS_BLOCKING\<rparr>"
  from assms(2) obtain v where v: "get_pending_review db i = Inr v" by (auto simp: reject_review_def bind_res_eq_Inr)
  then have "v \<in> set (hitl_reviews db)" by (auto simp: get_pending_Inr dest: find_SomeD)
  note db_ok_refuse [OF assms(1) this, of RV_REJECTED ?off rv_compiled_rule_id subject "note" now]
  then have "db_ok (set_review (rv_id v) (resolve_row subject note now RV_REJECTED)
      (case rv_compiled_rule_id v of None \<Rightarrow> db | Some i \<Rightarrow> set_rule i ?off db))"
    by (simp add: keeps_rule_key_def flip: resolve_row_keep)
  then show ?thesis using assms(2) v by (auto simp: reject_review_def Let_def intro: db_ok_fail_circular)
qed

lemma db_ok_revision:
  assumes "db_ok db" "request_revision i subject note now db = Inr db'" shows "db_ok db'"
proof -
  let ?off = "\<lambda>r. r\<lparr>is_active := False, rr_hitl_status := HS_BLOCKING, is_compiled := False\<rparr>"
  from assms(2) obtain v where v: "get_pending_review db i = Inr v" by (auto simp: request_revision_def bind_res_eq_Inr)
  then have "v \<in> set (hitl_reviews db)" by (auto simp: get_pending_Inr dest: find_SomeD)
  note db_ok_refuse [OF assms(1) this, of RV_REVISION_REQUIRED ?off "\<lambda>_. None" subject "note" now]
  then have "db_ok (set_review (rv_id v) (\<lambda>w. (resolve_row subject note now RV_REVISION_REQUIRED w)\<lparr>rv_compiled_rule_id := None\<rparr>)
      (case rv_compiled_rule_id v of None \<Rightarrow> db | Some i \<Rightarrow> set_rule i ?off db))"
    by (simp add: keeps_rule_key_def)
  then show ?thesis using assms(2) v
    by (auto simp: request_revision_def Let_def split: option.splits prod.splits if_splits)
qed

end
