(* ===== verification/Doc_Hashing.thy ===== *)
theory Doc_Hashing
  imports Py_Text
begin

text \<open>
  Digests of documents and clauses, \<open>app/parsing/hashing.py\<close>. The Unicode
  normalisation NFKC and SHA-256 are arguments; the rest of the
  canonicalisation is \<open>str.split\<close> and \<open>str.join\<close>.
\<close>

text \<open>Python's \<open>s.split()\<close> with no separator: the maximal runs of characters that are not white space.\<close>

fun split_ws_from :: "string \<Rightarrow> string \<Rightarrow> string list" where
  "split_ws_from acc [] = (if acc = [] then [] else [rev acc])"
| "split_ws_from acc (c # cs) =
     (if is_space c then (if acc = [] then split_ws_from [] cs else rev acc # split_ws_from [] cs)
      else split_ws_from (c # acc) cs)"

definition split_ws :: "string \<Rightarrow> string list" where
  "split_ws s = split_ws_from [] s"

definition canonicalize :: "(string \<Rightarrow> string) \<Rightarrow> string \<Rightarrow> string" where
  "canonicalize nfkc s = join '' '' (split_ws (nfkc s))"

definition sha256_of_text :: "(string \<Rightarrow> string) \<Rightarrow> (string \<Rightarrow> string) \<Rightarrow> string \<Rightarrow> string" where
  "sha256_of_text H nfkc s = H (canonicalize nfkc s)"

definition clause_payload :: "(string \<Rightarrow> string) \<Rightarrow> string option \<Rightarrow> string option \<Rightarrow> string \<Rightarrow> string" where
  "clause_payload nfkc circular clause s =
     join [CHR 0x1F] [case circular of None \<Rightarrow> [] | Some x \<Rightarrow> x, case clause of None \<Rightarrow> [] | Some x \<Rightarrow> x, canonicalize nfkc s]"

definition sha256_of_clause ::
  "(string \<Rightarrow> string) \<Rightarrow> (string \<Rightarrow> string) \<Rightarrow> string option \<Rightarrow> string option \<Rightarrow> string \<Rightarrow> string" where
  "sha256_of_clause H nfkc circular clause s = H (clause_payload nfkc circular clause s)"

section \<open>Canonical text\<close>

lemma split_ws_from_words:
  "list_all (\<lambda>c. \<not> is_space c) acc \<Longrightarrow> list_all (\<lambda>w. w \<noteq> [] \<and> list_all (\<lambda>c. \<not> is_space c) w) (split_ws_from acc s)"
  by (induction s arbitrary: acc) (simp_all add: list_all_rev)

lemma split_ws_words: "w \<in> set (split_ws s) \<Longrightarrow> w \<noteq> [] \<and> (\<forall>c\<in>set w. \<not> is_space c)"
  using split_ws_from_words [of "[]" s] by (simp add: split_ws_def list_all_iff)

lemma split_ws_from_word: "\<forall>c\<in>set w. \<not> is_space c \<Longrightarrow> split_ws_from acc (w @ s) = split_ws_from (rev w @ acc) s"
  by (induction w arbitrary: acc) simp_all

lemma split_ws_join:
  "\<forall>w\<in>set ws. w \<noteq> [] \<and> (\<forall>c\<in>set w. \<not> is_space c) \<Longrightarrow> split_ws (join '' '' ws) = ws"
proof (induction ws rule: induct_list012)
  case (2 w)
  then show ?case using split_ws_from_word [of w "[]" "[]"] by (simp add: split_ws_def)
next
  case (3 w v vs)
  have "is_space (CHR '' '')" by (simp add: is_space_def)
  with 3 show ?case using split_ws_from_word [of w "[]" "'' '' @ join '' '' (v # vs)"] by (simp add: split_ws_def)
qed (simp add: split_ws_def)

lemma set_join: "set (join d ws) \<subseteq> set d \<union> \<Union> (set ` set ws)"
  by (induction d ws rule: join.induct) auto

text \<open>The separator of the clause payload is white space, so canonical text never contains it.\<close>

lemma canonical_no_separator: "CHR 0x1F \<notin> set (canonicalize nfkc s)"
proof
  assume "CHR 0x1F \<in> set (canonicalize nfkc s)"
  with set_join [of "'' ''" "split_ws (nfkc s)"] obtain w where "w \<in> set (split_ws (nfkc s))" "CHR 0x1F \<in> set w"
    by (auto simp: canonicalize_def)
  then have "\<not> is_space (CHR 0x1F)" using split_ws_words by blast
  then show False by (simp add: is_space_def)
qed

text \<open>
  Canonical text is a fixed point: on text that normalisation leaves
  alone, canonicalising what was canonicalised changes nothing, so a clause read
  back from its stored canonical form has the digest it was stored under.
\<close>

theorem canonicalize_idempotent:
  assumes "\<And>x. nfkc (canonicalize nfkc x) = canonicalize nfkc x"
  shows "sha256_of_text H nfkc (canonicalize nfkc s) = sha256_of_text H nfkc s"
proof -
  have "canonicalize nfkc (canonicalize nfkc s) = canonicalize nfkc s"
    unfolding canonicalize_def [of nfkc "canonicalize nfkc s"] assms
    using split_ws_join [of "split_ws (nfkc s)"] split_ws_words by (fastforce simp: canonicalize_def)
  then show ?thesis by (simp add: sha256_of_text_def)
qed

theorem canonicalize_idempotent_witness:
  "sha256_of_text id id (canonicalize id ''a  b '') = sha256_of_text id id ''a  b '' \<and> canonicalize id ''a  b '' = ''a b''"
  using canonicalize_idempotent [of id id "''a  b ''"] split_ws_join split_ws_words
  by (auto simp: canonicalize_def split_ws_def is_space_def)

lemma split_payload:
  assumes "CHR 0x1F \<notin> set a" "CHR 0x1F \<notin> set b" "CHR 0x1F \<notin> set c"
  shows "split_char (CHR 0x1F) (join [CHR 0x1F] [a, b, c]) = [a, b, c]"
  using assms by (simp add: split_char_append split_char_notin)

text \<open>
  The clause digest separates clauses: with a collision-free hash and
  circular and clause numbers free of the unit separator, equal digests mean
  the same circular number, the same clause number and the same canonical text
  (a missing number counting as the empty one).
\<close>

theorem clause_digest_separates:
  assumes "inj H" and "sha256_of_clause H nfkc a b s = sha256_of_clause H nfkc a' b' s'"
    and "\<forall>x\<in>set_option a \<union> set_option b \<union> set_option a' \<union> set_option b'. CHR 0x1F \<notin> set x"
  shows "case_option [] id a = case_option [] id a' \<and> case_option [] id b = case_option [] id b'
    \<and> canonicalize nfkc s = canonicalize nfkc s'"
proof -
  have split: "split_char (CHR 0x1F) (clause_payload nfkc c d t) = [case_option [] id c, case_option [] id d, canonicalize nfkc t]"
    if "\<forall>x\<in>set_option c \<union> set_option d. CHR 0x1F \<notin> set x" for c d t
    using that canonical_no_separator split_payload by (auto simp: clause_payload_def id_def split: option.splits)
  from assms(1,2) have "clause_payload nfkc a b s = clause_payload nfkc a' b' s'"
    by (simp add: sha256_of_clause_def inj_eq)
  with split [of a b s] split [of a' b' s'] assms(3) show ?thesis by simp
qed

theorem clause_digest_separates_witness:
  "canonicalize id ''x  y'' = canonicalize id ''x y''"
  using clause_digest_separates [of id id "Some ''C1''" None "''x  y''" "Some ''C1''" "Some []" "''x y''"]
  by (simp add: sha256_of_clause_def clause_payload_def canonicalize_def split_ws_def is_space_def)

end
