(* ===== verification/Orchestrator.thy ===== *)
theory Orchestrator
  imports Hitl_Service Doc_Hashing
begin

text \<open>
  The ingestion pipeline, \<open>app/services/orchestrator.py\<close>: a parsed circular is
  stored, its clauses extracted, compiled and given reviews, with a commit after
  each stage. A function that commits returns the tables it leaves behind
  together with its result; a function inside one transaction returns new tables
  or raises. What lies outside (the language models behind the extraction, the
  PDF parser, hashing, UTF-8 decoding, identifiers, texts of exceptions and
  flags) is collected in an environment. The sweeper of
  \<open>app/services/stale_state_reaper.py\<close> is at the end.
\<close>

section \<open>Inputs and environment\<close>

record ClauseChunk =
  chunk_id :: string
  ch_sha256 :: string
  ch_text :: string
  ch_clause_number :: "string option"
  ch_section_path :: "string list"
  ch_section_title :: "string option"
  ch_page_start :: "int option"
  ch_page_end :: "int option"
  ch_contains_table :: bool

record CircularMetadata =
  me_circular_number :: "string option"
  me_title :: "string option"
  me_source_url :: "string option"
  me_source_filename :: "string option"
  me_source_retrieved_at :: "time option"
  me_department :: "string option"

record ParseResult =
  pa_metadata :: CircularMetadata
  pa_chunks :: "ClauseChunk list"
  pa_source_document_sha256 :: "string option"
  pa_extracted_text_sha256 :: "string option"

record sibling =
  sb_chunk_id :: string
  sb_clause_number :: "string option"
  sb_section_path :: "string list"
  sb_text :: string

record orch_env =
  oe_parse :: "string \<Rightarrow> string option \<Rightarrow> ParseResult result"
  oe_extract :: "ClauseChunk \<Rightarrow> sibling list \<Rightarrow> AuditedComplianceRule result"
  oe_sha256 :: "string \<Rightarrow> string"
  oe_nfkc :: "string \<Rightarrow> string"
  oe_decode :: "string \<Rightarrow> string"
  oe_float_repr :: "rat \<Rightarrow> string"
  oe_uuid :: "int \<Rightarrow> string"
  oe_describe :: "HITLFlag \<Rightarrow> string"
  oe_str :: "exc \<Rightarrow> string"
  oe_type_name :: "exc \<Rightarrow> string"
  oe_now_iso :: string
  oe_now :: time

definition or_str :: "string option \<Rightarrow> string option \<Rightarrow> string option" where
  "or_str a b = (if truthy_str a then a else b)"

definition is_failed_id :: "string \<Rightarrow> bool" where
  "is_failed_id i \<longleftrightarrow> startswith i ''RULE-FAILED-''"

section \<open>Ingestion\<close>

definition ensure_baseline_tenant :: "string \<Rightarrow> reg_db \<Rightarrow> reg_db" where
  "ensure_baseline_tenant tenant db =
     (if tenant \<in> tenant_ids db then db
      else db\<lparr>tenants := tenants db @
        [\<lparr>te_tenant_id = tenant, te_display_name = ''SEBI Baseline / Shared Regulatory Corpus'',
          te_tenant_type = ''stockbroker'', te_is_active = True, te_opa_bundle_prefix = ''baseline''\<rparr>]\<rparr>)"

text \<open>\<open>Path(s).name\<close> of a POSIX path.\<close>

definition path_name :: "string \<Rightarrow> string" where
  "path_name s = (case rev (filter (\<lambda>p. p \<noteq> [] \<and> p \<noteq> ''.'') (split_char (CHR ''/'') s)) of [] \<Rightarrow> [] | p # _ \<Rightarrow> p)"

definition valid_url :: "string option \<Rightarrow> string option" where
  "valid_url u = (case u of
      None \<Rightarrow> None
    | Some s \<Rightarrow> if startswith s ''http://'' \<or> startswith s ''https://'' \<or> startswith s ''ftp://'' then Some s else None)"

text \<open>What a second ingestion fills in of the stored row.\<close>

definition fill_circular :: "Circular \<Rightarrow> Circular \<Rightarrow> Circular" where
  "fill_circular new c =
     (let d = c\<lparr>ci_source_document_sha256 :=
                  (if ci_source_document_sha256 c = None \<and> truthy_str (ci_source_document_sha256 new)
                   then ci_source_document_sha256 new else ci_source_document_sha256 c),
                ci_source_filename :=
                  (if ci_source_filename c = None \<and> truthy_str (ci_source_filename new) then ci_source_filename new else ci_source_filename c),
                ci_source_url := (if ci_source_url c = None \<and> truthy_str (ci_source_url new) then ci_source_url new else ci_source_url c),
                ci_source_retrieved_at :=
                  (if ci_source_retrieved_at c = None then ci_source_retrieved_at new else ci_source_retrieved_at c)\<rparr>
      in if d = c then c else d\<lparr>ci_updated_at := ci_updated_at new\<rparr>)"

definition upsert_circular :: "Circular \<Rightarrow> reg_db \<Rightarrow> (reg_db \<times> Circular) result" where
  "upsert_circular new db =
     bind_res (scalar_one_or_none (filter (\<lambda>c. ci_circular_number c = ci_circular_number new
         \<or> ci_raw_text_digest c = ci_raw_text_digest new
         \<or> ci_source_document_sha256 c = ci_source_document_sha256 new) (circulars db))) (\<lambda>existing.
     case existing of
       None \<Rightarrow> insert_circular new db
     | Some c \<Rightarrow>
         if \<not> circular_checks (fill_circular new c) then raise IntegrityError
         else Inr (set_circular (ci_id c) (\<lambda>_. fill_circular new c) db, fill_circular new c))"

definition persist_circular ::
  "orch_env \<Rightarrow> ParseResult \<Rightarrow> string \<Rightarrow> string option \<Rightarrow> string \<Rightarrow> string option \<Rightarrow> time option \<Rightarrow> reg_db \<Rightarrow> (reg_db \<times> Circular) result" where
  "persist_circular env parsed bytes filename tenant source_url retrieved_at db =
     (let me = pa_metadata parsed;
          sha = (if truthy_str (pa_source_document_sha256 parsed) then the (pa_source_document_sha256 parsed) else oe_sha256 env bytes);
          combined = (if pa_chunks parsed \<noteq> [] then join [CHR 0x0A, CHR 0x0A] (map ch_text (pa_chunks parsed)) else oe_decode env bytes);
          digest = (if truthy_str (pa_extracted_text_sha256 parsed) then the (pa_extracted_text_sha256 parsed)
                    else sha256_of_text (oe_sha256 env) (oe_nfkc env) combined);
          number = (if truthy_str (me_circular_number me) then the (me_circular_number me)
                    else ''SEBI/CIR/'' @ map upper_char (take 10 digest));
          candidate = or_str filename (me_source_filename me);
          file = (if truthy_str candidate then map_option path_name candidate else None)
      in upsert_circular
           \<lparr>ci_id = 0, ci_tenant_id = tenant, ci_is_shared = True, ci_circular_number = number,
            ci_title = or_str (or_str (me_title me) file) (Some ''SEBI Circular''),
            ci_source_url = valid_url (or_str source_url (me_source_url me)), ci_source_filename = file,
            ci_source_retrieved_at = (case retrieved_at of None \<Rightarrow> me_source_retrieved_at me | Some t \<Rightarrow> Some t),
            ci_department = or_str (me_department me) (Some ''MRD''),
            ci_source_document_sha256 = Some sha, ci_raw_text_digest = digest,
            ci_processing_state = PS_INGESTED, ci_error_message = None, ci_updated_at = oe_now env\<rparr>
           (ensure_baseline_tenant tenant db))"

definition clause_sha :: "orch_env \<Rightarrow> ClauseChunk \<Rightarrow> string" where
  "clause_sha env ch = (if length (ch_sha256 ch) = 64 then ch_sha256 ch else oe_sha256 env (ch_text ch))"

definition persist_clause :: "orch_env \<Rightarrow> int \<Rightarrow> string \<Rightarrow> ClauseChunk \<Rightarrow> reg_db \<Rightarrow> (reg_db \<times> int) result" where
  "persist_clause env ci tenant ch db =
     (let sha = clause_sha env ch in
      bind_res (scalar_one_or_none (filter (\<lambda>c. cl_circular_id c = ci \<and> cl_sha256 c = sha) (clauses db))) (\<lambda>existing.
      case existing of
        Some c \<Rightarrow> Inr (db, cl_id c)
      | None \<Rightarrow>
          bind_res (insert_clause
            \<lparr>cl_id = 0, cl_circular_id = ci, cl_tenant_id = tenant, cl_clause_number = ch_clause_number ch,
             cl_section_title = ch_section_title ch, cl_section_path = ch_section_path ch, cl_text = ch_text ch, cl_sha256 = sha,
             cl_page_start = ch_page_start ch, cl_page_end = ch_page_end ch, cl_contains_table = ch_contains_table ch,
             cl_processing_status = CS_PENDING, cl_error_message = None\<rparr> db)
            (\<lambda>(db, c). Inr (db, cl_id c))))"

fun persist_clauses :: "orch_env \<Rightarrow> int \<Rightarrow> string \<Rightarrow> ClauseChunk list \<Rightarrow> reg_db \<Rightarrow> (reg_db \<times> int list) result" where
  "persist_clauses env ci tenant [] db = Inr (db, [])"
| "persist_clauses env ci tenant (ch # chs) db =
     bind_res (persist_clause env ci tenant ch db) (\<lambda>(db, i).
     bind_res (persist_clauses env ci tenant chs db) (\<lambda>(db, is). Inr (db, i # is)))"

section \<open>Extraction\<close>

definition sibling_of :: "ClauseChunk \<Rightarrow> sibling" where
  "sibling_of c = \<lparr>sb_chunk_id = chunk_id c, sb_clause_number = ch_clause_number c, sb_section_path = ch_section_path c, sb_text = ch_text c\<rparr>"

type_synonym extraction = "ClauseChunk \<times> AuditedComplianceRule result"

definition extract_and_audit_circular :: "orch_env \<Rightarrow> ClauseChunk list \<Rightarrow> sibling list \<Rightarrow> extraction list" where
  "extract_and_audit_circular env chunks siblings =
     (let siblings = (if siblings = [] then map sibling_of chunks else siblings);
          results = map (\<lambda>(i, c). (i, c, oe_extract env c siblings)) (enumerate 0 chunks)
      in map snd (sort_key fst results))"

section \<open>State transitions of a circular\<close>

fun allowed_transitions :: "ProcessingState \<Rightarrow> ProcessingState set" where
  "allowed_transitions PS_INGESTED = {PS_EXTRACTING, PS_FAILED}"
| "allowed_transitions PS_EXTRACTING = {PS_EXTRACTED, PS_FAILED}"
| "allowed_transitions PS_EXTRACTED = {PS_COMPILING, PS_FAILED}"
| "allowed_transitions PS_COMPILING = {PS_AWAITING_HITL, PS_APPROVED, PS_FAILED}"
| "allowed_transitions PS_AWAITING_HITL = {PS_APPROVED, PS_FAILED, PS_EXTRACTING}"
| "allowed_transitions PS_APPROVED = {PS_DEPLOYED, PS_AWAITING_HITL}"
| "allowed_transitions PS_DEPLOYED = {PS_AWAITING_HITL}"
| "allowed_transitions PS_FAILED = {PS_INGESTED, PS_EXTRACTING, PS_COMPILING}"

text \<open>A transition the table does not allow is logged and made all the same.\<close>

definition transition_circular_state :: "time \<Rightarrow> int \<Rightarrow> ProcessingState \<Rightarrow> string option \<Rightarrow> reg_db \<Rightarrow> reg_db" where
  "transition_circular_state now ci target err db =
     (case get_circular db ci of
        None \<Rightarrow> db
      | Some c \<Rightarrow>
          let msg = (case err of Some _ \<Rightarrow> err | None \<Rightarrow> if target \<noteq> PS_FAILED then None else ci_error_message c);
              c' = c\<lparr>ci_processing_state := target, ci_error_message := msg\<rparr>;
              c' = (if c' = c then c else c'\<lparr>ci_updated_at := now\<rparr>)
          in add_transition ci (ci_processing_state c) target ''orchestrator'' err (set_circular ci (\<lambda>_. c') db))"

section \<open>Rules and reviews of one clause\<close>

definition excerpt :: "Clause \<Rightarrow> string option" where
  "excerpt c = (if cl_text c = [] then None else Some (take 200 (cl_text c)))"

definition new_review ::
  "orch_env \<Rightarrow> Clause \<Rightarrow> int \<Rightarrow> string \<Rightarrow> HITLReasonCode \<Rightarrow> HITLSeverity \<Rightarrow> string \<Rightarrow> string option \<Rightarrow> string option
   \<Rightarrow> reg_db \<Rightarrow> reg_db result" where
  "new_review env c rid tenant reason sev desc excerpt_opt path db =
     bind_res (insert_review
       \<lparr>rv_id = 0, rv_review_id = oe_uuid env (next_key db), rv_clause_id = cl_id c, rv_compiled_rule_id = Some rid,
        rv_tenant_id = tenant, rv_reason_code = reason, rv_severity = sev, rv_description = desc, rv_source_excerpt = excerpt_opt,
        rv_field_path = path, rv_status = RV_PENDING, rv_compliance_officer_id = None, rv_resolution_notes = None,
        rv_resolved_at = None, rv_approved_rule_version = None, rv_approved_policy_sha256 = None\<rparr> db) (\<lambda>(db, _). Inr db)"

definition rules_of_clause :: "string \<Rightarrow> int \<Rightarrow> reg_db \<Rightarrow> RuleRow list" where
  "rules_of_clause i c db = filter (\<lambda>r. row_rule_id r = i \<and> rr_clause_id r = c) (compiled_rules db)"

definition failed_rule_id :: "Clause \<Rightarrow> ClauseChunk \<Rightarrow> string" where
  "failed_rule_id c ch = ''RULE-FAILED-'' @
     (if truthy_str (cl_clause_number c) then the (cl_clause_number c)
      else if chunk_id ch \<noteq> [] then chunk_id ch else int_str (cl_id c))"

definition store_failed_rule :: "Clause \<Rightarrow> string \<Rightarrow> string \<Rightarrow> reg_db \<Rightarrow> (reg_db \<times> int) result" where
  "store_failed_rule c i tenant db =
     bind_res (scalar_one_or_none (rules_of_clause i (cl_id c) db)) (\<lambda>existing.
     case existing of
       Some r \<Rightarrow> Inr (set_rule (row_id r) (\<lambda>q. q\<lparr>is_active := False, is_compiled := False, rr_hitl_status := HS_BLOCKING\<rparr>) db, row_id r)
     | None \<Rightarrow>
         bind_res (insert_rule
           \<lparr>row_id = 0, row_rule_id = i, row_rule_version = 1, rego_policy = None, opa_package_name = None,
            is_compiled = False, is_active = False, rr_clause_id = cl_id c, rr_tenant_id = tenant, jsonlogic_ast = None,
            rr_hitl_status = HS_BLOCKING, rr_policy_sha256 = None\<rparr> db) (\<lambda>(db, r). Inr (db, row_id r)))"

definition failure_text :: "orch_env \<Rightarrow> exc \<Rightarrow> string" where
  "failure_text env err = ''Automated clause extraction failed: '' @ oe_type_name env err @ '': '' @ oe_str env err
     @ ''. Manual compliance review required.''"

definition store_failed_review :: "orch_env \<Rightarrow> Clause \<Rightarrow> int \<Rightarrow> string \<Rightarrow> exc \<Rightarrow> reg_db \<Rightarrow> reg_db result" where
  "store_failed_review env c rid tenant err db =
     bind_res (scalar_one_or_none (filter (\<lambda>v. rv_clause_id v = cl_id c \<and> rv_compiled_rule_id v = Some rid
       \<and> rv_reason_code v = AUDIT_NOT_APPROVED) (hitl_reviews db))) (\<lambda>review.
     case review of
       Some v \<Rightarrow> Inr (set_review (rv_id v) (\<lambda>w. w\<lparr>rv_description := failure_text env err\<rparr>) db)
     | None \<Rightarrow> new_review env c rid tenant AUDIT_NOT_APPROVED BLOCKING (failure_text env err) (excerpt c) (Some ''deterministic_logic'') db)"

definition persist_failed_clause_rule ::
  "orch_env \<Rightarrow> Clause \<Rightarrow> ClauseChunk \<Rightarrow> exc \<Rightarrow> string \<Rightarrow> reg_db \<Rightarrow> reg_db result" where
  "persist_failed_clause_rule env c ch err tenant db =
     bind_res (store_failed_rule c (failed_rule_id c ch) tenant db) (\<lambda>(db, rid). store_failed_review env c rid tenant err db)"

definition flags_hitl_status :: "HITLFlag list \<Rightarrow> RuleHitlStatus" where
  "flags_hitl_status flags = (if has_blocking_flags flags then HS_BLOCKING else if flags \<noteq> [] then HS_ADVISORY else HS_NONE)"

definition store_artifact :: "orch_env \<Rightarrow> CompilationResult \<Rightarrow> RuleRow \<Rightarrow> RuleRow" where
  "store_artifact env comp_res r =
     r\<lparr>rego_policy := map_option rego_code (rego comp_res), opa_package_name := map_option cr_package (rego comp_res),
       jsonlogic_ast := map_option logic (json_logic comp_res), is_compiled := compiled comp_res, is_active := False,
       rr_hitl_status := flags_hitl_status (hitl_flags comp_res),
       rr_policy_sha256 := (case rego comp_res of
         None \<Rightarrow> None
       | Some g \<Rightarrow> if rego_code g \<noteq> [] then Some (oe_sha256 env (rego_code g)) else None)\<rparr>"

definition upsert_rule :: "orch_env \<Rightarrow> Clause \<Rightarrow> string \<Rightarrow> CompilationResult \<Rightarrow> string \<Rightarrow> reg_db \<Rightarrow> (reg_db \<times> int) result" where
  "upsert_rule env c i comp_res tenant db =
     bind_res (scalar_one_or_none (rules_of_clause i (cl_id c) db)) (\<lambda>existing.
     case existing of
       Some r \<Rightarrow> Inr (set_rule (row_id r) (store_artifact env comp_res) db, row_id r)
     | None \<Rightarrow>
         bind_res (insert_rule (store_artifact env comp_res
           \<lparr>row_id = 0, row_rule_id = i, row_rule_version = 1, rego_policy = None, opa_package_name = None, is_compiled = False,
            is_active = False, rr_clause_id = cl_id c, rr_tenant_id = tenant, jsonlogic_ast = None, rr_hitl_status = HS_NONE,
            rr_policy_sha256 = None\<rparr>) db) (\<lambda>(db, r). Inr (db, row_id r)))"

text \<open>A flag whose reason the rule already has a review for gets none.\<close>

fun add_flag_reviews :: "orch_env \<Rightarrow> Clause \<Rightarrow> int \<Rightarrow> string \<Rightarrow> HITLFlag list \<Rightarrow> reg_db \<Rightarrow> reg_db result" where
  "add_flag_reviews env c rid tenant [] db = Inr db"
| "add_flag_reviews env c rid tenant (f # fs) db =
     (if reason_code f \<in> rv_reason_code ` set (reviews_of_rule db rid) then add_flag_reviews env c rid tenant fs db
      else bind_res (new_review env c rid tenant (reason_code f) (hf_severity f) (oe_describe env f)
             (hf_source_excerpt f) (hf_field_path f) db)
           (add_flag_reviews env c rid tenant fs))"

definition add_reviews :: "orch_env \<Rightarrow> Clause \<Rightarrow> int \<Rightarrow> string \<Rightarrow> string \<Rightarrow> HITLFlag list \<Rightarrow> reg_db \<Rightarrow> reg_db result" where
  "add_reviews env c rid i tenant flags db =
     (if flags \<noteq> [] then add_flag_reviews env c rid tenant flags db
      else if reviews_of_rule db rid = [] then
        new_review env c rid tenant LOW_EXTRACTION_CONFIDENCE BLOCKING
          (''Initial compliance sign-off required for compiled rule '' @ i) (excerpt c) (Some ''deterministic_logic'') db
      else Inr db)"

definition final_hitl_status :: "HITLFlag list \<Rightarrow> HITLReview list \<Rightarrow> RuleHitlStatus" where
  "final_hitl_status flags vs =
     (if has_blocking_flags flags \<or> list_ex (\<lambda>v. rv_severity v = BLOCKING \<and> rv_status v \<noteq> RV_RESOLVED) vs then HS_BLOCKING
      else if flags \<noteq> [] \<or> list_ex (\<lambda>v. rv_severity v = ADVISORY \<and> rv_status v \<noteq> RV_RESOLVED) vs then HS_ADVISORY
      else if list_ex (\<lambda>v. rv_status v = RV_RESOLVED) vs then HS_RESOLVED else HS_NONE)"

definition compile_and_persist_rules ::
  "orch_env \<Rightarrow> Clause \<Rightarrow> AuditedComplianceRule \<Rightarrow> string \<Rightarrow> reg_db \<Rightarrow> reg_db result" where
  "compile_and_persist_rules env c audited tenant db =
     (let db = delete_rules (\<lambda>r. rr_clause_id r = cl_id c \<and> is_failed_id (row_rule_id r)) db;
          i = rule_id (rule audited)
      in bind_res (compile_audited_rule (oe_sha256 env) (oe_float_repr env) (oe_now_iso env) audited 1) (\<lambda>comp_res.
         bind_res (upsert_rule env c i comp_res tenant db) (\<lambda>(db, rid).
         bind_res (add_reviews env c rid i tenant (hitl_flags comp_res) db) (\<lambda>db.
         Inr (set_rule rid (\<lambda>r. r\<lparr>rr_hitl_status := final_hitl_status (hitl_flags comp_res) (reviews_of_rule db rid)\<rparr>) db)))))"

section \<open>The result handed back\<close>

record ProcessE2EResult =
  pr_circular_id :: int
  pr_circular_number :: string
  pr_source_url :: "string option"
  pr_source_filename :: "string option"
  pr_source_retrieved_at :: "time option"
  pr_source_document_sha256 :: string
  pr_extracted_text_sha256 :: string
  pr_document_hash :: string
  pr_clause_count :: nat
  pr_rules_compiled :: nat
  pr_review_count :: nat
  pr_status :: string
  pr_processing_state :: ProcessingState
  pr_reviews :: "string list"
  pr_compiled_rule_ids :: "string list"

definition rules_in :: "int list \<Rightarrow> reg_db \<Rightarrow> RuleRow list" where
  "rules_in ids db = filter (\<lambda>r. rr_clause_id r \<in> set ids) (compiled_rules db)"

definition reviews_in :: "int list \<Rightarrow> reg_db \<Rightarrow> HITLReview list" where
  "reviews_in ids db = filter (\<lambda>v. rv_clause_id v \<in> set ids) (hitl_reviews db)"

definition really_compiled :: "RuleRow \<Rightarrow> bool" where
  "really_compiled r \<longleftrightarrow> is_compiled r \<and> \<not> is_failed_id (row_rule_id r)"

definition build_process_result :: "Circular \<Rightarrow> int list \<Rightarrow> reg_db \<Rightarrow> ProcessE2EResult" where
  "build_process_result c ids db =
     (let rules = rules_in ids db; vs = reviews_in ids db in
      \<lparr>pr_circular_id = ci_id c, pr_circular_number = ci_circular_number c, pr_source_url = ci_source_url c,
       pr_source_filename = ci_source_filename c, pr_source_retrieved_at = ci_source_retrieved_at c,
       pr_source_document_sha256 = (case ci_source_document_sha256 c of None \<Rightarrow> [] | Some h \<Rightarrow> h),
       pr_extracted_text_sha256 = ci_raw_text_digest c,
       pr_document_hash = (if truthy_str (ci_source_document_sha256 c) then the (ci_source_document_sha256 c) else ci_raw_text_digest c),
       pr_clause_count = length ids,
       pr_rules_compiled = length (filter really_compiled rules),
       pr_review_count = length vs,
       pr_status = (if ci_processing_state c = PS_DEPLOYED then ''deployed''
                    else if ci_processing_state c = PS_FAILED then ''failed''
                    else if vs \<noteq> [] then ''review_required'' else ''approved''),
       pr_processing_state = ci_processing_state c,
       pr_reviews = map rv_review_id vs, pr_compiled_rule_ids = map row_rule_id rules\<rparr>)"

section \<open>The stages\<close>

definition completed_clauses :: "int list \<Rightarrow> reg_db \<Rightarrow> int list" where
  "completed_clauses ids db = filter (\<lambda>i. list_ex (\<lambda>r. rr_clause_id r = i \<and> really_compiled r) (compiled_rules db)) ids"

definition mark_clauses :: "ClauseProcessingState \<Rightarrow> int list \<Rightarrow> reg_db \<Rightarrow> reg_db" where
  "mark_clauses st ids db = db\<lparr>clauses := update_rows (\<lambda>c. cl_id c \<in> set ids) (\<lambda>c. c\<lparr>cl_processing_status := st\<rparr>) (clauses db)\<rparr>"

text \<open>Chunk and clause of the same position; a chunk beyond the last clause has none.\<close>

fun pair_chunks :: "ClauseChunk list \<Rightarrow> int list \<Rightarrow> (ClauseChunk \<times> int option) list" where
  "pair_chunks [] is = []"
| "pair_chunks (ch # chs) [] = (ch, None) # pair_chunks chs []"
| "pair_chunks (ch # chs) (i # is) = (ch, Some i) # pair_chunks chs is"

definition chunks_to_extract :: "ClauseChunk list \<Rightarrow> int list \<Rightarrow> int list \<Rightarrow> (ClauseChunk \<times> int option) list" where
  "chunks_to_extract chunks ids completed = filter (\<lambda>(ch, i). \<forall>k\<in>set_option i. k \<notin> set completed) (pair_chunks chunks ids)"

fun note_extraction :: "orch_env \<Rightarrow> int list \<Rightarrow> extraction list \<Rightarrow> reg_db \<Rightarrow> reg_db" where
  "note_extraction env ids [] db = db"
| "note_extraction env ids ((ch, res) # rs) db =
     note_extraction env ids rs
       (case find (\<lambda>c. cl_clause_number c = ch_clause_number ch \<or> cl_sha256 c = ch_sha256 ch) (List.map_filter (get_clause db) ids) of
          None \<Rightarrow> db
        | Some c \<Rightarrow> set_clause (cl_id c) (\<lambda>c. case res of
            Inl e \<Rightarrow> c\<lparr>cl_processing_status := CS_FAILED, cl_error_message := Some (oe_str env e)\<rparr>
          | Inr _ \<Rightarrow> c\<lparr>cl_processing_status := CS_EXTRACTED, cl_error_message := None\<rparr>) db)"

text \<open>A later chunk of the same digest or number replaces an earlier one in the dictionaries.\<close>

definition extraction_for :: "extraction list \<Rightarrow> Clause \<Rightarrow> AuditedComplianceRule result" where
  "extraction_for rs c =
     (case map_of (rev (map (\<lambda>(ch, res). (ch_sha256 ch, res)) rs)) (cl_sha256 c) of
        Some res \<Rightarrow> res
      | None \<Rightarrow>
          (case map_of (rev (map (\<lambda>(ch, res). (ch_clause_number ch, res)) (filter (\<lambda>(ch, _). truthy_str (ch_clause_number ch)) rs)))
                  (cl_clause_number c) of
             Some res \<Rightarrow> res
           | None \<Rightarrow> raise (RuntimeError ''Missing extraction result'')))"

definition chunk_for :: "ClauseChunk list \<Rightarrow> Clause \<Rightarrow> ClauseChunk" where
  "chunk_for chunks c =
     (case find (\<lambda>ch. ch_sha256 ch = cl_sha256 c \<or> ch_clause_number ch = cl_clause_number c) chunks of
        Some ch \<Rightarrow> ch
      | None \<Rightarrow> \<lparr>chunk_id = ''chk-'' @ int_str (cl_id c), ch_sha256 = cl_sha256 c, ch_text = cl_text c,
                 ch_clause_number = cl_clause_number c, ch_section_path = [], ch_section_title = None,
                 ch_page_start = None, ch_page_end = None, ch_contains_table = False\<rparr>)"

definition compile_clause ::
  "orch_env \<Rightarrow> ClauseChunk list \<Rightarrow> extraction list \<Rightarrow> string \<Rightarrow> Clause \<Rightarrow> reg_db \<Rightarrow> reg_db result" where
  "compile_clause env chunks rs tenant c db =
     (let db = mark_clauses CS_COMPILING [cl_id c] db in
      case extraction_for rs c of
        Inl e \<Rightarrow>
          bind_res (persist_failed_clause_rule env c (chunk_for chunks c) e tenant db) (\<lambda>db.
          Inr (set_clause (cl_id c) (\<lambda>c. c\<lparr>cl_processing_status := CS_FAILED, cl_error_message := Some (oe_str env e)\<rparr>) db))
      | Inr audited \<Rightarrow>
          bind_res (compile_and_persist_rules env c audited tenant db) (\<lambda>db.
          Inr (set_clause (cl_id c) (\<lambda>c. c\<lparr>cl_processing_status := CS_COMPILED, cl_error_message := None\<rparr>) db)))"

fun compile_clauses ::
  "orch_env \<Rightarrow> ClauseChunk list \<Rightarrow> extraction list \<Rightarrow> string \<Rightarrow> int list \<Rightarrow> int list \<Rightarrow> reg_db \<Rightarrow> reg_db result" where
  "compile_clauses env chunks rs tenant completed [] db = Inr db"
| "compile_clauses env chunks rs tenant completed (i # is) db =
     (if i \<in> set completed then compile_clauses env chunks rs tenant completed is db
      else case get_clause db i of
        None \<Rightarrow> compile_clauses env chunks rs tenant completed is db
      | Some c \<Rightarrow> bind_res (compile_clause env chunks rs tenant c db) (compile_clauses env chunks rs tenant completed is))"

definition target_state :: "HITLReview list \<Rightarrow> ProcessingState" where
  "target_state vs =
     (if filter (\<lambda>v. rv_status v \<in> {RV_PENDING, RV_IN_REVIEW} \<or> rv_severity v = BLOCKING) vs \<noteq> []
      then PS_AWAITING_HITL else PS_APPROVED)"

text \<open>
  The three checkpoints: the tables each of them commits, which are also the
  tables a crash of the worker leaves.
\<close>

definition begin_extraction :: "orch_env \<Rightarrow> int \<Rightarrow> int list \<Rightarrow> ClauseChunk list \<Rightarrow> reg_db \<Rightarrow> reg_db" where
  "begin_extraction env ci ids chunks db =
     (let completed = completed_clauses ids db in
      transition_circular_state (oe_now env) ci PS_EXTRACTING None
        (mark_clauses CS_EXTRACTING (List.map_filter snd (chunks_to_extract chunks ids completed)) (mark_clauses CS_COMPILED completed db)))"

definition run_extraction :: "orch_env \<Rightarrow> int list \<Rightarrow> ClauseChunk list \<Rightarrow> int list \<Rightarrow> extraction list" where
  "run_extraction env ids chunks completed =
     (let todo = chunks_to_extract chunks ids completed in
      if todo = [] then [] else extract_and_audit_circular env (map fst todo) (map sibling_of chunks))"

definition finish_extraction :: "orch_env \<Rightarrow> int \<Rightarrow> int list \<Rightarrow> ClauseChunk list \<Rightarrow> int list \<Rightarrow> reg_db \<Rightarrow> reg_db" where
  "finish_extraction env ci ids chunks completed db =
     transition_circular_state (oe_now env) ci PS_EXTRACTED None
       (note_extraction env (List.map_filter snd (chunks_to_extract chunks ids completed)) (run_extraction env ids chunks completed) db)"

definition begin_compilation :: "orch_env \<Rightarrow> int \<Rightarrow> reg_db \<Rightarrow> reg_db" where
  "begin_compilation env ci db = transition_circular_state (oe_now env) ci PS_COMPILING None db"

text \<open>
  The tables as they stand after the last commit, and the result or the
  exception. An exception rolls back to the last commit and marks the circular
  as failed in a transaction of its own.
\<close>

definition execute_processing_stages ::
  "orch_env \<Rightarrow> int \<Rightarrow> int list \<Rightarrow> ClauseChunk list \<Rightarrow> string \<Rightarrow> reg_db \<Rightarrow> reg_db \<times> ProcessE2EResult result" where
  "execute_processing_stages env ci ids chunks tenant db =
     (let completed = completed_clauses ids db;
          db = begin_compilation env ci (finish_extraction env ci ids chunks completed (begin_extraction env ci ids chunks db))
      in case compile_clauses env chunks (run_extraction env ids chunks completed) tenant completed ids db of
           Inl e \<Rightarrow> (transition_circular_state (oe_now env) ci PS_FAILED (Some (take 4000 (oe_str env e))) db, raise e)
         | Inr db \<Rightarrow>
             let db = transition_circular_state (oe_now env) ci (target_state (reviews_in ids db)) None db
             in (db, case get_circular db ci of None \<Rightarrow> raise AttributeError | Some c \<Rightarrow> Inr (build_process_result c ids db)))"

definition ingest ::
  "orch_env \<Rightarrow> ParseResult \<Rightarrow> string \<Rightarrow> string option \<Rightarrow> string \<Rightarrow> string option \<Rightarrow> time option \<Rightarrow> reg_db
   \<Rightarrow> int option \<times> (reg_db \<times> Circular \<times> int list) result" where
  "ingest env parsed bytes filename tenant source_url retrieved_at db =
     (case persist_circular env parsed bytes filename tenant source_url retrieved_at db of
        Inl e \<Rightarrow> (None, raise e)
      | Inr (db, c) \<Rightarrow> (Some (ci_id c), bind_res (persist_clauses env (ci_id c) tenant (pa_chunks parsed) db) (\<lambda>(db, ids). Inr (db, c, ids))))"

definition mark_failed :: "orch_env \<Rightarrow> int option \<Rightarrow> exc \<Rightarrow> reg_db \<Rightarrow> reg_db" where
  "mark_failed env k e db =
     (case k of
        None \<Rightarrow> db
      | Some ci \<Rightarrow>
          (case get_circular db ci of
             None \<Rightarrow> db
           | Some c \<Rightarrow> if ci_processing_state c = PS_FAILED then db
               else transition_circular_state (oe_now env) ci PS_FAILED (Some (take 4000 (oe_str env e))) db))"

definition process_ingested ::
  "orch_env \<Rightarrow> Circular \<Rightarrow> int list \<Rightarrow> ClauseChunk list \<Rightarrow> string \<Rightarrow> reg_db \<Rightarrow> reg_db \<times> ProcessE2EResult result" where
  "process_ingested env c ids chunks tenant db =
     (if ci_processing_state c = PS_DEPLOYED then (db, Inr (build_process_result c ids db))
      else execute_processing_stages env (ci_id c) ids chunks tenant
             (if ci_processing_state c \<in> {PS_INGESTED, PS_FAILED}
              then transition_circular_state (oe_now env) (ci_id c) PS_INGESTED None db else db))"

definition process_circular_pdf ::
  "orch_env \<Rightarrow> string \<Rightarrow> string option \<Rightarrow> string \<Rightarrow> string option \<Rightarrow> time option \<Rightarrow> reg_db \<Rightarrow> reg_db \<times> ProcessE2EResult result" where
  "process_circular_pdf env bytes filename tenant source_url retrieved_at db =
     (case oe_parse env bytes filename of
        Inl e \<Rightarrow> (db, raise e)
      | Inr parsed \<Rightarrow>
          let me = pa_metadata parsed;
              me = (if valid_url source_url \<noteq> None then me\<lparr>me_source_url := source_url\<rparr> else me);
              me = (if retrieved_at \<noteq> None then me\<lparr>me_source_retrieved_at := retrieved_at\<rparr> else me)
          in (case ingest env (parsed\<lparr>pa_metadata := me\<rparr>) bytes filename tenant source_url retrieved_at db of
                (k, Inl e) \<Rightarrow> (mark_failed env k e db, raise e)
              | (_, Inr (db, c, ids)) \<Rightarrow> process_ingested env c ids (pa_chunks parsed) tenant db))"

definition pad3 :: "string \<Rightarrow> string" where
  "pad3 s = replicate (3 - length s) (CHR ''0'') @ s"

definition chunk_of_clause :: "Clause \<Rightarrow> ClauseChunk" where
  "chunk_of_clause c =
     \<lparr>chunk_id = ''chk-'' @ pad3 (int_str (cl_id c)), ch_sha256 = cl_sha256 c, ch_text = cl_text c,
      ch_clause_number = cl_clause_number c, ch_section_path = cl_section_path c, ch_section_title = cl_section_title c,
      ch_page_start = cl_page_start c, ch_page_end = cl_page_end c, ch_contains_table = cl_contains_table c\<rparr>"

definition resume_circular :: "orch_env \<Rightarrow> int \<Rightarrow> string \<Rightarrow> reg_db \<Rightarrow> reg_db \<times> ProcessE2EResult result" where
  "resume_circular env ci tenant db =
     (case get_circular db ci of
        None \<Rightarrow> (db, raise (ValueError (''Circular with id '' @ int_str ci @ '' not found'')))
      | Some _ \<Rightarrow>
          let rows = sort_key cl_id (filter (\<lambda>c. cl_circular_id c = ci) (clauses db)) in
          if rows = [] then (db, raise (ValueError (''Circular '' @ int_str ci @ '' has no persisted clauses to resume'')))
          else execute_processing_stages env ci (map cl_id rows) (map chunk_of_clause rows) tenant db)"

section \<open>Status queries\<close>

definition legacy_status :: "ProcessingState \<Rightarrow> bool \<Rightarrow> nat \<Rightarrow> nat \<Rightarrow> nat \<Rightarrow> string" where
  "legacy_status st rejected pending active resolved =
     (if st = PS_DEPLOYED then ''deployed''
      else if st = PS_APPROVED then ''approved''
      else if st = PS_FAILED \<or> rejected then ''failed''
      else if st = PS_AWAITING_HITL \<or> pending > 0 then ''review_required''
      else if active > 0 then ''deployed''
      else if resolved > 0 then ''approved''
      else ''processing'')"

record CircularStatusResult =
  cs_circular_id :: int
  cs_circular_number :: string
  cs_status :: string
  cs_processing_state :: ProcessingState
  cs_clause_count :: nat
  cs_compiled_rule_count :: nat
  cs_hitl_review_count :: nat
  cs_pending_reviews :: nat
  cs_resolved_reviews :: nat
  cs_active_rules :: nat
  cs_error_message :: "string option"
  cs_reviews :: "(string \<times> ReviewStatus \<times> HITLSeverity) list"
  cs_rules :: "(string \<times> bool \<times> RuleHitlStatus) list"
  cs_state_transitions :: "CircularStateTransition list"
  cs_clause_status_counts :: "ClauseProcessingState \<Rightarrow> nat"

definition get_circular_status :: "int \<Rightarrow> reg_db \<Rightarrow> CircularStatusResult option" where
  "get_circular_status ci db =
     (case get_circular db ci of
        None \<Rightarrow> None
      | Some c \<Rightarrow>
          let cls = filter (\<lambda>x. cl_circular_id x = ci) (clauses db);
              ids = map cl_id cls;
              rules = rules_in ids db;
              vs = reviews_in ids db;
              pending = length (filter (\<lambda>v. rv_status v \<in> {RV_PENDING, RV_IN_REVIEW}) vs);
              resolved = length (filter (\<lambda>v. rv_status v = RV_RESOLVED) vs);
              active = length (filter is_active rules)
          in Some \<lparr>cs_circular_id = ci_id c, cs_circular_number = ci_circular_number c,
               cs_status = legacy_status (ci_processing_state c) (list_ex (\<lambda>v. rv_status v = RV_REJECTED) vs) pending active resolved,
               cs_processing_state = ci_processing_state c, cs_clause_count = length cls, cs_compiled_rule_count = length rules,
               cs_hitl_review_count = length vs, cs_pending_reviews = pending, cs_resolved_reviews = resolved,
               cs_active_rules = active, cs_error_message = ci_error_message c,
               cs_reviews = map (\<lambda>v. (rv_review_id v, rv_status v, rv_severity v)) vs,
               cs_rules = map (\<lambda>r. (row_rule_id r, is_active r, rr_hitl_status r)) rules,
               cs_state_transitions = filter (\<lambda>t. tr_circular_id t = ci) (state_transitions db),
               cs_clause_status_counts = (\<lambda>s. length (filter (\<lambda>x. cl_processing_status x = s) cls))\<rparr>)"

text \<open>The grouped queries of the batch: an inner join with the clauses, counted per circular.\<close>

definition join_count :: "(Clause \<Rightarrow> bool) \<Rightarrow> (Clause \<Rightarrow> 'a \<Rightarrow> bool) \<Rightarrow> ('a \<Rightarrow> bool) \<Rightarrow> Clause list \<Rightarrow> 'a list \<Rightarrow> nat" where
  "join_count grp on P cls rows = length (filter (\<lambda>(x, r). on x r \<and> P r) (List.product (filter grp cls) rows))"

definition get_circular_statuses_batch :: "Circular list \<Rightarrow> reg_db \<Rightarrow> (int \<times> string \<times> nat \<times> nat \<times> nat) list" where
  "get_circular_statuses_batch cs db =
     map (\<lambda>c.
       let grp = (\<lambda>x. cl_circular_id x = ci_id c);
           on_rule = (\<lambda>x r. rr_clause_id r = cl_id x);
           on_review = (\<lambda>x v. rv_clause_id v = cl_id x);
           clause_count = length (filter grp (clauses db));
           active = join_count grp on_rule is_active (clauses db) (compiled_rules db);
           pending = join_count grp on_review (\<lambda>v. rv_status v \<in> {RV_PENDING, RV_IN_REVIEW}) (clauses db) (hitl_reviews db);
           resolved = join_count grp on_review (\<lambda>v. rv_status v = RV_RESOLVED) (clauses db) (hitl_reviews db);
           rejected = join_count grp on_review (\<lambda>v. rv_status v = RV_REJECTED) (clauses db) (hitl_reviews db)
       in (ci_id c, legacy_status (ci_processing_state c) (rejected > 0) pending active resolved, clause_count, active, pending)) cs"

section \<open>The sweeper\<close>

definition sweep_message :: string where
  "sweep_message = ''Processing stalled in an intermediate state (EXTRACTING/COMPILING) and was not updated for a long period; marked FAILED by the stale-state reaper. Re-upload the document to retry.''"

definition stale :: "time \<Rightarrow> Circular \<Rightarrow> bool" where
  "stale cutoff c \<longleftrightarrow> ci_processing_state c \<in> {PS_EXTRACTING, PS_COMPILING} \<and> ci_updated_at c < cutoff"

definition sweep_once :: "time \<Rightarrow> int \<Rightarrow> reg_db \<Rightarrow> reg_db \<times> nat" where
  "sweep_once now stale_after db =
     (let victims = filter (stale (now - stale_after)) (circulars db) in
      if victims = [] then (db, 0)
      else (db\<lparr>circulars := update_rows (\<lambda>c. ci_id c \<in> ci_id ` set victims)
                 (\<lambda>c. c\<lparr>ci_processing_state := PS_FAILED, ci_error_message := Some sweep_message, ci_updated_at := now\<rparr>) (circulars db),
               state_transitions := state_transitions db @ map (\<lambda>c. \<lparr>tr_circular_id = ci_id c, tr_from_state = ci_processing_state c,
                 tr_to_state = PS_FAILED, tr_triggered_by = ''system:stale-state-reaper'', tr_error_message = Some sweep_message\<rparr>) victims\<rparr>,
            length victims))"

end
