(* ===== verification/Review_Pipeline.thy ===== *)
theory Review_Pipeline
  imports Orchestrator
begin

text \<open>
  What the ingestion pipeline, the review service and the sweeper keep together
  of the regulatory tables, and what they do to one circular.
\<close>

section \<open>The pipeline keeps the tables\<close>

lemma get_circularD: "get_circular db i = Some c \<Longrightarrow> c \<in> set (circulars db) \<and> ci_id c = i"
  by (auto simp: get_circular_def dest: find_SomeD)

lemma circular_unique:
  assumes "db_ok db" "c \<in> set (circulars db)" "d \<in> set (circulars db)" "ci_id d = ci_id c" shows "d = c"
proof -
  from assms(1) have "inj_on ci_id (set (circulars db))" by (simp add: db_ok_def tables_ok_def circulars_ok_def distinct_map)
  then show ?thesis by (rule inj_onD) (use assms(2-4) in simp_all)
qed

text \<open>Replacing one circular by a row with its keys.\<close>

lemma db_ok_replace_circular:
  assumes ok: "db_ok db" and c: "c \<in> set (circulars db)"
    and keys: "ci_id c' = ci_id c" "ci_circular_number c' = ci_circular_number c" "ci_raw_text_digest c' = ci_raw_text_digest c"
      "ci_tenant_id c' = ci_tenant_id c" "circular_checks c \<longrightarrow> circular_checks c'"
  shows "db_ok (set_circular (ci_id c) (\<lambda>_. c') db)"
proof -
  have eq: "update_rows (\<lambda>r. ci_id r = ci_id c) (\<lambda>_. c') (circulars db) = update_rows (\<lambda>r. r = c) (\<lambda>_. c') (circulars db)"
    unfolding update_rows_def by (rule map_cong) (use circular_unique [OF ok c] in auto)
  show ?thesis unfolding eq by (rule db_ok_circulars [OF ok]) (use keys in simp)
qed

lemma db_ok_transition_state: "db_ok db \<Longrightarrow> db_ok (transition_circular_state now i st err db)"
proof (cases "get_circular db i")
  case (Some c)
  assume ok: "db_ok db"
  from get_circularD [OF Some] have c: "c \<in> set (circulars db)" "ci_id c = i" by auto
  have "db_ok (set_circular i (\<lambda>_. c') db)" if "ci_id c' = ci_id c" "ci_circular_number c' = ci_circular_number c"
      "ci_raw_text_digest c' = ci_raw_text_digest c" "ci_tenant_id c' = ci_tenant_id c"
      "ci_source_document_sha256 c' = ci_source_document_sha256 c" for c'
    using db_ok_replace_circular [OF ok c(1)] that by (simp add: c(2) circular_checks_def)
  then show ?thesis by (auto simp: transition_circular_state_def Some Let_def intro!: db_ok_transitions)
qed (simp add: transition_circular_state_def)

lemma db_ok_mark: "db_ok db \<Longrightarrow> db_ok (mark_clauses st ids db)"
  unfolding mark_clauses_def by (rule db_ok_clauses) simp_all

lemma db_ok_tenant: "db_ok db \<Longrightarrow> db_ok (ensure_baseline_tenant t db)"
  by (auto simp: ensure_baseline_tenant_def tables_defs gate_kept_def reviews_of_rule_def)

lemma scalar_one_Some: "scalar_one_or_none xs = Inr (Some x) \<longleftrightarrow> xs = [x]"
  and scalar_one_None: "scalar_one_or_none xs = Inr None \<longleftrightarrow> xs = []"
  by (auto simp: scalar_one_or_none_def split: list.splits)

lemma filter_singletonD: "filter P xs = [x] \<Longrightarrow> x \<in> set xs \<and> P x"
  by (metis filter_eq_ConsD in_set_conv_decomp)

lemma fill_circular_keys:
  "ci_id (fill_circular new c) = ci_id c" "ci_circular_number (fill_circular new c) = ci_circular_number c"
  "ci_raw_text_digest (fill_circular new c) = ci_raw_text_digest c" "ci_tenant_id (fill_circular new c) = ci_tenant_id c"
  by (simp_all add: fill_circular_def Let_def)

lemma db_ok_upsert_circular:
  assumes ok: "db_ok db" and "upsert_circular new db = Inr (db', c)"
  shows "db_ok db'"
proof -
  from assms(2) obtain ex where ex: "scalar_one_or_none (filter (\<lambda>c. ci_circular_number c = ci_circular_number new
      \<or> ci_raw_text_digest c = ci_raw_text_digest new \<or> ci_source_document_sha256 c = ci_source_document_sha256 new) (circulars db)) = Inr ex"
    and upd: "(case ex of None \<Rightarrow> insert_circular new db
     | Some c \<Rightarrow> if \<not> circular_checks (fill_circular new c) then raise IntegrityError
         else Inr (set_circular (ci_id c) (\<lambda>_. fill_circular new c) db, fill_circular new c)) = Inr (db', c)"
    unfolding upsert_circular_def bind_res_eq_Inr by blast
  show ?thesis
  proof (cases ex)
    case None
    with upd show ?thesis using db_ok_insert_circular [OF ok] by simp
  next
    case (Some d)
    with ex have "d \<in> set (circulars db)" by (auto simp: scalar_one_Some dest: filter_singletonD)
    from db_ok_replace_circular [OF ok this fill_circular_keys] upd Some show ?thesis by (auto split: if_splits)
  qed
qed

lemma db_ok_persist_circular:
  "db_ok db \<Longrightarrow> persist_circular env parsed bytes fname tenant url ts db = Inr (db', c) \<Longrightarrow> db_ok db'"
  unfolding persist_circular_def Let_def by (erule db_ok_upsert_circular [OF db_ok_tenant])

lemma db_ok_persist_clause: "db_ok db \<Longrightarrow> persist_clause env ci t ch db = Inr (db', i) \<Longrightarrow> db_ok db'"
  by (auto simp: persist_clause_def Let_def bind_res_eq_Inr split: option.splits intro: db_ok_insert_clause)

lemma db_ok_persist_clauses: "db_ok db \<Longrightarrow> persist_clauses env ci t chs db = Inr (db', ids) \<Longrightarrow> db_ok db'"
  by (induction chs arbitrary: db ids) (auto simp: bind_res_eq_Inr dest: db_ok_persist_clause)

definition rule_off :: "reg_db \<Rightarrow> int \<Rightarrow> bool" where
  "rule_off db rid \<longleftrightarrow> (\<forall>r\<in>set (compiled_rules db). row_id r = rid \<longrightarrow> \<not> is_active r)"

lemma db_ok_new_review:
  assumes "db_ok db" "rule_off db rid" "new_review env c rid tenant reason sev desc ex path db = Inr db'"
  shows "db_ok db'" "compiled_rules db' = compiled_rules db"
proof -
  from assms(3) obtain v v' where v: "insert_review v db = Inr (db', v')" "rv_compiled_rule_id v = Some rid"
    by (auto simp: new_review_def bind_res_eq_Inr)
  show "db_ok db'" by (rule db_ok_insert_review [OF assms(1) v(1)]) (use assms(2) v(2) in \<open>auto simp: rule_off_def\<close>)
  show "compiled_rules db' = compiled_rules db" using insert_review_Inr(2) [OF v(1)] by simp
qed

lemma db_ok_add_flags:
  assumes "db_ok db" "rule_off db rid" "add_flag_reviews env c rid tenant fs db = Inr db'"
  shows "db_ok db' \<and> compiled_rules db' = compiled_rules db"
  using assms
proof (induction fs arbitrary: db)
  case (Cons f fs)
  show ?case
  proof (cases "reason_code f \<in> rv_reason_code ` set (reviews_of_rule db rid)")
    case True
    with Cons show ?thesis by simp
  next
    case False
    with Cons.prems(3) obtain db1 where 1: "new_review env c rid tenant (reason_code f) (hf_severity f) (oe_describe env f)
        (hf_source_excerpt f) (hf_field_path f) db = Inr db1" and rest: "add_flag_reviews env c rid tenant fs db1 = Inr db'"
      by (auto simp: bind_res_eq_Inr)
    note new = db_ok_new_review [OF Cons.prems(1,2) 1]
    from Cons.prems(2) new(2) have "rule_off db1 rid" by (simp add: rule_off_def)
    from Cons.IH [OF new(1) this rest] new(2) show ?thesis by simp
  qed
qed simp

lemma db_ok_add_reviews:
  "db_ok db \<Longrightarrow> rule_off db rid \<Longrightarrow> add_reviews env c rid i tenant fs db = Inr db' \<Longrightarrow>
   db_ok db' \<and> compiled_rules db' = compiled_rules db"
  by (auto simp: add_reviews_def split: if_splits dest: db_ok_add_flags db_ok_new_review)

lemma rule_off_set_rule: "(\<And>r. \<not> is_active (f r)) \<Longrightarrow> (\<And>r. row_id (f r) = row_id r) \<Longrightarrow> rule_off (set_rule i f db) i"
  by (auto simp: rule_off_def elim!: update_rowsE)

lemma insert_rule_off:
  assumes "db_ok db" "insert_rule r db = Inr (db', r')" "\<not> is_active r"
  shows "db_ok db' \<and> rule_off db' (row_id r')"
proof -
  have "rule_off db' (row_id r')"
    using assms(1,3) insert_rule_Inr(1,2) [OF assms(2)] by (auto simp: rule_off_def db_ok_def tables_ok_def rules_ok_def)
  with db_ok_insert_rule [OF assms] show ?thesis by simp
qed

lemma store_artifact_keys:
  "row_id (store_artifact env comp_res r) = row_id r" "row_rule_id (store_artifact env comp_res r) = row_rule_id r"
  "rr_tenant_id (store_artifact env comp_res r) = rr_tenant_id r" "row_rule_version (store_artifact env comp_res r) = row_rule_version r"
  "rr_clause_id (store_artifact env comp_res r) = rr_clause_id r" "\<not> is_active (store_artifact env comp_res r)"
  by (simp_all add: store_artifact_def)

lemma db_ok_upsert_rule:
  assumes "db_ok db" "upsert_rule env c i comp_res tenant db = Inr (db', rid)"
  shows "db_ok db' \<and> rule_off db' rid"
proof -
  from assms(2) obtain ex where "scalar_one_or_none (rules_of_clause i (cl_id c) db) = Inr ex"
    by (auto simp: upsert_rule_def bind_res_eq_Inr)
  show ?thesis
  proof (cases ex)
    case (Some r)
    have "db_ok (set_rule (row_id r) (store_artifact env comp_res) db)"
      by (rule db_ok_rules [OF assms(1)]) (simp add: keeps_rule_key_def store_artifact_keys)
    with assms(2) \<open>_ = Inr ex\<close> Some show ?thesis
      by (auto simp: upsert_rule_def store_artifact_keys intro!: rule_off_set_rule)
  next
    case None
    with assms(2) \<open>_ = Inr ex\<close> obtain r r' where "insert_rule (store_artifact env comp_res r) db = Inr (db', r')" "rid = row_id r'"
      by (auto simp: upsert_rule_def bind_res_eq_Inr)
    with insert_rule_off [OF assms(1) this(1)] store_artifact_keys show ?thesis by simp
  qed
qed

lemma db_ok_compile_and_persist:
  assumes "db_ok db" "compile_and_persist_rules env c audited tenant db = Inr db'"
  shows "db_ok db'"
proof -
  let ?db = "delete_rules (\<lambda>r. rr_clause_id r = cl_id c \<and> is_failed_id (row_rule_id r)) db"
  let ?i = "rule_id (rule audited)"
  from assms(2) obtain comp_res db1 rid db2 where
    up: "upsert_rule env c ?i comp_res tenant ?db = Inr (db1, rid)"
    and add: "add_reviews env c rid ?i tenant (hitl_flags comp_res) db1 = Inr db2"
    and fin: "db' = set_rule rid (\<lambda>r. r\<lparr>rr_hitl_status := final_hitl_status (hitl_flags comp_res) (reviews_of_rule db2 rid)\<rparr>) db2"
    unfolding compile_and_persist_rules_def Let_def by (auto simp: bind_res_eq_Inr)
  from db_ok_upsert_rule [OF db_ok_delete [OF assms(1)] up] have "db_ok db1" "rule_off db1 rid" by auto
  from db_ok_add_reviews [OF this add] have "db_ok db2" by simp
  then show ?thesis unfolding fin by (rule db_ok_rules) (simp add: keeps_rule_key_def)
qed

lemma db_ok_store_failed:
  assumes "db_ok db" "store_failed_rule c i tenant db = Inr (db', rid)"
  shows "db_ok db' \<and> rule_off db' rid"
proof -
  let ?off = "\<lambda>q. q\<lparr>is_active := False, is_compiled := False, rr_hitl_status := HS_BLOCKING\<rparr>"
  from assms(2) obtain ex where ex: "scalar_one_or_none (rules_of_clause i (cl_id c) db) = Inr ex"
    by (auto simp: store_failed_rule_def bind_res_eq_Inr)
  show ?thesis
  proof (cases ex)
    case (Some r)
    have "db_ok (set_rule (row_id r) ?off db)" by (rule db_ok_rules [OF assms(1)]) (simp add: keeps_rule_key_def)
    with assms(2) ex Some show ?thesis by (auto simp: store_failed_rule_def intro!: rule_off_set_rule)
  next
    case None
    with assms(2) ex obtain r r' where r: "insert_rule r db = Inr (db', r')" "\<not> is_active r" "rid = row_id r'"
      by (auto simp: store_failed_rule_def bind_res_eq_Inr)
    with insert_rule_off [OF assms(1) r(1,2)] show ?thesis by simp
  qed
qed

lemma db_ok_failed_review:
  assumes ok: "db_ok db" "rule_off db rid" and "store_failed_review env c rid tenant err db = Inr db'"
  shows "db_ok db' \<and> compiled_rules db' = compiled_rules db"
proof -
  have "db_ok (set_review i (\<lambda>w. w\<lparr>rv_description := m\<rparr>) db)" for i m
    by (rule db_ok_reviews [OF ok(1)])
      (use ok(1) in \<open>auto simp: terminal_review_def db_ok_def tables_ok_def reviews_ok_def gate_kept_def reviews_of_rule_def\<close>)
  with assms show ?thesis
    by (auto simp: store_failed_review_def bind_res_eq_Inr split: option.splits dest: db_ok_new_review)
qed

lemma db_ok_persist_failed:
  "db_ok db \<Longrightarrow> persist_failed_clause_rule env c ch err tenant db = Inr db' \<Longrightarrow> db_ok db'"
  using db_ok_store_failed db_ok_failed_review unfolding persist_failed_clause_rule_def bind_res_eq_Inr split_paired_Ex prod.case by blast

lemma db_ok_compile_clause:
  assumes "db_ok db" "compile_clause env chunks rs tenant c db = Inr db'" shows "db_ok db'"
proof (cases "extraction_for rs c")
  case (Inl e)
  with assms(2) obtain db1 where "persist_failed_clause_rule env c (chunk_for chunks c) e tenant (mark_clauses CS_COMPILING [cl_id c] db) = Inr db1"
    "db' = set_clause (cl_id c) (\<lambda>c. c\<lparr>cl_processing_status := CS_FAILED, cl_error_message := Some (oe_str env e)\<rparr>) db1"
    by (auto simp: compile_clause_def Let_def bind_res_eq_Inr)
  with db_ok_persist_failed [OF db_ok_mark [OF assms(1)]] show ?thesis by (simp add: db_ok_clauses)
next
  case (Inr a)
  with assms(2) obtain db1 where "compile_and_persist_rules env c a tenant (mark_clauses CS_COMPILING [cl_id c] db) = Inr db1"
    "db' = set_clause (cl_id c) (\<lambda>c. c\<lparr>cl_processing_status := CS_COMPILED, cl_error_message := None\<rparr>) db1"
    by (auto simp: compile_clause_def Let_def bind_res_eq_Inr)
  with db_ok_compile_and_persist [OF db_ok_mark [OF assms(1)]] show ?thesis by (simp add: db_ok_clauses)
qed

lemma db_ok_compile_clauses:
  "db_ok db \<Longrightarrow> compile_clauses env chunks rs tenant completed ids db = Inr db' \<Longrightarrow> db_ok db'"
  by (induction ids arbitrary: db)
     (auto simp: bind_res_eq_Inr split: if_splits option.splits dest: db_ok_compile_clause)

lemma db_ok_note: "db_ok db \<Longrightarrow> db_ok (note_extraction env ids rs db)"
proof (induction rs arbitrary: db)
  case (Cons r rs)
  obtain ch res where r: "r = (ch, res)" by (cases r)
  have "db_ok (set_clause i (\<lambda>c. case res of
      Inl e \<Rightarrow> c\<lparr>cl_processing_status := CS_FAILED, cl_error_message := Some (oe_str env e)\<rparr>
    | Inr _ \<Rightarrow> c\<lparr>cl_processing_status := CS_EXTRACTED, cl_error_message := None\<rparr>) db)" for i
    by (rule db_ok_clauses [OF Cons.prems]) (cases res, simp_all)
  with Cons show ?case by (simp add: r split: option.split)
qed simp

lemma db_ok_begin: "db_ok db \<Longrightarrow> db_ok (begin_extraction env ci ids chunks db)"
  by (simp add: begin_extraction_def Let_def db_ok_transition_state db_ok_mark)

lemma db_ok_finish: "db_ok db \<Longrightarrow> db_ok (finish_extraction env ci ids chunks completed db)"
  by (simp add: finish_extraction_def db_ok_transition_state db_ok_note)

lemma db_ok_begin_compilation: "db_ok db \<Longrightarrow> db_ok (begin_compilation env ci db)"
  by (simp add: begin_compilation_def db_ok_transition_state)

lemma db_ok_execute:
  assumes "db_ok db" shows "db_ok (fst (execute_processing_stages env ci ids chunks tenant db))"
proof -
  have "db_ok (begin_compilation env ci (finish_extraction env ci ids chunks c (begin_extraction env ci ids chunks db)))" for c
    using assms by (intro db_ok_begin_compilation db_ok_finish db_ok_begin)
  then show ?thesis
    by (auto simp: execute_processing_stages_def Let_def split: sum.splits intro!: db_ok_transition_state
        dest: db_ok_compile_clauses [rotated])
qed

lemma db_ok_resume: "db_ok db \<Longrightarrow> db_ok (fst (resume_circular env ci tenant db))"
  by (auto simp: resume_circular_def Let_def db_ok_execute split: option.splits)

lemma db_ok_ingest: "db_ok db \<Longrightarrow> ingest env p b f t u ts db = (o', Inr (db', c, ids)) \<Longrightarrow> db_ok db'"
  by (auto simp: ingest_def bind_res_eq_Inr split: sum.splits dest!: db_ok_persist_clauses [rotated] db_ok_persist_circular [rotated])

lemma db_ok_mark_failed: "db_ok db \<Longrightarrow> db_ok (mark_failed env k e db)"
  by (simp add: mark_failed_def db_ok_transition_state split: option.split)

lemma db_ok_process_ingested: "db_ok db \<Longrightarrow> db_ok (fst (process_ingested env c ids chunks tenant db))"
  by (simp add: process_ingested_def db_ok_transition_state db_ok_execute)

lemma db_ok_process:
  assumes "db_ok db" shows "db_ok (fst (process_circular_pdf env bytes fname tenant url ts db))"
proof -
  have "db_ok (fst (case ingest env p bytes fname tenant url ts db of (k, Inl e) \<Rightarrow> (mark_failed env k e db, raise e)
    | (_, Inr (db, c, ids)) \<Rightarrow> process_ingested env c ids chunks tenant db))" for p chunks
    using db_ok_mark_failed [OF assms] db_ok_ingest [OF assms, of env p bytes fname tenant url ts] db_ok_process_ingested
    by (simp split: prod.split sum.split)
  then show ?thesis using assms by (simp add: process_circular_pdf_def Let_def split: sum.split)
qed

lemma db_ok_sweep: "db_ok db \<Longrightarrow> db_ok (fst (sweep_once now after db))"
proof -
  assume "db_ok db"
  then have "db_ok (db\<lparr>circulars := update_rows p (\<lambda>c. c\<lparr>ci_processing_state := PS_FAILED, ci_error_message := m, ci_updated_at := now\<rparr>)
      (circulars db)\<rparr>)" for p m by (rule db_ok_circulars) (simp add: circular_checks_def)
  then show ?thesis
    by (simp add: sweep_once_def Let_def \<open>db_ok db\<close>) (simp add: tables_defs gate_kept_def reviews_of_rule_def)
qed

section \<open>Reachable tables\<close>

text \<open>
  Everything that writes the tables: a whole run of the pipeline, what a run
  that crashed has committed (the ingestion and the three checkpoints), the three
  resolutions of a review and a sweep.
\<close>

inductive reg_step :: "reg_db \<Rightarrow> reg_db \<Rightarrow> bool" where
  process: "reg_step db (fst (process_circular_pdf env bytes fname tenant url ts db))"
| resume: "reg_step db (fst (resume_circular env ci tenant db))"
| crash_ingested: "ingest env p bytes fname tenant url ts db = (k, Inr (db', c, ids)) \<Longrightarrow>
    reg_step db (transition_circular_state (oe_now env) (ci_id c) PS_INGESTED None db')"
| crash_extracting: "reg_step db (begin_extraction env ci ids chunks db)"
| crash_extracted: "reg_step db (finish_extraction env ci ids chunks (completed_clauses ids db) (begin_extraction env ci ids chunks db))"
| crash_compiling: "reg_step db (begin_compilation env ci
    (finish_extraction env ci ids chunks (completed_clauses ids db) (begin_extraction env ci ids chunks db)))"
| approve: "reg_step db (fst (fst (approve_review H pub key up rid subject msg now (db, pl))))"
| reject: "reject_review rid subject msg now db = Inr db' \<Longrightarrow> reg_step db db'"
| revise: "request_revision rid subject msg now db = Inr db' \<Longrightarrow> reg_step db db'"
| sweep: "reg_step db (fst (sweep_once now stale_after db))"

inductive reg_reachable :: "reg_db \<Rightarrow> bool" where
  start: "reg_reachable empty_db"
| step: "reg_reachable db \<Longrightarrow> reg_step db db' \<Longrightarrow> reg_reachable db'"

lemma db_ok_step: "reg_step db db' \<Longrightarrow> db_ok db \<Longrightarrow> db_ok db'"
proof (induction rule: reg_step.induct)
  case (crash_ingested env p bytes fname tenant url ts db k db' c ids)
  then show ?case using db_ok_ingest db_ok_transition_state by blast
next
  case reject
  then show ?case using db_ok_reject by blast
next
  case revise
  then show ?case using db_ok_revision by blast
qed (simp_all add: db_ok_approve db_ok_process db_ok_resume db_ok_begin db_ok_finish db_ok_begin_compilation db_ok_sweep)

text \<open>The contract an invariant of the tables meets, and what it gives for every reachable state.\<close>

locale table_invariant =
  fixes inv :: "reg_db \<Rightarrow> bool"
  assumes inv_empty: "inv empty_db" and inv_step: "reg_step db db' \<Longrightarrow> inv db \<Longrightarrow> inv db'"
begin

lemma reachable: "reg_reachable db \<Longrightarrow> inv db"
  by (induction rule: reg_reachable.induct) (rule inv_empty, rule inv_step)

end

interpretation constraints: table_invariant db_ok
  by unfold_locales (rule db_ok_empty, rule db_ok_step)

lemmas reachable_db_ok = constraints.reachable

text \<open>
  Claim C7. Well-typed tables: whatever sequence of pipeline runs, crashes at a
  checkpoint, review resolutions and sweeps is executed, the tables satisfy their
  declared constraints: keys and business keys are unique, digests have their
  length, references resolve, at most one version of a rule is active per
  tenant, and a review has a resolution time exactly when it is closed.
\<close>

theorem reachable_tables_ok: "reg_reachable db \<Longrightarrow> tables_ok db"
  using reachable_db_ok by (simp add: db_ok_def)

text \<open>
  Claim C6. The gate holds across the whole system: in every reachable state of
  the tables, an active rule has no attached review that is pending, in review,
  rejected or sent back; all of them are resolved.
\<close>

theorem reachable_gate_kept:
  assumes "reg_reachable db" "r \<in> set (compiled_rules db)" "is_active r"
    and "v \<in> set (hitl_reviews db)" "rv_compiled_rule_id v = Some (row_id r)"
  shows "rv_status v = RV_RESOLVED"
  using reachable_db_ok [OF assms(1)] assms(2-) by (auto simp: db_ok_def gate_kept_def reviews_of_rule_def)

section \<open>A circular whose extraction fails\<close>

text \<open>
  One clause, an extraction that raises, and the officer approving the review
  that the failure left.
\<close>

definition demo_chunk :: ClauseChunk where
  "demo_chunk = \<lparr>chunk_id = ''c1'', ch_sha256 = [], ch_text = ''Margin'', ch_clause_number = Some ''4.1'', ch_section_path = [],
     ch_section_title = None, ch_page_start = None, ch_page_end = None, ch_contains_table = False\<rparr>"

definition demo_env :: "(ClauseChunk \<Rightarrow> sibling list \<Rightarrow> AuditedComplianceRule result) \<Rightarrow> orch_env" where
  "demo_env extract =
     \<lparr>oe_parse = (\<lambda>_ _. Inr \<lparr>pa_metadata = \<lparr>me_circular_number = Some ''C/1'', me_title = None, me_source_url = None,
         me_source_filename = None, me_source_retrieved_at = None, me_department = None\<rparr>, pa_chunks = [demo_chunk],
         pa_source_document_sha256 = None, pa_extracted_text_sha256 = None\<rparr>),
      oe_extract = extract, oe_sha256 = (\<lambda>_. replicate 64 (CHR ''0'')), oe_nfkc = id, oe_decode = id, oe_float_repr = (\<lambda>_. []),
      oe_uuid = int_str, oe_describe = (\<lambda>_. []), oe_str = (\<lambda>_. ''boom''), oe_type_name = (\<lambda>_. ''RuntimeError''),
      oe_now_iso = [], oe_now = 0\<rparr>"

abbreviation failing_env :: orch_env where
  "failing_env \<equiv> demo_env (\<lambda>_ _. raise (RuntimeError ''boom''))"

definition ingested_db :: reg_db where
  "ingested_db = fst (process_circular_pdf failing_env [] None ''sebi_baseline'' None None empty_db)"

definition approved_db :: reg_db where
  "approved_db = fst (fst (approve_review id None [] False ''4'' ''officer'' None 5 (ingested_db, demo_plane)))"

lemma ingested_reachable: "reg_reachable ingested_db"
  unfolding ingested_db_def by (rule reg_reachable.step [OF reg_reachable.start reg_step.process])

lemma approved_reachable: "reg_reachable approved_db"
  unfolding approved_db_def by (rule reg_reachable.step [OF ingested_reachable reg_step.approve])

lemma approved_db_rows:
  "map (\<lambda>r. (row_id r, row_rule_id r, rego_policy r, is_compiled r, is_active r)) (compiled_rules approved_db) =
     [(3, ''RULE-FAILED-4.1'', None, False, True)]"
  "map (\<lambda>v. (rv_compiled_rule_id v, rv_status v)) (hitl_reviews approved_db) = [(Some 3, RV_RESOLVED)]"
proof -
  have "(map (\<lambda>r. (row_id r, row_rule_id r, rego_policy r, is_compiled r, is_active r)) (compiled_rules approved_db),
      map (\<lambda>v. (rv_compiled_rule_id v, rv_status v)) (hitl_reviews approved_db)) =
    ([(3, ''RULE-FAILED-4.1'', None, False, True)], [(Some 3, RV_RESOLVED)])" by code_simp
  then show "map (\<lambda>r. (row_id r, row_rule_id r, rego_policy r, is_compiled r, is_active r)) (compiled_rules approved_db) =
      [(3, ''RULE-FAILED-4.1'', None, False, True)]"
    "map (\<lambda>v. (rv_compiled_rule_id v, rv_status v)) (hitl_reviews approved_db) = [(Some 3, RV_RESOLVED)]"
    by (simp_all only: prod.inject)
qed

text \<open>
  An active rule that was never compiled: the pipeline stores a failed
  extraction as an inactive placeholder that \<open>can NEVER be active\<close>, and approving
  its review activates it.
\<close>

theorem failed_extraction_activated:
  "reg_reachable approved_db \<and>
   (\<exists>(r :: RuleRow). r \<in> set (compiled_rules approved_db) \<and> is_active r \<and> \<not> is_compiled r \<and> rego_policy r = None
      \<and> is_failed_id (row_rule_id r))"
proof -
  from approved_db_rows(1) obtain r where
    "compiled_rules approved_db = [r]" "is_active r" "\<not> is_compiled r" "rego_policy r = None" "row_rule_id r = ''RULE-FAILED-4.1''"
    by (auto simp: map_eq_Cons_conv)
  then have "r \<in> set (compiled_rules approved_db) \<and> is_active r \<and> \<not> is_compiled r \<and> rego_policy r = None
      \<and> is_failed_id (row_rule_id r)" by (simp add: is_failed_id_def startswith_def)
  with approved_reachable show ?thesis by blast
qed

theorem reachable_tables_ok_witness: "tables_ok approved_db \<and> compiled_rules approved_db \<noteq> []"
  using reachable_tables_ok [OF approved_reachable] approved_db_rows(1) by auto

theorem reachable_gate_kept_witness:
  "\<exists>(v :: HITLReview). v \<in> set (hitl_reviews approved_db) \<and> rv_compiled_rule_id v = Some 3 \<and> rv_status v = RV_RESOLVED"
proof -
  from approved_db_rows(1) obtain r where r: "r \<in> set (compiled_rules approved_db)" "is_active r" "row_id r = 3"
    by (auto simp: map_eq_Cons_conv)
  from approved_db_rows(2) obtain v where v: "v \<in> set (hitl_reviews approved_db)" "rv_compiled_rule_id v = Some 3"
    by (auto simp: map_eq_Cons_conv)
  with reachable_gate_kept [OF approved_reachable r(1,2) v(1)] r(3) show ?thesis by auto
qed

section \<open>What a stage leaves alone\<close>

lemma transition_frame [simp]:
  "compiled_rules (transition_circular_state now i st err db) = compiled_rules db"
  "hitl_reviews (transition_circular_state now i st err db) = hitl_reviews db"
  "clauses (transition_circular_state now i st err db) = clauses db"
  "tenants (transition_circular_state now i st err db) = tenants db"
  by (simp_all add: transition_circular_state_def add_transition_def Let_def split: option.split)

lemma mark_frame [simp]:
  "compiled_rules (mark_clauses st ids db) = compiled_rules db" "hitl_reviews (mark_clauses st ids db) = hitl_reviews db"
  "circulars (mark_clauses st ids db) = circulars db" "tenants (mark_clauses st ids db) = tenants db"
  by (simp_all add: mark_clauses_def)

lemma note_frame [simp]:
  "compiled_rules (note_extraction env ids rs db) = compiled_rules db" "hitl_reviews (note_extraction env ids rs db) = hitl_reviews db"
  "circulars (note_extraction env ids rs db) = circulars db" "tenants (note_extraction env ids rs db) = tenants db"
  by (induction rs arbitrary: db) (auto split: option.split)

lemma stage_frame [simp]:
  "compiled_rules (begin_extraction env ci ids chunks db) = compiled_rules db"
  "hitl_reviews (begin_extraction env ci ids chunks db) = hitl_reviews db"
  "compiled_rules (finish_extraction env ci ids chunks completed db) = compiled_rules db"
  "hitl_reviews (finish_extraction env ci ids chunks completed db) = hitl_reviews db"
  "compiled_rules (begin_compilation env ci db) = compiled_rules db"
  "hitl_reviews (begin_compilation env ci db) = hitl_reviews db"
  by (simp_all add: begin_extraction_def finish_extraction_def begin_compilation_def Let_def)

lemma find_update_rows:
  assumes "find (\<lambda>r. key r = i) xs = Some c" "key (f c) = key c"
  shows "find (\<lambda>r. key r = i) (update_rows (\<lambda>r. key r = i) (\<lambda>_. f c) xs) = Some (f c)"
  using assms by (induction xs) (auto simp: update_rows_def split: if_splits)

lemma get_transition:
  assumes "get_circular db i = Some c"
  shows "\<exists>c'. get_circular (transition_circular_state now i st err db) i = Some c' \<and> ci_processing_state c' = st
    \<and> ci_id c' = ci_id c \<and> (err \<noteq> None \<longrightarrow> ci_error_message c' = err)"
proof -
  let ?m = "case err of Some _ \<Rightarrow> err | None \<Rightarrow> if st \<noteq> PS_FAILED then None else ci_error_message c"
  define f where "f = (\<lambda>c :: Circular. let d = c\<lparr>ci_processing_state := st, ci_error_message := ?m\<rparr> in if d = c then c else d\<lparr>ci_updated_at := now\<rparr>)"
  have step: "get_circular (transition_circular_state now i st err db) i = Some (f c)"
    using find_update_rows [of ci_id i "circulars db" c f] assms
    by (simp add: transition_circular_state_def add_transition_def get_circular_def f_def Let_def)
  have "ci_processing_state (f c) = st \<and> ci_id (f c) = ci_id c \<and> ci_error_message (f c) = ?m"
    unfolding f_def Let_def by (auto dest: arg_cong [of _ _ ci_processing_state] arg_cong [of _ _ ci_error_message])
  with step show ?thesis by (auto split: option.split)
qed

lemma has_transition: "get_circular (transition_circular_state now i st err db) i = None \<longleftrightarrow> get_circular db i = None"
proof (cases "get_circular db i")
  case (Some c)
  from get_transition [OF this, of now st err] Some show ?thesis by auto
qed (simp add: transition_circular_state_def)

lemma has_stage:
  assumes "get_circular db ci = Some c"
  shows "\<exists>d. get_circular (begin_compilation env ci (finish_extraction env ci ids chunks completed (begin_extraction env ci ids chunks db))) ci = Some d"
proof -
  have "get_circular (mark_clauses st ks d) ci = get_circular d ci" "get_circular (note_extraction env ks rs d) ci = get_circular d ci" for st ks rs d
    by (simp_all add: get_circular_def)
  with assms show ?thesis
    by (simp add: begin_compilation_def finish_extraction_def begin_extraction_def Let_def has_transition flip: not_None_eq)
qed

lemma circulars_frame [simp]:
  "circulars (delete_rules p db) = circulars db"
  by (simp add: delete_rules_def Let_def)

lemma circulars_insert:
  "insert_rule r db = Inr (db', r') \<Longrightarrow> circulars db' = circulars db"
  "insert_review v db = Inr (db', v') \<Longrightarrow> circulars db' = circulars db"
  using insert_rule_Inr(2) insert_review_Inr(2) by fastforce+

lemma circulars_new_review: "new_review env c rid tenant a b d e f db = Inr db' \<Longrightarrow> circulars db' = circulars db"
  by (auto simp: new_review_def bind_res_eq_Inr dest: circulars_insert)

lemma circulars_add_flags: "add_flag_reviews env c rid tenant fs db = Inr db' \<Longrightarrow> circulars db' = circulars db"
  by (induction fs arbitrary: db) (auto simp: bind_res_eq_Inr circulars_new_review split: if_splits)

lemma circulars_compile_and_persist: "compile_and_persist_rules env c a tenant db = Inr db' \<Longrightarrow> circulars db' = circulars db"
  by (auto simp: compile_and_persist_rules_def upsert_rule_def add_reviews_def Let_def bind_res_eq_Inr
      split: option.splits if_splits dest!: circulars_insert circulars_new_review circulars_add_flags)

lemma circulars_persist_failed: "persist_failed_clause_rule env c ch e tenant db = Inr db' \<Longrightarrow> circulars db' = circulars db"
  by (auto simp: persist_failed_clause_rule_def store_failed_rule_def store_failed_review_def bind_res_eq_Inr
      split: option.splits dest!: circulars_insert circulars_new_review)

lemma circulars_compile_clauses: "compile_clauses env chunks rs tenant completed ids db = Inr db' \<Longrightarrow> circulars db' = circulars db"
  by (induction ids arbitrary: db)
     (auto simp: compile_clause_def Let_def bind_res_eq_Inr split: if_splits option.splits sum.splits
       dest!: circulars_persist_failed circulars_compile_and_persist)

text \<open>
  Claim C14. A failed run changes no rule and no review: when the stages raise,
  whatever they had compiled before the exception is gone, the circular is
  marked as failed with the text of the exception (cut at 4000 characters), and
  the exception reaches the caller.
\<close>

theorem failed_run_changes_no_rule:
  assumes "get_circular db ci = Some c" and "execute_processing_stages env ci ids chunks tenant db = (db', Inl e)"
  shows "compiled_rules db' = compiled_rules db \<and> hitl_reviews db' = hitl_reviews db
    \<and> (\<exists>(c' :: Circular). get_circular db' ci = Some c' \<and> ci_processing_state c' = PS_FAILED
        \<and> ci_error_message c' = Some (take 4000 (oe_str env e)))"
proof -
  let ?db = "begin_compilation env ci (finish_extraction env ci ids chunks (completed_clauses ids db) (begin_extraction env ci ids chunks db))"
  from has_stage [OF assms(1)] obtain d where d: "get_circular ?db ci = Some d" by blast
  show ?thesis
  proof (cases "compile_clauses env chunks (run_extraction env ids chunks (completed_clauses ids db)) tenant (completed_clauses ids db) ids ?db")
    case (Inl e')
    with assms(2) have "db' = transition_circular_state (oe_now env) ci PS_FAILED (Some (take 4000 (oe_str env e))) ?db"
      by (auto simp: execute_processing_stages_def Let_def)
    with get_transition [OF d, of "oe_now env" PS_FAILED "Some (take 4000 (oe_str env e))"] show ?thesis by auto
  next
    case (Inr db1)
    with circulars_compile_clauses d have "get_circular db1 ci = Some d" by (fastforce simp: get_circular_def)
    then have "get_circular (transition_circular_state (oe_now env) ci (target_state (reviews_in ids db1)) None db1) ci \<noteq> None"
      by (simp add: has_transition)
    with assms(2) Inr show ?thesis by (simp add: execute_processing_stages_def Let_def split: option.splits)
  qed
qed

text \<open>
  A second circular with a clause of the same number whose extraction fails too:
  the placeholder rule has the same id, tenant and version as the first one's, the
  insert is refused and the whole circular fails, instead of the clause
  being set aside for review.
\<close>

definition second_env :: orch_env where
  "second_env = failing_env
     \<lparr>oe_parse := (\<lambda>_ _. Inr \<lparr>pa_metadata = \<lparr>me_circular_number = Some ''C/2'', me_title = None, me_source_url = None,
        me_source_filename = None, me_source_retrieved_at = None, me_department = None\<rparr>, pa_chunks = [demo_chunk],
        pa_source_document_sha256 = None, pa_extracted_text_sha256 = None\<rparr>),
      oe_sha256 := (\<lambda>_. replicate 64 (CHR ''1''))\<rparr>"

definition second_db :: reg_db where
  "second_db = fst (process_circular_pdf second_env [] None ''sebi_baseline'' None None ingested_db)"

theorem placeholder_ids_clash:
  "snd (process_circular_pdf second_env [] None ''sebi_baseline'' None None ingested_db) = Inl IntegrityError"
  by code_simp

theorem failed_run_changes_no_rule_witness:
  "compiled_rules (fst (execute_processing_stages second_env 5 [6] [demo_chunk] ''sebi_baseline'' second_db)) = compiled_rules second_db"
proof -
  have "map_option ci_id (get_circular second_db 5) = Some 5" by code_simp
  then obtain c where c: "get_circular second_db 5 = Some c" by auto
  have "snd (execute_processing_stages second_env 5 [6] [demo_chunk] ''sebi_baseline'' second_db) = Inl IntegrityError" by code_simp
  then have "execute_processing_stages second_env 5 [6] [demo_chunk] ''sebi_baseline'' second_db =
      (fst (execute_processing_stages second_env 5 [6] [demo_chunk] ''sebi_baseline'' second_db), Inl IntegrityError)"
    by (metis prod.collapse)
  from failed_run_changes_no_rule [OF c this] show ?thesis by blast
qed

section \<open>Every clause gets a rule\<close>

definition has_rule :: "reg_db \<Rightarrow> int \<Rightarrow> bool" where
  "has_rule db i \<longleftrightarrow> i \<in> rr_clause_id ` set (compiled_rules db)"

abbreviation clause_ids :: "reg_db \<Rightarrow> int set" where
  "clause_ids db \<equiv> cl_id ` set (clauses db)"

lemma keep_new_review:
  "new_review env c rid tenant a b d e f db = Inr db' \<Longrightarrow> compiled_rules db' = compiled_rules db \<and> clauses db' = clauses db"
  by (auto simp: new_review_def bind_res_eq_Inr dest!: insert_review_Inr(2))

lemma keep_add_flags:
  "add_flag_reviews env c rid tenant fs db = Inr db' \<Longrightarrow> compiled_rules db' = compiled_rules db \<and> clauses db' = clauses db"
  by (induction fs arbitrary: db) (auto simp: bind_res_eq_Inr keep_new_review split: if_splits)

lemma keep_add_reviews:
  "add_reviews env c rid i tenant fs db = Inr db' \<Longrightarrow> compiled_rules db' = compiled_rules db \<and> clauses db' = clauses db"
  by (auto simp: add_reviews_def keep_new_review keep_add_flags split: if_splits)

lemma keep_failed_review:
  "store_failed_review env c rid tenant err db = Inr db' \<Longrightarrow> compiled_rules db' = compiled_rules db \<and> clauses db' = clauses db"
  by (auto simp: store_failed_review_def bind_res_eq_Inr keep_new_review split: option.splits)

lemma insert_rule_clauses:
  assumes "insert_rule r db = Inr (db', r')"
  shows "rr_clause_id ` set (compiled_rules db') = insert (rr_clause_id r) (rr_clause_id ` set (compiled_rules db)) \<and> clauses db' = clauses db"
  using insert_rule_Inr(1,2) [OF assms] by simp

lemma upsert_has_rule:
  assumes "upsert_rule env c i comp_res tenant db = Inr (db', rid)"
  shows "rr_clause_id ` set (compiled_rules db') = insert (cl_id c) (rr_clause_id ` set (compiled_rules db)) \<and> clauses db' = clauses db"
proof -
  from assms obtain ex where ex: "scalar_one_or_none (rules_of_clause i (cl_id c) db) = Inr ex"
    by (auto simp: upsert_rule_def bind_res_eq_Inr)
  show ?thesis
  proof (cases ex)
    case (Some q)
    with ex have "q \<in> set (compiled_rules db) \<and> rr_clause_id q = cl_id c"
      by (auto simp: scalar_one_Some rules_of_clause_def dest: filter_singletonD)
    then have "cl_id c \<in> rr_clause_id ` set (compiled_rules db)" by force
    moreover have "rr_clause_id ` set (update_rows p (store_artifact env comp_res) (compiled_rules db)) = rr_clause_id ` set (compiled_rules db)" for p
      by (rule image_update_rows) (rule store_artifact_keys)
    ultimately show ?thesis using assms ex Some by (simp add: upsert_rule_def insert_absorb) fastforce
  next
    case None
    with assms ex show ?thesis by (auto simp: upsert_rule_def bind_res_eq_Inr store_artifact_keys dest!: insert_rule_clauses)
  qed
qed

lemma store_failed_has_rule:
  assumes "store_failed_rule c i tenant db = Inr (db', rid)"
  shows "rr_clause_id ` set (compiled_rules db') = insert (cl_id c) (rr_clause_id ` set (compiled_rules db)) \<and> clauses db' = clauses db"
proof -
  let ?off = "\<lambda>q. q\<lparr>is_active := False, is_compiled := False, rr_hitl_status := HS_BLOCKING\<rparr>"
  from assms obtain ex where ex: "scalar_one_or_none (rules_of_clause i (cl_id c) db) = Inr ex"
    by (auto simp: store_failed_rule_def bind_res_eq_Inr)
  show ?thesis
  proof (cases ex)
    case (Some q)
    with ex have "q \<in> set (compiled_rules db) \<and> rr_clause_id q = cl_id c"
      by (auto simp: scalar_one_Some rules_of_clause_def dest: filter_singletonD)
    then have "cl_id c \<in> rr_clause_id ` set (compiled_rules db)" by force
    moreover have "rr_clause_id ` set (update_rows p ?off (compiled_rules db)) = rr_clause_id ` set (compiled_rules db)" for p
      by (rule image_update_rows) simp
    ultimately show ?thesis using assms ex Some by (simp add: store_failed_rule_def insert_absorb) fastforce
  next
    case None
    with assms ex show ?thesis by (auto simp: store_failed_rule_def bind_res_eq_Inr dest!: insert_rule_clauses)
  qed
qed

lemma compile_clause_has_rule:
  assumes "compile_clause env chunks rs tenant c db = Inr db'"
  shows "has_rule db' (cl_id c)" "has_rule db i \<Longrightarrow> has_rule db' i" "clause_ids db' = clause_ids db"
proof -
  let ?db = "mark_clauses CS_COMPILING [cl_id c] db"
  have mark: "clause_ids ?db = clause_ids db" by (simp add: mark_clauses_def image_update_rows)
  have fin: "cl_id ` set (update_rows p f xs) = cl_id ` set xs" if "\<And>c. cl_id (f c) = cl_id c" for p f and xs :: "Clause list"
    using that by (rule image_update_rows)
  have "has_rule db' (cl_id c) \<and> (has_rule db i \<longrightarrow> has_rule db' i) \<and> clause_ids db' = clause_ids db"
  proof (cases "extraction_for rs c")
    case (Inl e)
    with assms obtain db1 rid db2 where
      store: "store_failed_rule c (failed_rule_id c (chunk_for chunks c)) tenant ?db = Inr (db1, rid)"
      and review: "store_failed_review env c rid tenant e db1 = Inr db2"
      and db': "db' = set_clause (cl_id c) (\<lambda>c. c\<lparr>cl_processing_status := CS_FAILED, cl_error_message := Some (oe_str env e)\<rparr>) db2"
      by (auto simp: compile_clause_def persist_failed_clause_rule_def Let_def bind_res_eq_Inr)
    show ?thesis using store_failed_has_rule [OF store] keep_failed_review [OF review] mark unfolding db' has_rule_def by (simp add: fin)
  next
    case (Inr a)
    let ?del = "delete_rules (\<lambda>r. rr_clause_id r = cl_id c \<and> is_failed_id (row_rule_id r)) ?db"
    from Inr assms obtain comp_res db1 rid db2 db3 where
      up: "upsert_rule env c (rule_id (rule a)) comp_res tenant ?del = Inr (db1, rid)"
      and add: "add_reviews env c rid (rule_id (rule a)) tenant (hitl_flags comp_res) db1 = Inr db2"
      and db3: "db3 = set_rule rid (\<lambda>r. r\<lparr>rr_hitl_status := final_hitl_status (hitl_flags comp_res) (reviews_of_rule db2 rid)\<rparr>) db2"
      and db': "db' = set_clause (cl_id c) (\<lambda>c. c\<lparr>cl_processing_status := CS_COMPILED, cl_error_message := None\<rparr>) db3"
      by (auto simp: compile_clause_def compile_and_persist_rules_def Let_def bind_res_eq_Inr)
    have rules: "rr_clause_id ` set (compiled_rules db') = insert (cl_id c) (rr_clause_id ` set (compiled_rules ?del))"
      using upsert_has_rule [OF up] keep_add_reviews [OF add] unfolding db' db3 by (simp add: image_update_rows)
    have "has_rule ?del i" if "has_rule db i" "i \<noteq> cl_id c"
      using that by (auto simp: has_rule_def delete_rules_def Let_def)
    moreover have "clause_ids db' = clause_ids db"
      using upsert_has_rule [OF up] keep_add_reviews [OF add] mark unfolding db' db3
      by (simp add: fin) (simp add: delete_rules_def Let_def)
    ultimately show ?thesis using rules by (auto simp: has_rule_def)
  qed
  then show "has_rule db' (cl_id c)" "has_rule db i \<Longrightarrow> has_rule db' i" "clause_ids db' = clause_ids db" by auto
qed

lemma get_clause_Some: "i \<in> clause_ids db \<Longrightarrow> \<exists>c. get_clause db i = Some c \<and> cl_id c = i"
  by (cases "get_clause db i") (auto simp: get_clause_def find_None_iff dest: find_SomeD)

lemma compile_clauses_has_rule:
  assumes "compile_clauses env chunks rs tenant completed ids db = Inr db'" "set ids \<subseteq> clause_ids db"
    and "\<And>i. i \<in> set completed \<Longrightarrow> has_rule db i"
  shows "(\<forall>i. has_rule db i \<longrightarrow> has_rule db' i) \<and> (\<forall>i\<in>set ids. has_rule db' i)"
  using assms
proof (induction ids arbitrary: db)
  case (Cons i ids)
  show ?case
  proof (cases "i \<in> set completed")
    case True
    with Cons show ?thesis by auto
  next
    case False
    from Cons.prems(2) obtain c where c: "get_clause db i = Some c" "cl_id c = i" using get_clause_Some by fastforce
    with False Cons.prems(1) obtain db1 where 1: "compile_clause env chunks rs tenant c db = Inr db1"
      and rest: "compile_clauses env chunks rs tenant completed ids db1 = Inr db'" by (auto simp: bind_res_eq_Inr)
    note one = compile_clause_has_rule [OF 1]
    from Cons.IH [OF rest] Cons.prems(2,3) one
    have "(\<forall>i. has_rule db1 i \<longrightarrow> has_rule db' i) \<and> (\<forall>i\<in>set ids. has_rule db' i)" by auto
    with one c(2) show ?thesis by auto
  qed
qed simp

lemma clause_ids_note: "clause_ids (note_extraction env ks rs db) = clause_ids db"
proof (induction rs arbitrary: db)
  case (Cons r rs)
  obtain ch res where r: "r = (ch, res)" by (cases r)
  have "cl_id ` set (update_rows p (\<lambda>c. case res of
      Inl e \<Rightarrow> c\<lparr>cl_processing_status := CS_FAILED, cl_error_message := Some (oe_str env e)\<rparr>
    | Inr _ \<Rightarrow> c\<lparr>cl_processing_status := CS_EXTRACTED, cl_error_message := None\<rparr>) xs) = cl_id ` set xs" for p and xs :: "Clause list"
    by (rule image_update_rows) (cases res, simp_all)
  with Cons show ?case by (simp add: r split: option.split)
qed simp

text \<open>
  Claim C15. No clause is lost: after a run that returns, every clause it was
  given has a row among the compiled rules, a placeholder where its extraction
  failed; clauses compiled by an earlier run keep theirs.
\<close>

theorem every_clause_has_rule:
  assumes "execute_processing_stages env ci ids chunks tenant db = (db', Inr res)" and "set ids \<subseteq> cl_id ` set (clauses db)"
  shows "\<forall>i\<in>set ids. \<exists>(r :: RuleRow). r \<in> set (compiled_rules db') \<and> rr_clause_id r = i"
proof -
  let ?completed = "completed_clauses ids db"
  let ?db = "begin_compilation env ci (finish_extraction env ci ids chunks ?completed (begin_extraction env ci ids chunks db))"
  from assms(1) obtain db1 where 1: "compile_clauses env chunks (run_extraction env ids chunks ?completed) tenant ?completed ids ?db = Inr db1"
    and db': "db' = transition_circular_state (oe_now env) ci (target_state (reviews_in ids db1)) None db1"
    by (auto simp: execute_processing_stages_def Let_def split: sum.splits)
  have mark: "clause_ids (mark_clauses st ks d) = clause_ids d" for st ks d by (simp add: mark_clauses_def image_update_rows)
  have "set ids \<subseteq> clause_ids ?db"
    using assms(2) by (simp add: begin_compilation_def finish_extraction_def begin_extraction_def Let_def clause_ids_note mark)
  moreover have "has_rule ?db i" if "i \<in> set ?completed" for i
    using that by (auto simp: completed_clauses_def has_rule_def list_ex_iff)
  ultimately have "\<forall>i\<in>set ids. has_rule db1 i" using compile_clauses_has_rule [OF 1] by blast
  then show ?thesis unfolding db' by (force simp: has_rule_def)
qed

theorem every_clause_has_rule_witness:
  "\<exists>(r :: RuleRow). r \<in> set (compiled_rules (fst (execute_processing_stages failing_env 1 [2] [demo_chunk] ''sebi_baseline'' ingested_db)))
     \<and> rr_clause_id r = 2"
proof -
  let ?run = "execute_processing_stages failing_env 1 [2] [demo_chunk] ''sebi_baseline'' ingested_db"
  have "map_sum id pr_circular_id (snd ?run) = Inr 1" by code_simp
  then obtain res where "snd ?run = Inr res" by (cases "snd ?run") auto
  then have "?run = (fst ?run, Inr res)" by (metis prod.collapse)
  moreover have "map cl_id (clauses ingested_db) = [2]" by code_simp
  then have "set [2] \<subseteq> cl_id ` set (clauses ingested_db)" by (metis image_set subset_refl)
  ultimately show ?thesis using every_clause_has_rule by fastforce
qed

section \<open>A reprocessed circular\<close>

lemma find_key: "distinct (map f xs) \<Longrightarrow> x \<in> set xs \<Longrightarrow> find (\<lambda>y. f y = f x) xs = Some x"
  by (induction xs) (auto simp: image_iff)

lemma compile_clauses_completed:
  "set ids \<subseteq> set completed \<Longrightarrow> compile_clauses env chunks rs tenant completed ids db = Inr db"
  by (induction ids arbitrary: db) simp_all


text \<open>One clause that compiles, its sign-off approved, and the circular with it.\<close>

definition compiling_env :: orch_env where
  "compiling_env = (demo_env (\<lambda>_ _. Inr (demo_audited [demo_margin])))\<lparr>oe_float_repr := ratio_repr\<rparr>"

definition compiled_db :: reg_db where
  "compiled_db = fst (process_circular_pdf compiling_env [] None ''sebi_baseline'' None None empty_db)"

definition signed_db :: reg_db where
  "signed_db = fst (fst (approve_review id None [] False ''4'' ''officer'' None 5 (compiled_db, demo_plane)))"

lemma signed_reachable: "reg_reachable signed_db"
  unfolding signed_db_def compiled_db_def
  by (rule reg_reachable.step [OF reg_reachable.step [OF reg_reachable.start reg_step.process] reg_step.approve])

lemma signed_db_rows:
  "map (\<lambda>r. (rr_clause_id r, is_compiled r, row_rule_id r)) (compiled_rules signed_db) = [(2, True, ''r1'')]"
  "map (\<lambda>v. (rv_clause_id v, rv_severity v, rv_status v)) (hitl_reviews signed_db) = [(2, BLOCKING, RV_RESOLVED)]"
  "map (\<lambda>c. (ci_id c, ci_processing_state c)) (circulars signed_db) = [(1, PS_APPROVED)]"
proof -
  have "(map (\<lambda>r. (rr_clause_id r, is_compiled r, row_rule_id r)) (compiled_rules signed_db),
      map (\<lambda>v. (rv_clause_id v, rv_severity v, rv_status v)) (hitl_reviews signed_db),
      map (\<lambda>c. (ci_id c, ci_processing_state c)) (circulars signed_db)) =
    ([(2, True, ''r1'')], [(2, BLOCKING, RV_RESOLVED)], [(1, PS_APPROVED)])" by code_simp
  then show "map (\<lambda>r. (rr_clause_id r, is_compiled r, row_rule_id r)) (compiled_rules signed_db) = [(2, True, ''r1'')]"
    "map (\<lambda>v. (rv_clause_id v, rv_severity v, rv_status v)) (hitl_reviews signed_db) = [(2, BLOCKING, RV_RESOLVED)]"
    "map (\<lambda>c. (ci_id c, ci_processing_state c)) (circulars signed_db) = [(1, PS_APPROVED)]"
    by (simp_all only: prod.inject)
qed


end
