(* ===== verification/Review_Outcomes.thy ===== *)
theory Review_Outcomes
  imports Review_Pipeline
begin

text \<open>
  What the resolutions of a review do to its rule, the status queries against
  each other, the sweeper, and the circular state no code path sets.
\<close>

section \<open>Approval\<close>

lemma update_rows_id: "(\<And>x. x \<in> set xs \<Longrightarrow> p x \<Longrightarrow> f x = x) \<Longrightarrow> update_rows p f xs = xs"
  unfolding update_rows_def by (rule map_idI) simp

lemma rows_of_rule_approved:
  assumes ok: "db_ok db" and v: "v \<in> set (hitl_reviews db)" "rv_compiled_rule_id v = Some k"
    and f: "\<And>w. rv_status (f w) = RV_RESOLVED" "\<And>w. rv_compiled_rule_id (f w) = rv_compiled_rule_id w"
  shows "(\<forall>w\<in>set (reviews_of_rule (set_review (rv_id v) f db) k). rv_status w = RV_RESOLVED) \<longleftrightarrow>
    (\<forall>w\<in>set (reviews_of_rule db k). w \<noteq> v \<longrightarrow> rv_status w = RV_RESOLVED)"
proof -
  have same: "rv_id w = rv_id v \<longleftrightarrow> w = v" if "w \<in> set (reviews_of_rule db k)" for w
    using review_unique [of db v w] ok v(1) that by (auto simp: db_ok_def reviews_of_rule_def)
  have rows: "reviews_of_rule (set_review (rv_id v) f db) k = update_rows (\<lambda>w. rv_id w = rv_id v) f (reviews_of_rule db k)"
    using f(2) by (simp add: reviews_of_rule_def update_rows_def filter_map o_def if_distrib cong: if_cong) 
  show ?thesis unfolding rows ball_update_rows using same f(1) by simp
qed

lemma approve_circular_frame [simp]:
  "compiled_rules (approve_circular subject now v db) = compiled_rules db"
  "hitl_reviews (approve_circular subject now v db) = hitl_reviews db"
  by (simp_all add: approve_circular_def add_transition_def Let_def split: option.split prod.split)

lemma approve_rule_outcome:
  assumes ok: "db_ok db" and v: "v \<in> set (hitl_reviews db)" "rv_compiled_rule_id v = Some k" and r: "get_rule db k = Some r"
  defines "alone \<equiv> \<forall>w\<in>set (reviews_of_rule db k). w \<noteq> v \<longrightarrow> rv_status w = RV_RESOLVED"
  shows "\<exists>db'. approve_rule H subject msg now v r db = (db', alone) \<and>
    (alone \<longrightarrow> (\<forall>q\<in>set (compiled_rules db'). row_rule_id q = row_rule_id r \<longrightarrow> (is_active q \<longleftrightarrow> row_id q = k))) \<and>
    (\<not> alone \<longrightarrow> (\<forall>q\<in>set (compiled_rules db'). row_id q = k \<longrightarrow> \<not> is_active q))"
proof -
  let ?h = "policy_hash_of H r"
  let ?f = "\<lambda>w. resolve_row subject msg now RV_RESOLVED w\<lparr>rv_approved_rule_version := Some (row_rule_version r), rv_approved_policy_sha256 := ?h\<rparr>"
  define db2 where "db2 = set_rule (row_id r) (\<lambda>q. q\<lparr>rr_policy_sha256 := ?h\<rparr>) (set_review (rv_id v) ?f db)"
  let ?gate = "evaluate_rule_hitl_gate (reviews_of_rule db2 (row_id r))"
  have step: "approve_rule H subject msg now v r db = (if fst ?gate then (activate_rule r db2, True)
      else (set_rule (row_id r) (\<lambda>q. q\<lparr>is_active := False, rr_hitl_status := snd ?gate\<rparr>) db2, False))"
    unfolding approve_rule_def Let_def db2_def by (rule refl)
  from r have k: "row_id r = k" "r \<in> set (compiled_rules db)" by (auto simp: get_rule_def dest: find_SomeD)
  have "reviews_of_rule db2 k = reviews_of_rule (set_review (rv_id v) ?f db) k" by (simp add: db2_def reviews_of_rule_def)
  then have gate: "fst ?gate \<longleftrightarrow> alone"
    using rows_of_rule_approved [OF ok v, of ?f] by (simp add: gate_iff alone_def k(1) resolve_row_def)
  show ?thesis
  proof (cases alone)
    case True
    have "is_active q \<longleftrightarrow> row_id q = k" if q: "q \<in> set (compiled_rules (activate_rule r db2))" "row_rule_id q = row_rule_id r" for q
      using q(1) unfolding activate_rule_def CompiledRule.simps
    proof (simp, elim update_rowsE)
    qed (use q(2) k in auto)
    with True gate step show ?thesis by auto
  next
    case False
    with gate step k(1) show ?thesis by (auto elim!: update_rowsE)
  qed
qed

text \<open>
  Claim C13. What approval activates: approving a pending review of a rule
  activates the rule exactly when every other review attached to it is already
  resolved; then it is the only active row of its rule id, and otherwise it is
  switched off. The call succeeds either way.
\<close>

theorem approve_activates_iff:
  assumes ok: "db_ok db" and v: "get_pending_review db i = Inr v" "rv_compiled_rule_id v = Some k" and r: "get_rule db k = Some r"
  shows "\<exists>db' pl' row. \<exists>activated :: bool.
    approve_review H pub key up i subject msg now (db, pl) = ((db', pl'), Inr (activated, row)) \<and>
    activated = (\<forall>w\<in>set (reviews_of_rule db k). w \<noteq> v \<longrightarrow> rv_status w = RV_RESOLVED) \<and>
    (\<forall>q\<in>set (compiled_rules db').
       if activated then row_rule_id q = row_rule_id r \<longrightarrow> (is_active q \<longleftrightarrow> row_id q = k) else row_id q = k \<longrightarrow> \<not> is_active q)"
proof -
  let ?alone = "\<forall>w\<in>set (reviews_of_rule db k). w \<noteq> v \<longrightarrow> rv_status w = RV_RESOLVED"
  from v(1) have mem: "v \<in> set (hitl_reviews db)" by (auto simp: get_pending_Inr dest: find_SomeD)
  from approve_rule_outcome [OF ok mem v(2) r, of H subject msg now] obtain db1 where
    1: "approve_rule H subject msg now v r db = (db1, ?alone)"
      "?alone \<longrightarrow> (\<forall>q\<in>set (compiled_rules db1). row_rule_id q = row_rule_id r \<longrightarrow> (is_active q \<longleftrightarrow> row_id q = k))"
      "\<not> ?alone \<longrightarrow> (\<forall>q\<in>set (compiled_rules db1). row_id q = k \<longrightarrow> \<not> is_active q)" by blast
  define db' where "db' = approve_circular subject now v db1"
  obtain pl' row where "approve_review H pub key up i subject msg now (db, pl) = ((db', pl'), Inr (?alone, row))"
    using v r 1(1) by (simp add: approve_review_def Let_def db'_def)
  moreover have "compiled_rules db' = compiled_rules db1" by (simp add: db'_def)
  ultimately show ?thesis using 1(2,3) by (intro exI [of _ db'] exI [of _ pl'] exI [of _ row] exI [of _ ?alone]) auto
qed

theorem approve_activates_iff_witness:
  "\<exists>db' pl' row. approve_review id None [] False ''4'' ''officer'' None 5 (ingested_db, demo_plane) = ((db', pl'), Inr (True, row))"
proof -
  have "map_sum id rv_compiled_rule_id (get_pending_review ingested_db ''4'') = Inr (Some 3)"
    "map_option row_rule_id (get_rule ingested_db 3) = Some ''RULE-FAILED-4.1''" by code_simp+
  then obtain v r where v: "get_pending_review ingested_db ''4'' = Inr v" "rv_compiled_rule_id v = Some 3" and r: "get_rule ingested_db 3 = Some r"
    by (cases "get_pending_review ingested_db ''4''") auto
  from v(1) have "v \<in> set (hitl_reviews ingested_db)" by (auto simp: get_pending_Inr dest: find_SomeD)
  moreover have "length (hitl_reviews ingested_db) = 1" by code_simp
  ultimately have "set (reviews_of_rule ingested_db 3) \<subseteq> {v}" by (auto simp: reviews_of_rule_def length_Suc_conv)
  then have alone: "\<forall>w\<in>set (reviews_of_rule ingested_db 3). w \<noteq> v \<longrightarrow> rv_status w = RV_RESOLVED" by auto
  from approve_activates_iff [OF reachable_db_ok [OF ingested_reachable] v r, of id None "[]" False "''officer''" None 5 demo_plane]
  obtain db' pl' row and activated :: bool where
    "approve_review id None [] False ''4'' ''officer'' None 5 (ingested_db, demo_plane) = ((db', pl'), Inr (activated, row))"
    "activated = (\<forall>w\<in>set (reviews_of_rule ingested_db 3). w \<noteq> v \<longrightarrow> rv_status w = RV_RESOLVED)" by blast
  with alone show ?thesis by simp
qed

section \<open>Revision\<close>

text \<open>
  Asking for a revision fails where it is meant to be used: for a
  pending review of a circular that awaits its reviews or is approved, the
  service raises a \<open>NameError\<close> and nothing is stored.
\<close>

theorem revision_raises_while_awaiting:
  assumes "get_pending_review db i = Inr v" "circular_of_review db v = Some (cl, ci)"
    and "ci_processing_state ci \<in> {PS_AWAITING_HITL, PS_APPROVED}"
  shows "request_revision i subject msg now db = raise (NameError ''ClauseProcessingState'')"
proof -
  have "circular_of_review (set_review k f (case x of None \<Rightarrow> db | Some j \<Rightarrow> set_rule j g db)) v = circular_of_review db v" for k f x g
    by (simp add: circular_of_review_def get_clause_def get_circular_def split: option.split)
  with assms show ?thesis by (simp add: request_revision_def Let_def)
qed

theorem revision_raises_while_awaiting_witness:
  "request_revision ''4'' ''officer'' None 5 ingested_db = raise (NameError ''ClauseProcessingState'')"
proof -
  have "map_sum id (\<lambda>v. map_option (\<lambda>(cl, ci). ci_processing_state ci) (circular_of_review ingested_db v)) (get_pending_review ingested_db ''4'')
    = Inr (Some PS_AWAITING_HITL)" by code_simp
  then obtain v cl ci where "get_pending_review ingested_db ''4'' = Inr v" "circular_of_review ingested_db v = Some (cl, ci)"
    "ci_processing_state ci = PS_AWAITING_HITL"
    by (cases "get_pending_review ingested_db ''4''") auto
  with revision_raises_while_awaiting [of ingested_db "''4''" v cl ci] show ?thesis by simp
qed

text \<open>
  Where the revision is accepted (the circular has failed, say), the review is
  detached from its rule, and approving the last review still attached activates
  the rule although its revision was asked for and it is marked stale.
\<close>

definition two_clause_env :: orch_env where
  "two_clause_env = (demo_env (\<lambda>ch _. if ch_clause_number ch = Some ''4.1''
       then Inr ((demo_audited [])\<lparr>rule := (demo_rule [])\<lparr>extraction_confidence := Fin 0\<rparr>\<rparr>) else raise (RuntimeError ''boom'')))
     \<lparr>oe_parse := (\<lambda>_ _. Inr \<lparr>pa_metadata = \<lparr>me_circular_number = Some ''C/1'', me_title = None, me_source_url = None,
        me_source_filename = None, me_source_retrieved_at = None, me_department = None\<rparr>,
        pa_chunks = [demo_chunk\<lparr>ch_sha256 := replicate 64 (CHR ''a'')\<rparr>,
          demo_chunk\<lparr>ch_sha256 := replicate 64 (CHR ''b''), ch_clause_number := Some ''4.2''\<rparr>],
        pa_source_document_sha256 = None, pa_extracted_text_sha256 = None\<rparr>)\<rparr>"

definition two_clause_db :: reg_db where
  "two_clause_db = fst (process_circular_pdf two_clause_env [] None ''sebi_baseline'' None None empty_db)"

definition or_db :: "reg_db result \<Rightarrow> reg_db" where
  "or_db res = (case res of Inl _ \<Rightarrow> empty_db | Inr d \<Rightarrow> d)"

definition revised_db :: reg_db where
  "revised_db = or_db (request_revision ''5'' ''officer'' None 6 (or_db (reject_review ''8'' ''officer'' None 5 two_clause_db)))"

definition sibling_db :: reg_db where
  "sibling_db = fst (fst (approve_review id None [] False ''6'' ''officer'' None 7 (revised_db, demo_plane)))"

lemma or_db_step:
  "map_sum id (\<lambda>_. ()) res = Inr () \<Longrightarrow> res = Inr (or_db res)"
  by (cases res) (simp_all add: or_db_def)

lemma sibling_reachable: "reg_reachable sibling_db"
proof -
  have "map_sum id (\<lambda>_. ()) (reject_review ''8'' ''officer'' None 5 two_clause_db) = Inr ()"
    "map_sum id (\<lambda>_. ()) (request_revision ''5'' ''officer'' None 6 (or_db (reject_review ''8'' ''officer'' None 5 two_clause_db))) = Inr ()"
    by code_simp+
  note ok = this [THEN or_db_step]
  have "reg_reachable two_clause_db"
    unfolding two_clause_db_def by (rule reg_reachable.step [OF reg_reachable.start reg_step.process])
  then have "reg_reachable (or_db (reject_review ''8'' ''officer'' None 5 two_clause_db))"
    by (rule reg_reachable.step) (rule reg_step.reject [OF ok(1)])
  then have "reg_reachable revised_db" unfolding revised_db_def
    by (rule reg_reachable.step) (rule reg_step.revise [OF ok(2)])
  then show ?thesis unfolding sibling_db_def by (rule reg_reachable.step) (rule reg_step.approve)
qed

theorem revised_rule_activated:
  "reg_reachable sibling_db
   \<and> map (\<lambda>v. (rv_clause_id v, rv_status v)) (hitl_reviews sibling_db) = [(2, RV_REVISION_REQUIRED), (2, RV_RESOLVED), (3, RV_REJECTED)]
   \<and> map (\<lambda>r. (rr_clause_id r, is_active r, is_compiled r)) (compiled_rules sibling_db) = [(2, True, False), (3, False, False)]"
proof (intro conjI sibling_reachable)
  show "map (\<lambda>v. (rv_clause_id v, rv_status v)) (hitl_reviews sibling_db) = [(2, RV_REVISION_REQUIRED), (2, RV_RESOLVED), (3, RV_REJECTED)]"
    "map (\<lambda>r. (rr_clause_id r, is_active r, is_compiled r)) (compiled_rules sibling_db) = [(2, True, False), (3, False, False)]"
    by code_simp+
qed

section \<open>Status queries\<close>

lemma length_filter_product:
  "length (filter (\<lambda>(x, r). on x r \<and> P r) (List.product xs rows)) = (\<Sum>r\<leftarrow>rows. if P r then length (filter (\<lambda>x. on x r) xs) else 0)"
proof (induction rows)
  case (Cons r rows)
  have "length (filter (\<lambda>(x, r). on x r \<and> P r) (List.product xs (r # rows))) =
      (if P r then length (filter (\<lambda>x. on x r) xs) else 0) + length (filter (\<lambda>(x, r). on x r \<and> P r) (List.product xs rows))"
    by (induction xs) (auto simp: filter_map o_def)
  with Cons show ?case by simp
qed (induction xs, simp_all)

lemma count_key:
  assumes "distinct (map f xs)" shows "length (filter (\<lambda>x. k = f x) xs) = (if k \<in> f ` set xs then 1 else 0)"
  using assms by (induction xs) (auto simp: image_iff filter_empty_conv)

text \<open>Joining with the clauses counts each row of the circular once, the clause key being unique.\<close>

lemma join_count_once:
  assumes "db_ok db"
  shows "join_count grp (\<lambda>x r. f r = cl_id x) P (clauses db) rows = length (filter P (filter (\<lambda>r. f r \<in> set (map cl_id (filter grp (clauses db)))) rows))"
proof -
  have "distinct (map cl_id (filter grp (clauses db)))"
    using assms by (simp add: db_ok_def tables_ok_def clauses_ok_def distinct_map_filter)
  note one = count_key [OF this]
  show ?thesis unfolding join_count_def length_filter_product one by (induction rows) auto
qed

text \<open>
  Claim C16. The batch query agrees with the single one: for circulars of
  well-formed tables, the summary computed by the grouped joins has the status,
  the clause count, the active rules and the pending reviews that the query for
  that circular alone returns.
\<close>

theorem batch_status_agrees:
  assumes "db_ok db" and "\<forall>c\<in>set cs. get_circular db (ci_id c) = Some c"
  shows "map Some (get_circular_statuses_batch cs db) =
    map (\<lambda>c. map_option (\<lambda>s. (cs_circular_id s, cs_status s, cs_clause_count s, cs_active_rules s, cs_pending_reviews s))
      (get_circular_status (ci_id c) db)) cs"
proof -
  have pos: "filter (\<lambda>x. Q x \<and> P x) xs \<noteq> [] \<longleftrightarrow> list_ex P (filter Q xs)" for P Q and xs :: "HITLReview list"
    by (auto simp: list_ex_iff filter_empty_conv)
  show ?thesis unfolding get_circular_statuses_batch_def
    using assms(2) by (simp add: get_circular_status_def Let_def join_count_once [OF assms(1)] rules_in_def reviews_in_def pos
        del: set_map cong: list.map_cong)
qed

theorem batch_status_agrees_witness:
  "map (\<lambda>(ci, st, n, active, pending). (ci, st)) (get_circular_statuses_batch (circulars sibling_db) sibling_db) = [(1, ''failed'')]"
proof -
  note ok = reachable_db_ok [OF sibling_reachable]
  have all: "get_circular sibling_db (ci_id c) = Some c" if "c \<in> set (circulars sibling_db)" for c
    using that ok by (simp add: get_circular_def find_key db_ok_def tables_ok_def circulars_ok_def)
  have one: "map ci_id (circulars sibling_db) = [1]" by code_simp
  then obtain c where c: "circulars sibling_db = [c]" "ci_id c = 1" by (auto simp: map_eq_Cons_conv)
  have "map_option cs_status (get_circular_status 1 sibling_db) = Some ''failed''"
    "map_option cs_circular_id (get_circular_status 1 sibling_db) = Some 1" by code_simp+
  with batch_status_agrees [OF ok, of "circulars sibling_db"] all c show ?thesis by (auto simp: split_beta)
qed

section \<open>The sweeper\<close>

text \<open>
  A sweep leaves no circular that is stale by its own measure, turns
  exactly the stale ones to \<open>FAILED\<close>, records one transition for each, and reports
  their number; every other circular is untouched.
\<close>

theorem sweep_fails_exactly_the_stale:
  assumes ok: "db_ok db" and pos: "0 \<le> age"
  shows "filter (stale (now - age)) (circulars (fst (sweep_once now age db))) = []
    \<and> snd (sweep_once now age db) = length (filter (stale (now - age)) (circulars db))
    \<and> length (state_transitions (fst (sweep_once now age db))) = length (state_transitions db) + snd (sweep_once now age db)
    \<and> circulars (fst (sweep_once now age db)) = map (\<lambda>c. if stale (now - age) c
        then c\<lparr>ci_processing_state := PS_FAILED, ci_error_message := Some sweep_message, ci_updated_at := now\<rparr> else c) (circulars db)"
proof -
  let ?new = "\<lambda>c. c\<lparr>ci_processing_state := PS_FAILED, ci_error_message := Some sweep_message, ci_updated_at := now\<rparr>"
  have mem: "ci_id c \<in> ci_id ` set (filter (stale (now - age)) (circulars db)) \<longleftrightarrow> stale (now - age) c" if c: "c \<in> set (circulars db)" for c
  proof
    assume "ci_id c \<in> ci_id ` set (filter (stale (now - age)) (circulars db))"
    then obtain d where "d \<in> set (circulars db)" "stale (now - age) d" "ci_id c = ci_id d" by auto
    with circular_unique [OF ok \<open>d \<in> set (circulars db)\<close> c] show "stale (now - age) c" by simp
  qed (use c in auto)
  have rows: "circulars (fst (sweep_once now age db)) = map (\<lambda>c. if stale (now - age) c then ?new c else c) (circulars db)"
  proof (cases "filter (stale (now - age)) (circulars db) = []")
    case True
    then have "map (\<lambda>c. if stale (now - age) c then ?new c else c) (circulars db) = circulars db"
      by (intro map_idI) (auto simp: filter_empty_conv)
    with True show ?thesis by (simp add: sweep_once_def Let_def)
  next
    case False
    then show ?thesis using mem by (simp add: sweep_once_def Let_def update_rows_def)
  qed
  have "filter (stale (now - age)) (map (\<lambda>c. if stale (now - age) c then ?new c else c) (circulars db)) = []"
    by (auto simp: filter_empty_conv stale_def)
  with rows show ?thesis by (simp add: sweep_once_def Let_def)
qed

theorem sweep_fails_exactly_the_stale_witness:
  "snd (sweep_once 100 10 (begin_extraction failing_env 1 [2] [demo_chunk] ingested_db)) = 1
   \<and> filter (stale 90) (circulars (fst (sweep_once 100 10 (begin_extraction failing_env 1 [2] [demo_chunk] ingested_db)))) = []"
proof -
  have "filter (stale (100 - 10)) (circulars (fst (sweep_once 100 10 (begin_extraction failing_env 1 [2] [demo_chunk] ingested_db)))) = []"
    by (rule sweep_fails_exactly_the_stale [THEN conjunct1]) (simp_all add: db_ok_begin reachable_db_ok ingested_reachable)
  moreover have "snd (sweep_once 100 10 (begin_extraction failing_env 1 [2] [demo_chunk] ingested_db)) = 1" by code_simp
  ultimately show ?thesis by simp
qed

text \<open>
  The other intermediate states are never swept: a circular whose worker died
  between two checkpoints in \<open>INGESTED\<close> or \<open>EXTRACTED\<close> stays there however long
  it waits.
\<close>

theorem extracted_never_swept:
  "c \<in> set (circulars db) \<Longrightarrow> ci_processing_state c \<in> {PS_INGESTED, PS_EXTRACTED} \<Longrightarrow> db_ok db
   \<Longrightarrow> c \<in> set (circulars (fst (sweep_once now age db)))"
proof -
  assume c: "c \<in> set (circulars db)" "ci_processing_state c \<in> {PS_INGESTED, PS_EXTRACTED}" and ok: "db_ok db"
  then have "\<not> stale k c" for k by (auto simp: stale_def)
  moreover from this have "ci_id c \<notin> ci_id ` set (filter (stale k) (circulars db))" for k
    using circular_unique [OF ok c(1)] by auto
  ultimately show ?thesis using c(1) by (force simp: sweep_once_def Let_def set_update_rows)
qed

section \<open>The state no path sets\<close>

definition never_deployed :: "reg_db \<Rightarrow> bool" where
  "never_deployed db \<longleftrightarrow> (\<forall>c\<in>set (circulars db). ci_processing_state c \<noteq> PS_DEPLOYED)"

lemma nd_circulars: "circulars db' = circulars db \<Longrightarrow> never_deployed db' = never_deployed db"
  by (simp add: never_deployed_def)

lemma nd_set_circular:
  assumes "never_deployed db" "\<And>c. c \<in> set (circulars db) \<Longrightarrow> p c \<Longrightarrow> ci_processing_state (f c) \<noteq> PS_DEPLOYED"
  shows "never_deployed (db\<lparr>circulars := update_rows p f (circulars db)\<rparr>)"
  using assms by (simp add: never_deployed_def ball_update_rows)

lemma nd_transition: "never_deployed db \<Longrightarrow> st \<noteq> PS_DEPLOYED \<Longrightarrow> never_deployed (transition_circular_state now i st err db)"
proof (cases "get_circular db i")
  case (Some c)
  assume *: "never_deployed db" "st \<noteq> PS_DEPLOYED"
  let ?m = "case err of Some _ \<Rightarrow> err | None \<Rightarrow> if st \<noteq> PS_FAILED then None else ci_error_message c"
  let ?c = "if c\<lparr>ci_processing_state := st, ci_error_message := ?m\<rparr> = c then c else c\<lparr>ci_processing_state := st, ci_error_message := ?m, ci_updated_at := now\<rparr>"
  have "ci_processing_state ?c \<noteq> PS_DEPLOYED" using * get_circularD [OF Some] by (auto simp: never_deployed_def)
  then have "never_deployed (set_circular i (\<lambda>_. ?c) db)" using *(1) by (intro nd_set_circular)
  then show ?thesis by (simp add: transition_circular_state_def Some Let_def add_transition_def never_deployed_def cong: if_cong)
qed (simp add: transition_circular_state_def)

lemma nd_stages:
  "never_deployed db \<Longrightarrow> never_deployed (begin_extraction env ci ids chunks db)"
  "never_deployed db \<Longrightarrow> never_deployed (finish_extraction env ci ids chunks completed db)"
  "never_deployed db \<Longrightarrow> never_deployed (begin_compilation env ci db)"
  by (simp_all add: begin_extraction_def finish_extraction_def begin_compilation_def Let_def nd_transition nd_circulars [of "mark_clauses a b c" c for a b c]
      nd_circulars [of "note_extraction a b c d" d for a b c d])

lemma nd_execute:
  assumes "never_deployed db" shows "never_deployed (fst (execute_processing_stages env ci ids chunks tenant db))"
proof -
  let ?db = "begin_compilation env ci (finish_extraction env ci ids chunks (completed_clauses ids db) (begin_extraction env ci ids chunks db))"
  have nd: "never_deployed ?db" using assms by (intro nd_stages)
  have "never_deployed db1" if "compile_clauses env chunks rs tenant k ids ?db = Inr db1" for rs k db1
    using nd circulars_compile_clauses [OF that] by (simp add: never_deployed_def)
  then show ?thesis using nd
    by (auto simp: execute_processing_stages_def Let_def target_state_def split: sum.splits intro!: nd_transition)
qed

lemma nd_upsert:
  assumes "never_deployed db" "upsert_circular new db = Inr (db', c)" "ci_processing_state new \<noteq> PS_DEPLOYED"
  shows "never_deployed db'"
proof -
  from assms(2) obtain ex where ex: "scalar_one_or_none (filter (\<lambda>c. ci_circular_number c = ci_circular_number new
      \<or> ci_raw_text_digest c = ci_raw_text_digest new \<or> ci_source_document_sha256 c = ci_source_document_sha256 new) (circulars db)) = Inr ex"
    unfolding upsert_circular_def bind_res_eq_Inr by blast
  show ?thesis
  proof (cases ex)
    case None
    with assms(2) ex have "insert_circular new db = Inr (db', c)" by (simp add: upsert_circular_def)
    from insert_circular_Inr(1,2) [OF this] assms(1,3) show ?thesis by (auto simp: never_deployed_def)
  next
    case (Some d)
    with ex have "d \<in> set (circulars db)" by (auto simp: scalar_one_Some dest: filter_singletonD)
    with assms(1) have "ci_processing_state (fill_circular new d) \<noteq> PS_DEPLOYED" by (auto simp: never_deployed_def fill_circular_def Let_def)
    then have "never_deployed (set_circular (ci_id d) (\<lambda>_. fill_circular new d) db)" using assms(1) by (intro nd_set_circular)
    with assms(2) ex Some show ?thesis by (auto simp: upsert_circular_def split: if_splits)
  qed
qed

lemma nd_persist_clauses: "persist_clauses env ci t chs db = Inr (db', ids) \<Longrightarrow> circulars db' = circulars db"
  by (induction chs arbitrary: db ids)
     (auto simp: bind_res_eq_Inr persist_clause_def Let_def split: option.splits dest!: insert_clause_Inr(2))

lemma nd_ingest:
  assumes "never_deployed db" "ingest env p b f t u ts db = (k, Inr (db', c, ids))" shows "never_deployed db'"
proof -
  from assms(2) obtain db1 where 1: "persist_circular env p b f t u ts db = Inr (db1, c)"
    and 2: "persist_clauses env (ci_id c) t (pa_chunks p) db1 = Inr (db', ids)"
    by (auto simp: ingest_def bind_res_eq_Inr split: sum.splits)
  have "never_deployed (ensure_baseline_tenant t db)" using assms(1) by (simp add: ensure_baseline_tenant_def never_deployed_def)
  from nd_upsert [OF this 1 [unfolded persist_circular_def Let_def]] have "never_deployed db1" by simp
  with nd_persist_clauses [OF 2] show ?thesis by (simp add: never_deployed_def)
qed

lemma nd_process:
  assumes "never_deployed db" shows "never_deployed (fst (process_circular_pdf env bytes fname tenant url ts db))"
proof -
  have "never_deployed (mark_failed env k e db)" for k e
    using assms by (simp add: mark_failed_def nd_transition split: option.split)
  moreover have "never_deployed (fst (process_ingested env c ids chunks tenant d))" if "never_deployed d" for c ids chunks d
    using that by (simp add: process_ingested_def nd_transition nd_execute)
  ultimately have "never_deployed (fst (case ingest env p bytes fname tenant url ts db of (k, Inl e) \<Rightarrow> (mark_failed env k e db, raise e)
    | (_, Inr (db, c, ids)) \<Rightarrow> process_ingested env c ids chunks tenant db))" for p chunks
    using nd_ingest [OF assms, of env p bytes fname tenant url ts] by (simp split: prod.split sum.split)
  then show ?thesis using assms by (simp add: process_circular_pdf_def Let_def split: sum.split)
qed

lemma nd_resume: "never_deployed db \<Longrightarrow> never_deployed (fst (resume_circular env ci tenant db))"
  by (simp add: resume_circular_def Let_def nd_execute split: option.split)

lemma nd_approve_circular: "never_deployed db \<Longrightarrow> never_deployed (approve_circular subject now v db)"
  by (auto simp: approve_circular_def add_transition_def Let_def never_deployed_def ball_update_rows split: option.split prod.split)

lemma nd_fail_circular: "never_deployed db \<Longrightarrow> never_deployed (fail_circular subject now v db)"
  by (auto simp: fail_circular_def add_transition_def Let_def never_deployed_def ball_update_rows split: option.split prod.split)

lemma nd_approve:
  assumes "never_deployed (fst st)" shows "never_deployed (fst (fst (approve_review H pub key up i subject msg now st)))"
proof -
  have rule: "never_deployed (fst (approve_rule H subject msg now v r (fst st)))" for v r
    using assms by (simp add: approve_rule_def activate_rule_def Let_def never_deployed_def)
  have plain: "never_deployed (set_review k f (fst st))" for k f using assms by (simp add: never_deployed_def)
  show ?thesis using assms nd_approve_circular [OF rule] nd_approve_circular [OF plain]
    by (auto simp: approve_review_def Let_def split: sum.splits option.splits prod.splits) (metis fst_conv)+
qed

lemma nd_reject: "never_deployed db \<Longrightarrow> reject_review i subject msg now db = Inr db' \<Longrightarrow> never_deployed db'"
  by (auto simp: reject_review_def bind_res_eq_Inr Let_def intro!: nd_fail_circular) (simp add: never_deployed_def split: option.split)

lemma nd_revision: "never_deployed db \<Longrightarrow> request_revision i subject msg now db = Inr db' \<Longrightarrow> never_deployed db'"
proof -
  assume nd: "never_deployed db" and rev: "request_revision i subject msg now db = Inr db'"
  from rev have "circulars db' = circulars db"
    unfolding request_revision_def bind_res_eq_Inr Let_def
    by (elim exE conjE) (simp split: option.splits prod.splits if_splits, auto)
  with nd show ?thesis by (simp add: never_deployed_def)
qed

lemma nd_sweep: "never_deployed db \<Longrightarrow> never_deployed (fst (sweep_once now age db))"
  by (simp add: sweep_once_def Let_def never_deployed_def ball_update_rows)

lemma nd_step: "reg_step db db' \<Longrightarrow> never_deployed db \<Longrightarrow> never_deployed db'"
proof (induction rule: reg_step.induct)
  case crash_ingested
  then show ?case using nd_ingest nd_transition by blast
next
  case reject
  then show ?case using nd_reject by blast
next
  case revise
  then show ?case using nd_revision by blast
qed (simp_all add: nd_process nd_resume nd_stages nd_approve nd_sweep)

interpretation undeployed: table_invariant never_deployed
  by unfold_locales (simp add: never_deployed_def empty_db_def, rule nd_step)

text \<open>
  No circular is ever \<open>DEPLOYED\<close>: the state is declared, allowed by the
  transition table, tested when a circular is ingested again and reported by the
  status queries, but no sequence of runs, crashes, resolutions and sweeps sets it.
\<close>

theorem deployed_never_reached: "reg_reachable db \<Longrightarrow> \<forall>c\<in>set (circulars db). ci_processing_state c \<noteq> PS_DEPLOYED"
  using undeployed.reachable by (simp add: never_deployed_def)

theorem deployed_never_reached_witness: "list_ex (\<lambda>c. ci_processing_state c \<noteq> PS_DEPLOYED) (circulars signed_db)"
  using deployed_never_reached [OF signed_reachable] signed_db_rows(3) by (auto simp: map_eq_Cons_conv)

end
