(* ===== verification/Retry_Policy.thy ===== *)
theory Retry_Policy
  imports Complex_Main Py_Text Py_Value
begin

text \<open>
  Which failures are worth another attempt, \<open>app/resilience/retry_policy.py\<close>, and
  the retry budget the submission queues share. An exception is an object with
  an identity, since the walk along \<open>__cause__\<close> remembers the objects it has seen:
  a heap is the list of the objects, each with its class and the position of its
  cause. The classes are those the submitting code raises or wraps; httpx's and
  the built-in ones stand for their subclasses too. A delay is a rational: the
  products the code forms are powers of two times the base, which a float holds
  exactly. The draw of \<open>random.uniform\<close> is an argument between 0 and 1.
\<close>

section \<open>Exceptions as objects\<close>

datatype exc_class =
    EC_TransportError | EC_TimeoutException | EC_HTTPError
  | EC_ConnectionError | EC_TimeoutError | EC_OSError
  | EC_SubmissionError | EC_ScoresApiError | EC_ScoresApiNotConfiguredError
  | EC_KeyError | EC_ValueError | EC_TypeError | EC_AttributeError

fun class_name :: "exc_class \<Rightarrow> string" where
  "class_name EC_TransportError = ''TransportError''"
| "class_name EC_TimeoutException = ''TimeoutException''"
| "class_name EC_HTTPError = ''HTTPError''"
| "class_name EC_ConnectionError = ''ConnectionError''"
| "class_name EC_TimeoutError = ''TimeoutError''"
| "class_name EC_OSError = ''OSError''"
| "class_name EC_SubmissionError = ''SubmissionError''"
| "class_name EC_ScoresApiError = ''ScoresApiError''"
| "class_name EC_ScoresApiNotConfiguredError = ''ScoresApiNotConfiguredError''"
| "class_name EC_KeyError = ''KeyError''"
| "class_name EC_ValueError = ''ValueError''"
| "class_name EC_TypeError = ''TypeError''"
| "class_name EC_AttributeError = ''AttributeError''"

type_synonym exc_heap = "(exc_class \<times> nat option) list"

record raised =
  rx_heap :: exc_heap
  rx_ref :: nat
  rx_text :: string

text \<open>\<open>raise C(text)\<close> and \<open>raise C(text) from exc\<close>.\<close>

definition raise_new :: "exc_class \<Rightarrow> string \<Rightarrow> raised" where
  "raise_new c s = \<lparr>rx_heap = [(c, None)], rx_ref = 0, rx_text = s\<rparr>"

definition raise_from :: "exc_class \<Rightarrow> string \<Rightarrow> raised \<Rightarrow> raised" where
  "raise_from c s r = \<lparr>rx_heap = rx_heap r @ [(c, Some (rx_ref r))], rx_ref = length (rx_heap r), rx_text = s\<rparr>"

definition rx_class :: "raised \<Rightarrow> exc_class" where
  "rx_class r = fst (rx_heap r ! rx_ref r)"

text \<open>No dangling references.\<close>

definition heap_ok :: "exc_heap \<Rightarrow> bool" where
  "heap_ok h \<longleftrightarrow> (\<forall>x\<in>set h. case snd x of None \<Rightarrow> True | Some i \<Rightarrow> i < length h)"

definition raised_ok :: "raised \<Rightarrow> bool" where
  "raised_ok r \<longleftrightarrow> heap_ok (rx_heap r) \<and> rx_ref r < length (rx_heap r)"

lemma raised_ok_new [simp]: "raised_ok (raise_new c s)"
  by (simp add: raised_ok_def heap_ok_def raise_new_def)

lemma raised_ok_from [simp]: "raised_ok r \<Longrightarrow> raised_ok (raise_from c s r)"
  by (fastforce simp: raised_ok_def heap_ok_def raise_from_def split: option.splits)

lemma rx_class_simps [simp]: "rx_class (raise_new c s) = c" "rx_class (raise_from c s r) = c"
  by (simp_all add: rx_class_def raise_new_def raise_from_def)

section \<open>Transient failures\<close>

definition TRANSIENT_EXCEPTION_TYPES :: "exc_class list" where
  "TRANSIENT_EXCEPTION_TYPES = [EC_TransportError, EC_TimeoutException, EC_ConnectionError, EC_TimeoutError, EC_OSError]"

abbreviation transient_class :: "exc_class \<Rightarrow> bool" where
  "transient_class c \<equiv> c \<in> set TRANSIENT_EXCEPTION_TYPES"

function is_transient_loop :: "exc_heap \<Rightarrow> nat set \<Rightarrow> nat option \<Rightarrow> bool" where
  "is_transient_loop h seen None = False"
| "is_transient_loop h seen (Some i) =
     (if i \<in> seen \<or> length h \<le> i then False
      else if transient_class (fst (h ! i)) then True
      else is_transient_loop h (insert i seen) (snd (h ! i)))"
  by pat_completeness simp_all

termination
proof (relation "measure (\<lambda>(h, seen, _). card ({..<length h} - seen))", goal_cases)
  case (2 h seen i)
  then have "i \<in> {..<length h} - seen" by simp
  then have "card ({..<length h} - seen - {i}) < card ({..<length h} - seen)" by (intro card_Diff1_less) simp_all
  moreover have "{..<length h} - insert i seen = {..<length h} - seen - {i}" by blast
  ultimately show ?case by simp
qed simp

definition is_transient :: "raised \<Rightarrow> bool" where
  "is_transient r = is_transient_loop (rx_heap r) {} (Some (rx_ref r))"

text \<open>The cause of an object, and the objects on its chain of causes.\<close>

definition cause_of :: "exc_heap \<Rightarrow> nat \<Rightarrow> nat \<Rightarrow> bool" where
  "cause_of h i j \<longleftrightarrow> i < length h \<and> snd (h ! i) = Some j"

definition chain_has_transient :: "exc_heap \<Rightarrow> nat \<Rightarrow> bool" where
  "chain_has_transient h i \<longleftrightarrow> (\<exists>j. (cause_of h)\<^sup>*\<^sup>* i j \<and> j < length h \<and> transient_class (fst (h ! j)))"

lemma chain_step:
  assumes "i < length h" "\<not> transient_class (fst (h ! i))"
  shows "chain_has_transient h i \<longleftrightarrow> (\<exists>j. snd (h ! i) = Some j \<and> chain_has_transient h j)"
proof
  assume "chain_has_transient h i"
  then obtain k where k: "(cause_of h)\<^sup>*\<^sup>* i k" "k < length h" "transient_class (fst (h ! k))"
    by (auto simp: chain_has_transient_def)
  with assms have "i \<noteq> k" by blast
  with k(1) obtain j where "cause_of h i j" "(cause_of h)\<^sup>*\<^sup>* j k" by (metis converse_rtranclpE)
  with k show "\<exists>j. snd (h ! i) = Some j \<and> chain_has_transient h j"
    by (auto simp: cause_of_def chain_has_transient_def)
next
  assume "\<exists>j. snd (h ! i) = Some j \<and> chain_has_transient h j"
  then show "chain_has_transient h i"
    using assms(1) unfolding chain_has_transient_def by (metis cause_of_def converse_rtranclp_into_rtranclp)
qed

text \<open>What was seen is not transient and leads nowhere but to what was seen or the current object.\<close>

definition visited :: "exc_heap \<Rightarrow> nat set \<Rightarrow> nat option \<Rightarrow> bool" where
  "visited h seen cur \<longleftrightarrow> (\<forall>s\<in>seen. s < length h \<longrightarrow> \<not> transient_class (fst (h ! s))
     \<and> (\<forall>j. snd (h ! s) = Some j \<longrightarrow> j \<in> seen \<or> cur = Some j))"

lemma closed_chain:
  assumes "visited h seen (Some i)" "i \<in> seen" shows "\<not> chain_has_transient h i"
proof -
  have "j \<in> seen" if "(cause_of h)\<^sup>*\<^sup>* i j" for j
    using that by (induction rule: rtranclp_induct) (use assms in \<open>auto simp: visited_def cause_of_def\<close>)
  then show ?thesis using assms(1) by (auto simp: chain_has_transient_def visited_def)
qed

lemma is_transient_loop_iff:
  "visited h seen cur \<Longrightarrow> is_transient_loop h seen cur \<longleftrightarrow> (\<exists>i. cur = Some i \<and> chain_has_transient h i)"
proof (induction h seen cur rule: is_transient_loop.induct)
  case (2 h seen i)
  consider (seen) "i \<in> seen" | (out) "length h \<le> i" | (hit) "i \<notin> seen" "i < length h" "transient_class (fst (h ! i))"
    | (walk) "i \<notin> seen" "i < length h" "\<not> transient_class (fst (h ! i))" by fastforce
  then show ?case
  proof cases
    case seen
    with closed_chain [OF 2(2)] show ?thesis by simp
  next
    case out
    then have "j = i" if "(cause_of h)\<^sup>*\<^sup>* i j" for j
      using that by (metis cause_of_def converse_rtranclpE leD)
    with out have "\<not> chain_has_transient h i" unfolding chain_has_transient_def by (metis leD)
    with out show ?thesis by simp
  next
    case hit
    then show ?thesis by (auto simp: chain_has_transient_def)
  next
    case walk
    have "visited h (insert i seen) (snd (h ! i))" using 2(2) walk by (auto simp: visited_def)
    with 2(1) walk show ?thesis by (auto simp: chain_step)
  qed
qed simp

lemma is_transient_iff: "is_transient r \<longleftrightarrow> chain_has_transient (rx_heap r) (rx_ref r)"
  using is_transient_loop_iff [of "rx_heap r" "{}" "Some (rx_ref r)"] by (simp only: is_transient_def) (simp add: visited_def)

lemma is_transient_new [simp]: "is_transient (raise_new c s) \<longleftrightarrow> transient_class c"
  by (simp add: is_transient_def raise_new_def)

text \<open>Wrapping an error in a typed one with \<open>raise ... from\<close> keeps the verdict.\<close>

lemma chain_append:
  assumes "heap_ok h" "i < length h" shows "chain_has_transient (h @ [x]) i \<longleftrightarrow> chain_has_transient h i"
proof -
  have step: "cause_of (h @ [x]) a b \<longleftrightarrow> cause_of h a b" "cause_of h a b \<Longrightarrow> b < length h" if "a < length h" for a b
    using that assms(1) by (auto simp: cause_of_def nth_append heap_ok_def dest: nth_mem split: option.splits)
  have 1: "(cause_of h)\<^sup>*\<^sup>* i j \<and> j < length h" if "(cause_of (h @ [x]))\<^sup>*\<^sup>* i j" for j
    using that by (induction rule: rtranclp_induct) (use assms(2) step in \<open>auto intro: rtranclp.rtrancl_into_rtrancl\<close>)
  have 2: "(cause_of (h @ [x]))\<^sup>*\<^sup>* i j \<and> j < length h" if "(cause_of h)\<^sup>*\<^sup>* i j" for j
    using that by (induction rule: rtranclp_induct) (use assms(2) step in \<open>auto intro: rtranclp.rtrancl_into_rtrancl\<close>)
  show ?thesis unfolding chain_has_transient_def by (metis 1 2 nth_append length_append_singleton less_Suc_eq)
qed

lemma is_transient_from:
  assumes "raised_ok r" shows "is_transient (raise_from c s r) \<longleftrightarrow> transient_class c \<or> is_transient r"
proof (cases "transient_class c")
  case True
  then show ?thesis by (simp add: is_transient_def raise_from_def)
next
  case False
  let ?h = "rx_heap r @ [(c, Some (rx_ref r))]"
  have "chain_has_transient ?h (length (rx_heap r)) \<longleftrightarrow> chain_has_transient ?h (rx_ref r)"
    using False by (subst chain_step) simp_all
  with False chain_append assms show ?thesis by (simp add: is_transient_iff raised_ok_def) (simp add: raise_from_def)
qed

text \<open>
  The classifier always answers, also when the chain of causes is a
  cycle, and answers exactly whether the exception or one on its chain of causes
  is a network failure.
\<close>

theorem is_transient_exact:
  "is_transient r \<longleftrightarrow>
     (\<exists>j. (cause_of (rx_heap r))\<^sup>*\<^sup>* (rx_ref r) j \<and> j < length (rx_heap r)
        \<and> fst (rx_heap r ! j) \<in> {EC_TransportError, EC_TimeoutException, EC_ConnectionError, EC_TimeoutError, EC_OSError})"
  by (simp add: is_transient_iff chain_has_transient_def TRANSIENT_EXCEPTION_TYPES_def)

section \<open>HTTP answers\<close>

text \<open>What the HTTP client gives: an exception, or the status, the text and the JSON value of the body, if it is JSON.\<close>

datatype http_reply = HTTP_RAISED raised | HTTP_RESPONSE nat string "pyval option"

definition is_http_error :: "exc_class \<Rightarrow> bool" where
  "is_http_error c \<longleftrightarrow> c \<in> set [EC_TransportError, EC_TimeoutException, EC_HTTPError]"

text \<open>The errors of \<open>body[key]\<close>, of \<open>body.get(key, dflt)\<close> and of a field a model validates as a string.\<close>

definition body_item :: "string \<Rightarrow> pyval \<Rightarrow> raised + pyval" where
  "body_item k b =
     (case b of
        PDict d \<Rightarrow> (case map_of d k of None \<Rightarrow> Inl (raise_new EC_KeyError k) | Some v \<Rightarrow> Inr v)
      | _ \<Rightarrow> Inl (raise_new EC_TypeError ''not a mapping''))"

definition body_get :: "string \<Rightarrow> pyval \<Rightarrow> pyval \<Rightarrow> raised + pyval" where
  "body_get k dflt b =
     (case b of
        PDict d \<Rightarrow> Inr (case map_of d k of None \<Rightarrow> dflt | Some v \<Rightarrow> v)
      | _ \<Rightarrow> Inl (raise_new EC_AttributeError ''get''))"

definition model_str :: "pyval \<Rightarrow> raised + string" where
  "model_str v = (case v of PStr s \<Rightarrow> Inr s | _ \<Rightarrow> Inl (raise_new EC_ValueError ''validation error''))"

definition model_opt_str :: "pyval \<Rightarrow> raised + string option" where
  "model_opt_str v = (case v of PNone \<Rightarrow> Inr None | PStr s \<Rightarrow> Inr (Some s) | _ \<Rightarrow> Inl (raise_new EC_ValueError ''validation error''))"

text \<open>The part the HTTP calls share: the errors of the request, wrapped in class \<open>c\<close>, the status and the body.\<close>

definition http_call :: "exc_class \<Rightarrow> string \<Rightarrow> string \<Rightarrow> http_reply \<Rightarrow> raised + pyval" where
  "http_call c failed rejected reply =
     (case reply of
        HTTP_RAISED r \<Rightarrow> Inl (if is_http_error (rx_class r) then raise_from c (failed @ '': '' @ rx_text r) r else r)
      | HTTP_RESPONSE status text body \<Rightarrow>
          if 300 \<le> status then Inl (raise_new c (rejected @ '': '' @ nat_str status @ '' '' @ text))
          else (case body of None \<Rightarrow> Inl (raise_new EC_ValueError ''not JSON'') | Some b \<Rightarrow> Inr b))"

section \<open>Backoff\<close>

text \<open>
  The product of a float and an integer converts the integer, which fails from
  \<open>2 ** 1024\<close> on.
\<close>

datatype backoff_error = NEGATIVE_ATTEMPT | INT_TOO_LARGE

definition compute_backoff_delay :: "rat \<Rightarrow> int \<Rightarrow> rat \<Rightarrow> rat \<Rightarrow> backoff_error + rat" where
  "compute_backoff_delay draw attempt base_seconds max_delay_seconds =
     (if attempt < 0 then Inl NEGATIVE_ATTEMPT
      else if attempt \<ge> 1024 then Inl INT_TOO_LARGE
      else let ceiling = min max_delay_seconds (base_seconds * 2 ^ nat attempt) in Inr (ceiling * draw))"

theorem backoff_bounds:
  assumes "0 \<le> draw" "draw \<le> 1" "0 \<le> base" "0 \<le> max_delay"
  shows "if 0 \<le> attempt \<and> attempt < 1024
    then \<exists>d. compute_backoff_delay draw attempt base max_delay = Inr d \<and> 0 \<le> d \<and> d \<le> max_delay \<and> d \<le> base * 2 ^ nat attempt
    else \<exists>e. compute_backoff_delay draw attempt base max_delay = Inl e"
proof -
  let ?c = "min max_delay (base * 2 ^ nat attempt)"
  have c: "0 \<le> ?c" using assms by simp
  then have "0 \<le> ?c * draw" "?c * draw \<le> ?c" using assms mult_left_mono [of draw 1 ?c] by simp_all
  moreover have "?c \<le> max_delay" "?c \<le> base * 2 ^ nat attempt" by simp_all
  ultimately show ?thesis unfolding compute_backoff_delay_def Let_def by (auto intro: order_trans)
qed

section \<open>The retry budget\<close>

text \<open>
  What both submission queues promise of one attempt on a document that is
  waiting: the attempt is counted; a transient failure with budget left keeps it
  waiting, any other failure ends it.
\<close>

locale retry_queue =
  fixes doc :: "'db \<Rightarrow> 'id \<Rightarrow> 'd option"
    and waiting :: "'d \<Rightarrow> bool"
    and given_up :: "'d \<Rightarrow> bool"
    and attempts :: "'d \<Rightarrow> int"
    and budget :: "'d \<Rightarrow> int"
    and fail_once :: "raised \<Rightarrow> 'id \<Rightarrow> 'db \<Rightarrow> 'db"
  assumes fail_retry: "doc db i = Some d \<Longrightarrow> waiting d \<Longrightarrow> is_transient r \<Longrightarrow> attempts d + 1 < budget d \<Longrightarrow>
      \<exists>d'. doc (fail_once r i db) i = Some d' \<and> waiting d' \<and> attempts d' = attempts d + 1 \<and> budget d' = budget d"
    and fail_final: "doc db i = Some d \<Longrightarrow> waiting d \<Longrightarrow> \<not> (is_transient r \<and> attempts d + 1 < budget d) \<Longrightarrow>
      \<exists>d'. doc (fail_once r i db) i = Some d' \<and> given_up d' \<and> attempts d' = attempts d + 1"
begin

text \<open>Against a destination that stays unreachable the queue gives up after the budget, or one attempt.\<close>

lemma unreachable_rounds:
  assumes "doc db i = Some d" "waiting d" "is_transient r" "attempts d + int n < budget d"
  shows "\<exists>d'. doc ((fail_once r i ^^ n) db) i = Some d' \<and> waiting d' \<and> attempts d' = attempts d + int n \<and> budget d' = budget d"
  using assms(4)
proof (induction n)
  case (Suc n)
  then obtain d' where "doc ((fail_once r i ^^ n) db) i = Some d'" "waiting d'" "attempts d' = attempts d + int n" "budget d' = budget d"
    by force
  with Suc.prems fail_retry [OF _ _ assms(3)] show ?case by fastforce
qed (use assms in simp)

lemma budget_spent:
  assumes "doc db i = Some d" "waiting d" "is_transient r"
  shows "\<exists>d'. doc ((fail_once r i ^^ nat (max 1 (budget d - attempts d))) db) i = Some d' \<and> given_up d'
    \<and> attempts d' = max (attempts d + 1) (budget d)"
proof -
  obtain n where n: "nat (max 1 (budget d - attempts d)) = Suc n" using not0_implies_Suc [of "nat (max 1 (budget d - attempts d))"] by auto
  obtain d' where d': "doc ((fail_once r i ^^ n) db) i = Some d'" "waiting d'" "attempts d' = attempts d + int n"
    "\<not> attempts d' + 1 < budget d'"
  proof (cases "attempts d + int n < budget d")
    case True
    then obtain d' where "doc ((fail_once r i ^^ n) db) i = Some d'" "waiting d'" "attempts d' = attempts d + int n" "budget d' = budget d"
      using unreachable_rounds [OF assms] by blast
    moreover from True have "\<not> attempts d + int n + 1 < budget d" using n by linarith
    ultimately show thesis using that by metis
  next
    case False
    then have "n = 0" using n by linarith
    with assms that False show thesis by simp
  qed
  obtain d'' where "doc (fail_once r i ((fail_once r i ^^ n) db)) i = Some d''" "given_up d''" "attempts d'' = attempts d' + 1"
    using fail_final [OF d'(1,2), of r] d'(4) by blast
  moreover have "attempts d' + 1 = max (attempts d + 1) (budget d)" using d'(3) n by linarith
  ultimately show ?thesis unfolding n by auto
qed

end

end
