(* ===== verification/Grievance_Queue.thy ===== *)
theory Grievance_Queue
  imports Incident_Escalation Py_Datetime Retry_Policy
begin

text \<open>
  Filing a grievance with SEBI SCORES, \<open>app/grievance_escalation\<close>: the records
  (\<open>schemas.py\<close>, \<open>queue.py\<close>), the Redis queue (\<open>queue.py\<close>), the client
  (\<open>scores_client.py\<close>), the Celery tasks that submit and poll (\<open>tasks.py\<close>), the
  dashboard events (\<open>dashboard.py\<close>) and the routes (\<open>api/grievance_routes.py\<close>).
  What the HTTP client answers a request with is an argument: the exception it
  raises, or the status code, the text and the JSON value of the body, None when
  the text is not JSON. The texts of errors are kept where the record stores
  them. A task between its first write and the answer of SCORES is in flight:
  other tasks run meanwhile.
\<close>

section \<open>Data\<close>

datatype GrievanceCategory = BROKER_SYSTEMIC_NON_COMPLIANCE | DELAYED_COLLATERAL_REPORTING | REPEATED_CLAUSE_VIOLATION

fun category_value :: "GrievanceCategory \<Rightarrow> string" where
  "category_value BROKER_SYSTEMIC_NON_COMPLIANCE = ''broker_systemic_non_compliance''"
| "category_value DELAYED_COLLATERAL_REPORTING = ''delayed_collateral_reporting''"
| "category_value REPEATED_CLAUSE_VIOLATION = ''repeated_clause_violation''"

record GrievanceRespondent =
  sebi_registration_number :: string
  rs_broker_id :: string
  rs_entity_name :: "string option"

record GrievanceComplainant =
  cp_entity_name :: string
  contact_email :: string
  cp_tenant_id :: "string option"

record GrievanceEvidenceDocument =
  ed_label :: string
  ed_content_type :: string
  ed_content :: string
  ed_sha256 :: string

record GrievanceSubmissionRequest =
  reference_id :: string
  rq_category :: GrievanceCategory
  rq_respondent :: GrievanceRespondent
  rq_complainant :: GrievanceComplainant
  rq_description :: string
  rq_evidence :: "GrievanceEvidenceDocument list"
  rq_filed_at :: time

datatype ScoresGrievanceStatus =
    SG_SUBMITTED | SG_UNDER_REVIEW | SG_PENDING_WITH_RESPONDENT | SG_RESOLVED | SG_REJECTED | SG_UNKNOWN

fun scores_status_value :: "ScoresGrievanceStatus \<Rightarrow> string" where
  "scores_status_value SG_SUBMITTED = ''submitted''"
| "scores_status_value SG_UNDER_REVIEW = ''under_review''"
| "scores_status_value SG_PENDING_WITH_RESPONDENT = ''pending_with_respondent''"
| "scores_status_value SG_RESOLVED = ''resolved''"
| "scores_status_value SG_REJECTED = ''rejected''"
| "scores_status_value SG_UNKNOWN = ''unknown''"

definition scores_statuses :: "ScoresGrievanceStatus list" where
  "scores_statuses = [SG_SUBMITTED, SG_UNDER_REVIEW, SG_PENDING_WITH_RESPONDENT, SG_RESOLVED, SG_REJECTED, SG_UNKNOWN]"

record GrievanceSubmissionResponse =
  sr_reference_number :: string
  sr_status :: ScoresGrievanceStatus

record GrievanceStatusResponse =
  st_reference_number :: string
  st_scores_status :: ScoresGrievanceStatus
  st_resolution_summary :: "string option"

datatype GrievanceStatus =
    GS_DRAFTED | GS_PENDING_SUBMISSION | GS_SUBMITTING | GS_SUBMITTED | GS_RESOLVED | GS_REJECTED | GS_SUBMISSION_FAILED

fun grievance_status_value :: "GrievanceStatus \<Rightarrow> string" where
  "grievance_status_value GS_DRAFTED = ''drafted''"
| "grievance_status_value GS_PENDING_SUBMISSION = ''pending_submission''"
| "grievance_status_value GS_SUBMITTING = ''submitting''"
| "grievance_status_value GS_SUBMITTED = ''submitted''"
| "grievance_status_value GS_RESOLVED = ''resolved''"
| "grievance_status_value GS_REJECTED = ''rejected''"
| "grievance_status_value GS_SUBMISSION_FAILED = ''submission_failed''"

record GrievanceRecord =
  grievance_id :: string
  gr_request :: GrievanceSubmissionRequest
  gr_status :: GrievanceStatus
  attempt_count :: int
  max_retries :: int
  gr_last_error :: "string option"
  scores_reference_number :: "string option"
  scores_status :: "ScoresGrievanceStatus option"
  resolution_summary :: "string option"
  gr_filed_at :: time
  response_due_at :: time
  gr_submitted_at :: "time option"
  last_polled_at :: "time option"
  gr_resolved_at :: "time option"

definition is_open :: "GrievanceRecord \<Rightarrow> bool" where
  "is_open r \<longleftrightarrow> gr_status r = GS_SUBMITTED"

definition is_overdue :: "time \<Rightarrow> GrievanceRecord \<Rightarrow> bool" where
  "is_overdue now r \<longleftrightarrow> is_open r \<and> response_due_at r < now"

section \<open>The queue\<close>

type_synonym grievance_queue = "GrievanceRecord redis"

definition gv_key :: "string \<Rightarrow> string \<Rightarrow> string" where
  "gv_key p i = p @ '':grievance:'' @ i"

definition pending_submission_key :: "string \<Rightarrow> string" where
  "pending_submission_key p = p @ '':pending_submission''"

definition open_key :: "string \<Rightarrow> string" where
  "open_key p = p @ '':open''"

definition gv_save :: "string \<Rightarrow> GrievanceRecord \<Rightarrow> grievance_queue \<Rightarrow> grievance_queue" where
  "gv_save p r q = r_put (gv_key p (grievance_id r)) r q"

definition create_draft :: "string \<Rightarrow> GrievanceRecord \<Rightarrow> grievance_queue \<Rightarrow> grievance_queue" where
  "create_draft p r q = gv_save p r q"

definition gv_get :: "string \<Rightarrow> string \<Rightarrow> grievance_queue \<Rightarrow> GrievanceRecord option" where
  "gv_get p i q = r_get q (gv_key p i)"

definition list_from_set :: "(string set \<Rightarrow> string list) \<Rightarrow> string \<Rightarrow> string \<Rightarrow> grievance_queue \<Rightarrow> GrievanceRecord list" where
  "list_from_set enum p k q = sort_key gr_filed_at (List.map_filter (\<lambda>i. gv_get p i q) (enum (r_smembers q k)))"

definition list_pending_submission :: "(string set \<Rightarrow> string list) \<Rightarrow> string \<Rightarrow> grievance_queue \<Rightarrow> GrievanceRecord list" where
  "list_pending_submission enum p q = list_from_set enum p (pending_submission_key p) q"

definition list_open :: "(string set \<Rightarrow> string list) \<Rightarrow> string \<Rightarrow> grievance_queue \<Rightarrow> GrievanceRecord list" where
  "list_open enum p q = list_from_set enum p (open_key p) q"

definition gv_require :: "string \<Rightarrow> string \<Rightarrow> grievance_queue \<Rightarrow> GrievanceRecord result" where
  "gv_require p i q =
     (case gv_get p i q of
        None \<Rightarrow> raise (KeyError (''No grievance '' @ [CHR 0x27] @ i @ [CHR 0x27] @ '' in the queue.''))
      | Some r \<Rightarrow> Inr r)"

text \<open>The shape all updates have: read the record, write the changed copy, then move the id between the sets.\<close>

definition gv_update ::
  "string \<Rightarrow> string \<Rightarrow> (GrievanceRecord \<Rightarrow> GrievanceRecord) \<Rightarrow> (GrievanceRecord \<Rightarrow> grievance_queue \<Rightarrow> grievance_queue)
   \<Rightarrow> grievance_queue \<Rightarrow> grievance_queue \<times> GrievanceRecord result" where
  "gv_update p i f g q =
     (case gv_require p i q of
        Inl e \<Rightarrow> (q, raise e)
      | Inr r \<Rightarrow> let updated = f r in (g updated (gv_save p updated q), Inr updated))"

definition confirm_for_submission :: "string \<Rightarrow> string \<Rightarrow> grievance_queue \<Rightarrow> grievance_queue \<times> GrievanceRecord result" where
  "confirm_for_submission p i q =
     (case gv_require p i q of
        Inl e \<Rightarrow> (q, raise e)
      | Inr r \<Rightarrow>
          if gr_status r \<noteq> GS_DRAFTED then
            (q, raise (ValueError (''Grievance '' @ [CHR 0x27] @ i @ [CHR 0x27] @ '' is not DRAFTED (status=''
               @ grievance_status_value (gr_status r) @ ''); cannot confirm.'')))
          else
            let updated = r\<lparr>gr_status := GS_PENDING_SUBMISSION\<rparr>
            in (r_sadd (pending_submission_key p) i (gv_save p updated q), Inr updated))"

definition mark_submitting :: "string \<Rightarrow> string \<Rightarrow> grievance_queue \<Rightarrow> grievance_queue \<times> GrievanceRecord result" where
  "mark_submitting p i q =
     gv_update p i (\<lambda>r. r\<lparr>gr_status := GS_SUBMITTING, attempt_count := attempt_count r + 1\<rparr>) (\<lambda>_ q. q) q"

definition mark_submitted ::
  "string \<Rightarrow> string \<Rightarrow> string \<Rightarrow> time \<Rightarrow> grievance_queue \<Rightarrow> grievance_queue \<times> GrievanceRecord result" where
  "mark_submitted p i ref now q =
     gv_update p i (\<lambda>r. r\<lparr>gr_status := GS_SUBMITTED, scores_reference_number := Some ref, scores_status := Some SG_SUBMITTED,
         gr_submitted_at := Some now, gr_last_error := None\<rparr>)
       (\<lambda>_ q. r_sadd (open_key p) i (r_srem (pending_submission_key p) i q)) q"

definition mark_retry :: "string \<Rightarrow> string \<Rightarrow> string \<Rightarrow> grievance_queue \<Rightarrow> grievance_queue \<times> GrievanceRecord result" where
  "mark_retry p i err q =
     gv_update p i (\<lambda>r. r\<lparr>gr_status := GS_PENDING_SUBMISSION, gr_last_error := Some err\<rparr>) (\<lambda>_ q. q) q"

definition mark_submission_failed :: "string \<Rightarrow> string \<Rightarrow> string \<Rightarrow> grievance_queue \<Rightarrow> grievance_queue \<times> GrievanceRecord result" where
  "mark_submission_failed p i err q =
     gv_update p i (\<lambda>r. r\<lparr>gr_status := GS_SUBMISSION_FAILED, gr_last_error := Some err\<rparr>)
       (\<lambda>_ q. r_srem (pending_submission_key p) i q) q"

definition polled :: "ScoresGrievanceStatus \<Rightarrow> string option \<Rightarrow> time \<Rightarrow> GrievanceRecord \<Rightarrow> GrievanceRecord" where
  "polled s summary now r =
     (let r = r\<lparr>scores_status := Some s, resolution_summary := summary, last_polled_at := Some now\<rparr>
      in if s = SG_RESOLVED then r\<lparr>gr_status := GS_RESOLVED, gr_resolved_at := Some now\<rparr>
         else if s = SG_REJECTED then r\<lparr>gr_status := GS_REJECTED, gr_resolved_at := Some now\<rparr>
         else r)"

definition update_status ::
  "string \<Rightarrow> string \<Rightarrow> ScoresGrievanceStatus \<Rightarrow> string option \<Rightarrow> time \<Rightarrow> grievance_queue \<Rightarrow> grievance_queue \<times> GrievanceRecord result" where
  "update_status p i s summary now q =
     gv_update p i (polled s summary now)
       (\<lambda>updated q. if gr_status updated \<in> set [GS_RESOLVED, GS_REJECTED] then r_srem (open_key p) i q else q) q"

section \<open>The SCORES client\<close>

record grievance_settings =
  gv_enabled :: bool
  gv_prefix :: string
  gv_auto_submit :: bool
  gv_threshold_count :: int
  gv_window_days :: int
  gv_sla_days :: int
  gv_max_retries :: int
  scores_api_base_url :: "string option"
  gv_incident_prefix :: string

definition is_scores_error :: "exc_class \<Rightarrow> bool" where
  "is_scores_error c \<longleftrightarrow> c \<in> set [EC_ScoresApiError, EC_ScoresApiNotConfiguredError]"

definition map_scores_status :: "string \<Rightarrow> ScoresGrievanceStatus" where
  "map_scores_status raw =
     (case find (\<lambda>s. scores_status_value s = replace_char CHR '' '' CHR ''_'' (py_lower (py_strip is_space raw))) scores_statuses of
        Some s \<Rightarrow> s | None \<Rightarrow> SG_UNKNOWN)"

definition mapped_status :: "pyval \<Rightarrow> raised + ScoresGrievanceStatus" where
  "mapped_status v = (case v of PStr s \<Rightarrow> Inr (map_scores_status s) | _ \<Rightarrow> Inl (raise_new EC_AttributeError ''strip''))"

definition scores_call :: "grievance_settings \<Rightarrow> string \<Rightarrow> string \<Rightarrow> http_reply \<Rightarrow> raised + pyval" where
  "scores_call cfg failed rejected reply =
     (if \<not> truthy_str (scores_api_base_url cfg) then
        Inl (raise_new EC_ScoresApiNotConfiguredError ''settings.scores_api_base_url is not set; refusing to guess a SCORES endpoint URL.'')
      else http_call EC_ScoresApiError failed rejected reply)"

definition submit_grievance ::
  "grievance_settings \<Rightarrow> http_reply \<Rightarrow> GrievanceSubmissionRequest \<Rightarrow> raised + GrievanceSubmissionResponse" where
  "submit_grievance cfg reply request =
     bind_res (scores_call cfg ''SCORES grievance submission request failed''
       (''SCORES rejected grievance submission (reference_id='' @ reference_id request @ '')'') reply) (\<lambda>body.
     bind_res (body_item ''scores_reference_number'' body) (\<lambda>ref.
     bind_res (bind_res (body_get ''status'' (PStr ''submitted'') body) mapped_status) (\<lambda>s.
     bind_res (model_str ref) (\<lambda>ref. Inr \<lparr>sr_reference_number = ref, sr_status = s\<rparr>))))"

text \<open>\<open>dt_ok\<close> tells which values pydantic accepts as a datetime.\<close>

definition get_grievance_status ::
  "(pyval \<Rightarrow> bool) \<Rightarrow> grievance_settings \<Rightarrow> http_reply \<Rightarrow> string \<Rightarrow> raised + GrievanceStatusResponse" where
  "get_grievance_status dt_ok cfg reply ref =
     bind_res (scores_call cfg (''SCORES status poll request failed for '' @ ref) (''SCORES rejected status poll for '' @ ref) reply) (\<lambda>body.
     bind_res (bind_res (body_get ''status'' (PStr []) body) mapped_status) (\<lambda>s.
     bind_res (body_item ''last_updated_at'' body) (\<lambda>last.
     bind_res (bind_res (body_get ''resolution_summary'' PNone body) (\<lambda>v.
       if dt_ok last then model_opt_str v else Inl (raise_new EC_ValueError ''validation error''))) (\<lambda>summary.
       Inr \<lparr>st_reference_number = ref, st_scores_status = s, st_resolution_summary = summary\<rparr>))))"

section \<open>Dashboard events\<close>

definition grievance_filed_event :: "GrievanceRecord \<Rightarrow> string \<Rightarrow> time \<Rightarrow> BreachEvent" where
  "grievance_filed_event r uuid now =
     (new_event WARNING GRIEVANCE_FILED (''SCORES grievance drafted: '' @ rs_broker_id (rq_respondent (gr_request r)))
        (rq_description (gr_request r)) uuid now)
     \<lparr>be_tenant_id := Some (rs_broker_id (rq_respondent (gr_request r))),
      be_metadata := [(''grievance_id'', PStr (grievance_id r)), (''category'', PStr (category_value (rq_category (gr_request r)))),
        (''response_due_at'', PStr (isoformat (response_due_at r)))]\<rparr>"

definition grievance_status_event :: "time \<Rightarrow> GrievanceRecord \<Rightarrow> string \<Rightarrow> time \<Rightarrow> BreachEvent" where
  "grievance_status_event clock r uuid now =
     (new_event SEV_INFO GRIEVANCE_STATUS_UPDATE
        (''SCORES grievance '' @ str_or (scores_reference_number r) (grievance_id r) @ '': ''
          @ (case scores_status r of Some s \<Rightarrow> scores_status_value s | None \<Rightarrow> ''unknown''))
        (str_or (resolution_summary r) ''No resolution summary provided by SCORES.'') uuid now)
     \<lparr>be_tenant_id := Some (rs_broker_id (rq_respondent (gr_request r))),
      be_metadata := [(''grievance_id'', PStr (grievance_id r)), (''scores_reference_number'', opt_str_val (scores_reference_number r)),
        (''status'', PStr (grievance_status_value (gr_status r))), (''is_overdue'', PBool (is_overdue clock r)),
        (''response_due_at'', PStr (isoformat (response_due_at r)))]\<rparr>"

section \<open>Tasks\<close>

record grievance_state =
  gv_queue :: grievance_queue
  gv_tasks :: "string list"
  gv_polls :: "string list"
  gv_flight :: "GrievanceRecord list"
  gv_posts :: "(string \<times> http_reply) list"
  gv_incidents :: incident_state

text \<open>
  The submitting task up to the request, and from its answer on. \<open>gv_posts\<close>
  records the submissions that were sent, with the answers.
\<close>

definition submit_start :: "string \<Rightarrow> string \<Rightarrow> grievance_queue \<Rightarrow> grievance_queue \<times> GrievanceRecord option result" where
  "submit_start p i q =
     (case gv_get p i q of
        None \<Rightarrow> (q, Inr None)
      | Some _ \<Rightarrow> (case mark_submitting p i q of (q', Inl e) \<Rightarrow> (q', raise e) | (q', Inr r) \<Rightarrow> (q', Inr (Some r))))"

definition submit_failed :: "string \<Rightarrow> raised \<Rightarrow> GrievanceRecord \<Rightarrow> grievance_queue \<Rightarrow> grievance_queue \<times> GrievanceRecord result" where
  "submit_failed p exc r q =
     (if is_transient exc \<and> attempt_count r < max_retries r then mark_retry p (grievance_id r) (rx_text exc) q
      else mark_submission_failed p (grievance_id r) (rx_text exc) q)"

definition notify_grievance_filed :: "grievance_settings \<Rightarrow> string \<Rightarrow> time \<Rightarrow> GrievanceRecord \<Rightarrow> incident_state \<Rightarrow> incident_state" where
  "notify_grievance_filed cfg uuid now r =
     raise_breach_event (gv_incident_prefix cfg) (now div 1000000) (grievance_filed_event r uuid (now div 1000000))"

definition notify_grievance_status_changed :: "grievance_settings \<Rightarrow> string \<Rightarrow> time \<Rightarrow> GrievanceRecord \<Rightarrow> incident_state \<Rightarrow> incident_state" where
  "notify_grievance_status_changed cfg uuid now r =
     raise_breach_event (gv_incident_prefix cfg) (now div 1000000) (grievance_status_event now r uuid (now div 1000000))"

definition submit_finish ::
  "grievance_settings \<Rightarrow> http_reply \<Rightarrow> string \<Rightarrow> time \<Rightarrow> GrievanceRecord \<Rightarrow> grievance_state \<Rightarrow> grievance_state \<times> unit result" where
  "submit_finish cfg reply uuid now r st =
     (let st = (if truthy_str (scores_api_base_url cfg) then st\<lparr>gv_posts := gv_posts st @ [(grievance_id r, reply)]\<rparr> else st)
      in case submit_grievance cfg reply (gr_request r) of
           Inl exc \<Rightarrow>
             (case submit_failed (gv_prefix cfg) exc r (gv_queue st) of
                (q, Inl e) \<Rightarrow> (st\<lparr>gv_queue := q\<rparr>, raise e)
              | (q, Inr _) \<Rightarrow> (st\<lparr>gv_queue := q\<rparr>, Inr ()))
         | Inr resp \<Rightarrow>
             (case mark_submitted (gv_prefix cfg) (grievance_id r) (sr_reference_number resp) now (gv_queue st) of
                (q, Inl e) \<Rightarrow> (st\<lparr>gv_queue := q\<rparr>, raise e)
              | (q, Inr r') \<Rightarrow>
                  (st\<lparr>gv_queue := q, gv_incidents := notify_grievance_filed cfg uuid now r' (gv_incidents st)\<rparr>, Inr ())))"

definition submit_one ::
  "grievance_settings \<Rightarrow> http_reply \<Rightarrow> string \<Rightarrow> time \<Rightarrow> string \<Rightarrow> grievance_state \<Rightarrow> grievance_state \<times> unit result" where
  "submit_one cfg reply uuid now i st =
     (case submit_start (gv_prefix cfg) i (gv_queue st) of
        (q, Inl e) \<Rightarrow> (st\<lparr>gv_queue := q\<rparr>, raise e)
      | (q, Inr None) \<Rightarrow> (st\<lparr>gv_queue := q\<rparr>, Inr ())
      | (q, Inr (Some r)) \<Rightarrow> submit_finish cfg reply uuid now r (st\<lparr>gv_queue := q\<rparr>))"

definition submit_pending :: "(string set \<Rightarrow> string list) \<Rightarrow> grievance_settings \<Rightarrow> grievance_state \<Rightarrow> grievance_state \<times> nat" where
  "submit_pending enum cfg st =
     (let pending = list_pending_submission enum (gv_prefix cfg) (gv_queue st)
      in (st\<lparr>gv_tasks := gv_tasks st @ map grievance_id pending\<rparr>, length pending))"

definition poll_grievance_status_now ::
  "(pyval \<Rightarrow> bool) \<Rightarrow> grievance_settings \<Rightarrow> http_reply \<Rightarrow> string \<Rightarrow> time \<Rightarrow> string \<Rightarrow> grievance_state \<Rightarrow> grievance_state \<times> (raised + unit)" where
  "poll_grievance_status_now dt_ok cfg reply uuid now i st =
     (case gv_get (gv_prefix cfg) i (gv_queue st) of
        None \<Rightarrow> (st, Inr ())
      | Some r \<Rightarrow>
          (case scores_reference_number r of
             None \<Rightarrow> (st, Inr ())
           | Some ref \<Rightarrow>
               (case get_grievance_status dt_ok cfg reply ref of
                  Inl exc \<Rightarrow> (st, if is_scores_error (rx_class exc) then Inr () else Inl exc)
                | Inr resp \<Rightarrow>
                    if Some (st_scores_status resp) = scores_status r \<and> st_resolution_summary resp = resolution_summary r
                    then (st, Inr ())
                    else
                      (case update_status (gv_prefix cfg) i (st_scores_status resp) (st_resolution_summary resp) now (gv_queue st) of
                         (q, Inl _) \<Rightarrow> (st\<lparr>gv_queue := q\<rparr>, Inl (raise_new EC_KeyError i))
                       | (q, Inr r') \<Rightarrow>
                           (st\<lparr>gv_queue := q, gv_incidents := notify_grievance_status_changed cfg uuid now r' (gv_incidents st)\<rparr>,
                            Inr ())))))"

definition poll_pending :: "(string set \<Rightarrow> string list) \<Rightarrow> grievance_settings \<Rightarrow> grievance_state \<Rightarrow> grievance_state \<times> nat" where
  "poll_pending enum cfg st =
     (let open_grievances = list_open enum (gv_prefix cfg) (gv_queue st)
      in (st\<lparr>gv_polls := gv_polls st @ map grievance_id open_grievances\<rparr>, length open_grievances))"

text \<open>The end of \<open>evaluate_and_trigger_grievance_escalation\<close>: the draft, and its submission when that is automatic.\<close>

definition file_draft :: "grievance_settings \<Rightarrow> GrievanceRecord \<Rightarrow> grievance_state \<Rightarrow> grievance_state \<times> GrievanceRecord result" where
  "file_draft cfg r st =
     (let st = st\<lparr>gv_queue := create_draft (gv_prefix cfg) r (gv_queue st)\<rparr>
      in if gv_auto_submit cfg then
           (case confirm_for_submission (gv_prefix cfg) (grievance_id r) (gv_queue st) of
              (q, Inl e) \<Rightarrow> (st\<lparr>gv_queue := q\<rparr>, raise e)
            | (q, Inr r') \<Rightarrow> (st\<lparr>gv_queue := q, gv_tasks := gv_tasks st @ [grievance_id r]\<rparr>, Inr r'))
         else (st, Inr r))"

section \<open>Routes\<close>

text \<open>Authentication and the role of the caller come before the handlers.\<close>

definition get_grievance :: "grievance_settings \<Rightarrow> string \<Rightarrow> grievance_state \<Rightarrow> GrievanceRecord result" where
  "get_grievance cfg i st =
     (case gv_get (gv_prefix cfg) i (gv_queue st) of
        None \<Rightarrow> raise (HTTPException 404 (''No grievance '' @ [CHR 0x27] @ i @ [CHR 0x27] @ ''.''))
      | Some r \<Rightarrow> Inr r)"

definition confirm_grievance :: "grievance_settings \<Rightarrow> string \<Rightarrow> grievance_state \<Rightarrow> grievance_state \<times> GrievanceRecord result" where
  "confirm_grievance cfg i st =
     (case confirm_for_submission (gv_prefix cfg) i (gv_queue st) of
        (q, Inl (KeyError _)) \<Rightarrow>
          (st\<lparr>gv_queue := q\<rparr>, raise (HTTPException 404 (''No grievance '' @ [CHR 0x27] @ i @ [CHR 0x27] @ ''.'')))
      | (q, Inl (ValueError _)) \<Rightarrow>
          (st\<lparr>gv_queue := q\<rparr>, raise (HTTPException 409 (''Grievance '' @ [CHR 0x27] @ i @ [CHR 0x27] @ '' cannot be confirmed in its current state.'')))
      | (q, Inl e) \<Rightarrow> (st\<lparr>gv_queue := q\<rparr>, raise e)
      | (q, Inr r) \<Rightarrow> (st\<lparr>gv_queue := q\<rparr>, Inr r))"

text \<open>The poll's own exceptions, and a record gone after it, are answered with a server error.\<close>

definition refresh_grievance_status ::
  "(pyval \<Rightarrow> bool) \<Rightarrow> grievance_settings \<Rightarrow> http_reply \<Rightarrow> string \<Rightarrow> time \<Rightarrow> string \<Rightarrow> grievance_state \<Rightarrow> grievance_state \<times> GrievanceRecord result" where
  "refresh_grievance_status dt_ok cfg reply uuid now i st =
     (case gv_get (gv_prefix cfg) i (gv_queue st) of
        None \<Rightarrow> (st, raise (HTTPException 404 (''No grievance '' @ [CHR 0x27] @ i @ [CHR 0x27] @ ''.'')))
      | Some r \<Rightarrow>
          if scores_reference_number r = None then
            (st, raise (HTTPException 409 (''Grievance '' @ [CHR 0x27] @ i @ [CHR 0x27] @ '' has not been submitted to SCORES yet; nothing to poll.'')))
          else
            (case poll_grievance_status_now dt_ok cfg reply uuid now i st of
               (st', Inl exc) \<Rightarrow> (st', raise (HTTPException 500 (rx_text exc)))
             | (st', Inr _) \<Rightarrow>
                 (case gv_get (gv_prefix cfg) i (gv_queue st') of
                    None \<Rightarrow> (st', raise (HTTPException 500 ''None''))
                  | Some r' \<Rightarrow> (st', Inr r'))))"

section \<open>The queue as a table and two sets\<close>

lemma gv_key_inject [simp]: "gv_key p i = gv_key p j \<longleftrightarrow> i = j"
  by (simp add: gv_key_def)

lemma gv_set_keys [simp]: "pending_submission_key p \<noteq> open_key p" "open_key p \<noteq> pending_submission_key p"
  by (simp_all add: pending_submission_key_def open_key_def)

abbreviation pending_set :: "string \<Rightarrow> grievance_queue \<Rightarrow> string set" where
  "pending_set p q \<equiv> r_smembers q (pending_submission_key p)"

abbreviation open_set :: "string \<Rightarrow> grievance_queue \<Rightarrow> string set" where
  "open_set p q \<equiv> r_smembers q (open_key p)"

definition gq_ok :: "string \<Rightarrow> grievance_queue \<Rightarrow> bool" where
  "gq_ok p q \<longleftrightarrow> (\<forall>i r. gv_get p i q = Some r \<longrightarrow> grievance_id r = i)"

lemma gq_okD: "gq_ok p q \<Longrightarrow> gv_get p i q = Some r \<Longrightarrow> grievance_id r = i"
  by (simp add: gq_ok_def)

lemma gv_get_put [simp]:
  "gv_get p j (r_put (gv_key p i) r q) = (if j = i then Some r else gv_get p j q)"
  "gv_get p j (r_sadd k x q) = gv_get p j q" "gv_get p j (r_srem k x q) = gv_get p j q"
  by (simp_all add: gv_get_def redis_simps)

lemma gv_update_some:
  assumes "gq_ok p q" "gv_get p i q = Some r" "grievance_id (f r) = grievance_id r"
  shows "gv_update p i f g q = (g (f r) (r_put (gv_key p i) (f r) q), Inr (f r))"
  using assms by (simp add: gv_update_def gv_require_def gv_save_def Let_def gq_okD)

text \<open>What each operation does to a stored record and to the sets.\<close>

lemma mark_submitting_some:
  assumes "gq_ok p q" "gv_get p i q = Some r"
  shows "mark_submitting p i q =
    (r_put (gv_key p i) (r\<lparr>gr_status := GS_SUBMITTING, attempt_count := attempt_count r + 1\<rparr>) q,
     Inr (r\<lparr>gr_status := GS_SUBMITTING, attempt_count := attempt_count r + 1\<rparr>))"
  using assms by (simp add: mark_submitting_def gv_update_some)

lemma mark_submitted_some:
  assumes "gq_ok p q" "gv_get p i q = Some r"
  shows "mark_submitted p i ref now q =
    (let r' = r\<lparr>gr_status := GS_SUBMITTED, scores_reference_number := Some ref, scores_status := Some SG_SUBMITTED,
         gr_submitted_at := Some now, gr_last_error := None\<rparr>
     in (r_sadd (open_key p) i (r_srem (pending_submission_key p) i (r_put (gv_key p i) r' q)), Inr r'))"
  using assms by (simp add: mark_submitted_def gv_update_some Let_def)

lemma mark_retry_some:
  assumes "gq_ok p q" "gv_get p i q = Some r"
  shows "mark_retry p i err q =
    (r_put (gv_key p i) (r\<lparr>gr_status := GS_PENDING_SUBMISSION, gr_last_error := Some err\<rparr>) q,
     Inr (r\<lparr>gr_status := GS_PENDING_SUBMISSION, gr_last_error := Some err\<rparr>))"
  using assms by (simp add: mark_retry_def gv_update_some)

lemma mark_submission_failed_some:
  assumes "gq_ok p q" "gv_get p i q = Some r"
  shows "mark_submission_failed p i err q =
    (r_srem (pending_submission_key p) i (r_put (gv_key p i) (r\<lparr>gr_status := GS_SUBMISSION_FAILED, gr_last_error := Some err\<rparr>) q),
     Inr (r\<lparr>gr_status := GS_SUBMISSION_FAILED, gr_last_error := Some err\<rparr>))"
  using assms by (simp add: mark_submission_failed_def gv_update_some)

lemma polled_id [simp]: "grievance_id (polled s summary now r) = grievance_id r"
  by (simp add: polled_def Let_def)

lemma polled_reference [simp]: "scores_reference_number (polled s summary now r) = scores_reference_number r"
  by (simp add: polled_def Let_def)

lemma polled_status:
  "gr_status (polled s summary now r) =
     (if s = SG_RESOLVED then GS_RESOLVED else if s = SG_REJECTED then GS_REJECTED else gr_status r)"
  by (simp add: polled_def Let_def)

lemma update_status_some:
  assumes "gq_ok p q" "gv_get p i q = Some r"
  shows "update_status p i s summary now q =
    (let r' = polled s summary now r; q' = r_put (gv_key p i) r' q
     in (if gr_status r' \<in> {GS_RESOLVED, GS_REJECTED} then r_srem (open_key p) i q' else q', Inr r'))"
  using assms by (simp add: update_status_def gv_update_some Let_def)

lemmas gv_ops_some = mark_submitting_some mark_submitted_some mark_retry_some mark_submission_failed_some update_status_some

lemma confirm_cases:
  assumes "gq_ok p q"
  shows "case gv_get p i q of
      None \<Rightarrow> \<exists>m. confirm_for_submission p i q = (q, Inl (KeyError m))
    | Some r \<Rightarrow>
        if gr_status r = GS_DRAFTED then confirm_for_submission p i q =
          (r_sadd (pending_submission_key p) i (r_put (gv_key p i) (r\<lparr>gr_status := GS_PENDING_SUBMISSION\<rparr>) q),
           Inr (r\<lparr>gr_status := GS_PENDING_SUBMISSION\<rparr>))
        else \<exists>m. confirm_for_submission p i q = (q, Inl (ValueError m))"
  using assms by (auto simp: confirm_for_submission_def gv_require_def gv_save_def Let_def gq_okD split: option.split)

lemma submit_start_some:
  assumes "gq_ok p q" "gv_get p i q = Some r"
  shows "submit_start p i q =
    (r_put (gv_key p i) (r\<lparr>gr_status := GS_SUBMITTING, attempt_count := attempt_count r + 1\<rparr>) q,
     Inr (Some (r\<lparr>gr_status := GS_SUBMITTING, attempt_count := attempt_count r + 1\<rparr>)))"
  using assms by (simp add: submit_start_def mark_submitting_some)

section \<open>The retry budget of a grievance\<close>

definition fail_attempt :: "string \<Rightarrow> raised \<Rightarrow> string \<Rightarrow> grievance_queue \<Rightarrow> grievance_queue" where
  "fail_attempt p exc i q =
     (case submit_start p i q of
        (q', Inr (Some r)) \<Rightarrow> fst (submit_failed p exc r q')
      | (q', _) \<Rightarrow> q')"

text \<open>The documents of a queue whose records are filed under their own ids.\<close>

definition gv_doc :: "string \<Rightarrow> grievance_queue \<Rightarrow> string \<Rightarrow> GrievanceRecord option" where
  "gv_doc p q i = (if gq_ok p q then gv_get p i q else None)"

lemma gq_ok_put: "gq_ok p q \<Longrightarrow> grievance_id r = i \<Longrightarrow> gq_ok p (r_put (gv_key p i) r q)"
  by (simp add: gq_ok_def)

lemma gq_ok_sets [simp]: "gq_ok p (r_sadd k x q) = gq_ok p q" "gq_ok p (r_srem k x q) = gq_ok p q"
  by (simp_all add: gq_ok_def)

lemma fail_attempt_some:
  assumes "gq_ok p q" "gv_get p i q = Some r"
  shows "fail_attempt p exc i q =
    (if is_transient exc \<and> attempt_count r + 1 < max_retries r
     then r_put (gv_key p i) (r\<lparr>attempt_count := attempt_count r + 1, gr_status := GS_PENDING_SUBMISSION, gr_last_error := Some (rx_text exc)\<rparr>)
       (r_put (gv_key p i) (r\<lparr>gr_status := GS_SUBMITTING, attempt_count := attempt_count r + 1\<rparr>) q)
     else r_srem (pending_submission_key p) i
       (r_put (gv_key p i) (r\<lparr>attempt_count := attempt_count r + 1, gr_status := GS_SUBMISSION_FAILED, gr_last_error := Some (rx_text exc)\<rparr>)
       (r_put (gv_key p i) (r\<lparr>gr_status := GS_SUBMITTING, attempt_count := attempt_count r + 1\<rparr>) q)))"
proof -
  let ?r = "r\<lparr>gr_status := GS_SUBMITTING, attempt_count := attempt_count r + 1\<rparr>"
  have i: "grievance_id r = i" using assms by (rule gq_okD)
  then have "gq_ok p (r_put (gv_key p i) ?r q)" "gv_get p i (r_put (gv_key p i) ?r q) = Some ?r"
    using assms by (simp_all add: gq_ok_put)
  from mark_retry_some [OF this] mark_submission_failed_some [OF this] i show ?thesis
    by (simp add: fail_attempt_def submit_start_some [OF assms] submit_failed_def)
qed

lemma gv_doc_fail:
  assumes "gv_doc p q i = Some r"
  shows "gv_doc p (fail_attempt p exc i q) i = Some (r\<lparr>attempt_count := attempt_count r + 1,
    gr_status := if is_transient exc \<and> attempt_count r + 1 < max_retries r then GS_PENDING_SUBMISSION else GS_SUBMISSION_FAILED,
    gr_last_error := Some (rx_text exc)\<rparr>)"
proof -
  have "gq_ok p q" "gv_get p i q = Some r" using assms by (simp_all add: gv_doc_def split: if_splits)
  then show ?thesis by (simp add: gv_doc_def fail_attempt_some gq_ok_put gq_okD)
qed

interpretation gv_retry: retry_queue "gv_doc p" "\<lambda>r. gr_status r = GS_PENDING_SUBMISSION" "\<lambda>r. gr_status r = GS_SUBMISSION_FAILED"
  attempt_count max_retries "fail_attempt p" for p
  by unfold_locales (simp_all add: gv_doc_fail)

lemma submit_one_failed:
  assumes "gq_ok (gv_prefix cfg) (gv_queue st)" "\<And>rq. submit_grievance cfg reply rq = Inl exc"
  shows "gv_queue (fst (submit_one cfg reply uuid now i st)) = fail_attempt (gv_prefix cfg) exc i (gv_queue st)"
  using assms(2)
  by (auto simp: submit_one_def submit_finish_def fail_attempt_def submit_start_def Let_def split: prod.split sum.split option.split)

definition unreachable :: "grievance_settings \<Rightarrow> http_reply \<Rightarrow> bool" where
  "unreachable cfg reply \<longleftrightarrow> truthy_str (scores_api_base_url cfg)
     \<and> (case reply of HTTP_RAISED x \<Rightarrow> raised_ok x \<and> is_http_error (rx_class x) \<and> is_transient x | HTTP_RESPONSE _ _ _ \<Rightarrow> False)"

lemma unreachable_error:
  assumes "unreachable cfg reply"
  obtains exc where "\<And>rq. submit_grievance cfg reply rq = Inl exc" "is_transient exc" "rx_class exc = EC_ScoresApiError"
proof -
  obtain x where x: "reply = HTTP_RAISED x" "truthy_str (scores_api_base_url cfg)" "raised_ok x" "is_http_error (rx_class x)" "is_transient x"
    using assms by (cases reply) (auto simp: unreachable_def)
  then have "submit_grievance cfg reply rq =
      Inl (raise_from EC_ScoresApiError (''SCORES grievance submission request failed'' @ '': '' @ rx_text x) x)" for rq
    by (simp add: submit_grievance_def scores_call_def http_call_def)
  from that [OF this] x show thesis by (simp add: is_transient_from)
qed

lemma gq_ok_fail_attempt: "gq_ok p q \<Longrightarrow> gq_ok p (fail_attempt p exc i q)"
proof (cases "gv_get p i q")
  case (Some r)
  assume "gq_ok p q"
  with Some show ?thesis by (simp add: fail_attempt_some gq_ok_put gq_okD)
qed (simp add: fail_attempt_def submit_start_def)


section \<open>Runs\<close>

text \<open>
  Grievances are drafted under fresh ids, confirmed by an officer, swept, submitted
  and polled in any order. The worker may take a submitting task up at any time
  and gets any answer, or dies while it waits. The first component collects the
  ids an officer confirmed.
\<close>

inductive gv_step :: "grievance_settings \<Rightarrow> string set \<times> grievance_state \<Rightarrow> string set \<times> grievance_state \<Rightarrow> bool" for cfg where
  draft: "gv_get (gv_prefix cfg) (grievance_id r) (gv_queue st) = None \<Longrightarrow> gr_status r = GS_DRAFTED \<Longrightarrow>
    gv_step cfg (C, st) (C, fst (file_draft cfg r st))"
| confirm: "confirm_grievance cfg i st = (st', Inr r) \<Longrightarrow> gv_step cfg (C, st) (insert i C, st')"
| refused: "confirm_grievance cfg i st = (st', Inl e) \<Longrightarrow> gv_step cfg (C, st) (C, st')"
| sweep: "set (enum (pending_set (gv_prefix cfg) (gv_queue st))) = pending_set (gv_prefix cfg) (gv_queue st) \<Longrightarrow>
    gv_step cfg (C, st) (C, fst (submit_pending enum cfg st))"
| start: "i \<in> set (gv_tasks st) \<Longrightarrow> submit_start (gv_prefix cfg) i (gv_queue st) = (q, Inr (Some r)) \<Longrightarrow>
    gv_step cfg (C, st) (C, st\<lparr>gv_tasks := remove1 i (gv_tasks st), gv_queue := q, gv_flight := gv_flight st @ [r]\<rparr>)"
| skip: "i \<in> set (gv_tasks st) \<Longrightarrow> submit_start (gv_prefix cfg) i (gv_queue st) = (q, Inr None) \<Longrightarrow>
    gv_step cfg (C, st) (C, st\<lparr>gv_tasks := remove1 i (gv_tasks st), gv_queue := q\<rparr>)"
| finish: "r \<in> set (gv_flight st) \<Longrightarrow>
    gv_step cfg (C, st) (C, fst (submit_finish cfg reply uuid now r (st\<lparr>gv_flight := remove1 r (gv_flight st)\<rparr>)))"
| crash: "r \<in> set (gv_flight st) \<Longrightarrow> gv_step cfg (C, st) (C, st\<lparr>gv_flight := remove1 r (gv_flight st)\<rparr>)"
| poll_sweep: "set (enum (open_set (gv_prefix cfg) (gv_queue st))) = open_set (gv_prefix cfg) (gv_queue st) \<Longrightarrow>
    gv_step cfg (C, st) (C, fst (poll_pending enum cfg st))"
| poll: "i \<in> set (gv_polls st) \<Longrightarrow>
    gv_step cfg (C, st) (C, fst (poll_grievance_status_now dt_ok cfg reply uuid now i (st\<lparr>gv_polls := remove1 i (gv_polls st)\<rparr>)))"
| refresh: "gv_step cfg (C, st) (C, fst (refresh_grievance_status dt_ok cfg reply uuid now i st))"

definition no_grievances :: grievance_state where
  "no_grievances = \<lparr>gv_queue = redis_empty, gv_tasks = [], gv_polls = [], gv_flight = [], gv_posts = [], gv_incidents = no_incidents\<rparr>"

abbreviation gv_reachable :: "grievance_settings \<Rightarrow> string set \<Rightarrow> grievance_state \<Rightarrow> bool" where
  "gv_reachable cfg C st \<equiv> (gv_step cfg)\<^sup>*\<^sup>* ({}, no_grievances) (C, st)"

text \<open>Invariants: of the queue, and of who was confirmed.\<close>

definition gq_inv :: "string \<Rightarrow> grievance_queue \<Rightarrow> bool" where
  "gq_inv p q \<longleftrightarrow> gq_ok p q
     \<and> (\<forall>i r. gv_get p i q = Some r \<and> gr_status r = GS_SUBMITTED \<longrightarrow> i \<in> open_set p q \<and> scores_reference_number r \<noteq> None)"

definition gv_inv :: "grievance_settings \<Rightarrow> string set \<Rightarrow> grievance_state \<Rightarrow> bool" where
  "gv_inv cfg C st \<longleftrightarrow> gq_inv (gv_prefix cfg) (gv_queue st)
     \<and> (\<forall>r\<in>set (gv_flight st). gv_get (gv_prefix cfg) (grievance_id r) (gv_queue st) \<noteq> None)
     \<and> (\<not> gv_auto_submit cfg \<longrightarrow> pending_set (gv_prefix cfg) (gv_queue st) \<subseteq> C \<and> set (gv_tasks st) \<subseteq> C
          \<and> grievance_id ` set (gv_flight st) \<subseteq> C \<and> fst ` set (gv_posts st) \<subseteq> C)"

text \<open>An operation on the queue keeps its invariant and every record, and makes at most \<open>D\<close> pending.\<close>

definition gq_grows :: "string \<Rightarrow> string set \<Rightarrow> grievance_queue \<Rightarrow> grievance_queue \<Rightarrow> bool" where
  "gq_grows p D q q' \<longleftrightarrow> gq_inv p q' \<and> (\<forall>j. gv_get p j q \<noteq> None \<longrightarrow> gv_get p j q' \<noteq> None)
     \<and> pending_set p q' \<subseteq> pending_set p q \<union> D"

lemma gq_inv_ok: "gq_inv p q \<Longrightarrow> gq_ok p q"
  by (simp add: gq_inv_def)

lemma gq_grows_refl: "gq_inv p q \<Longrightarrow> gq_grows p D q q"
  by (simp add: gq_grows_def)

lemma gq_grows_put:
  assumes "gq_inv p q" "grievance_id r = i"
    and "gr_status r = GS_SUBMITTED \<Longrightarrow> i \<in> open_set p q \<and> scores_reference_number r \<noteq> None"
  shows "gq_grows p {} q (r_put (gv_key p i) r q)"
  using assms by (auto simp: gq_grows_def gq_inv_def gq_ok_put redis_simps)

lemma gq_grows_sets:
  assumes "gq_grows p D q q'"
  shows "gq_grows p D q (r_srem (pending_submission_key p) i q')"
    and "gq_grows p (insert i D) q (r_sadd (pending_submission_key p) i q')"
    and "(\<And>r. gv_get p i q' = Some r \<Longrightarrow> gr_status r \<noteq> GS_SUBMITTED) \<Longrightarrow> gq_grows p D q (r_srem (open_key p) i q')"
  using assms by (auto simp: gq_grows_def gq_inv_def redis_simps)

lemma gv_update_none: "gv_get p i q = None \<Longrightarrow> fst (gv_update p i f g q) = q"
  by (simp add: gv_update_def gv_require_def)

lemma grows_mark_submitted:
  assumes "gq_inv p q" shows "gq_grows p {} q (fst (mark_submitted p i ref now q))"
proof (cases "gv_get p i q")
  case None
  with assms show ?thesis by (simp add: mark_submitted_def gv_update_none gq_grows_refl)
next
  case (Some r)
  have "grievance_id r = i" using gq_okD [OF gq_inv_ok [OF assms] Some] .
  with assms Some show ?thesis
    by (auto simp: mark_submitted_some [OF gq_inv_ok] Let_def gq_grows_def gq_inv_def gq_ok_put redis_simps split: if_splits)
qed

lemma grows_mark_other:
  assumes "gq_inv p q"
  shows "gq_grows p {} q (fst (mark_submitting p i q))" "gq_grows p {} q (fst (mark_retry p i err q))"
    "gq_grows p {} q (fst (mark_submission_failed p i err q))"
proof -
  have "gq_grows p {} q (fst (mark_submitting p i q)) \<and> gq_grows p {} q (fst (mark_retry p i err q))
    \<and> gq_grows p {} q (fst (mark_submission_failed p i err q))"
  proof (cases "gv_get p i q")
    case None
    with assms show ?thesis
      by (simp add: mark_submitting_def mark_retry_def mark_submission_failed_def gv_update_none gq_grows_refl)
  next
    case (Some r)
    have "grievance_id r = i" using gq_okD [OF gq_inv_ok [OF assms] Some] .
    with assms Some show ?thesis
      by (auto simp: gv_ops_some [OF gq_inv_ok] intro!: gq_grows_put gq_grows_sets)
  qed
  then show "gq_grows p {} q (fst (mark_submitting p i q))" "gq_grows p {} q (fst (mark_retry p i err q))"
    "gq_grows p {} q (fst (mark_submission_failed p i err q))" by simp_all
qed

lemma grows_update_status:
  assumes "gq_inv p q" shows "gq_grows p {} q (fst (update_status p i s summary now q))"
proof (cases "gv_get p i q")
  case None
  with assms show ?thesis by (simp add: update_status_def gv_update_none gq_grows_refl)
next
  case (Some r)
  have i: "grievance_id r = i" using gq_okD [OF gq_inv_ok [OF assms] Some] .
  have "gq_grows p {} q (r_put (gv_key p i) (polled s summary now r) q)"
    using assms Some i by (intro gq_grows_put) (auto simp: polled_status gq_inv_def split: if_splits)
  with assms Some show ?thesis
    by (auto simp: update_status_some [OF gq_inv_ok] Let_def intro!: gq_grows_sets)
qed

lemma grows_confirm:
  assumes "gq_inv p q" shows "gq_grows p {i} q (fst (confirm_for_submission p i q))"
    and "confirm_for_submission p i q = (q', Inl e) \<Longrightarrow> q' = q"
proof -
  note c = confirm_cases [OF gq_inv_ok [OF assms], of i]
  show "gq_grows p {i} q (fst (confirm_for_submission p i q))"
  proof (cases "\<exists>r. gv_get p i q = Some r \<and> gr_status r = GS_DRAFTED")
    case True
    then obtain r where r: "gv_get p i q = Some r" "gr_status r = GS_DRAFTED" by blast
    then have "grievance_id r = i" using gq_okD [OF gq_inv_ok [OF assms]] by blast
    with assms have "gq_grows p {} q (r_put (gv_key p i) (r\<lparr>gr_status := GS_PENDING_SUBMISSION\<rparr>) q)" by (intro gq_grows_put) simp_all
    from gq_grows_sets(2) [OF this] c r show ?thesis by simp
  next
    case False
    with c assms show ?thesis by (auto simp: gq_grows_refl split: option.splits if_splits)
  qed
  show "confirm_for_submission p i q = (q', Inl e) \<Longrightarrow> q' = q"
    using c by (auto split: option.splits if_splits)
qed

lemma grows_start: "gq_inv p q \<Longrightarrow> gq_grows p {} q (fst (submit_start p i q))"
  using grows_mark_other(1) [of p q i] by (auto simp: submit_start_def gq_grows_refl split: option.split prod.split sum.split)

lemma grows_finish:
  assumes "gq_inv (gv_prefix cfg) (gv_queue st)"
  shows "gq_grows (gv_prefix cfg) {} (gv_queue st) (gv_queue (fst (submit_finish cfg reply uuid now r st)))"
  using grows_mark_submitted [OF assms] grows_mark_other [OF assms]
  by (auto simp: submit_finish_def submit_failed_def Let_def split: sum.split prod.split) (metis fst_conv)+

lemma grows_poll:
  assumes "gq_inv (gv_prefix cfg) (gv_queue st)"
  shows "gq_grows (gv_prefix cfg) {} (gv_queue st) (gv_queue (fst (poll_grievance_status_now dt_ok cfg reply uuid now i st)))"
  using grows_update_status [OF assms] gq_grows_refl [OF assms]
  by (auto simp: poll_grievance_status_now_def split: sum.split prod.split option.split) (metis fst_conv)+

lemma finish_frame [simp]:
  "gv_tasks (fst (submit_finish cfg reply uuid now r st)) = gv_tasks st"
  "gv_flight (fst (submit_finish cfg reply uuid now r st)) = gv_flight st"
  "gv_posts (fst (submit_finish cfg reply uuid now r st)) =
     gv_posts st @ (if truthy_str (scores_api_base_url cfg) then [(grievance_id r, reply)] else [])"
  by (auto simp: submit_finish_def Let_def split: sum.split prod.split)

lemma poll_frame [simp]:
  "gv_tasks (fst (poll_grievance_status_now dt_ok cfg reply uuid now i st)) = gv_tasks st"
  "gv_flight (fst (poll_grievance_status_now dt_ok cfg reply uuid now i st)) = gv_flight st"
  "gv_posts (fst (poll_grievance_status_now dt_ok cfg reply uuid now i st)) = gv_posts st"
  by (auto simp: poll_grievance_status_now_def split: sum.split prod.split option.split)

lemma refresh_state:
  "fst (refresh_grievance_status dt_ok cfg reply uuid now i st) = st
   \<or> fst (refresh_grievance_status dt_ok cfg reply uuid now i st) = fst (poll_grievance_status_now dt_ok cfg reply uuid now i st)"
  by (auto simp: refresh_grievance_status_def split: option.split prod.split sum.split)

text \<open>A step that only lets the queue grow, with tasks, flights and posts of confirmed grievances.\<close>

lemma gv_inv_grows:
  assumes "gv_inv cfg C st" "gq_grows (gv_prefix cfg) D (gv_queue st) (gv_queue st')"
    and "\<not> gv_auto_submit cfg \<Longrightarrow> D \<subseteq> C'" "C \<subseteq> C'"
    and "set (gv_flight st') \<subseteq> set (gv_flight st)"
    and "\<not> gv_auto_submit cfg \<Longrightarrow> set (gv_tasks st') \<subseteq> C \<union> D" "\<not> gv_auto_submit cfg \<Longrightarrow> fst ` set (gv_posts st') \<subseteq> C"
  shows "gv_inv cfg C' st'"
proof -
  have "grievance_id ` set (gv_flight st') \<subseteq> C'" if "\<not> gv_auto_submit cfg"
    using assms(1,4,5) that unfolding gv_inv_def by (meson image_mono order_trans)
  moreover have "pending_set (gv_prefix cfg) (gv_queue st') \<subseteq> C'" if "\<not> gv_auto_submit cfg"
    using assms(1-4) that unfolding gv_inv_def gq_grows_def by (meson Un_least order_trans)
  moreover have "set (gv_tasks st') \<subseteq> C'" "fst ` set (gv_posts st') \<subseteq> C'" if "\<not> gv_auto_submit cfg"
    using assms(3,4,6,7) that by (meson Un_least order_trans)+
  moreover have "\<forall>r\<in>set (gv_flight st'). gv_get (gv_prefix cfg) (grievance_id r) (gv_queue st') \<noteq> None"
    using assms(1,2,5) unfolding gv_inv_def gq_grows_def by (meson subsetD)
  moreover have "gq_inv (gv_prefix cfg) (gv_queue st')" using assms(2) unfolding gq_grows_def by (rule conjunct1)
  ultimately show ?thesis unfolding gv_inv_def by (intro conjI impI)
qed

lemma listed_ids:
  assumes "gq_ok p q" "set (enum (r_smembers q k)) = r_smembers q k"
  shows "grievance_id ` set (list_from_set enum p k q) \<subseteq> r_smembers q k"
  using assms by (auto simp: list_from_set_def set_map_filter dest: gq_okD)

lemma file_draft_cases:
  fixes r :: GrievanceRecord
  assumes inv: "gq_inv (gv_prefix cfg) (gv_queue st)" and new: "gv_get (gv_prefix cfg) (grievance_id r) (gv_queue st) = None"
    and "gr_status r = GS_DRAFTED"
  shows "gq_grows (gv_prefix cfg) (if gv_auto_submit cfg then {grievance_id r} else {}) (gv_queue st) (gv_queue (fst (file_draft cfg r st)))"
    and "gv_flight (fst (file_draft cfg r st)) = gv_flight st" and "gv_posts (fst (file_draft cfg r st)) = gv_posts st"
    and "gv_tasks (fst (file_draft cfg r st)) = gv_tasks st @ (if gv_auto_submit cfg then [grievance_id r] else [])"
    and "snd (file_draft cfg r st) = Inr (if gv_auto_submit cfg then r\<lparr>gr_status := GS_PENDING_SUBMISSION\<rparr> else r)"
proof -
  let ?p = "gv_prefix cfg" and ?i = "grievance_id r"
  let ?q = "r_put (gv_key ?p ?i) r (gv_queue st)"
  have g: "gq_grows ?p {} (gv_queue st) ?q" using inv assms(3) by (intro gq_grows_put) simp_all
  then have q: "gq_inv ?p ?q" by (simp add: gq_grows_def)
  have c: "confirm_for_submission ?p ?i ?q =
     (r_sadd (pending_submission_key ?p) ?i (r_put (gv_key ?p ?i) (r\<lparr>gr_status := GS_PENDING_SUBMISSION\<rparr>) ?q),
      Inr (r\<lparr>gr_status := GS_PENDING_SUBMISSION\<rparr>))"
    using confirm_cases [OF gq_inv_ok [OF q], of ?i] assms(3) by simp
  have "gq_grows ?p {?i} (gv_queue st) (fst (confirm_for_submission ?p ?i ?q))"
    using grows_confirm(1) [OF q, of ?i] g unfolding gq_grows_def by blast
  with g c show "gq_grows ?p (if gv_auto_submit cfg then {?i} else {}) (gv_queue st) (gv_queue (fst (file_draft cfg r st)))"
    by (simp add: file_draft_def create_draft_def gv_save_def Let_def)
  show "gv_flight (fst (file_draft cfg r st)) = gv_flight st" "gv_posts (fst (file_draft cfg r st)) = gv_posts st"
    "gv_tasks (fst (file_draft cfg r st)) = gv_tasks st @ (if gv_auto_submit cfg then [?i] else [])"
    "snd (file_draft cfg r st) = Inr (if gv_auto_submit cfg then r\<lparr>gr_status := GS_PENDING_SUBMISSION\<rparr> else r)"
    using c by (simp_all add: file_draft_def create_draft_def gv_save_def Let_def)
qed

lemma confirm_route_state:
  "fst (confirm_grievance cfg i st) = st\<lparr>gv_queue := fst (confirm_for_submission (gv_prefix cfg) i (gv_queue st))\<rparr>"
  "snd (confirm_grievance cfg i st) = Inl e \<Longrightarrow> \<exists>e'. snd (confirm_for_submission (gv_prefix cfg) i (gv_queue st)) = Inl e'"
  by (auto simp: confirm_grievance_def split: prod.split sum.split exc.split)
     (cases "confirm_for_submission (gv_prefix cfg) i (gv_queue st)"; cases "snd (confirm_for_submission (gv_prefix cfg) i (gv_queue st))"; simp)

lemma started:
  assumes "gq_inv p q" "submit_start p i q = (q', Inr (Some r))"
  shows "grievance_id r = i" "gv_get p i q' = Some r" "gq_grows p {} q q'"
proof -
  obtain r0 where r0: "gv_get p i q = Some r0" using assms(2) by (auto simp: submit_start_def split: option.splits)
  from submit_start_some [OF gq_inv_ok [OF assms(1)] r0] gq_okD [OF gq_inv_ok [OF assms(1)] r0] assms(2)
  show "grievance_id r = i" "gv_get p i q' = Some r" by auto
  show "gq_grows p {} q q'" using grows_start [OF assms(1), of i] assms(2) by simp
qed

lemma gv_inv_queue: "gv_inv cfg C st \<Longrightarrow> gq_inv (gv_prefix cfg) (gv_queue st)"
  by (simp add: gv_inv_def)

lemma gv_inv_sub:
  assumes "gv_inv cfg C st" "\<not> gv_auto_submit cfg"
  shows "pending_set (gv_prefix cfg) (gv_queue st) \<subseteq> C" "set (gv_tasks st) \<subseteq> C"
    "grievance_id ` set (gv_flight st) \<subseteq> C" "fst ` set (gv_posts st) \<subseteq> C"
  using assms by (simp_all add: gv_inv_def)

lemma gv_inv_step: "gv_step cfg x y \<Longrightarrow> gv_inv cfg (fst x) (snd x) \<Longrightarrow> gv_inv cfg (fst y) (snd y)"
proof (induction rule: gv_step.induct)
  case (draft r st C)
  let ?D = "if gv_auto_submit cfg then {grievance_id r} else {}"
  from draft have inv: "gv_inv cfg C st" by simp
  note d = file_draft_cases [OF gv_inv_queue [OF inv] draft.hyps]
  show ?case unfolding fst_conv snd_conv
    by (rule gv_inv_grows [OF inv d(1)]) (use gv_inv_sub [OF inv] in \<open>auto simp: d(2-4)\<close>)
next
  case (confirm i st st' r C)
  then have inv: "gv_inv cfg C st" and st': "st' = st\<lparr>gv_queue := fst (confirm_for_submission (gv_prefix cfg) i (gv_queue st))\<rparr>"
    using confirm_route_state(1) [of cfg i st] by simp_all
  show ?case unfolding fst_conv snd_conv st'
    by (rule gv_inv_grows [OF inv, of "{i}"]) (use gv_inv_sub [OF inv] in \<open>auto simp: grows_confirm(1) [OF gv_inv_queue [OF inv]]\<close>)
next
  case (refused i st st' e C)
  then have inv: "gv_inv cfg C st" by simp
  obtain e' where "snd (confirm_for_submission (gv_prefix cfg) i (gv_queue st)) = Inl e'"
    using refused.hyps confirm_route_state(2) [of cfg i st e] by auto
  then have "fst (confirm_for_submission (gv_prefix cfg) i (gv_queue st)) = gv_queue st"
    using grows_confirm(2) [OF gv_inv_queue [OF inv], of i] by (metis prod.collapse)
  then have "st' = st" using refused.hyps confirm_route_state(1) [of cfg i st] by simp
  with inv show ?case by simp
next
  case (sweep enum st C)
  then have inv: "gv_inv cfg C st" by simp
  have "set (gv_tasks (fst (submit_pending enum cfg st))) \<subseteq> C" if "\<not> gv_auto_submit cfg"
    using gv_inv_sub [OF inv that] listed_ids [where enum = enum, OF gq_inv_ok [OF gv_inv_queue [OF inv]] sweep.hyps]
    by (auto simp: submit_pending_def list_pending_submission_def Let_def)
  then show ?case unfolding fst_conv snd_conv using gv_inv_sub [OF inv] gv_inv_queue [OF inv]
    by (intro gv_inv_grows [OF inv, of "{}"]) (auto simp: submit_pending_def Let_def gq_grows_refl)
next
  case (start i st q r C)
  then have inv: "gv_inv cfg C st" by simp
  note r = started [OF gv_inv_queue [OF inv] start.hyps(2)]
  let ?st = "st\<lparr>gv_tasks := remove1 i (gv_tasks st), gv_queue := q\<rparr>"
  have "gv_inv cfg C ?st"
    by (rule gv_inv_grows [OF inv, of "{}"])
       (use r(3) gv_inv_sub [OF inv] order_trans [OF set_remove1_subset] in simp_all)
  with r start.hyps(1) gv_inv_sub(2) [OF inv] show ?case by (auto simp: gv_inv_def)
next
  case (skip i st q C)
  then have inv: "gv_inv cfg C st" by simp
  have "gq_grows (gv_prefix cfg) {} (gv_queue st) q" using grows_start [OF gv_inv_queue [OF inv], of i] skip.hyps by simp
  then show ?case unfolding fst_conv snd_conv
    by (intro gv_inv_grows [OF inv, of "{}"]) (use gv_inv_sub [OF inv] order_trans [OF set_remove1_subset] in simp_all)
next
  case (finish r st C reply uuid now)
  then have inv: "gv_inv cfg C st" by simp
  have "gq_grows (gv_prefix cfg) {} (gv_queue st)
      (gv_queue (fst (submit_finish cfg reply uuid now r (st\<lparr>gv_flight := remove1 r (gv_flight st)\<rparr>))))"
    using grows_finish [of cfg "st\<lparr>gv_flight := remove1 r (gv_flight st)\<rparr>"] gv_inv_queue [OF inv] by simp
  then show ?case unfolding fst_conv snd_conv
    by (rule gv_inv_grows [OF inv]) (use gv_inv_sub [OF inv] finish.hyps in \<open>auto dest: subsetD [OF set_remove1_subset]\<close>)
next
  case (crash r st C)
  then have inv: "gv_inv cfg C st" by simp
  then show ?case unfolding fst_conv snd_conv using gv_inv_sub [OF inv]
    by (intro gv_inv_grows [OF inv, of "{}"]) (auto simp: gq_grows_refl gv_inv_queue dest: subsetD [OF set_remove1_subset])
next
  case (poll_sweep enum st C)
  then have inv: "gv_inv cfg C st" by simp
  then show ?case unfolding fst_conv snd_conv using gv_inv_sub [OF inv]
    by (intro gv_inv_grows [OF inv, of "{}"]) (auto simp: gq_grows_refl gv_inv_queue poll_pending_def Let_def)
next
  case (poll i st C dt_ok reply uuid now)
  then have inv: "gv_inv cfg C st" by simp
  have "gq_grows (gv_prefix cfg) {} (gv_queue st)
      (gv_queue (fst (poll_grievance_status_now dt_ok cfg reply uuid now i (st\<lparr>gv_polls := remove1 i (gv_polls st)\<rparr>))))"
    using grows_poll [of cfg "st\<lparr>gv_polls := remove1 i (gv_polls st)\<rparr>"] gv_inv_queue [OF inv] by simp
  then show ?case unfolding fst_conv snd_conv
    by (rule gv_inv_grows [OF inv]) (use gv_inv_sub [OF inv] in auto)
next
  case (refresh C st dt_ok reply uuid now i)
  then have inv: "gv_inv cfg C st" by simp
  have "gv_inv cfg C (fst (poll_grievance_status_now dt_ok cfg reply uuid now i st))"
    by (rule gv_inv_grows [OF inv grows_poll [OF gv_inv_queue [OF inv]]]) (use gv_inv_sub [OF inv] in auto)
  with inv refresh_state [of dt_ok cfg reply uuid now i st] show ?case by (auto simp del: poll_frame)
qed

lemma gv_inv_empty: "gv_inv cfg C no_grievances"
  by (simp add: gv_inv_def gq_inv_def gq_ok_def no_grievances_def gv_get_def redis_empty_def redis_defs)

lemma gv_reachable_inv: "gv_reachable cfg C st \<Longrightarrow> gv_inv cfg C st"
proof -
  have "gv_inv cfg (fst y) (snd y)" if "(gv_step cfg)\<^sup>*\<^sup>* ({}, no_grievances) y" for y
    using that by (induction rule: rtranclp_induct) (simp_all add: gv_inv_empty gv_inv_step)
  then show "gv_reachable cfg C st \<Longrightarrow> gv_inv cfg C st" by fastforce
qed

section \<open>What the queue guarantees\<close>

text \<open>
  Claim C31. Nothing is filed with SEBI behind the officers' backs. Unless automatic
  submission is switched on, whatever drafts, sweeps, retries, crashes, polls and
  answers of SCORES a run holds, a submission is sent only for a grievance that
  an officer confirmed before.
\<close>

theorem unconfirmed_never_filed:
  assumes "gv_reachable cfg C st" and "\<not> gv_auto_submit cfg" and "(i, reply) \<in> set (gv_posts st)"
  shows "i \<in> C"
  using gv_inv_sub(4) [OF gv_reachable_inv [OF assms(1)] assms(2)] assms(3) by force

text \<open>
  A grievance SCORES has received is watched until it is closed: in every
  reachable state the poll sweep queues a poll for it, and that poll asks SCORES.
\<close>

theorem submitted_is_polled:
  assumes "gv_reachable cfg C st" and "gv_get (gv_prefix cfg) i (gv_queue st) = Some r" and "gr_status r = GS_SUBMITTED"
    and "set (enum (open_set (gv_prefix cfg) (gv_queue st))) = open_set (gv_prefix cfg) (gv_queue st)"
  shows "i \<in> set (gv_polls (fst (poll_pending enum cfg st))) \<and> scores_reference_number r \<noteq> None"
proof -
  have q: "gq_inv (gv_prefix cfg) (gv_queue st)" using gv_reachable_inv [OF assms(1)] by (rule gv_inv_queue)
  with assms(2,3) have "i \<in> open_set (gv_prefix cfg) (gv_queue st)" "scores_reference_number r \<noteq> None"
    unfolding gq_inv_def by blast+
  moreover from this(1) assms(2,4) have "r \<in> set (list_open enum (gv_prefix cfg) (gv_queue st))"
    by (auto simp: list_open_def list_from_set_def set_map_filter)
  moreover have "grievance_id r = i" using gq_okD [OF gq_inv_ok [OF q] assms(2)] .
  ultimately show ?thesis by (auto simp: poll_pending_def Let_def)
qed

text \<open>
  A poll reports exactly the changes: with an answer of SCORES about a
  submitted grievance the dashboard gets one event when the status or the
  summary differs from the record's and none otherwise, and the record then
  has the polled status.
\<close>

theorem poll_reports_changes:
  assumes "gq_ok (gv_prefix cfg) (gv_queue st)" and "gv_get (gv_prefix cfg) i (gv_queue st) = Some r"
    and "scores_reference_number r = Some ref" and "get_grievance_status dt_ok cfg reply ref = Inr resp"
  shows "let changed = (scores_status r \<noteq> Some (st_scores_status resp) \<or> resolution_summary r \<noteq> st_resolution_summary resp);
             st' = fst (poll_grievance_status_now dt_ok cfg reply uuid now i st)
    in (if changed
        then \<exists>e. st_dashboard (gv_incidents st') = st_dashboard (gv_incidents st) @ [e] \<and> be_event_type e = GRIEVANCE_STATUS_UPDATE
        else st' = st)
     \<and> (\<exists>r'. gv_get (gv_prefix cfg) i (gv_queue st') = Some r' \<and> scores_status r' = Some (st_scores_status resp)
          \<and> resolution_summary r' = st_resolution_summary resp
          \<and> gr_status r' = (if \<not> changed then gr_status r else if st_scores_status resp = SG_RESOLVED then GS_RESOLVED
              else if st_scores_status resp = SG_REJECTED then GS_REJECTED else gr_status r))"
proof (cases "Some (st_scores_status resp) = scores_status r \<and> st_resolution_summary resp = resolution_summary r")
  case True
  with assms have "poll_grievance_status_now dt_ok cfg reply uuid now i st = (st, Inr ())" by (simp add: poll_grievance_status_now_def)
  with True assms(2) show ?thesis by (auto simp: Let_def)
next
  case False
  let ?r = "polled (st_scores_status resp) (st_resolution_summary resp) now r"
  let ?q = "fst (update_status (gv_prefix cfg) i (st_scores_status resp) (st_resolution_summary resp) now (gv_queue st))"
  note u = update_status_some [OF assms(1,2), of "st_scores_status resp" "st_resolution_summary resp" now]
  have "fst (poll_grievance_status_now dt_ok cfg reply uuid now i st) =
      st\<lparr>gv_queue := ?q, gv_incidents := notify_grievance_status_changed cfg uuid now ?r (gv_incidents st)\<rparr>"
    by (simp only: poll_grievance_status_now_def assms option.case sum.case if_not_P [OF False] u Let_def prod.case fst_conv)
  moreover have "gv_get (gv_prefix cfg) i ?q = Some ?r" using u by (simp add: Let_def)
  moreover have "st_dashboard (notify_grievance_status_changed cfg uuid now ?r (gv_incidents st))
      = st_dashboard (gv_incidents st) @ [grievance_status_event now ?r uuid (now div 1000000)]"
    by (simp add: notify_grievance_status_changed_def raise_breach_event_def Let_def)
  moreover have "be_event_type (grievance_status_event now ?r uuid (now div 1000000)) = GRIEVANCE_STATUS_UPDATE"
    by (simp add: grievance_status_event_def new_event_def)
  moreover have "scores_status ?r = Some (st_scores_status resp)" "resolution_summary ?r = st_resolution_summary resp"
    by (simp_all add: polled_def Let_def)
  ultimately show ?thesis using False by (auto simp: Let_def polled_status)
qed

section \<open>Two tasks for one grievance\<close>

text \<open>The sweep queues a task for each id of the pending set, in flight or not, and the task looks at no status.\<close>

lemma posts_whatever_status:
  assumes "gq_ok (gv_prefix cfg) (gv_queue st)" "gv_get (gv_prefix cfg) i (gv_queue st) = Some r" "truthy_str (scores_api_base_url cfg)"
  shows "gv_posts (fst (submit_one cfg reply uuid now i st)) = gv_posts st @ [(i, reply)]"
  using submit_start_some [OF assms(1,2)] gq_okD [OF assms(1,2)] assms(3) by (simp add: submit_one_def)

definition in_flight :: "int \<Rightarrow> GrievanceRecord \<Rightarrow> GrievanceRecord" where
  "in_flight n r = r\<lparr>gr_status := GS_SUBMITTING, attempt_count := attempt_count r + n\<rparr>"

lemma two_in_flight:
  assumes "gr_status r = GS_DRAFTED" "\<not> gv_auto_submit cfg"
  shows "\<exists>C st. gv_reachable cfg C st \<and> gv_flight st = [in_flight 1 r, in_flight 2 r] \<and> gv_posts st = []
    \<and> gv_get (gv_prefix cfg) (grievance_id r) (gv_queue st) = Some (in_flight 2 r) \<and> open_set (gv_prefix cfg) (gv_queue st) = {}"
proof -
  let ?p = "gv_prefix cfg" and ?i = "grievance_id r"
  let ?e = "\<lambda>_::string set. [?i]"
  have e: "gv_get ?p j redis_empty = None" "r_smembers (redis_empty :: grievance_queue) k = {}" for j k
    by (simp_all add: gv_get_def redis_empty_def redis_defs)
  let ?q1 = "r_put (gv_key ?p ?i) r redis_empty :: grievance_queue"
  let ?s1 = "no_grievances\<lparr>gv_queue := ?q1\<rparr>"
  have ok1: "gq_ok ?p ?q1" by (simp add: gq_ok_def e)
  have "gv_step cfg ({}, no_grievances) ({}, fst (file_draft cfg r no_grievances))"
    using assms by (intro gv_step.draft) (simp_all add: no_grievances_def e)
  then have t1: "gv_reachable cfg {} ?s1" using assms(2) by (simp add: file_draft_def create_draft_def gv_save_def no_grievances_def)
  let ?r2 = "r\<lparr>gr_status := GS_PENDING_SUBMISSION\<rparr>"
  let ?q2 = "r_sadd (pending_submission_key ?p) ?i (r_put (gv_key ?p ?i) ?r2 ?q1)"
  let ?s2 = "no_grievances\<lparr>gv_queue := ?q2\<rparr>"
  have "confirm_for_submission ?p ?i ?q1 = (?q2, Inr ?r2)"
    using confirm_cases [OF ok1, of ?i] assms(1) by simp
  then have "confirm_grievance cfg ?i ?s1 = (?s2, Inr ?r2)" by (simp add: confirm_grievance_def)
  with t1 have t2: "gv_reachable cfg {?i} ?s2" by (metis gv_step.confirm rtranclp.rtrancl_into_rtrancl)
  have ok2: "gq_ok ?p ?q2" using ok1 by (simp add: gq_ok_put)
  have g2: "gv_get ?p ?i ?q2 = Some ?r2" by simp
  have m: "pending_set ?p ?q2 = {?i}" by (simp add: redis_simps e)
  have l: "list_pending_submission ?e ?p ?q2 = [?r2]"
    by (simp add: list_pending_submission_def list_from_set_def map_filter_simps)
  let ?s3 = "?s2\<lparr>gv_tasks := [?i]\<rparr>" and ?s4 = "?s2\<lparr>gv_tasks := [?i, ?i]\<rparr>"
  have "gv_step cfg ({?i}, ?s2) ({?i}, ?s3)" using gv_step.sweep [where enum = ?e and cfg = cfg and st = ?s2 and C = "{?i}"] m l by (simp add: submit_pending_def no_grievances_def)
  moreover have "gv_step cfg ({?i}, ?s3) ({?i}, ?s4)" using gv_step.sweep [where enum = ?e and cfg = cfg and st = ?s3 and C = "{?i}"] m l by (simp add: submit_pending_def)
  ultimately have t4: "gv_reachable cfg {?i} ?s4" using t2 by (meson rtranclp.rtrancl_into_rtrancl)
  let ?q5 = "r_put (gv_key ?p ?i) (in_flight 1 r) ?q2"
  let ?q6 = "r_put (gv_key ?p ?i) (in_flight 2 r) ?q5"
  have f1: "submit_start ?p ?i ?q2 = (?q5, Inr (Some (in_flight 1 r)))"
    using submit_start_some [OF ok2 g2] by (simp add: in_flight_def)
  have ok5: "gq_ok ?p ?q5" "gv_get ?p ?i ?q5 = Some (in_flight 1 r)" using ok2 by (simp_all add: gq_ok_put in_flight_def)
  have f2: "submit_start ?p ?i ?q5 = (?q6, Inr (Some (in_flight 2 r)))"
    using submit_start_some [OF ok5] by (simp add: in_flight_def add.assoc)
  let ?s5 = "?s2\<lparr>gv_tasks := [?i], gv_queue := ?q5, gv_flight := [in_flight 1 r]\<rparr>"
  let ?s6 = "?s2\<lparr>gv_tasks := [], gv_queue := ?q6, gv_flight := [in_flight 1 r, in_flight 2 r]\<rparr>"
  have "gv_step cfg ({?i}, ?s4) ({?i}, ?s5)"
    using gv_step.start [where i = ?i and st = ?s4 and cfg = cfg and q = ?q5 and r = "in_flight 1 r" and C = "{?i}"] f1
    by (simp add: no_grievances_def)
  moreover have "gv_step cfg ({?i}, ?s5) ({?i}, ?s6)"
    using gv_step.start [where i = ?i and st = ?s5 and cfg = cfg and q = ?q6 and r = "in_flight 2 r" and C = "{?i}"] f2
    by (simp add: no_grievances_def)
  ultimately have "gv_reachable cfg {?i} ?s6" using t4 by (meson rtranclp.rtrancl_into_rtrancl)
  then show ?thesis by (intro exI [of _ "{?i}"] exI [of _ ?s6]) (simp add: no_grievances_def redis_simps e)
qed

definition accepted :: "string \<Rightarrow> http_reply" where
  "accepted ref = HTTP_RESPONSE 201 [] (Some (PDict [(''scores_reference_number'', PStr ref)]))"

definition rejected :: http_reply where
  "rejected = HTTP_RESPONSE 409 ''duplicate'' None"

lemma submit_accepted:
  "truthy_str (scores_api_base_url cfg) \<Longrightarrow> \<exists>s. submit_grievance cfg (accepted ref) rq = Inr \<lparr>sr_reference_number = ref, sr_status = s\<rparr>"
  by (simp add: submit_grievance_def scores_call_def http_call_def accepted_def body_item_def body_get_def mapped_status_def model_str_def)

lemma submit_rejected:
  "truthy_str (scores_api_base_url cfg) \<Longrightarrow> \<exists>exc. submit_grievance cfg rejected rq = Inl exc \<and> \<not> is_transient exc"
  by (simp add: submit_grievance_def scores_call_def http_call_def rejected_def TRANSIENT_EXCEPTION_TYPES_def)

lemma finish_accepted:
  assumes "gq_ok (gv_prefix cfg) (gv_queue st)" "gv_get (gv_prefix cfg) (grievance_id r) (gv_queue st) = Some r0"
    and "truthy_str (scores_api_base_url cfg)"
  shows "gv_queue (fst (submit_finish cfg (accepted ref) uuid now r st)) =
    fst (mark_submitted (gv_prefix cfg) (grievance_id r) ref now (gv_queue st))"
  using submit_accepted [OF assms(3), of ref "gr_request r"] assms
  by (auto simp: submit_finish_def Let_def mark_submitted_some)

lemma finish_rejected:
  assumes "gq_ok (gv_prefix cfg) (gv_queue st)" "gv_get (gv_prefix cfg) (grievance_id r) (gv_queue st) = Some r0"
    and "truthy_str (scores_api_base_url cfg)"
  shows "\<exists>err. gv_queue (fst (submit_finish cfg rejected uuid now r st)) =
    fst (mark_submission_failed (gv_prefix cfg) (grievance_id r) err (gv_queue st))"
  using submit_rejected [OF assms(3), of "gr_request r"] assms
  by (auto simp: submit_finish_def submit_failed_def Let_def mark_submission_failed_some)

lemma one_accepted:
  fixes r :: GrievanceRecord
  assumes "gr_status r = GS_DRAFTED" and "\<not> gv_auto_submit cfg" and "truthy_str (scores_api_base_url cfg)"
  shows "\<exists>C st r1. gv_reachable cfg C st \<and> gv_flight st = [in_flight 2 r] \<and> gv_posts st = [(grievance_id r, accepted a)]
    \<and> gv_get (gv_prefix cfg) (grievance_id r) (gv_queue st) = Some r1 \<and> gr_status r1 = GS_SUBMITTED
    \<and> open_set (gv_prefix cfg) (gv_queue st) = {grievance_id r}"
proof -
  let ?p = "gv_prefix cfg" and ?i = "grievance_id r" and ?a = "in_flight 1 r" and ?b = "in_flight 2 r"
  have id: "grievance_id ?a = ?i" by (simp add: in_flight_def)
  obtain C st where st: "gv_reachable cfg C st" "gv_flight st = [?a, ?b]" "gv_posts st = []" "gv_get ?p ?i (gv_queue st) = Some ?b"
    "open_set ?p (gv_queue st) = {}"
    using two_in_flight [OF assms(1,2)] by blast
  let ?st = "st\<lparr>gv_flight := remove1 ?a (gv_flight st)\<rparr>"
  let ?s = "fst (submit_finish cfg (accepted a) [] 0 ?a ?st)"
  have "gv_reachable cfg C ?s"
    using st(1) gv_step.finish [of ?a st cfg C "accepted a" "[]" 0] st(2) by (simp add: rtranclp.rtrancl_into_rtrancl)
  moreover have ok: "gq_ok ?p (gv_queue st)" using gv_reachable_inv [OF st(1)] by (auto intro: gq_inv_ok gv_inv_queue)
  have "gv_queue ?s = fst (mark_submitted ?p ?i a 0 (gv_queue st))"
    using finish_accepted [of cfg ?st ?a ?b a "[]" 0] ok st(4) assms(3) id by simp
  then have "open_set ?p (gv_queue ?s) = {?i}" "\<exists>r1. gv_get ?p ?i (gv_queue ?s) = Some r1 \<and> gr_status r1 = GS_SUBMITTED"
    using mark_submitted_some [OF ok st(4)] st(5) by (simp_all add: Let_def redis_simps)
  moreover have "gv_flight ?s = [?b]" "gv_posts ?s = [(?i, accepted a)]" using st(2,3) assms(3) id by simp_all
  ultimately show ?thesis by blast
qed

text \<open>
  Claim C35. One confirmed grievance can be filed twice. The sweep queues a submission
  for every id of the pending set although an earlier one is queued or in flight,
  and the task looks at no status: there are runs in which SCORES accepts both
  submissions and the record keeps only the second reference, so that the first
  complaint is never polled; and runs in which SCORES accepts the first and
  refuses the second, and the record says the submission failed.
\<close>

theorem grievance_filed_twice:
  fixes r :: GrievanceRecord
  assumes "gr_status r = GS_DRAFTED" and "\<not> gv_auto_submit cfg" and "truthy_str (scores_api_base_url cfg)"
  shows "(\<exists>C st r'. gv_reachable cfg C st \<and> gv_posts st = [(grievance_id r, accepted a), (grievance_id r, accepted b)]
      \<and> gv_get (gv_prefix cfg) (grievance_id r) (gv_queue st) = Some r' \<and> scores_reference_number r' = Some b)
    \<and> (\<exists>C st r'. gv_reachable cfg C st \<and> gv_posts st = [(grievance_id r, accepted a), (grievance_id r, rejected)]
      \<and> gv_get (gv_prefix cfg) (grievance_id r) (gv_queue st) = Some r' \<and> gr_status r' = GS_SUBMISSION_FAILED)"
proof -
  let ?p = "gv_prefix cfg" and ?i = "grievance_id r" and ?b = "in_flight 2 r"
  have id: "grievance_id ?b = ?i" by (simp add: in_flight_def)
  obtain C st r1 where st: "gv_reachable cfg C st" "gv_flight st = [?b]" "gv_posts st = [(?i, accepted a)]" "gv_get ?p ?i (gv_queue st) = Some r1"
    using one_accepted [OF assms, of a] by blast
  have ok: "gq_ok ?p (gv_queue st)" using gv_reachable_inv [OF st(1)] by (auto intro: gq_inv_ok gv_inv_queue)
  let ?st = "st\<lparr>gv_flight := remove1 ?b (gv_flight st)\<rparr>"
  have t: "gv_reachable cfg C (fst (submit_finish cfg reply [] 0 ?b ?st))" for reply
    using st(1) gv_step.finish [of ?b st cfg C reply "[]" 0] st(2) by (simp add: rtranclp.rtrancl_into_rtrancl)
  have p: "gv_posts (fst (submit_finish cfg reply [] 0 ?b ?st)) = [(?i, accepted a), (?i, reply)]" for reply
    using st(3) assms(3) id by simp
  have "gv_queue (fst (submit_finish cfg (accepted b) [] 0 ?b ?st)) = fst (mark_submitted ?p ?i b 0 (gv_queue st))"
    using finish_accepted [of cfg ?st ?b r1 b "[]" 0] ok st(4) assms(3) id by simp
  then have "\<exists>r'. gv_get ?p ?i (gv_queue (fst (submit_finish cfg (accepted b) [] 0 ?b ?st))) = Some r' \<and> scores_reference_number r' = Some b"
    using mark_submitted_some [OF ok st(4)] by (simp add: Let_def)
  moreover obtain err where "gv_queue (fst (submit_finish cfg rejected [] 0 ?b ?st)) = fst (mark_submission_failed ?p ?i err (gv_queue st))"
    using finish_rejected [of cfg ?st ?b r1 "[]" 0] ok st(4) assms(3) id by auto
  then have "\<exists>r'. gv_get ?p ?i (gv_queue (fst (submit_finish cfg rejected [] 0 ?b ?st))) = Some r' \<and> gr_status r' = GS_SUBMISSION_FAILED"
    using mark_submission_failed_some [OF ok st(4)] by simp
  ultimately show ?thesis using t p by meson
qed

section \<open>A grievance\<close>

definition demo_grievance :: "GrievanceStatus \<Rightarrow> GrievanceRecord" where
  "demo_grievance s = \<lparr>grievance_id = ''g1'',
     gr_request = \<lparr>reference_id = ''g1'', rq_category = REPEATED_CLAUSE_VIOLATION,
       rq_respondent = \<lparr>sebi_registration_number = ''b1'', rs_broker_id = ''b1'', rs_entity_name = None\<rparr>,
       rq_complainant = \<lparr>cp_entity_name = ''monitor'', contact_email = ''m@x'', cp_tenant_id = None\<rparr>,
       rq_description = ''d'', rq_evidence = [], rq_filed_at = 0\<rparr>,
     gr_status = s, attempt_count = 0, max_retries = 3, gr_last_error = None,
     scores_reference_number = (if s = GS_SUBMITTED then Some ''R1'' else None),
     scores_status = (if s = GS_SUBMITTED then Some SG_SUBMITTED else None), resolution_summary = None,
     gr_filed_at = 0, response_due_at = 9, gr_submitted_at = None, last_polled_at = None, gr_resolved_at = None\<rparr>"

definition demo_gv_settings :: grievance_settings where
  "demo_gv_settings = \<lparr>gv_enabled = True, gv_prefix = ''gv'', gv_auto_submit = False, gv_threshold_count = 3, gv_window_days = 30,
     gv_sla_days = 21, gv_max_retries = 3, scores_api_base_url = Some ''https://scores'', gv_incident_prefix = ''inc''\<rparr>"

definition holding :: "GrievanceRecord \<Rightarrow> grievance_state" where
  "holding r = no_grievances\<lparr>gv_queue := r_put (gv_key ''gv'' (grievance_id r)) r redis_empty\<rparr>"

lemma holding_ok: "gq_ok ''gv'' (gv_queue (holding r))" "gv_get ''gv'' (grievance_id r) (gv_queue (holding r)) = Some r"
  by (auto simp: holding_def gq_ok_def) (simp add: gv_get_def redis_empty_def redis_defs)

definition no_route :: http_reply where
  "no_route = HTTP_RAISED (raise_new EC_TransportError ''no route to host'')"


lemma demo_gv_simps:
  "gr_status (demo_grievance s) = s" "grievance_id (demo_grievance s) = ''g1''" "\<not> gv_auto_submit demo_gv_settings"
  "truthy_str (scores_api_base_url demo_gv_settings)" "gv_prefix demo_gv_settings = ''gv''"
  by (simp_all add: demo_grievance_def demo_gv_settings_def)

lemma demo_accepted:
  "\<exists>C st r1. gv_reachable demo_gv_settings C st \<and> gv_posts st = [(''g1'', accepted ''R1'')]
    \<and> gv_get ''gv'' ''g1'' (gv_queue st) = Some r1 \<and> gr_status r1 = GS_SUBMITTED \<and> open_set ''gv'' (gv_queue st) = {''g1''}"
  using one_accepted [OF demo_gv_simps(1,3,4), of "''R1''"] unfolding demo_gv_simps
  by (elim exE conjE) (intro exI conjI)

theorem unconfirmed_never_filed_witness:
  "\<exists>C st. gv_reachable demo_gv_settings C st \<and> gv_posts st = [(''g1'', accepted ''R1'')] \<and> ''g1'' \<in> C"
proof -
  obtain C st where st: "gv_reachable demo_gv_settings C st" "gv_posts st = [(''g1'', accepted ''R1'')]" using demo_accepted by (elim exE conjE)
  have "''g1'' \<in> C" by (rule unconfirmed_never_filed [OF st(1) demo_gv_simps(3), of _ "accepted ''R1''"]) (simp add: st(2))
  with st show ?thesis by (intro exI conjI)
qed

theorem submitted_is_polled_witness:
  "\<exists>C st. gv_reachable demo_gv_settings C st \<and> ''g1'' \<in> set (gv_polls (fst (poll_pending (\<lambda>_. [''g1'']) demo_gv_settings st)))"
proof -
  obtain C st r1 where st: "gv_reachable demo_gv_settings C st" "gv_get ''gv'' ''g1'' (gv_queue st) = Some r1" "gr_status r1 = GS_SUBMITTED"
    "open_set ''gv'' (gv_queue st) = {''g1''}" using demo_accepted by (elim exE conjE)
  have "''g1'' \<in> set (gv_polls (fst (poll_pending (\<lambda>_. [''g1'']) demo_gv_settings st)))"
    by (rule submitted_is_polled [THEN conjunct1, OF st(1) _ st(3)]) (simp_all add: demo_gv_simps st(2,4))
  with st(1) show ?thesis by (intro exI conjI)
qed

theorem grievance_filed_twice_witness:
  "\<exists>C st r'. gv_reachable demo_gv_settings C st \<and> gv_posts st = [(''g1'', accepted ''R1''), (''g1'', rejected)]
     \<and> gv_get ''gv'' ''g1'' (gv_queue st) = Some r' \<and> gr_status r' = GS_SUBMISSION_FAILED"
  using grievance_filed_twice [OF demo_gv_simps(1,3,4), of "''R1''" "''R2''"] unfolding demo_gv_simps by (rule conjunct2)

end
