(* ===== verification/Grievance_Escalation.thy ===== *)
theory Grievance_Escalation
  imports Ledger_Integration Grievance_Queue
begin

text \<open>
  From a failure in the ledger to a drafted grievance, \<open>app/grievance_escalation\<close>:
  the test for repeated failures (\<open>systemic_detector.py\<close>), the proof of one ledger
  row (\<open>ledger_evidence.py\<close>), the evidence (\<open>evidence.py\<close>), the trigger
  (\<open>escalation.py\<close>) and its call from \<open>app/ledger/integration.py\<close>. Arguments: the
  order \<open>scan\<close> in which the database answers a query that asks for none, the
  foreign key \<open>clause_ref\<close> of a row (the ledger service writes none), the lookup
  of a clause in the main schema when the caller has a session for it, and the
  text \<open>dump_dt\<close> pydantic gives an instant. The evidence holds the facts and the
  details as the JSON values they were stored as.
\<close>

section \<open>Repeated failures\<close>

record SystemicFailureCheck =
  sf_broker_id :: string
  sf_rule_id :: string
  sf_window_days :: int
  sf_threshold_count :: int
  sf_failure_count :: int

definition is_systemic :: "SystemicFailureCheck \<Rightarrow> bool" where
  "is_systemic c \<longleftrightarrow> sf_failure_count c \<ge> sf_threshold_count c"

definition failure_in_window :: "string \<Rightarrow> string \<Rightarrow> time \<Rightarrow> time \<Rightarrow> LedgerEntry \<Rightarrow> bool" where
  "failure_in_window broker rid window_start as_of r \<longleftrightarrow>
     lg_broker_id r = broker \<and> lg_rule_id r = rid \<and> lg_evaluation_result r = FAIL
     \<and> window_start \<le> lg_evaluated_at r \<and> lg_evaluated_at r \<le> as_of"

definition check_systemic_failure :: "ledger \<Rightarrow> string \<Rightarrow> string \<Rightarrow> int \<Rightarrow> int \<Rightarrow> time \<Rightarrow> SystemicFailureCheck" where
  "check_systemic_failure L broker rid window_days threshold_count as_of =
     (let window_start = as_of - window_days * 86400000000
      in \<lparr>sf_broker_id = broker, sf_rule_id = rid, sf_window_days = window_days, sf_threshold_count = threshold_count,
          sf_failure_count = int (length (filter (failure_in_window broker rid window_start as_of) L))\<rparr>)"

section \<open>The proof of one row\<close>

record SingleEntryLedgerProof =
  pf_entry :: LedgerEntry
  previous_hash_used :: "string option"
  recomputed_current_hash :: "string option"
  chain_linkage_verifiable :: bool
  current_hash_matches :: "bool option"

definition rows_of_transaction :: "ledger \<Rightarrow> string \<Rightarrow> LedgerEntry list" where
  "rows_of_transaction L tx = filter (\<lambda>r. lg_transaction_id r = tx) L"

definition get_ledger_entry_by_transaction_id :: "(LedgerEntry list \<Rightarrow> LedgerEntry list) \<Rightarrow> ledger \<Rightarrow> string \<Rightarrow> LedgerEntry option" where
  "get_ledger_entry_by_transaction_id scan L tx =
     (case scan (rows_of_transaction L tx) of [] \<Rightarrow> None | r # _ \<Rightarrow> Some r)"

definition get_ledger_entry_by_sequence_num :: "ledger \<Rightarrow> int \<Rightarrow> LedgerEntry option" where
  "get_ledger_entry_by_sequence_num L n = find (\<lambda>r. lg_sequence_num r = n) L"

definition build_single_entry_proof :: "(string \<Rightarrow> string) \<Rightarrow> ledger \<Rightarrow> LedgerEntry \<Rightarrow> SingleEntryLedgerProof" where
  "build_single_entry_proof H L entry =
     (let previous = (if lg_sequence_num entry = 0 then Some GENESIS_HASH
                      else map_option lg_current_hash (get_ledger_entry_by_sequence_num L (lg_sequence_num entry - 1)))
      in case previous of
           None \<Rightarrow> \<lparr>pf_entry = entry, previous_hash_used = None, recomputed_current_hash = None,
                    chain_linkage_verifiable = False, current_hash_matches = None\<rparr>
         | Some h \<Rightarrow>
             let recomputed = compute_block_hash H h (lg_payload_digest entry) (lg_sequence_num entry) (lg_evaluated_at entry)
             in \<lparr>pf_entry = entry, previous_hash_used = Some h, recomputed_current_hash = Some recomputed,
                 chain_linkage_verifiable = True, current_hash_matches = Some (recomputed = lg_current_hash entry)\<rparr>)"

section \<open>Evidence\<close>

record GrievanceEvidencePackage =
  ep_transaction :: TransactionPayload
  ep_ledger_entry :: LedgerEntry
  ep_ledger_proof :: SingleEntryLedgerProof
  ledger_clause_hash :: string
  canonical_clause_hash :: "string option"
  ep_circular_number :: "string option"
  ep_clause_number :: string

record evidence_env =
  ee_texts :: texts
  ee_scan :: "LedgerEntry list \<Rightarrow> LedgerEntry list"
  ee_clause_ref :: "LedgerEntry \<Rightarrow> int option"
  ee_dump_dt :: "time \<Rightarrow> string"

fun source_channel_value :: "SourceChannel \<Rightarrow> string" where
  "source_channel_value REST_SYNC = ''rest_sync''"
| "source_channel_value SFTP_BATCH = ''sftp_batch''"
| "source_channel_value DB_CDC = ''db_cdc''"
| "source_channel_value HITL_RESOLUTION = ''hitl_resolution''"

definition transaction_dump :: "(time \<Rightarrow> string) \<Rightarrow> TransactionPayload \<Rightarrow> pyval" where
  "transaction_dump dump_dt tx = PDict [
     (''transaction_id'', PStr (transaction_id tx)), (''entity_type'', PStr (tx_entity_type tx)), (''facts'', PDict (tx_facts tx)),
     (''source_channel'', PStr (source_channel_value (source_channel tx))), (''broker_id'', opt_str_val (broker_id tx)),
     (''callback_url'', opt_str_val (callback_url tx)), (''received_at'', PStr (dump_dt (received_at tx))),
     (''metadata'', PDict (tx_metadata tx))]"

definition entry_dump :: "(time \<Rightarrow> string) \<Rightarrow> LedgerEntry \<Rightarrow> pyval" where
  "entry_dump dump_dt r = PDict [
     (''id'', PInt (lg_id r)), (''sequence_num'', PInt (lg_sequence_num r)), (''broker_id'', PStr (lg_broker_id r)),
     (''transaction_id'', PStr (lg_transaction_id r)), (''evaluated_at'', PStr (dump_dt (lg_evaluated_at r))),
     (''circular_id'', PStr (lg_circular_id r)), (''clause_hash'', PStr (lg_clause_hash r)),
     (''section_reference'', PStr (lg_section_reference r)), (''rule_id'', PStr (lg_rule_id r)),
     (''evaluation_result'', PStr (outcome_value (lg_evaluation_result r))), (''hitl_review_id'', opt_str_val (lg_hitl_review_id r)),
     (''details'', PDict (lg_details r)), (''payload_digest'', PStr (lg_payload_digest r)),
     (''previous_hash'', PStr (lg_previous_hash r)), (''current_hash'', PStr (lg_current_hash r)),
     (''created_at'', PStr (dump_dt (lg_created_at r)))]"

definition proof_dump :: "GrievanceEvidencePackage \<Rightarrow> pyval" where
  "proof_dump pkg =
     (let pf = ep_ledger_proof pkg in PDict [
       (''previous_hash_used'', opt_str_val (previous_hash_used pf)),
       (''stated_current_hash'', PStr (lg_current_hash (ep_ledger_entry pkg))),
       (''recomputed_current_hash'', opt_str_val (recomputed_current_hash pf)),
       (''chain_linkage_verifiable'', PBool (chain_linkage_verifiable pf)),
       (''current_hash_matches'', case current_hash_matches pf of None \<Rightarrow> PNone | Some b \<Rightarrow> PBool b)])"

definition clause_dump :: "GrievanceEvidencePackage \<Rightarrow> pyval" where
  "clause_dump pkg = PDict [
     (''ledger_clause_hash'', PStr (ledger_clause_hash pkg)), (''canonical_clause_hash'', opt_str_val (canonical_clause_hash pkg)),
     (''circular_number'', opt_str_val (ep_circular_number pkg)), (''clause_number'', PStr (ep_clause_number pkg))]"

definition document :: "texts \<Rightarrow> string \<times> pyval \<Rightarrow> GrievanceEvidenceDocument result" where
  "document env d =
     bind_res (json_dumps_canonical (float_repr env) (snd d)) (\<lambda>content.
       Inr \<lparr>ed_label = fst d, ed_content_type = ''application/json'', ed_content = content, ed_sha256 = sha env content\<rparr>)"

definition to_evidence_documents :: "evidence_env \<Rightarrow> GrievanceEvidencePackage \<Rightarrow> GrievanceEvidenceDocument list result" where
  "to_evidence_documents env pkg =
     map_res (document (ee_texts env)) [
       (''transaction_payload'', transaction_dump (ee_dump_dt env) (ep_transaction pkg)),
       (''ledger_entry'', entry_dump (ee_dump_dt env) (ep_ledger_entry pkg)),
       (''ledger_chain_proof'', proof_dump pkg),
       (''clause_hash'', clause_dump pkg)]"

text \<open>\<open>scalar_one_or_none\<close>: the one value, None for no row, and an exception for several rows.\<close>

definition clause_ref_of_transaction :: "evidence_env \<Rightarrow> ledger \<Rightarrow> string \<Rightarrow> int option result" where
  "clause_ref_of_transaction env L tx =
     (case rows_of_transaction L tx of
        [] \<Rightarrow> Inr None
      | [r] \<Rightarrow> Inr (ee_clause_ref env r)
      | _ \<Rightarrow> raise MultipleResultsFound)"

type_synonym clause_lookup = "int \<Rightarrow> (string \<times> string option) option"

definition build_evidence_package ::
  "evidence_env \<Rightarrow> ledger \<Rightarrow> clause_lookup option \<Rightarrow> TransactionPayload \<Rightarrow> GrievanceEvidencePackage result" where
  "build_evidence_package env L db tx =
     (case get_ledger_entry_by_transaction_id (ee_scan env) L (transaction_id tx) of
        None \<Rightarrow> raise (ValueError (''No ledger entry found for transaction_id='' @ [CHR 0x27] @ transaction_id tx @ [CHR 0x27]
          @ ''; cannot build evidence without a recorded ledger proof.''))
      | Some entry \<Rightarrow>
          bind_res (clause_ref_of_transaction env L (transaction_id tx)) (\<lambda>clause_ref_id.
          let clause = Option.bind clause_ref_id (\<lambda>i. Option.bind db (\<lambda>lookup. lookup i))
          in Inr \<lparr>ep_transaction = tx, ep_ledger_entry = entry,
                  ep_ledger_proof = build_single_entry_proof (sha (ee_texts env)) L entry,
                  ledger_clause_hash = lg_clause_hash entry, canonical_clause_hash = map_option fst clause,
                  ep_circular_number = Option.bind clause snd, ep_clause_number = lg_section_reference entry\<rparr>))"

section \<open>The trigger\<close>

definition category_keywords :: "(string \<times> GrievanceCategory) list" where
  "category_keywords = [(''collateral'', DELAYED_COLLATERAL_REPORTING), (''margin'', BROKER_SYSTEMIC_NON_COMPLIANCE)]"

definition categorize :: "string \<Rightarrow> string list \<Rightarrow> GrievanceCategory" where
  "categorize rid violations =
     (let haystack = py_lower (rid @ '' '' @ join '' '' violations)
      in case find (\<lambda>kc. substring (fst kc) haystack) category_keywords of
           Some kc \<Rightarrow> snd kc | None \<Rightarrow> REPEATED_CLAUSE_VIOLATION)"

text \<open>\<open>list(details.get("violations", []))\<close>, whose items the join needs as strings.\<close>

definition entry_violations :: "LedgerEntry \<Rightarrow> string list result" where
  "entry_violations r =
     (case map_of (lg_details r) ''violations'' of
        None \<Rightarrow> Inr []
      | Some (PList vs) \<Rightarrow> map_res (\<lambda>v. case v of PStr s \<Rightarrow> Inr s | _ \<Rightarrow> raise TypeError) vs
      | Some _ \<Rightarrow> raise TypeError)"

definition escalation_text ::
  "LedgerEntry \<Rightarrow> SystemicFailureCheck \<Rightarrow> TransactionPayload \<Rightarrow> GrievanceEvidencePackage \<Rightarrow> string list \<Rightarrow> string" where
  "escalation_text entry check tx pkg violations =
     ''Automated escalation: broker '' @ lg_broker_id entry @ '' breached rule '' @ lg_rule_id entry @ '' ''
     @ int_str (sf_failure_count check) @ '' time(s) in the trailing '' @ int_str (sf_window_days check)
     @ '' day(s), exceeding the systemic-failure threshold of '' @ int_str (sf_threshold_count check)
     @ ''. Most recent breach: transaction '' @ transaction_id tx @ '', Circular '' @ str_or (ep_circular_number pkg) ''unknown''
     @ '', Clause '' @ ep_clause_number pkg @ ''. ''
     @ (if violations \<noteq> [] then join ''; '' violations else ''No detailed violation message recorded.'')"

definition draft_of ::
  "grievance_settings \<Rightarrow> string \<Rightarrow> time \<Rightarrow> LedgerEntry \<Rightarrow> string list \<Rightarrow> string \<Rightarrow> GrievanceEvidenceDocument list \<Rightarrow> GrievanceRecord" where
  "draft_of cfg uuid now entry violations text docs =
     \<lparr>grievance_id = uuid,
      gr_request = \<lparr>reference_id = uuid, rq_category = categorize (lg_rule_id entry) violations,
        rq_respondent = \<lparr>sebi_registration_number = lg_broker_id entry, rs_broker_id = lg_broker_id entry, rs_entity_name = None\<rparr>,
        rq_complainant = \<lparr>cp_entity_name = ''RegEngine AI Compliance Monitoring'',
          contact_email = ''compliance-automation@regengine.internal'', cp_tenant_id = None\<rparr>,
        rq_description = text, rq_evidence = docs, rq_filed_at = now\<rparr>,
      gr_status = GS_DRAFTED, attempt_count = 0, max_retries = gv_max_retries cfg, gr_last_error = None,
      scores_reference_number = None, scores_status = None, resolution_summary = None, gr_filed_at = now,
      response_due_at = now + gv_sla_days cfg * 86400000000, gr_submitted_at = None, last_polled_at = None, gr_resolved_at = None\<rparr>"

definition evaluate_and_trigger_grievance_escalation ::
  "grievance_settings \<Rightarrow> evidence_env \<Rightarrow> clause_lookup option \<Rightarrow> string \<Rightarrow> time \<Rightarrow> LedgerEntry \<Rightarrow> TransactionPayload \<Rightarrow> ledger
   \<Rightarrow> grievance_state \<Rightarrow> grievance_state \<times> GrievanceRecord option result" where
  "evaluate_and_trigger_grievance_escalation cfg env db uuid now entry tx L st =
     (if \<not> gv_enabled cfg then (st, Inr None)
      else
        let check = check_systemic_failure L (lg_broker_id entry) (lg_rule_id entry) (gv_window_days cfg) (gv_threshold_count cfg) now
        in if \<not> is_systemic check then (st, Inr None)
           else
             case bind_res (build_evidence_package env L db tx) (\<lambda>pkg.
                  bind_res (entry_violations (ep_ledger_entry pkg)) (\<lambda>violations.
                  bind_res (to_evidence_documents env pkg) (\<lambda>docs.
                    Inr (draft_of cfg uuid now entry violations (escalation_text entry check tx pkg violations) docs)))) of
               Inl e \<Rightarrow> (st, raise e)
             | Inr r \<Rightarrow>
                 (case file_draft cfg r st of
                    (st', Inl e) \<Rightarrow> (st', raise e)
                  | (st', Inr r') \<Rightarrow> (st', Inr (Some r'))))"

definition trigger_grievance_escalation ::
  "grievance_settings \<Rightarrow> evidence_env \<Rightarrow> string \<Rightarrow> time \<Rightarrow> LedgerEntry \<Rightarrow> TransactionPayload \<Rightarrow> ledger \<Rightarrow> grievance_state \<Rightarrow> grievance_state" where
  "trigger_grievance_escalation cfg env uuid now entry tx L st =
     (if \<not> gv_enabled cfg then st
      else fst (evaluate_and_trigger_grievance_escalation cfg env None uuid now entry tx L st))"

text \<open>One event of \<open>log_evaluation\<close>: the row, then the trigger for a failure that was written.\<close>

definition log_event_escalating ::
  "grievance_settings \<Rightarrow> evidence_env \<Rightarrow> log_settings \<Rightarrow> TransactionPayload \<Rightarrow> string \<Rightarrow> time \<Rightarrow> int \<Rightarrow> ComplianceEvaluationEvent
   \<Rightarrow> audit_state \<times> grievance_state \<Rightarrow> audit_state \<times> grievance_state" where
  "log_event_escalating gcfg env cfg tx uuid now rowid ev s =
     (let au = log_event cfg (ee_texts env) tx now rowid ev (fst s)
      in (au,
          case append_entry (sha (ee_texts env)) (float_repr (ee_texts env)) rowid now ev (au_ledger (fst s)) of
            (_, Inl e) \<Rightarrow> snd s
          | (L, Inr entry) \<Rightarrow>
              if lg_evaluation_result ev = FAIL then trigger_grievance_escalation gcfg env uuid now entry tx L (snd s) else snd s))"

section \<open>What a drafted grievance rests on\<close>

lemma proof_holds:
  assumes "ledger_reachable H fr L" "entry \<in> set L"
  shows "chain_linkage_verifiable (build_single_entry_proof H L entry)" "current_hash_matches (build_single_entry_proof H L entry) = Some True"
    "previous_hash_used (build_single_entry_proof H L entry) = Some (lg_previous_hash entry)"
proof -
  obtain xs ys where L: "L = xs @ entry # ys" using assms(2) by (auto simp: in_set_conv_decomp)
  have c: "chained H fr GENESIS_HASH 0 L" using reachable_chained [OF assms(1)] .
  let ?prev = "if xs = [] then GENESIS_HASH else lg_current_hash (last xs)"
  have e: "lg_sequence_num entry = int (length xs)" "lg_previous_hash entry = ?prev"
    "lg_current_hash entry = compute_block_hash H ?prev (lg_payload_digest entry) (int (length xs)) (lg_evaluated_at entry)"
    using c by (simp_all add: L chained_append)
  have "(if lg_sequence_num entry = 0 then Some GENESIS_HASH
      else map_option lg_current_hash (get_ledger_entry_by_sequence_num L (lg_sequence_num entry - 1))) = Some ?prev"
  proof (cases xs rule: rev_cases)
    case (snoc zs z)
    have "lg_sequence_num z = int (length zs)" using c by (simp add: L snoc chained_append)
    with find_by_seq [OF chained_distinct [OF c], of z] e(1) snoc show ?thesis
      by (simp add: get_ledger_entry_by_sequence_num_def L)
  qed (simp add: e(1))
  with e show "chain_linkage_verifiable (build_single_entry_proof H L entry)"
    "current_hash_matches (build_single_entry_proof H L entry) = Some True"
    "previous_hash_used (build_single_entry_proof H L entry) = Some (lg_previous_hash entry)"
    by (simp_all add: build_single_entry_proof_def Let_def del: of_nat_eq_0_iff split: if_splits)
qed

definition fair_scan :: "evidence_env \<Rightarrow> bool" where
  "fair_scan env \<longleftrightarrow> (\<forall>xs. set (ee_scan env xs) = set xs)"

lemma package_row:
  assumes "fair_scan env" "build_evidence_package env L db tx = Inr pkg"
  shows "rows_of_transaction L (transaction_id tx) = [ep_ledger_entry pkg]"
    "ep_ledger_proof pkg = build_single_entry_proof (sha (ee_texts env)) L (ep_ledger_entry pkg)" "ep_transaction pkg = tx"
proof -
  let ?rows = "rows_of_transaction L (transaction_id tx)"
  obtain entry where e: "get_ledger_entry_by_transaction_id (ee_scan env) L (transaction_id tx) = Some entry"
    using assms(2) by (cases "get_ledger_entry_by_transaction_id (ee_scan env) L (transaction_id tx)") (auto simp: build_evidence_package_def)
  then have "entry \<in> set (ee_scan env ?rows)" by (auto simp: get_ledger_entry_by_transaction_id_def split: list.splits)
  then have mem: "entry \<in> set ?rows" using assms(1) by (simp add: fair_scan_def)
  have b: "ep_ledger_entry pkg = entry" "ep_ledger_proof pkg = build_single_entry_proof (sha (ee_texts env)) L entry" "ep_transaction pkg = tx"
    "\<exists>c. clause_ref_of_transaction env L (transaction_id tx) = Inr c"
    using assms(2) e by (auto simp: build_evidence_package_def bind_res_eq_Inr Let_def)
  then have "?rows = [entry]" using mem by (auto simp: clause_ref_of_transaction_def split: list.splits)
  with b show "?rows = [ep_ledger_entry pkg]"
    "ep_ledger_proof pkg = build_single_entry_proof (sha (ee_texts env)) L (ep_ledger_entry pkg)" "ep_transaction pkg = tx" by simp_all
qed

lemma triggered:
  assumes "evaluate_and_trigger_grievance_escalation cfg env db uuid now entry tx L st = (st', Inr (Some r))"
  obtains pkg violations docs where "gv_enabled cfg"
    "is_systemic (check_systemic_failure L (lg_broker_id entry) (lg_rule_id entry) (gv_window_days cfg) (gv_threshold_count cfg) now)"
    "build_evidence_package env L db tx = Inr pkg" "to_evidence_documents env pkg = Inr docs"
    "file_draft cfg (draft_of cfg uuid now entry violations (escalation_text entry
       (check_systemic_failure L (lg_broker_id entry) (lg_rule_id entry) (gv_window_days cfg) (gv_threshold_count cfg) now) tx pkg violations) docs) st
     = (st', Inr r)"
  using assms by (auto simp: evaluate_and_trigger_grievance_escalation_def Let_def bind_res_eq_Inr split: if_splits sum.splits prod.splits)

lemma file_draft_request: "file_draft cfg r st = (st', Inr r') \<Longrightarrow> gr_request r' = gr_request r"
  by (auto simp: file_draft_def confirm_for_submission_def gv_require_def create_draft_def gv_save_def gv_get_def redis_simps Let_def
      split: if_splits prod.splits sum.splits option.splits)

text \<open>
  Claim C32. A grievance is drafted only on proof. When the trigger drafts one for a row
  of an honest ledger, the broker failed this rule at least the threshold's number
  of times in the window, the evidence is about this very row and this
  transaction, its chain proof verifies against the row's predecessor, and the
  complaint names the row's broker.
\<close>

theorem grievance_evidence_sound:
  assumes "evaluate_and_trigger_grievance_escalation cfg env db uuid now entry tx L st = (st', Inr (Some r))"
    and "ledger_reachable (sha (ee_texts env)) fr L" and "entry \<in> set L" and "lg_transaction_id entry = transaction_id tx" and "fair_scan env"
  shows "\<exists>pkg. build_evidence_package env L db tx = Inr pkg \<and> to_evidence_documents env pkg = Inr (rq_evidence (gr_request r))
    \<and> ep_ledger_entry pkg = entry \<and> ep_transaction pkg = tx \<and> chain_linkage_verifiable (ep_ledger_proof pkg)
    \<and> current_hash_matches (ep_ledger_proof pkg) = Some True \<and> rs_broker_id (rq_respondent (gr_request r)) = lg_broker_id entry
    \<and> gv_threshold_count cfg \<le> int (length (filter (failure_in_window (lg_broker_id entry) (lg_rule_id entry)
          (now - gv_window_days cfg * 86400000000) now) L))"
proof -
  from assms(1) obtain pkg violations docs where t: "gv_enabled cfg"
    "is_systemic (check_systemic_failure L (lg_broker_id entry) (lg_rule_id entry) (gv_window_days cfg) (gv_threshold_count cfg) now)"
    "build_evidence_package env L db tx = Inr pkg" "to_evidence_documents env pkg = Inr docs"
    "file_draft cfg (draft_of cfg uuid now entry violations (escalation_text entry
       (check_systemic_failure L (lg_broker_id entry) (lg_rule_id entry) (gv_window_days cfg) (gv_threshold_count cfg) now) tx pkg violations) docs) st
     = (st', Inr r)"
    by (rule triggered)
  note row = package_row [OF assms(5) t(3)]
  have "entry \<in> set (rows_of_transaction L (transaction_id tx))" using assms(3,4) by (simp add: rows_of_transaction_def)
  then have e: "ep_ledger_entry pkg = entry" using row(1) by simp
  have "rq_evidence (gr_request r) = docs" "rs_broker_id (rq_respondent (gr_request r)) = lg_broker_id entry"
    using file_draft_request [OF t(5)] by (simp_all add: draft_of_def)
  with t row e proof_holds [OF assms(2,3)] show ?thesis
    by (simp add: is_systemic_def check_systemic_failure_def Let_def)
qed

text \<open>
  A repeated violation is escalated only if its row is the first of its
  transaction. The ledger has one row per policy a transaction was checked
  against; the lookup of the clause asks for the one row of the transaction and
  raises when there are two. A failure logged after another row of the same
  transaction, or of an earlier transaction with the same id, never leads to a
  grievance, however often the rule was broken.
\<close>

theorem later_violation_never_escalated:
  assumes "r0 \<in> set (au_ledger au)" and "lg_transaction_id r0 = transaction_id tx" and "lg_transaction_id ev = transaction_id tx"
  shows "snd (log_event_escalating gcfg env cfg tx uuid now rowid ev (au, st)) = st"
proof (cases "append_entry (sha (ee_texts env)) (float_repr (ee_texts env)) rowid now ev (au_ledger au)")
  case (Pair L res)
  show ?thesis
  proof (cases res)
    case (Inr entry)
    with Pair have L: "L = au_ledger au @ [entry]" "lg_transaction_id entry = lg_transaction_id ev"
      by (auto simp: append_entry_def Let_def split: sum.splits)
    obtain a b c where "rows_of_transaction L (transaction_id tx) = a # b # c"
    proof -
      have "r0 \<in> set (rows_of_transaction (au_ledger au) (transaction_id tx))" using assms(1,2) by (simp add: rows_of_transaction_def)
      then obtain x xs where "rows_of_transaction (au_ledger au) (transaction_id tx) = x # xs"
        by (cases "rows_of_transaction (au_ledger au) (transaction_id tx)") auto
      then have "rows_of_transaction L (transaction_id tx) = x # xs @ [entry]" using L assms(3) by (simp add: rows_of_transaction_def)
      then show thesis by (cases xs) (auto intro: that)
    qed
    then have "clause_ref_of_transaction env L (transaction_id tx) = raise MultipleResultsFound" by (simp add: clause_ref_of_transaction_def)
    then have "\<exists>e. build_evidence_package env L None tx = Inl e" by (simp add: build_evidence_package_def split: option.split)
    then have "fst (evaluate_and_trigger_grievance_escalation gcfg env None uuid now entry tx L st) = st"
      by (auto simp: evaluate_and_trigger_grievance_escalation_def Let_def)
    with Pair Inr show ?thesis by (simp add: log_event_escalating_def trigger_grievance_escalation_def Let_def)
  qed (use Pair in \<open>simp add: log_event_escalating_def Let_def\<close>)
qed

section \<open>When one is drafted\<close>

lemma dumps_able:
  "json_able (PDict (tx_facts tx)) \<Longrightarrow> json_able (PDict (tx_metadata tx)) \<Longrightarrow> json_able (transaction_dump f tx)"
  "json_able (PDict (lg_details r)) \<Longrightarrow> json_able (entry_dump f r)" "json_able (proof_dump pkg)" "json_able (clause_dump pkg)"
  by (simp_all add: transaction_dump_def entry_dump_def proof_dump_def clause_dump_def Let_def split: option.split)

lemma document_ok: "json_able (snd d) \<Longrightarrow> \<exists>x. document env d = Inr x"
  using dumps_ok [of "snd d" "float_repr env"] by (auto simp: document_def)

lemma documents_ok:
  assumes "json_able (PDict (tx_facts (ep_transaction pkg)))" "json_able (PDict (tx_metadata (ep_transaction pkg)))"
    "json_able (PDict (lg_details (ep_ledger_entry pkg)))"
  shows "\<exists>docs. to_evidence_documents env pkg = Inr docs"
proof -
  have "\<exists>x. document (ee_texts env) (l, v) = Inr x" if "json_able v" for l v using document_ok [of "(l, v)"] that by simp
  from this [OF dumps_able(1) [OF assms(1,2)]] this [OF dumps_able(2) [OF assms(3)]] this [OF dumps_able(3)] this [OF dumps_able(4)]
  show ?thesis unfolding to_evidence_documents_def by (simp add: bind_res_ex_Inr)
qed

text \<open>
  A repeated violation whose row is the only one of its transaction is
  drafted, under the fresh id, and waits for an officer unless submission is automatic.
\<close>

theorem repeated_failure_drafted:
  assumes "gv_enabled cfg" and "rows_of_transaction L (transaction_id tx) = [entry]" and "fair_scan env"
    and "gv_threshold_count cfg \<le> sf_failure_count (check_systemic_failure L (lg_broker_id entry) (lg_rule_id entry)
      (gv_window_days cfg) (gv_threshold_count cfg) now)"
    and "json_able (PDict (tx_facts tx))" and "json_able (PDict (tx_metadata tx))" and "json_able (PDict (lg_details entry))"
    and "entry_violations entry = Inr vs" and "gq_inv (gv_prefix cfg) (gv_queue st)" and "gv_get (gv_prefix cfg) uuid (gv_queue st) = None"
  shows "\<exists>st' r. evaluate_and_trigger_grievance_escalation cfg env db uuid now entry tx L st = (st', Inr (Some r))
    \<and> grievance_id r = uuid \<and> gr_status r = (if gv_auto_submit cfg then GS_PENDING_SUBMISSION else GS_DRAFTED)
    \<and> response_due_at r = now + gv_sla_days cfg * 86400000000"
proof -
  let ?c = "check_systemic_failure L (lg_broker_id entry) (lg_rule_id entry) (gv_window_days cfg) (gv_threshold_count cfg) now"
  have "set (ee_scan env [entry]) = {entry}" using assms(3) by (simp add: fair_scan_def)
  then have "get_ledger_entry_by_transaction_id (ee_scan env) L (transaction_id tx) = Some entry"
    using assms(2) by (cases "ee_scan env [entry]") (auto simp: get_ledger_entry_by_transaction_id_def)
  then obtain pkg where pkg: "build_evidence_package env L db tx = Inr pkg" "ep_ledger_entry pkg = entry" "ep_transaction pkg = tx"
    using assms(2) by (simp add: build_evidence_package_def clause_ref_of_transaction_def Let_def)
  obtain docs where docs: "to_evidence_documents env pkg = Inr docs" using documents_ok [of pkg env] pkg assms(5-7) by auto
  let ?r = "draft_of cfg uuid now entry vs (escalation_text entry ?c tx pkg vs) docs"
  have r: "grievance_id ?r = uuid" "gr_status ?r = GS_DRAFTED" "response_due_at ?r = now + gv_sla_days cfg * 86400000000"
    by (simp_all add: draft_of_def)
  have "snd (file_draft cfg ?r st) = Inr (if gv_auto_submit cfg then ?r\<lparr>gr_status := GS_PENDING_SUBMISSION\<rparr> else ?r)"
    using file_draft_cases(5) [of cfg st ?r] assms(9,10) r by simp
  moreover have "is_systemic ?c" using assms(4) by (simp add: is_systemic_def check_systemic_failure_def Let_def)
  ultimately show ?thesis using assms(1,8) pkg docs r
    by (cases "file_draft cfg ?r st") (auto simp: evaluate_and_trigger_grievance_escalation_def Let_def)
qed

definition demo_failure :: ComplianceEvaluationEvent where
  "demo_failure = (demo_ledger_event 5)\<lparr>lg_transaction_id := ''t1'', lg_evaluation_result := FAIL\<rparr>"

definition demo_env :: evidence_env where
  "demo_env = \<lparr>ee_texts = demo_texts, ee_scan = (\<lambda>xs. xs), ee_clause_ref = (\<lambda>_. None), ee_dump_dt = isoformat\<rparr>"

definition demo_failed :: ledger where
  "demo_failed = fst (append_entry toy_hash ratio_repr 1 5 demo_failure [])"

lemma demo_failed_row:
  "\<exists>entry. demo_failed = [entry] \<and> lg_transaction_id entry = ''t1'' \<and> lg_details entry = [] \<and> lg_evaluation_result entry = FAIL
     \<and> lg_evaluated_at entry = 5 \<and> lg_broker_id entry = ''b'' \<and> lg_rule_id entry = ''r''"
proof -
  obtain s where "json_dumps_canonical ratio_repr (payload_fields demo_failure) = Inr s"
    using dumps_ok [of "payload_fields demo_failure" ratio_repr] by (auto simp: payload_fields_def demo_failure_def demo_ledger_event_def)
  then show ?thesis
    by (simp add: demo_failed_def append_entry_def Let_def last_entry_def compute_payload_digest_def canonical_payload_def)
       (simp add: demo_failure_def demo_ledger_event_def)
qed

theorem grievance_evidence_sound_witness:
  "\<exists>pkg entry. demo_failed = [entry] \<and> build_evidence_package demo_env demo_failed None demo_tx = Inr pkg \<and> ep_ledger_entry pkg = entry
     \<and> current_hash_matches (ep_ledger_proof pkg) = Some True"
proof -
  let ?cfg = "demo_gv_settings\<lparr>gv_threshold_count := 1\<rparr>"
  obtain entry where e: "demo_failed = [entry]" "lg_transaction_id entry = ''t1''" "lg_details entry = []" "lg_evaluation_result entry = FAIL"
    "lg_evaluated_at entry = 5" "lg_broker_id entry = ''b''" "lg_rule_id entry = ''r''" using demo_failed_row by blast
  have t: "transaction_id demo_tx = ''t1''" "tx_facts demo_tx = []" "tx_metadata demo_tx = []" by (simp_all add: demo_tx_def)
  have fair: "fair_scan demo_env" by (simp add: fair_scan_def demo_env_def)
  have reach: "ledger_reachable (sha (ee_texts demo_env)) ratio_repr demo_failed"
    unfolding demo_failed_def demo_env_def demo_texts_def by (simp add: ledger_reachable.intros)
  have "\<exists>st' r. evaluate_and_trigger_grievance_escalation ?cfg demo_env None ''g9'' 5 entry demo_tx demo_failed no_grievances = (st', Inr (Some r))
      \<and> grievance_id r = ''g9'' \<and> gr_status r = (if gv_auto_submit ?cfg then GS_PENDING_SUBMISSION else GS_DRAFTED)
      \<and> response_due_at r = 5 + gv_sla_days ?cfg * 86400000000"
  proof (rule repeated_failure_drafted)
    show "gq_inv (gv_prefix ?cfg) (gv_queue no_grievances)" using gv_inv_empty [of ?cfg "{}"] by (rule gv_inv_queue)
  qed (simp_all add: e t fair rows_of_transaction_def check_systemic_failure_def failure_in_window_def entry_violations_def
      demo_gv_settings_def no_grievances_def gv_get_def redis_empty_def redis_defs)
  then obtain st' r where run: "evaluate_and_trigger_grievance_escalation ?cfg demo_env None ''g9'' 5 entry demo_tx demo_failed no_grievances = (st', Inr (Some r))"
    by blast
  have m: "entry \<in> set demo_failed" "lg_transaction_id entry = transaction_id demo_tx" unfolding e(1,2) t(1) by simp_all
  from grievance_evidence_sound [OF run reach m fair] obtain pkg where
    "build_evidence_package demo_env demo_failed None demo_tx = Inr pkg" "ep_ledger_entry pkg = entry"
    "current_hash_matches (ep_ledger_proof pkg) = Some True" by (elim exE conjE)
  with e(1) show ?thesis by (intro exI conjI)
qed

text \<open>The second policy of the same transaction: a row is there, nothing is drafted.\<close>

theorem later_violation_never_escalated_witness:
  "snd (log_event_escalating (demo_gv_settings\<lparr>gv_threshold_count := 1\<rparr>) demo_env (demo_settings\<lparr>grievance_escalation_enabled := True\<rparr>)
     demo_tx ''g9'' 5 2 (demo_failure\<lparr>lg_rule_id := ''r2''\<rparr>) (demo_audit\<lparr>au_ledger := demo_failed\<rparr>, no_grievances)) = no_grievances"
proof -
  obtain entry where e: "demo_failed = [entry]" "lg_transaction_id entry = ''t1''" using demo_failed_row by blast
  show ?thesis by (rule later_violation_never_escalated [of entry]) (simp_all add: e demo_tx_def demo_failure_def)
qed

end
