(* ===== verification/Filing_Queue.thy ===== *)
theory Filing_Queue
  imports Incident_Escalation Retry_Policy
begin

text \<open>
  Submitting a signed filing to SEBI or an exchange, \<open>app/regulatory_filing\<close>: the
  record and the Redis queue, the two channels (\<open>submission.py\<close>) and the Celery
  worker with its sweep (\<open>tasks.py\<close>). The SSH connection and the HTTP request are
  arguments: the exception they raise, or what the destination does. The payload
  and the signature are carried as the strings the record holds; building and
  signing a filing are left out. Instants are microseconds; the incident store
  counts in seconds.
\<close>

section \<open>Data\<close>

datatype FilingType = FT_COMPLIANCE_LOG | FT_DAILY_COLLATERAL

datatype FilingTarget = TG_SEBI | TG_NSE | TG_BSE | TG_NSDL | TG_CDSL

datatype SubmissionChannel = CH_SFTP | CH_PORTAL_API

datatype FilingStatus = FS_PENDING | FS_SUBMITTING | FS_ACKNOWLEDGED | FS_FAILED

fun filing_type_value :: "FilingType \<Rightarrow> string" where
  "filing_type_value FT_COMPLIANCE_LOG = ''compliance_log''"
| "filing_type_value FT_DAILY_COLLATERAL = ''daily_collateral''"

fun target_value :: "FilingTarget \<Rightarrow> string" where
  "target_value TG_SEBI = ''SEBI''"
| "target_value TG_NSE = ''NSE''"
| "target_value TG_BSE = ''BSE''"
| "target_value TG_NSDL = ''NSDL''"
| "target_value TG_CDSL = ''CDSL''"

fun channel_value :: "SubmissionChannel \<Rightarrow> string" where
  "channel_value CH_SFTP = ''sftp''"
| "channel_value CH_PORTAL_API = ''portal_api''"

record FilingAcknowledgment =
  acknowledgment_reference :: string
  raw_detail :: "string option"

record FilingSubmissionRecord =
  filing_id :: string
  fl_type :: FilingType
  fl_target :: FilingTarget
  fl_channel :: SubmissionChannel
  fl_filename :: string
  fl_payload_b64 :: string
  fl_content_type :: string
  fl_signature :: string
  fl_status :: FilingStatus
  fl_attempt_count :: nat
  fl_max_retries :: int
  fl_last_error :: "string option"
  fl_submitted_at :: "time option"
  acknowledgment :: "FilingAcknowledgment option"
  fl_created_at :: time

section \<open>The queue\<close>

type_synonym filing_queue = "FilingSubmissionRecord redis"

definition filing_key :: "string \<Rightarrow> string \<Rightarrow> string" where
  "filing_key p i = p @ '':filing:'' @ i"

definition filing_pending_key :: "string \<Rightarrow> string" where
  "filing_pending_key p = p @ '':pending''"

definition fl_enqueue :: "string \<Rightarrow> FilingSubmissionRecord \<Rightarrow> filing_queue \<Rightarrow> filing_queue" where
  "fl_enqueue p r q = r_sadd (filing_pending_key p) (filing_id r) (r_put (filing_key p (filing_id r)) r q)"

definition fl_get :: "string \<Rightarrow> string \<Rightarrow> filing_queue \<Rightarrow> FilingSubmissionRecord option" where
  "fl_get p i q = r_get q (filing_key p i)"

definition fl_list_pending :: "(string set \<Rightarrow> string list) \<Rightarrow> string \<Rightarrow> filing_queue \<Rightarrow> FilingSubmissionRecord list" where
  "fl_list_pending enum p q =
     sort_key fl_created_at (List.map_filter (\<lambda>i. fl_get p i q) (enum (r_smembers q (filing_pending_key p))))"

text \<open>The shape of the four marks: read or raise, write the changed copy, and maybe leave the pending set.\<close>

definition fl_mark ::
  "string \<Rightarrow> string \<Rightarrow> (FilingSubmissionRecord \<Rightarrow> FilingSubmissionRecord) \<Rightarrow> bool \<Rightarrow> filing_queue
   \<Rightarrow> filing_queue \<times> FilingSubmissionRecord result" where
  "fl_mark p i f leave q =
     (case fl_get p i q of
        None \<Rightarrow> (q, raise (KeyError (''No filing '' @ [CHR 0x27] @ i @ [CHR 0x27] @ '' in the queue.'')))
      | Some r \<Rightarrow>
          let updated = f r;
              q = r_put (filing_key p (filing_id updated)) updated q
          in (if leave then r_srem (filing_pending_key p) i q else q, Inr updated))"

definition fl_mark_submitting :: "string \<Rightarrow> string \<Rightarrow> filing_queue \<Rightarrow> filing_queue \<times> FilingSubmissionRecord result" where
  "fl_mark_submitting p i =
     fl_mark p i (\<lambda>r. r\<lparr>fl_status := FS_SUBMITTING, fl_attempt_count := fl_attempt_count r + 1\<rparr>) False"

definition fl_mark_acknowledged ::
  "string \<Rightarrow> string \<Rightarrow> FilingAcknowledgment \<Rightarrow> time \<Rightarrow> filing_queue \<Rightarrow> filing_queue \<times> FilingSubmissionRecord result" where
  "fl_mark_acknowledged p i ack now =
     fl_mark p i (\<lambda>r. r\<lparr>fl_status := FS_ACKNOWLEDGED, fl_submitted_at := Some now, acknowledgment := Some ack, fl_last_error := None\<rparr>) True"

definition fl_mark_retry :: "string \<Rightarrow> string \<Rightarrow> string \<Rightarrow> filing_queue \<Rightarrow> filing_queue \<times> FilingSubmissionRecord result" where
  "fl_mark_retry p i err = fl_mark p i (\<lambda>r. r\<lparr>fl_status := FS_PENDING, fl_last_error := Some err\<rparr>) False"

definition fl_mark_failed :: "string \<Rightarrow> string \<Rightarrow> string \<Rightarrow> filing_queue \<Rightarrow> filing_queue \<times> FilingSubmissionRecord result" where
  "fl_mark_failed p i err = fl_mark p i (\<lambda>r. r\<lparr>fl_status := FS_FAILED, fl_last_error := Some err\<rparr>) True"

section \<open>SFTP\<close>

record filing_settings =
  fl_enabled :: bool
  fl_prefix :: string
  fl_incident_prefix :: string
  sftp_host :: "string option"
  sftp_username :: "string option"
  sftp_known_host_key :: "string option"
  sftp_private_key :: "string option"
  sftp_password :: "string option"
  sftp_remote_dir :: string
  portal_base_url :: "string option"

datatype host_key_policy = REJECT_UNKNOWN string string | AUTO_ADD

datatype sftp_credentials = PRIVATE_KEY string | PASSWORD string

text \<open>Python's \<open>str.split()\<close>.\<close>

fun split_ws_from :: "string \<Rightarrow> string \<Rightarrow> string list" where
  "split_ws_from acc [] = (if acc = [] then [] else [rev acc])"
| "split_ws_from acc (c # cs) =
     (if is_space c then (if acc = [] then split_ws_from [] cs else rev acc # split_ws_from [] cs)
      else split_ws_from (c # acc) cs)"

definition host_key_types :: "string list" where
  "host_key_types = [''ssh-rsa'', ''ssh-ed25519'', ''ecdsa-sha2-nistp256'']"

definition sftp_host_keys :: "filing_settings \<Rightarrow> raised + host_key_policy" where
  "sftp_host_keys cfg =
     (if truthy_str (sftp_known_host_key cfg) then
        (case split_ws_from [] (the (sftp_known_host_key cfg)) of
           hostname # key_type # key # _ \<Rightarrow>
             if key_type \<in> set host_key_types then Inr (REJECT_UNKNOWN hostname key)
             else Inl (raise_new EC_SubmissionError (''Unsupported host key type in regulatory_filing_sftp_known_host_key: '' @ [CHR 0x27] @ key_type @ [CHR 0x27] @ ''.''))
         | _ \<Rightarrow> Inl (raise_new EC_SubmissionError (''regulatory_filing_sftp_known_host_key must be a full '' @ [CHR 0x27] @ ''hostname key-type base64-key'' @ [CHR 0x27] @ '' known_hosts line.'')))
      else Inr AUTO_ADD)"

text \<open>What \<open>_connect\<close> hands to the SSH client: the policy for host keys and the credentials.\<close>

definition sftp_connect :: "filing_settings \<Rightarrow> raised + host_key_policy \<times> sftp_credentials" where
  "sftp_connect cfg =
     (if \<not> truthy_str (sftp_host cfg) \<or> \<not> truthy_str (sftp_username cfg)
      then Inl (raise_new EC_SubmissionError ''regulatory_filing_sftp_host/username are not configured.'')
      else bind_res (sftp_host_keys cfg) (\<lambda>policy.
        if truthy_str (sftp_private_key cfg) then Inr (policy, PRIVATE_KEY (the (sftp_private_key cfg)))
        else if truthy_str (sftp_password cfg) then Inr (policy, PASSWORD (the (sftp_password cfg)))
        else Inl (raise_new EC_SubmissionError ''Neither regulatory_filing_sftp_private_key_pem nor regulatory_filing_sftp_password is configured.'')))"

text \<open>
  The wait for the receipt: \<open>receipt t\<close> is the text of the \<open>.ack\<close> file when it is
  there \<open>t\<close> microseconds after the upload. The clock advances by the pause only.
\<close>

definition ack_poll_timeout :: int where
  "ack_poll_timeout = 30000000"

definition ack_poll_interval :: int where
  "ack_poll_interval = 1000000"

function ack_poll :: "(int \<Rightarrow> string option) \<Rightarrow> int \<Rightarrow> string option" where
  "ack_poll receipt t =
     (if t < ack_poll_timeout
      then (case receipt t of Some s \<Rightarrow> Some s | None \<Rightarrow> ack_poll receipt (t + ack_poll_interval))
      else None)"
  by pat_completeness auto

termination
  by (relation "measure (\<lambda>(_, t). nat (ack_poll_timeout - t))") (simp_all add: ack_poll_timeout_def ack_poll_interval_def)

declare ack_poll.simps [simp del]

datatype sftp_wire = WIRE_RAISED raised | WIRE_UPLOADED "int \<Rightarrow> string option"

definition sftp_submit :: "filing_settings \<Rightarrow> sftp_wire \<Rightarrow> FilingSubmissionRecord \<Rightarrow> raised + FilingAcknowledgment" where
  "sftp_submit cfg wire r =
     bind_res (sftp_connect cfg) (\<lambda>_.
       let ack_path = rev (dropWhile (\<lambda>c. c = CHR ''/'') (rev (sftp_remote_dir cfg))) @ ''/'' @ fl_filename r @ ''.ack'' in
       case wire of
         WIRE_RAISED x \<Rightarrow> Inl x
       | WIRE_UPLOADED receipt \<Rightarrow>
           (case ack_poll receipt 0 of
              Some s \<Rightarrow>
                let ack_content = py_strip is_space s
                in Inr \<lparr>acknowledgment_reference = (if ack_content = [] then ack_path else ack_content),
                        raw_detail = Some (''receipt file '' @ ack_path)\<rparr>
            | None \<Rightarrow> Inl (raise_new EC_SubmissionError (''No acknowledgment receipt ('' @ ack_path @ '') appeared within 30.0s of upload.''))))"

section \<open>The portal\<close>

text \<open>\<open>iso_ok\<close> tells which values \<open>datetime.fromisoformat\<close> accepts.\<close>

definition portal_submit ::
  "(pyval \<Rightarrow> bool) \<Rightarrow> filing_settings \<Rightarrow> http_reply \<Rightarrow> FilingSubmissionRecord \<Rightarrow> raised + FilingAcknowledgment" where
  "portal_submit iso_ok cfg reply r =
     (if \<not> truthy_str (portal_base_url cfg)
      then Inl (raise_new EC_SubmissionError ''regulatory_filing_portal_api_base_url is not configured.'')
      else
        bind_res (http_call EC_SubmissionError ''Portal API request failed'' (''Portal API rejected filing '' @ filing_id r) reply) (\<lambda>body.
        bind_res (body_item ''acknowledgment_reference'' body) (\<lambda>ref.
        if \<not> (case map_of (case body of PDict d \<Rightarrow> d | _ \<Rightarrow> []) ''acknowledged_at'' of None \<Rightarrow> True | Some v \<Rightarrow> iso_ok v)
        then Inl (raise_new EC_ValueError ''Invalid isoformat string'')
        else bind_res (model_str ref) (\<lambda>ref.
          Inr \<lparr>acknowledgment_reference = ref,
               raw_detail = Some (case reply of HTTP_RESPONSE _ text _ \<Rightarrow> text | HTTP_RAISED _ \<Rightarrow> [])\<rparr>))))"

text \<open>\<open>get_submitter\<close> and its \<open>submit\<close>: the record's channel chooses; the other half of the pair is unused.\<close>

definition submit_filing ::
  "(pyval \<Rightarrow> bool) \<Rightarrow> filing_settings \<Rightarrow> sftp_wire \<times> http_reply \<Rightarrow> FilingSubmissionRecord \<Rightarrow> raised + FilingAcknowledgment" where
  "submit_filing iso_ok cfg dest r =
     (case fl_channel r of
        CH_SFTP \<Rightarrow> sftp_submit cfg (fst dest) r
      | CH_PORTAL_API \<Rightarrow> portal_submit iso_ok cfg (snd dest) r)"

section \<open>Tasks\<close>

record filing_state =
  fl_queue :: filing_queue
  fl_tasks :: "string list"
  fl_flight :: "FilingSubmissionRecord list"
  fl_incidents :: incident_state

definition fl_start :: "string \<Rightarrow> string \<Rightarrow> filing_queue \<Rightarrow> filing_queue \<times> FilingSubmissionRecord option result" where
  "fl_start p i q =
     (case fl_get p i q of
        None \<Rightarrow> (q, Inr None)
      | Some r \<Rightarrow>
          if fl_status r = FS_ACKNOWLEDGED then (q, Inr None)
          else (case fl_mark_submitting p i q of (q', Inl e) \<Rightarrow> (q', raise e) | (q', Inr r') \<Rightarrow> (q', Inr (Some r'))))"

definition fl_error_text :: "raised \<Rightarrow> string" where
  "fl_error_text exc = class_name (rx_class exc) @ '': '' @ rx_text exc"

definition fl_exhausted :: "raised \<Rightarrow> FilingSubmissionRecord \<Rightarrow> bool" where
  "fl_exhausted exc r \<longleftrightarrow> int (fl_attempt_count r) \<ge> fl_max_retries r \<or> \<not> is_transient exc"

definition fl_failure_event :: "raised \<Rightarrow> FilingSubmissionRecord \<Rightarrow> string \<Rightarrow> time \<Rightarrow> BreachEvent" where
  "fl_failure_event exc r uuid now =
     filing_submission_failed_event (filing_id r) (filing_type_value (fl_type r))
       (channel_value (fl_channel r) @ '':'' @ target_value (fl_target r)) (fl_attempt_count r) (fl_error_text exc) uuid now"

definition fl_failed :: "filing_settings \<Rightarrow> raised \<Rightarrow> string \<Rightarrow> time \<Rightarrow> FilingSubmissionRecord \<Rightarrow> filing_state \<Rightarrow> filing_state \<times> unit result" where
  "fl_failed cfg exc uuid now r st =
     (if fl_exhausted exc r then
        (case fl_mark_failed (fl_prefix cfg) (filing_id r) (fl_error_text exc) (fl_queue st) of
           (q, Inl e) \<Rightarrow> (st\<lparr>fl_queue := q\<rparr>, raise e)
         | (q, Inr _) \<Rightarrow>
             (st\<lparr>fl_queue := q,
                fl_incidents := raise_breach_event (fl_incident_prefix cfg) (now div 1000000)
                  (fl_failure_event exc r uuid (now div 1000000)) (fl_incidents st)\<rparr>, Inr ()))
      else
        (case fl_mark_retry (fl_prefix cfg) (filing_id r) (fl_error_text exc) (fl_queue st) of
           (q, Inl e) \<Rightarrow> (st\<lparr>fl_queue := q\<rparr>, raise e)
         | (q, Inr _) \<Rightarrow> (st\<lparr>fl_queue := q\<rparr>, Inr ())))"

definition fl_finish ::
  "filing_settings \<Rightarrow> raised + FilingAcknowledgment \<Rightarrow> string \<Rightarrow> time \<Rightarrow> FilingSubmissionRecord \<Rightarrow> filing_state \<Rightarrow> filing_state \<times> unit result" where
  "fl_finish cfg outcome uuid now r st =
     (case outcome of
        Inl exc \<Rightarrow> fl_failed cfg exc uuid now r st
      | Inr ack \<Rightarrow>
          (case fl_mark_acknowledged (fl_prefix cfg) (filing_id r) ack now (fl_queue st) of
             (q, Inl e) \<Rightarrow> (st\<lparr>fl_queue := q\<rparr>, raise e)
           | (q, Inr _) \<Rightarrow> (st\<lparr>fl_queue := q\<rparr>, Inr ())))"

definition fl_submit_one ::
  "(pyval \<Rightarrow> bool) \<Rightarrow> filing_settings \<Rightarrow> sftp_wire \<times> http_reply \<Rightarrow> string \<Rightarrow> time \<Rightarrow> string \<Rightarrow> filing_state \<Rightarrow> filing_state \<times> unit result" where
  "fl_submit_one iso_ok cfg dest uuid now i st =
     (case fl_start (fl_prefix cfg) i (fl_queue st) of
        (q, Inl e) \<Rightarrow> (st\<lparr>fl_queue := q\<rparr>, raise e)
      | (q, Inr None) \<Rightarrow> (st\<lparr>fl_queue := q\<rparr>, Inr ())
      | (q, Inr (Some r)) \<Rightarrow> fl_finish cfg (submit_filing iso_ok cfg dest r) uuid now r (st\<lparr>fl_queue := q\<rparr>))"

definition submit_filing_task ::
  "(pyval \<Rightarrow> bool) \<Rightarrow> filing_settings \<Rightarrow> sftp_wire \<times> http_reply \<Rightarrow> string \<Rightarrow> time \<Rightarrow> string \<Rightarrow> filing_state \<Rightarrow> filing_state \<times> unit result" where
  "submit_filing_task iso_ok cfg dest uuid now i st =
     (if \<not> fl_enabled cfg then (st, Inr ()) else fl_submit_one iso_ok cfg dest uuid now i st)"

definition fl_sweep_pending :: "(string set \<Rightarrow> string list) \<Rightarrow> string \<Rightarrow> filing_queue \<Rightarrow> string list" where
  "fl_sweep_pending enum p q = map filing_id (filter (\<lambda>r. fl_status r = FS_PENDING) (fl_list_pending enum p q))"

definition submit_pending_filings_task :: "(string set \<Rightarrow> string list) \<Rightarrow> filing_settings \<Rightarrow> filing_state \<Rightarrow> filing_state \<times> nat" where
  "submit_pending_filings_task enum cfg st =
     (if \<not> fl_enabled cfg then (st, 0)
      else let filing_ids = fl_sweep_pending enum (fl_prefix cfg) (fl_queue st)
           in (st\<lparr>fl_tasks := fl_tasks st @ filing_ids\<rparr>, length filing_ids))"

section \<open>The queue as a table and a set\<close>

lemma filing_key_inject [simp]: "filing_key p i = filing_key p j \<longleftrightarrow> i = j"
  by (simp add: filing_key_def)

abbreviation fl_pending :: "string \<Rightarrow> filing_queue \<Rightarrow> string set" where
  "fl_pending p q \<equiv> r_smembers q (filing_pending_key p)"

definition fq_ok :: "string \<Rightarrow> filing_queue \<Rightarrow> bool" where
  "fq_ok p q \<longleftrightarrow> (\<forall>i r. fl_get p i q = Some r \<longrightarrow> filing_id r = i)"

lemma fq_okD: "fq_ok p q \<Longrightarrow> fl_get p i q = Some r \<Longrightarrow> filing_id r = i"
  by (simp add: fq_ok_def)

lemma fl_get_put [simp]:
  "fl_get p j (r_put (filing_key p i) r q) = (if j = i then Some r else fl_get p j q)"
  "fl_get p j (r_sadd k x q) = fl_get p j q" "fl_get p j (r_srem k x q) = fl_get p j q"
  by (simp_all add: fl_get_def redis_simps)

lemma fq_ok_put: "fq_ok p q \<Longrightarrow> filing_id r = i \<Longrightarrow> fq_ok p (r_put (filing_key p i) r q)"
  by (simp add: fq_ok_def)

lemma fq_ok_sets [simp]: "fq_ok p (r_sadd k x q) = fq_ok p q" "fq_ok p (r_srem k x q) = fq_ok p q"
  by (simp_all add: fq_ok_def)

lemma fl_mark_some:
  assumes "fq_ok p q" "fl_get p i q = Some r" "filing_id (f r) = filing_id r"
  shows "fl_mark p i f leave q =
    (let q' = r_put (filing_key p i) (f r) q in if leave then r_srem (filing_pending_key p) i q' else q', Inr (f r))"
  using assms by (simp add: fl_mark_def Let_def fq_okD)

lemmas fl_mark_defs = fl_mark_submitting_def fl_mark_acknowledged_def fl_mark_retry_def fl_mark_failed_def

definition fl_in_flight :: "nat \<Rightarrow> FilingSubmissionRecord \<Rightarrow> FilingSubmissionRecord" where
  "fl_in_flight n r = r\<lparr>fl_status := FS_SUBMITTING, fl_attempt_count := fl_attempt_count r + n\<rparr>"

lemma fl_in_flight_simps [simp]:
  "filing_id (fl_in_flight n r) = filing_id r" "fl_status (fl_in_flight n r) = FS_SUBMITTING"
  "fl_attempt_count (fl_in_flight n r) = fl_attempt_count r + n" "fl_max_retries (fl_in_flight n r) = fl_max_retries r"
  "fl_channel (fl_in_flight n r) = fl_channel r" "fl_filename (fl_in_flight n r) = fl_filename r"
  by (simp_all add: fl_in_flight_def)

lemma fl_in_flight_add: "fl_in_flight m (fl_in_flight n r) = fl_in_flight (n + m) r"
  by (simp add: fl_in_flight_def add.assoc)

lemma fl_start_some:
  assumes "fq_ok p q" "fl_get p i q = Some r" "fl_status r \<noteq> FS_ACKNOWLEDGED"
  shows "fl_start p i q = (r_put (filing_key p i) (fl_in_flight 1 r) q, Inr (Some (fl_in_flight 1 r)))"
  using assms by (simp add: fl_start_def fl_mark_submitting_def fl_mark_some Let_def fl_in_flight_def)

text \<open>What the end of an attempt does to the record and the pending set.\<close>

lemma fl_finish_queue:
  assumes "fq_ok (fl_prefix cfg) (fl_queue st)" "fl_get (fl_prefix cfg) (filing_id r) (fl_queue st) = Some r0"
  shows "fl_queue (fst (fl_finish cfg outcome uuid now r st)) =
    (case outcome of
       Inr ack \<Rightarrow> r_srem (filing_pending_key (fl_prefix cfg)) (filing_id r) (r_put (filing_key (fl_prefix cfg) (filing_id r))
         (r0\<lparr>fl_status := FS_ACKNOWLEDGED, fl_submitted_at := Some now, acknowledgment := Some ack, fl_last_error := None\<rparr>) (fl_queue st))
     | Inl exc \<Rightarrow>
         if fl_exhausted exc r
         then r_srem (filing_pending_key (fl_prefix cfg)) (filing_id r) (r_put (filing_key (fl_prefix cfg) (filing_id r))
           (r0\<lparr>fl_status := FS_FAILED, fl_last_error := Some (fl_error_text exc)\<rparr>) (fl_queue st))
         else r_put (filing_key (fl_prefix cfg) (filing_id r))
           (r0\<lparr>fl_status := FS_PENDING, fl_last_error := Some (fl_error_text exc)\<rparr>) (fl_queue st))"
  using assms by (simp add: fl_finish_def fl_failed_def fl_mark_defs fl_mark_some Let_def split: sum.split)

section \<open>The retry budget of a filing\<close>

definition fl_fail_attempt :: "filing_settings \<Rightarrow> raised \<Rightarrow> string \<Rightarrow> filing_state \<Rightarrow> filing_state" where
  "fl_fail_attempt cfg exc i st =
     (case fl_start (fl_prefix cfg) i (fl_queue st) of
        (q, Inr (Some r)) \<Rightarrow> fst (fl_finish cfg (Inl exc) [] 0 r (st\<lparr>fl_queue := q\<rparr>))
      | (q, _) \<Rightarrow> st\<lparr>fl_queue := q\<rparr>)"

definition fl_doc :: "filing_settings \<Rightarrow> filing_state \<Rightarrow> string \<Rightarrow> FilingSubmissionRecord option" where
  "fl_doc cfg st i = (if fq_ok (fl_prefix cfg) (fl_queue st) then fl_get (fl_prefix cfg) i (fl_queue st) else None)"

lemma fl_doc_fail:
  assumes "fl_doc cfg st i = Some r" "fl_status r = FS_PENDING"
  shows "fl_doc cfg (fl_fail_attempt cfg exc i st) i = Some ((fl_in_flight 1 r)\<lparr>
    fl_status := if is_transient exc \<and> int (fl_attempt_count r) + 1 < fl_max_retries r then FS_PENDING else FS_FAILED,
    fl_last_error := Some (fl_error_text exc)\<rparr>)"
proof -
  let ?p = "fl_prefix cfg"
  have ok: "fq_ok ?p (fl_queue st)" "fl_get ?p i (fl_queue st) = Some r" "filing_id r = i"
    using assms by (auto simp: fl_doc_def fq_ok_def split: if_splits)
  let ?st = "st\<lparr>fl_queue := r_put (filing_key ?p i) (fl_in_flight 1 r) (fl_queue st)\<rparr>"
  have "fl_fail_attempt cfg exc i st = fst (fl_finish cfg (Inl exc) [] 0 (fl_in_flight 1 r) ?st)"
    using fl_start_some [OF ok(1,2)] assms(2) by (simp add: fl_fail_attempt_def)
  moreover have "fq_ok ?p (fl_queue ?st)" "fl_get ?p (filing_id (fl_in_flight 1 r)) (fl_queue ?st) = Some (fl_in_flight 1 r)"
    using ok by (simp_all add: fq_ok_put)
  ultimately show ?thesis using ok fl_finish_queue [of cfg ?st "fl_in_flight 1 r" "fl_in_flight 1 r" "Inl exc" "[]" 0]
    by (auto simp: fl_doc_def fq_ok_put fl_exhausted_def)
qed

interpretation fl_retry: retry_queue "fl_doc cfg" "\<lambda>r. fl_status r = FS_PENDING" "\<lambda>r. fl_status r = FS_FAILED"
  "\<lambda>r. int (fl_attempt_count r)" fl_max_retries "fl_fail_attempt cfg" for cfg
  by unfold_locales (simp_all add: fl_doc_fail)

text \<open>While the destination cannot be reached, a filing is given up after its budget, not before.\<close>

theorem filing_retry_budget:
  assumes "fl_doc cfg st i = Some r" "fl_status r = FS_PENDING" "is_transient exc"
  shows "\<exists>r'. fl_doc cfg ((fl_fail_attempt cfg exc i ^^ nat (max 1 (fl_max_retries r - int (fl_attempt_count r)))) st) i = Some r'
    \<and> fl_status r' = FS_FAILED \<and> int (fl_attempt_count r') = max (int (fl_attempt_count r) + 1) (fl_max_retries r)"
  by (rule fl_retry.budget_spent [OF assms])

section \<open>A failed filing is escalated\<close>


section \<open>The receipt\<close>

lemma ack_poll_iff:
  "0 \<le> t \<Longrightarrow> ack_poll receipt t = None \<longleftrightarrow> (\<forall>k. t + int k * ack_poll_interval < ack_poll_timeout \<longrightarrow> receipt (t + int k * ack_poll_interval) = None)"
proof (induction receipt t rule: ack_poll.induct)
  case (1 receipt t)
  have int: "0 < ack_poll_interval" by (simp add: ack_poll_interval_def)
  have split: "(\<forall>k. P (t + int k * ack_poll_interval)) \<longleftrightarrow> P t \<and> (\<forall>k. P (t + ack_poll_interval + int k * ack_poll_interval))" for P
  proof -
    have "(\<forall>k. Q k) \<longleftrightarrow> Q 0 \<and> (\<forall>k. Q (Suc k))" for Q :: "nat \<Rightarrow> bool" by (metis nat.exhaust)
    from this [of "\<lambda>k. P (t + int k * ack_poll_interval)"] show ?thesis by (simp add: algebra_simps)
  qed
  show ?case
  proof (cases "t < ack_poll_timeout")
    case True
    have A: "ack_poll receipt t = None \<longleftrightarrow> receipt t = None \<and> ack_poll receipt (t + ack_poll_interval) = None"
      by (subst ack_poll.simps) (simp add: True split: option.split)
    have B: "ack_poll receipt (t + ack_poll_interval) = None \<longleftrightarrow> (\<forall>k. t + ack_poll_interval + int k * ack_poll_interval < ack_poll_timeout \<longrightarrow>
        receipt (t + ack_poll_interval + int k * ack_poll_interval) = None)" if "receipt t = None"
      using 1 True int that by simp
    show ?thesis unfolding A split [of "\<lambda>u. u < ack_poll_timeout \<longrightarrow> receipt u = None"] using B True by auto
  next
    case False
    have "\<not> t + int k * ack_poll_interval < ack_poll_timeout" for k using int False mult_nonneg_nonneg [of "int k" ack_poll_interval] by linarith
    moreover have "ack_poll receipt t = None" using False by (subst ack_poll.simps) simp
    ultimately show ?thesis by blast
  qed
qed

lemma ack_poll_none: "ack_poll receipt 0 = None \<longleftrightarrow> (\<forall>k<30. receipt (int k * 1000000) = None)"
  using ack_poll_iff [of 0 receipt] by (simp add: ack_poll_interval_def ack_poll_timeout_def)

text \<open>
  A receipt that comes late costs the filing. Over SFTP the destination
  answers by a file, which the worker looks for once a second for thirty
  seconds; when it is not there in time, though the upload succeeded, the error
  is not transient and the filing is marked failed at this attempt, whatever its
  retry budget, and never looked at again.
\<close>

theorem late_receipt_fails_filing:
  assumes "fq_ok (fl_prefix cfg) (fl_queue st)" and "fl_get (fl_prefix cfg) i (fl_queue st) = Some r"
    and "fl_status r \<noteq> FS_ACKNOWLEDGED" and "fl_channel r = CH_SFTP" and "\<forall>k<30. receipt (int k * 1000000) = None"
  shows "\<exists>r'. fl_get (fl_prefix cfg) i (fl_queue (fst (fl_submit_one iso_ok cfg (WIRE_UPLOADED receipt, reply) uuid now i st))) = Some r'
    \<and> fl_status r' = FS_FAILED \<and> fl_attempt_count r' = fl_attempt_count r + 1"
proof -
  let ?p = "fl_prefix cfg" and ?r = "fl_in_flight 1 r"
  let ?st = "st\<lparr>fl_queue := r_put (filing_key ?p i) ?r (fl_queue st)\<rparr>"
  have i: "filing_id r = i" using fq_okD [OF assms(1,2)] .
  have "\<exists>exc. sftp_submit cfg (WIRE_UPLOADED receipt) ?r = Inl exc \<and> \<not> is_transient exc"
  proof (cases "sftp_connect cfg")
    case (Inl x)
    then have "\<exists>s. x = raise_new EC_SubmissionError s"
      by (auto simp: sftp_connect_def sftp_host_keys_def bind_res_eq_Inl split: if_splits list.splits)
    with Inl show ?thesis by (auto simp: sftp_submit_def TRANSIENT_EXCEPTION_TYPES_def)
  next
    case (Inr x)
    have "ack_poll receipt 0 = None" using assms(5) by (simp only: ack_poll_none)
    with Inr show ?thesis by (simp add: sftp_submit_def Let_def TRANSIENT_EXCEPTION_TYPES_def)
  qed
  then obtain exc where exc: "sftp_submit cfg (WIRE_UPLOADED receipt) ?r = Inl exc" "\<not> is_transient exc" by blast
  have "fl_submit_one iso_ok cfg (WIRE_UPLOADED receipt, reply) uuid now i st = fl_finish cfg (Inl exc) uuid now ?r ?st"
    using fl_start_some [OF assms(1-3)] exc(1) assms(4) by (simp add: fl_submit_one_def submit_filing_def)
  moreover have "fq_ok ?p (fl_queue ?st)" "fl_get ?p (filing_id ?r) (fl_queue ?st) = Some ?r"
    using assms(1) i by (simp_all add: fq_ok_put)
  ultimately show ?thesis using exc(2) i fl_finish_queue [of cfg ?st ?r ?r "Inl exc" uuid now]
    by (simp add: fl_exhausted_def)
qed

section \<open>Runs\<close>

text \<open>
  Filings are enqueued under fresh ids, swept, taken up by workers and answered in
  any order; a worker may die while it waits for the destination.
\<close>

inductive fl_step :: "filing_settings \<Rightarrow> filing_state \<Rightarrow> filing_state \<Rightarrow> bool" for cfg where
  enqueue: "fl_get (fl_prefix cfg) (filing_id r) (fl_queue st) = None \<Longrightarrow> fl_status r = FS_PENDING \<Longrightarrow>
    fl_step cfg st (st\<lparr>fl_queue := fl_enqueue (fl_prefix cfg) r (fl_queue st)\<rparr>)"
| sweep: "set (enum (fl_pending (fl_prefix cfg) (fl_queue st))) = fl_pending (fl_prefix cfg) (fl_queue st) \<Longrightarrow>
    fl_step cfg st (fst (submit_pending_filings_task enum cfg st))"
| start: "i \<in> set (fl_tasks st) \<Longrightarrow> fl_start (fl_prefix cfg) i (fl_queue st) = (q, Inr (Some r)) \<Longrightarrow>
    fl_step cfg st (st\<lparr>fl_tasks := remove1 i (fl_tasks st), fl_queue := q, fl_flight := fl_flight st @ [r]\<rparr>)"
| skip: "i \<in> set (fl_tasks st) \<Longrightarrow> fl_start (fl_prefix cfg) i (fl_queue st) = (q, Inr None) \<Longrightarrow>
    fl_step cfg st (st\<lparr>fl_tasks := remove1 i (fl_tasks st), fl_queue := q\<rparr>)"
| finish: "r \<in> set (fl_flight st) \<Longrightarrow>
    fl_step cfg st (fst (fl_finish cfg outcome uuid now r (st\<lparr>fl_flight := remove1 r (fl_flight st)\<rparr>)))"
| crash: "r \<in> set (fl_flight st) \<Longrightarrow> fl_step cfg st (st\<lparr>fl_flight := remove1 r (fl_flight st)\<rparr>)"

definition no_filings :: filing_state where
  "no_filings = \<lparr>fl_queue = redis_empty, fl_tasks = [], fl_flight = [], fl_incidents = no_incidents\<rparr>"

abbreviation fl_reachable :: "filing_settings \<Rightarrow> filing_state \<Rightarrow> bool" where
  "fl_reachable cfg st \<equiv> (fl_step cfg)\<^sup>*\<^sup>* no_filings st"

definition fl_inv :: "filing_settings \<Rightarrow> filing_state \<Rightarrow> bool" where
  "fl_inv cfg st \<longleftrightarrow> fq_ok (fl_prefix cfg) (fl_queue st)
     \<and> (\<forall>r\<in>set (fl_flight st). fl_get (fl_prefix cfg) (filing_id r) (fl_queue st) \<noteq> None)"

lemma fl_finish_frame [simp]:
  "fl_tasks (fst (fl_finish cfg outcome uuid now r st)) = fl_tasks st"
  "fl_flight (fst (fl_finish cfg outcome uuid now r st)) = fl_flight st"
  by (auto simp: fl_finish_def fl_failed_def split: sum.split prod.split)

lemma fl_started:
  assumes "fq_ok p q" "fl_start p i q = (q', Inr (Some r))"
  obtains r0 where "fl_get p i q = Some r0" "fl_status r0 \<noteq> FS_ACKNOWLEDGED" "r = fl_in_flight 1 r0" "filing_id r = i"
    "q' = r_put (filing_key p i) r q"
proof -
  obtain r0 where r0: "fl_get p i q = Some r0" "fl_status r0 \<noteq> FS_ACKNOWLEDGED"
    using assms(2) by (auto simp: fl_start_def split: option.splits if_splits)
  with fl_start_some [OF assms(1) r0] fq_okD [OF assms(1) r0(1)] assms(2) show thesis by (intro that [OF r0]) auto
qed

lemma fl_skipped: "fl_start p i q = (q', Inr None) \<Longrightarrow> q' = q"
  by (auto simp: fl_start_def fl_mark_submitting_def fl_mark_def Let_def split: option.splits if_splits prod.splits sum.splits)

text \<open>The record an attempt leaves.\<close>

definition fl_result :: "raised + FilingAcknowledgment \<Rightarrow> time \<Rightarrow> FilingSubmissionRecord \<Rightarrow> FilingSubmissionRecord \<Rightarrow> FilingSubmissionRecord" where
  "fl_result outcome now r r0 =
     (case outcome of
        Inr ack \<Rightarrow> r0\<lparr>fl_status := FS_ACKNOWLEDGED, fl_submitted_at := Some now, acknowledgment := Some ack, fl_last_error := None\<rparr>
      | Inl exc \<Rightarrow> r0\<lparr>fl_status := if fl_exhausted exc r then FS_FAILED else FS_PENDING, fl_last_error := Some (fl_error_text exc)\<rparr>)"

lemma fl_result_id [simp]: "filing_id (fl_result outcome now r r0) = filing_id r0"
  by (simp add: fl_result_def split: sum.split)

lemma fl_finish_get:
  assumes "fl_inv cfg st" "r \<in> set (fl_flight st)"
  shows "\<exists>r0. fl_get (fl_prefix cfg) (filing_id r) (fl_queue st) = Some r0 \<and> filing_id r0 = filing_id r
    \<and> (\<forall>j. fl_get (fl_prefix cfg) j (fl_queue (fst (fl_finish cfg outcome uuid now r (st\<lparr>fl_flight := fs\<rparr>))))
        = (if j = filing_id r then Some (fl_result outcome now r r0) else fl_get (fl_prefix cfg) j (fl_queue st)))"
proof -
  obtain r0 where r0: "fl_get (fl_prefix cfg) (filing_id r) (fl_queue st) = Some r0" using assms by (auto simp: fl_inv_def)
  moreover have "filing_id r0 = filing_id r" using assms(1) r0 by (simp add: fl_inv_def fq_ok_def)
  moreover have "fq_ok (fl_prefix cfg) (fl_queue (st\<lparr>fl_flight := fs\<rparr>))" using assms(1) by (simp add: fl_inv_def)
  ultimately show ?thesis
    using fl_finish_queue [of cfg "st\<lparr>fl_flight := fs\<rparr>" r r0 outcome uuid now]
    by (cases outcome) (simp_all add: fl_result_def)
qed

lemma fl_inv_step: "fl_step cfg st st' \<Longrightarrow> fl_inv cfg st \<Longrightarrow> fl_inv cfg st'"
proof (induction rule: fl_step.induct)
  case (start i st q r)
  from start.prems have "fq_ok (fl_prefix cfg) (fl_queue st)" by (simp add: fl_inv_def)
  then obtain "filing_id r = i" "q = r_put (filing_key (fl_prefix cfg) i) r (fl_queue st)" by (rule fl_started [OF _ start.hyps(2)])
  with start.prems show ?case by (simp add: fl_inv_def fq_ok_put)
next
  case (skip i st q)
  then show ?case using fl_skipped [OF skip.hyps(2)] by (simp add: fl_inv_def)
next
  case (finish r st outcome uuid now)
  let ?st = "fst (fl_finish cfg outcome uuid now r (st\<lparr>fl_flight := remove1 r (fl_flight st)\<rparr>))"
  obtain r0 where r0: "filing_id r0 = filing_id r" and get: "\<And>j. fl_get (fl_prefix cfg) j (fl_queue ?st)
      = (if j = filing_id r then Some (fl_result outcome now r r0) else fl_get (fl_prefix cfg) j (fl_queue st))"
    using fl_finish_get [OF finish.prems finish.hyps] by blast
  have "fq_ok (fl_prefix cfg) (fl_queue ?st)" using finish.prems r0 by (auto simp: fl_inv_def fq_ok_def get split: if_splits)
  moreover have "fl_get (fl_prefix cfg) (filing_id x) (fl_queue ?st) \<noteq> None" if "x \<in> set (fl_flight ?st)" for x
    using finish.prems that by (auto simp: fl_inv_def get dest: subsetD [OF set_remove1_subset])
  ultimately show ?case by (simp add: fl_inv_def)
next
  case (crash r st)
  then show ?case by (auto simp: fl_inv_def dest: subsetD [OF set_remove1_subset])
qed (auto simp: fl_inv_def fq_ok_def fl_enqueue_def submit_pending_filings_task_def Let_def)

lemma fl_reachable_inv: "fl_reachable cfg st \<Longrightarrow> fl_inv cfg st"
proof (induction rule: rtranclp_induct)
  case base
  show ?case by (simp add: fl_inv_def fq_ok_def no_filings_def fl_get_def redis_empty_def redis_defs)
qed (rule fl_inv_step)

section \<open>A worker that dies\<close>

definition abandoned :: "filing_settings \<Rightarrow> string \<Rightarrow> filing_state \<Rightarrow> bool" where
  "abandoned cfg i st \<longleftrightarrow> fl_inv cfg st \<and> map_option fl_status (fl_get (fl_prefix cfg) i (fl_queue st)) = Some FS_SUBMITTING
     \<and> i \<notin> set (fl_tasks st) \<and> i \<notin> filing_id ` set (fl_flight st)"

lemma swept_pending:
  assumes "fq_ok p q" "map_option fl_status (fl_get p i q) = Some FS_SUBMITTING"
  shows "i \<notin> set (fl_sweep_pending enum p q)"
  using assms by (auto simp: fl_sweep_pending_def fl_list_pending_def set_map_filter dest: fq_okD)

lemma abandoned_step: "fl_step cfg st st' \<Longrightarrow> abandoned cfg i st \<Longrightarrow> abandoned cfg i st'"
proof -
  assume step: "fl_step cfg st st'" and a: "abandoned cfg i st"
  have inv: "fl_inv cfg st'" using fl_inv_step [OF step] a by (simp add: abandoned_def)
  note a' = a [unfolded abandoned_def]
  from step have "map_option fl_status (fl_get (fl_prefix cfg) i (fl_queue st')) = Some FS_SUBMITTING
      \<and> i \<notin> set (fl_tasks st') \<and> i \<notin> filing_id ` set (fl_flight st')"
  proof cases
    case (enqueue r)
    with a' show ?thesis by (auto simp: fl_enqueue_def)
  next
    case (sweep enum)
    have "i \<notin> set (fl_sweep_pending enum (fl_prefix cfg) (fl_queue st))"
      using a' by (intro swept_pending) (simp_all add: fl_inv_def)
    with sweep a' show ?thesis by (simp add: submit_pending_filings_task_def Let_def)
  next
    case (start j q r)
    have "fq_ok (fl_prefix cfg) (fl_queue st)" using a' by (simp add: fl_inv_def)
    then obtain "filing_id r = j" "q = r_put (filing_key (fl_prefix cfg) j) r (fl_queue st)" by (rule fl_started [OF _ start(3)])
    moreover have "i \<noteq> j" using a' start(2) by blast
    ultimately show ?thesis using start a' by (auto dest: subsetD [OF set_remove1_subset])
  next
    case (skip j q)
    with a' fl_skipped [OF skip(3)] show ?thesis by (auto dest: subsetD [OF set_remove1_subset])
  next
    case (finish r outcome uuid now)
    then have "i \<noteq> filing_id r" using a' by blast
    moreover have "fl_inv cfg st" using a' by blast
    ultimately show ?thesis using fl_finish_get [of cfg st r outcome uuid now "remove1 r (fl_flight st)"] finish a'
      by (auto dest: subsetD [OF set_remove1_subset])
  next
    case (crash r)
    with a' show ?thesis by (auto dest: subsetD [OF set_remove1_subset])
  qed
  with inv show "abandoned cfg i st'" by (simp add: abandoned_def)
qed


section \<open>Two tasks for one filing\<close>

lemma fl_two_in_flight:
  assumes "fl_status r = FS_PENDING" "fl_enabled cfg"
  shows "\<exists>st. fl_reachable cfg st \<and> fl_flight st = [fl_in_flight 1 r, fl_in_flight 2 r] \<and> fl_tasks st = []
    \<and> fl_get (fl_prefix cfg) (filing_id r) (fl_queue st) = Some (fl_in_flight 2 r)
    \<and> fl_pending (fl_prefix cfg) (fl_queue st) = {filing_id r}"
proof -
  let ?p = "fl_prefix cfg" and ?i = "filing_id r"
  let ?e = "\<lambda>_::string set. [?i]"
  have e: "fl_get ?p j redis_empty = None" "r_smembers (redis_empty :: filing_queue) k = {}" for j k
    by (simp_all add: fl_get_def redis_empty_def redis_defs)
  let ?q1 = "r_sadd (filing_pending_key ?p) ?i (r_put (filing_key ?p ?i) r redis_empty) :: filing_queue"
  let ?s1 = "no_filings\<lparr>fl_queue := ?q1\<rparr>"
  have t1: "fl_reachable cfg ?s1"
    using fl_step.enqueue [of cfg r no_filings] assms(1) by (simp add: fl_enqueue_def no_filings_def e r_into_rtranclp)
  have ok1: "fq_ok ?p ?q1" "fl_get ?p ?i ?q1 = Some r" by (simp_all add: fq_ok_def e)
  have l: "fl_sweep_pending ?e ?p ?q1 = [?i]" using assms(1)
    by (simp add: fl_sweep_pending_def fl_list_pending_def map_filter_simps)
  have m: "fl_pending ?p ?q1 = {?i}" by (simp add: redis_simps e)
  let ?s2 = "?s1\<lparr>fl_tasks := [?i]\<rparr>" and ?s3 = "?s1\<lparr>fl_tasks := [?i, ?i]\<rparr>"
  have "fl_step cfg ?s1 ?s2" using fl_step.sweep [where enum = ?e and cfg = cfg and st = ?s1] m l assms(2)
    by (simp add: submit_pending_filings_task_def no_filings_def)
  moreover have "fl_step cfg ?s2 ?s3" using fl_step.sweep [where enum = ?e and cfg = cfg and st = ?s2] m l assms(2)
    by (simp add: submit_pending_filings_task_def)
  ultimately have t3: "fl_reachable cfg ?s3" using t1 by (meson rtranclp.rtrancl_into_rtrancl)
  let ?q4 = "r_put (filing_key ?p ?i) (fl_in_flight 1 r) ?q1"
  let ?q5 = "r_put (filing_key ?p ?i) (fl_in_flight 2 r) ?q4"
  have f1: "fl_start ?p ?i ?q1 = (?q4, Inr (Some (fl_in_flight 1 r)))" using fl_start_some [OF ok1] assms(1) by simp
  have ok4: "fq_ok ?p ?q4" "fl_get ?p ?i ?q4 = Some (fl_in_flight 1 r)" using ok1 by (simp_all add: fq_ok_put)
  have f2: "fl_start ?p ?i ?q4 = (?q5, Inr (Some (fl_in_flight 2 r)))"
    using fl_start_some [OF ok4] by (simp add: fl_in_flight_add numeral_2_eq_2)
  let ?s4 = "?s1\<lparr>fl_tasks := [?i], fl_queue := ?q4, fl_flight := [fl_in_flight 1 r]\<rparr>"
  let ?s5 = "?s1\<lparr>fl_tasks := [], fl_queue := ?q5, fl_flight := [fl_in_flight 1 r, fl_in_flight 2 r]\<rparr>"
  have "fl_step cfg ?s3 ?s4"
    using fl_step.start [where i = ?i and st = ?s3 and cfg = cfg and q = ?q4 and r = "fl_in_flight 1 r"] f1 by (simp add: no_filings_def)
  moreover have "fl_step cfg ?s4 ?s5"
    using fl_step.start [where i = ?i and st = ?s4 and cfg = cfg and q = ?q5 and r = "fl_in_flight 2 r"] f2 by (simp add: no_filings_def)
  ultimately have "fl_reachable cfg ?s5" using t3 by (meson rtranclp.rtrancl_into_rtrancl)
  then show ?thesis by (intro exI [of _ ?s5]) (simp add: no_filings_def redis_simps e)
qed

text \<open>
  An acknowledged filing can come back as pending and be forgotten. The sweep
  dispatches what is PENDING, and a task marks a filing SUBMITTING only when it
  starts: two sweeps before that dispatch it twice. There is a run in which the
  destination acknowledges the first submission and cannot be reached for the
  second; the record is then PENDING again, with the acknowledgment still on it
  and outside the pending set, so that no sweep lists it.
\<close>

theorem acknowledged_filing_reopened:
  fixes r :: FilingSubmissionRecord
  assumes "fl_status r = FS_PENDING" and "fl_enabled cfg" and "is_transient exc" and "int (fl_attempt_count r) + 2 < fl_max_retries r"
  shows "\<exists>st r'. fl_reachable cfg st \<and> fl_get (fl_prefix cfg) (filing_id r) (fl_queue st) = Some r' \<and> fl_status r' = FS_PENDING
    \<and> acknowledgment r' = Some ack \<and> filing_id r \<notin> fl_pending (fl_prefix cfg) (fl_queue st)"
proof -
  let ?p = "fl_prefix cfg" and ?i = "filing_id r" and ?a = "fl_in_flight 1 r" and ?b = "fl_in_flight 2 r"
  obtain st where st: "fl_reachable cfg st" "fl_flight st = [?a, ?b]" "fl_get ?p ?i (fl_queue st) = Some ?b"
    using fl_two_in_flight [OF assms(1,2)] by blast
  have ok: "fq_ok ?p (fl_queue st)" using fl_reachable_inv [OF st(1)] by (simp add: fl_inv_def)
  let ?s1 = "fst (fl_finish cfg (Inr ack) [] 0 ?a (st\<lparr>fl_flight := remove1 ?a (fl_flight st)\<rparr>))"
  let ?b' = "?b\<lparr>fl_status := FS_ACKNOWLEDGED, fl_submitted_at := Some 0, acknowledgment := Some ack, fl_last_error := None\<rparr>"
  have t1: "fl_reachable cfg ?s1" using st(1) fl_step.finish [of ?a st cfg "Inr ack" "[]" 0] st(2) by (simp add: rtranclp.rtrancl_into_rtrancl)
  have q1: "fl_queue ?s1 = r_srem (filing_pending_key ?p) ?i (r_put (filing_key ?p ?i) ?b' (fl_queue st))"
    using fl_finish_queue [of cfg "st\<lparr>fl_flight := remove1 ?a (fl_flight st)\<rparr>" ?a ?b "Inr ack" "[]" 0] ok st(3) by simp
  have f1: "fl_flight ?s1 = [?b]" using st(2) by simp
  let ?s2 = "fst (fl_finish cfg (Inl exc) [] 0 ?b (?s1\<lparr>fl_flight := remove1 ?b (fl_flight ?s1)\<rparr>))"
  have "fl_reachable cfg ?s2" using t1 fl_step.finish [of ?b ?s1 cfg "Inl exc" "[]" 0] f1 by (simp add: rtranclp.rtrancl_into_rtrancl)
  moreover have "fl_queue ?s2 = r_put (filing_key ?p ?i) (?b'\<lparr>fl_status := FS_PENDING, fl_last_error := Some (fl_error_text exc)\<rparr>) (fl_queue ?s1)"
    using fl_finish_queue [of cfg "?s1\<lparr>fl_flight := remove1 ?b (fl_flight ?s1)\<rparr>" ?b ?b' "Inl exc" "[]" 0] ok q1 assms(3,4)
    by (simp add: fl_exhausted_def fq_ok_put)
  ultimately show ?thesis using q1 by (intro exI [of _ ?s2]) (simp add: redis_simps)
qed

section \<open>A filing\<close>

definition demo_filing :: FilingSubmissionRecord where
  "demo_filing = \<lparr>filing_id = ''f1'', fl_type = FT_COMPLIANCE_LOG, fl_target = TG_SEBI, fl_channel = CH_SFTP, fl_filename = ''log.xml'',
     fl_payload_b64 = [], fl_content_type = ''application/xml'', fl_signature = [], fl_status = FS_PENDING, fl_attempt_count = 0,
     fl_max_retries = 5, fl_last_error = None, fl_submitted_at = None, acknowledgment = None, fl_created_at = 0\<rparr>"

definition demo_fl_settings :: filing_settings where
  "demo_fl_settings = \<lparr>fl_enabled = True, fl_prefix = ''fl'', fl_incident_prefix = ''inc'', sftp_host = Some ''mii'', sftp_username = Some ''u'',
     sftp_known_host_key = None, sftp_private_key = None, sftp_password = Some ''pw'', sftp_remote_dir = ''/incoming'', portal_base_url = None\<rparr>"

definition demo_filings :: filing_state where
  "demo_filings = no_filings\<lparr>fl_queue := fl_enqueue ''fl'' demo_filing redis_empty\<rparr>"

lemma demo_filings_ok: "fq_ok ''fl'' (fl_queue demo_filings)" "fl_get ''fl'' ''f1'' (fl_queue demo_filings) = Some demo_filing"
  by (auto simp: demo_filings_def fl_enqueue_def fq_ok_def demo_filing_def) (simp_all add: fl_get_def redis_empty_def redis_defs split: if_splits)

lemma demo_fl_simps: "fl_prefix demo_fl_settings = ''fl''" "fl_enabled demo_fl_settings" "fl_incident_prefix demo_fl_settings = ''inc''"
  "filing_id demo_filing = ''f1''" "fl_status demo_filing = FS_PENDING" "fl_channel demo_filing = CH_SFTP"
  by (simp_all add: demo_fl_settings_def demo_filing_def)

theorem late_receipt_fails_filing_witness:
  "\<exists>r'. fl_get ''fl'' ''f1'' (fl_queue (fst (fl_submit_one (\<lambda>_. True) demo_fl_settings
     (WIRE_UPLOADED (\<lambda>t. if t \<ge> 30000000 then Some ''ok'' else None), HTTP_RESPONSE 200 [] None) ''u1'' 0 ''f1'' demo_filings))) = Some r'
   \<and> fl_status r' = FS_FAILED"
  using late_receipt_fails_filing [of demo_fl_settings demo_filings "''f1''" demo_filing
      "\<lambda>t. if t \<ge> 30000000 then Some ''ok'' else None" "\<lambda>_. True" "HTTP_RESPONSE 200 [] None" "''u1''" 0]
    demo_filings_ok unfolding demo_fl_simps by auto


theorem acknowledged_filing_reopened_witness:
  "\<exists>st r'. fl_reachable demo_fl_settings st \<and> fl_get ''fl'' ''f1'' (fl_queue st) = Some r' \<and> fl_status r' = FS_PENDING
    \<and> acknowledgment r' = Some \<lparr>acknowledgment_reference = ''A1'', raw_detail = None\<rparr> \<and> ''f1'' \<notin> fl_pending ''fl'' (fl_queue st)"
proof -
  have "is_transient (raise_new EC_ConnectionError ''reset'')" "int (fl_attempt_count demo_filing) + 2 < fl_max_retries demo_filing"
    by (simp_all add: TRANSIENT_EXCEPTION_TYPES_def demo_filing_def)
  from acknowledged_filing_reopened [OF demo_fl_simps(5,2) this] show ?thesis unfolding demo_fl_simps by blast
qed


end
