(* ===== verification/Negotiation.thy ===== *)
theory Negotiation
  imports Evaluator "HOL-Library.Product_Lexorder"
begin

text \<open>
  The negotiation of domain agents over a transaction, \<open>app/negotiation\<close>: the
  agents (\<open>agents.py\<close>), weighted voting and its rounds (\<open>consensus.py\<close>), the
  arbiter (\<open>arbiter.py\<close>), the transcript (\<open>telemetry.py\<close>) and the entry point with
  the escalation to human review (\<open>orchestrator.py\<close>). Weights and confidences are
  rationals: the rounding of floats is left out. The texts \<open>:.2f\<close> and \<open>:.0%\<close> give a
  number are arguments. A write to the transcript that fails is swallowed by the
  code and left out here; the time to live of a transcript is left out too.
\<close>

section \<open>Data\<close>

record DomainAgent =
  ag_key :: string
  ag_domain :: string
  ag_weight :: rat
  domain_keywords :: "string list"

record AgentVerdict =
  av_agent_key :: string
  av_domain :: string
  av_decision :: Decision
  av_confidence :: rat
  av_weight :: rat
  av_circular :: "string option"
  av_clause :: "string option"
  rationale :: string
  matched_rule_ids :: "string list"

record WeightedVoteTally =
  weighted_share :: "(Decision \<times> rat) list"
  leading_decision :: Decision
  leading_share :: rat
  unanimous :: bool

record NegotiationRound =
  nr_round_number :: nat
  nr_verdicts :: "AgentVerdict list"
  nr_tally :: WeightedVoteTally
  consensus_reached :: bool
  dissenting_agents :: "string list"

datatype ConflictReasoningNode =
  Node (claim: string) (supporting_agent_key: "string option") (supporting_circular: "string option")
    (supporting_clause: "string option") (evidence_confidence: "rat option") (node_children: "ConflictReasoningNode list")

record ArbiterResolution =
  resolved_decision :: Decision
  justification :: string
  precedence_rule :: string
  ar_circular :: "string option"
  ar_clause :: "string option"
  overridden_agent_keys :: "string list"
  winning_confidence :: rat

datatype NegotiationStatus = NS_CONSENSUS | NS_ARBITRATED | NS_ESCALATED_TO_HITL

record NegotiationResult =
  negotiation_id :: string
  ng_transaction_id :: string
  ng_status :: NegotiationStatus
  final_decision :: Decision
  ng_rounds :: "NegotiationRound list"
  arbiter_resolution :: "ArbiterResolution option"
  reasoning_tree :: "ConflictReasoningNode option"
  ng_hitl_case_id :: "string option"
  ng_started_at :: time
  ng_completed_at :: "time option"

section \<open>Agents\<close>

definition outcome_text :: "PolicyOutcome \<Rightarrow> string" where
  "outcome_text x =
     replace_char CHR ''-'' CHR '' '' (replace_char CHR ''_'' CHR '' '' (py_lower (po_package x @ '' '' @ join '' '' (po_violations x))))"

definition is_in_scope :: "DomainAgent \<Rightarrow> PolicyOutcome \<Rightarrow> bool" where
  "is_in_scope ag x = list_ex (\<lambda>k. substring (replace_char CHR ''-'' CHR '' '' k) (outcome_text x)) (domain_keywords ag)"

definition scoped_outcomes :: "DomainAgent \<Rightarrow> PolicyOutcome list \<Rightarrow> PolicyOutcome list" where
  "scoped_outcomes ag xs = filter (is_in_scope ag) xs"

definition cited_outcome :: "PolicyOutcome list \<Rightarrow> PolicyOutcome" where
  "cited_outcome scoped = (case find (\<lambda>x. truthy_str (po_circular_number x)) scoped of Some x \<Rightarrow> x | None \<Rightarrow> hd scoped)"

definition reduce_scoped_outcomes :: "DomainAgent \<Rightarrow> TransactionPayload \<Rightarrow> PolicyOutcome list \<Rightarrow> AgentVerdict" where
  "reduce_scoped_outcomes ag tx scoped =
     (let violations = concat (map po_violations scoped);
          undef = filter (\<lambda>x. po_allow x = None) scoped;
          verdict = (\<lambda>d c why. \<lparr>av_agent_key = ag_key ag, av_domain = ag_domain ag, av_decision = d, av_confidence = c,
            av_weight = ag_weight ag, av_circular = po_circular_number (cited_outcome scoped),
            av_clause = po_clause_number (cited_outcome scoped), rationale = why, matched_rule_ids = map po_rule_id scoped\<rparr>)
      in if violations \<noteq> [] then verdict DENY (9 / 10) (join ''; '' violations)
         else if undef \<noteq> [] then
           verdict FLAGGED (4 / 10) (nat_str (length undef) @ '' in-domain polic(ies) returned an undefined result for transaction ''
             @ transaction_id tx @ ''.'')
         else verdict ALLOW (85 / 100) (''All '' @ nat_str (length scoped) @ '' in-domain polic(ies) passed for transaction ''
             @ transaction_id tx @ ''.''))"

definition stronger_dissent :: "DomainAgent \<Rightarrow> AgentVerdict \<Rightarrow> AgentVerdict \<Rightarrow> bool" where
  "stronger_dissent ag v other \<longleftrightarrow>
     av_agent_key other \<noteq> ag_key ag \<and> av_decision other = DENY \<and> av_decision other \<noteq> av_decision v
     \<and> av_weight other \<ge> ag_weight ag \<and> av_circular other \<noteq> None"

definition apply_negotiation_pressure :: "DomainAgent \<Rightarrow> AgentVerdict \<Rightarrow> NegotiationRound option \<Rightarrow> AgentVerdict" where
  "apply_negotiation_pressure ag v prior_round =
     (case prior_round of
        None \<Rightarrow> v
      | Some r \<Rightarrow>
          if \<not> list_ex (stronger_dissent ag v) (nr_verdicts r) then v
          else v\<lparr>av_confidence := max (5 / 100) (av_confidence v - 35 / 100),
                 rationale := rationale v @ '' [Confidence reduced: a higher-or-equal-weight agent cited a specific SEBI clause for DENY in the prior round.]''\<rparr>)"

definition agent_evaluate ::
  "DomainAgent \<Rightarrow> TransactionPayload \<Rightarrow> PolicyOutcome list \<Rightarrow> NegotiationRound option \<Rightarrow> AgentVerdict option" where
  "agent_evaluate ag tx outcomes prior_round =
     (let scoped = scoped_outcomes ag outcomes
      in if scoped = [] then None
         else Some (apply_negotiation_pressure ag (reduce_scoped_outcomes ag tx scoped) prior_round))"

definition MarginAgent :: DomainAgent where
  "MarginAgent = \<lparr>ag_key = ''margin_agent'', ag_domain = ''margin'', ag_weight = 12 / 10,
     domain_keywords = [''margin'', ''mtm'', ''mark-to-market'', ''collateral'']\<rparr>"

definition RiskDisclosureAgent :: DomainAgent where
  "RiskDisclosureAgent = \<lparr>ag_key = ''risk_disclosure_agent'', ag_domain = ''risk_disclosure'', ag_weight = 1,
     domain_keywords = [''risk disclosure'', ''risk factor'', ''disclosure statement'', ''disclosure document'']\<rparr>"

definition FundSegregationAgent :: DomainAgent where
  "FundSegregationAgent = \<lparr>ag_key = ''fund_segregation_agent'', ag_domain = ''fund_segregation'', ag_weight = 11 / 10,
     domain_keywords = [''segregat'', ''client fund'', ''client bank account'', ''client money'', ''commingl'']\<rparr>"

section \<open>Voting\<close>

definition decisions :: "Decision list" where
  "decisions = [ALLOW, DENY, FLAGGED]"

definition verdict_power :: "AgentVerdict \<Rightarrow> rat" where
  "verdict_power v = av_weight v * av_confidence v"

definition voting_power :: "AgentVerdict list \<Rightarrow> Decision \<Rightarrow> rat" where
  "voting_power vs d = (\<Sum>v\<leftarrow>filter (\<lambda>v. av_decision v = d) vs. verdict_power v)"

definition total_power :: "AgentVerdict list \<Rightarrow> rat" where
  "total_power vs = (\<Sum>v\<leftarrow>vs. verdict_power v)"

text \<open>Python's \<open>max(xs, key=f)\<close>: the first of the greatest.\<close>

fun max_by :: "('a \<Rightarrow> 'b :: linorder) \<Rightarrow> 'a list \<Rightarrow> 'a option" where
  "max_by f [] = None"
| "max_by f (x # xs) = Some (foldl (\<lambda>b y. if f b < f y then y else b) x xs)"

definition deny_tie_break_margin :: rat where
  "deny_tie_break_margin = 5 / 100"

definition all_same :: "'a list \<Rightarrow> bool" where
  "all_same xs \<longleftrightarrow> length (remdups xs) = 1"

definition tally_votes :: "AgentVerdict list \<Rightarrow> WeightedVoteTally" where
  "tally_votes vs =
     (let total = total_power vs in
      if total = 0 then
        \<lparr>weighted_share = map (\<lambda>d. (d, 0)) decisions, leading_decision = FLAGGED, leading_share = 0, unanimous = False\<rparr>
      else
        let share = (\<lambda>d. voting_power vs d / total);
            lead = the (max_by share decisions);
            lead = (if lead \<noteq> DENY \<and> share lead - share DENY < deny_tie_break_margin \<and> share DENY > 0 then DENY else lead)
        in \<lparr>weighted_share = map (\<lambda>d. (d, share d)) decisions, leading_decision = lead, leading_share = share lead,
            unanimous = all_same (map av_decision vs)\<rparr>)"

definition check_consensus :: "WeightedVoteTally \<Rightarrow> rat \<Rightarrow> bool" where
  "check_consensus t threshold \<longleftrightarrow> unanimous t \<or> leading_share t \<ge> threshold"

datatype ConsensusState = CONSENSUS_REACHED | DEADLOCKED

definition collect_verdicts ::
  "DomainAgent list \<Rightarrow> TransactionPayload \<Rightarrow> PolicyOutcome list \<Rightarrow> NegotiationRound option \<Rightarrow> AgentVerdict list" where
  "collect_verdicts agents tx outcomes prior_round = List.map_filter (\<lambda>ag. agent_evaluate ag tx outcomes prior_round) agents"

definition make_round :: "rat \<Rightarrow> nat \<Rightarrow> AgentVerdict list \<Rightarrow> NegotiationRound" where
  "make_round threshold n vs =
     (let t = tally_votes vs
      in \<lparr>nr_round_number = n, nr_verdicts = vs, nr_tally = t, consensus_reached = check_consensus t threshold,
          dissenting_agents = map av_agent_key (filter (\<lambda>v. av_decision v \<noteq> leading_decision t) vs)\<rparr>)"

text \<open>The loop of \<open>ConsensusEngine.run\<close> with \<open>k\<close> rounds left, \<open>n\<close> the number of the next one.\<close>

fun run_rounds ::
  "DomainAgent list \<Rightarrow> rat \<Rightarrow> TransactionPayload \<Rightarrow> PolicyOutcome list \<Rightarrow> nat \<Rightarrow> nat \<Rightarrow> NegotiationRound option
   \<Rightarrow> NegotiationRound list \<times> ConsensusState" where
  "run_rounds agents threshold tx outcomes 0 n prior_round = ([], DEADLOCKED)"
| "run_rounds agents threshold tx outcomes (Suc k) n prior_round =
     (let vs = collect_verdicts agents tx outcomes prior_round in
      if vs = [] then ([], DEADLOCKED)
      else
        let r = make_round threshold n vs in
        if consensus_reached r then ([r], CONSENSUS_REACHED)
        else case run_rounds agents threshold tx outcomes k (Suc n) (Some r) of (rs, s) \<Rightarrow> (r # rs, s))"

definition consensus_run ::
  "DomainAgent list \<Rightarrow> rat \<Rightarrow> nat \<Rightarrow> TransactionPayload \<Rightarrow> PolicyOutcome list \<Rightarrow> NegotiationRound list \<times> ConsensusState" where
  "consensus_run agents threshold max_rounds tx outcomes = run_rounds agents threshold tx outcomes max_rounds 1 None"

section \<open>The arbiter\<close>

record number_texts =
  fmt_2f :: "rat \<Rightarrow> string"
  fmt_pct :: "rat \<Rightarrow> string"

definition py_bool :: "bool \<Rightarrow> string" where
  "py_bool b = (if b then ''True'' else ''False'')"

definition verdict_node :: "number_texts \<Rightarrow> AgentVerdict \<Rightarrow> ConflictReasoningNode" where
  "verdict_node nt v =
     Node (av_agent_key v @ '' voted '' @ decision_value (av_decision v) @ '' (confidence='' @ fmt_2f nt (av_confidence v)
         @ '', weight='' @ fmt_2f nt (av_weight v) @ ''): '' @ rationale v)
       (Some (av_agent_key v)) (av_circular v) (av_clause v) (Some (av_confidence v)) []"

definition round_node :: "number_texts \<Rightarrow> NegotiationRound \<Rightarrow> ConflictReasoningNode" where
  "round_node nt r =
     Node (''Round '' @ nat_str (nr_round_number r) @ '': leading decision '' @ decision_value (leading_decision (nr_tally r)) @ '' at ''
         @ fmt_pct nt (leading_share (nr_tally r)) @ '' weighted share (consensus_reached='' @ py_bool (consensus_reached r) @ '')'')
       None None None None (map (verdict_node nt) (nr_verdicts r))"

definition build_reasoning_tree :: "number_texts \<Rightarrow> NegotiationRound list \<Rightarrow> ConflictReasoningNode" where
  "build_reasoning_tree nt rounds =
     Node ''Multi-agent negotiation deadlocked; arbiter cross-examination follows.'' None None None None (map (round_node nt) rounds)"

definition explicit_deny_precedence :: "NegotiationRound \<Rightarrow> ArbiterResolution option" where
  "explicit_deny_precedence r =
     map_option (\<lambda>w. \<lparr>resolved_decision = DENY,
         justification = av_agent_key w @ '' cited an explicit regulatory breach at Circular '' @ the (av_circular w) @ '', Clause ''
           @ the (av_clause w) @ '': '' @ rationale w
           @ ''. An explicit, clause-cited DENY overrides confidence-weighted disagreement from other domain agents.'',
         precedence_rule = ''EXPLICIT_DENY_PRECEDENCE'', ar_circular = av_circular w, ar_clause = av_clause w,
         overridden_agent_keys = map av_agent_key (filter (\<lambda>v. av_agent_key v \<noteq> av_agent_key w) (nr_verdicts r)),
         winning_confidence = av_confidence w\<rparr>)
       (max_by (\<lambda>v. (av_weight v, av_confidence v, av_agent_key v))
         (filter (\<lambda>v. av_decision v = DENY \<and> truthy_str (av_circular v) \<and> truthy_str (av_clause v)) (nr_verdicts r)))"

definition highest_weight_confidence :: "number_texts \<Rightarrow> rat \<Rightarrow> NegotiationRound \<Rightarrow> ArbiterResolution option result" where
  "highest_weight_confidence nt min_confidence r =
     (let t = tally_votes (nr_verdicts r) in
      if leading_share t < min_confidence then Inr None
      else
        case max_by (\<lambda>v. (verdict_power v, av_agent_key v)) (filter (\<lambda>v. av_decision v = leading_decision t) (nr_verdicts r)) of
          None \<Rightarrow> raise (ValueError ''max() arg is an empty sequence'')
        | Some best \<Rightarrow>
            Inr (Some \<lparr>resolved_decision = leading_decision t,
              justification = ''No single agent cited an explicit clause-grounded breach; '' @ decision_value (leading_decision t)
                @ '' carried '' @ fmt_pct nt (leading_share t) @ '' of weighted voting power in the final round, above the ''
                @ fmt_pct nt min_confidence @ '' confidence bar required for the arbiter to resolve without HITL. Strongest supporting verdict: ''
                @ rationale best,
              precedence_rule = ''HIGHEST_WEIGHT_CONFIDENCE'', ar_circular = av_circular best, ar_clause = av_clause best,
              overridden_agent_keys = map av_agent_key (filter (\<lambda>v. av_decision v \<noteq> leading_decision t) (nr_verdicts r)),
              winning_confidence = leading_share t\<rparr>))"

definition arbitrate :: "number_texts \<Rightarrow> rat \<Rightarrow> NegotiationRound list \<Rightarrow> ArbiterResolution option result" where
  "arbitrate nt min_confidence rounds =
     (if rounds = [] then Inr None
      else case explicit_deny_precedence (last rounds) of
             Some res \<Rightarrow> Inr (Some res)
           | None \<Rightarrow> highest_weight_confidence nt min_confidence (last rounds))"

section \<open>The entry point\<close>

definition should_negotiate :: "PolicyOutcome list \<Rightarrow> DomainAgent list \<Rightarrow> bool" where
  "should_negotiate outcomes agents \<longleftrightarrow>
     length (remdups (map ag_domain (filter (\<lambda>ag. scoped_outcomes ag outcomes \<noteq> []) agents))) \<ge> 2"

datatype transcript_record = ROUND_RECORD NegotiationRound | OUTCOME_RECORD NegotiationResult

record negotiation_state =
  ng_queue :: hitl_queue
  ng_transcripts :: "string \<Rightarrow> transcript_record list"

record negotiation_settings =
  ng_agents :: "DomainAgent list"
  consensus_threshold :: rat
  ng_max_rounds :: nat
  arbiter_min_confidence :: rat
  ng_hitl_prefix :: string
  ng_texts :: number_texts

definition record_entry :: "string \<Rightarrow> transcript_record \<Rightarrow> negotiation_state \<Rightarrow> negotiation_state" where
  "record_entry i x st = st\<lparr>ng_transcripts := (ng_transcripts st)(i := ng_transcripts st i @ [x])\<rparr>"

definition base_result :: "string \<Rightarrow> time \<Rightarrow> TransactionPayload \<Rightarrow> NegotiationStatus \<Rightarrow> Decision \<Rightarrow> NegotiationRound list \<Rightarrow> NegotiationResult" where
  "base_result i now tx s d rounds =
     \<lparr>negotiation_id = i, ng_transaction_id = transaction_id tx, ng_status = s, final_decision = d, ng_rounds = rounds,
      arbiter_resolution = None, reasoning_tree = None, ng_hitl_case_id = None, ng_started_at = now, ng_completed_at = None\<rparr>"

definition resolve_deadlock ::
  "negotiation_settings \<Rightarrow> string \<Rightarrow> string \<Rightarrow> time \<Rightarrow> TransactionPayload \<Rightarrow> PolicyOutcome list \<Rightarrow> NegotiationRound list \<Rightarrow> negotiation_state
   \<Rightarrow> negotiation_state \<times> NegotiationResult result" where
  "resolve_deadlock cfg i case_uuid now tx outcomes rounds st =
     (if rounds = [] then (st, Inr (base_result i now tx NS_CONSENSUS ALLOW []))
      else
        case arbitrate (ng_texts cfg) (arbiter_min_confidence cfg) rounds of
          Inl e \<Rightarrow> (st, raise e)
        | Inr (Some res) \<Rightarrow>
            (st, Inr ((base_result i now tx NS_ARBITRATED (resolved_decision res) rounds)
               \<lparr>arbiter_resolution := Some res, reasoning_tree := Some (build_reasoning_tree (ng_texts cfg) rounds)\<rparr>))
        | Inr None \<Rightarrow>
            (case enqueue (ng_hitl_prefix cfg) tx [NegotiationDeadlock (length rounds)] outcomes case_uuid now (ng_queue st) of
               (q, c) \<Rightarrow>
                 (st\<lparr>ng_queue := q\<rparr>, Inr ((base_result i now tx NS_ESCALATED_TO_HITL FLAGGED rounds)
                    \<lparr>reasoning_tree := Some (build_reasoning_tree (ng_texts cfg) rounds), ng_hitl_case_id := Some (case_id c)\<rparr>))))"

definition negotiate ::
  "negotiation_settings \<Rightarrow> string \<Rightarrow> string \<Rightarrow> time \<Rightarrow> TransactionPayload \<Rightarrow> PolicyOutcome list \<Rightarrow> negotiation_state
   \<Rightarrow> negotiation_state \<times> NegotiationResult result" where
  "negotiate cfg i case_uuid now tx outcomes st =
     (case consensus_run (ng_agents cfg) (consensus_threshold cfg) (ng_max_rounds cfg) tx outcomes of
        (rounds, s) \<Rightarrow>
          let st = foldl (\<lambda>st r. record_entry i (ROUND_RECORD r) st) st rounds
          in case (if s = CONSENSUS_REACHED
                   then (st, Inr (base_result i now tx NS_CONSENSUS (leading_decision (nr_tally (last rounds))) rounds))
                   else resolve_deadlock cfg i case_uuid now tx outcomes rounds st) of
               (st', Inl e) \<Rightarrow> (st', raise e)
             | (st', Inr res) \<Rightarrow>
                 let res = res\<lparr>ng_completed_at := Some now\<rparr>
                 in (record_entry i (OUTCOME_RECORD res) st', Inr res))"

section \<open>The tally\<close>

lemma decisions_all: "set decisions = UNIV" by (auto simp: decisions_def) (metis Decision.exhaust)

lemma max_by_in: "max_by f xs = Some x \<Longrightarrow> x \<in> set xs"
proof (induction xs rule: rev_induct)
  case (snoc y ys)
  then show ?case by (cases ys) (auto split: if_splits)
qed simp

lemma max_by_greatest: "max_by f xs = Some x \<Longrightarrow> y \<in> set xs \<Longrightarrow> f y \<le> f x"
proof (induction xs arbitrary: x y rule: rev_induct)
  case (snoc z zs)
  then show ?case by (cases zs) (fastforce split: if_splits)+
qed simp

lemma max_by_ex: "xs \<noteq> [] \<Longrightarrow> \<exists>x. max_by f xs = Some x"
  by (cases xs) auto

lemma power_split: "total_power vs = voting_power vs ALLOW + voting_power vs DENY + voting_power vs FLAGGED"
proof (induction vs)
  case (Cons v vs)
  then show ?case by (cases "av_decision v") (simp_all add: total_power_def voting_power_def)
qed (simp add: total_power_def voting_power_def)

lemma tally_lead:
  assumes "total_power vs \<noteq> 0"
  shows "leading_share (tally_votes vs) = voting_power vs (leading_decision (tally_votes vs)) / total_power vs"
    and "unanimous (tally_votes vs) = all_same (map av_decision vs)"
    and "leading_decision (tally_votes vs) \<noteq> DENY \<Longrightarrow>
      voting_power vs d / total_power vs \<le> leading_share (tally_votes vs)"
proof -
  let ?share = "\<lambda>d. voting_power vs d / total_power vs"
  obtain m where m: "max_by ?share decisions = Some m" using max_by_ex [of decisions ?share] by (auto simp: decisions_def)
  have top: "?share d \<le> ?share m" using max_by_greatest [OF m, of d] decisions_all by simp
  show "leading_share (tally_votes vs) = ?share (leading_decision (tally_votes vs))"
    "unanimous (tally_votes vs) = all_same (map av_decision vs)"
    using assms by (simp_all add: tally_votes_def Let_def)
  show "leading_decision (tally_votes vs) \<noteq> DENY \<Longrightarrow> ?share d \<le> leading_share (tally_votes vs)"
    using assms m top by (auto simp: tally_votes_def Let_def split: if_splits)
qed

lemma tally_zero: "total_power vs = 0 \<Longrightarrow> leading_share (tally_votes vs) = 0 \<and> leading_decision (tally_votes vs) = FLAGGED \<and> \<not> unanimous (tally_votes vs)"
  by (simp add: tally_votes_def)

text \<open>The shares of the three decisions add up to one, whenever anybody voted with any power.\<close>

theorem tally_shares_sum:
  assumes "total_power vs \<noteq> 0" shows "(\<Sum>p\<leftarrow>weighted_share (tally_votes vs). snd p) = 1"
proof -
  have "(voting_power vs ALLOW + (voting_power vs DENY + voting_power vs FLAGGED)) / total_power vs = 1"
    using assms power_split [of vs] by (simp add: add.assoc)
  then show ?thesis using assms by (simp add: tally_votes_def Let_def decisions_def add_divide_distrib)
qed

section \<open>What an agent votes\<close>

lemma reduce_scoped_simps:
  "av_agent_key (reduce_scoped_outcomes ag tx xs) = ag_key ag" "av_weight (reduce_scoped_outcomes ag tx xs) = ag_weight ag"
  "av_decision (reduce_scoped_outcomes ag tx xs) = fst (reduce xs)"
  "av_confidence (reduce_scoped_outcomes ag tx xs) = (case fst (reduce xs) of DENY \<Rightarrow> 9 / 10 | FLAGGED \<Rightarrow> 4 / 10 | ALLOW \<Rightarrow> 85 / 100)"
  by (simp_all add: reduce_scoped_outcomes_def reduce_def Let_def)

lemma pressure_simps:
  "av_agent_key (apply_negotiation_pressure ag v p) = av_agent_key v" "av_weight (apply_negotiation_pressure ag v p) = av_weight v"
  "av_decision (apply_negotiation_pressure ag v p) = av_decision v" "av_circular (apply_negotiation_pressure ag v p) = av_circular v"
  "av_clause (apply_negotiation_pressure ag v p) = av_clause v"
  by (simp_all add: apply_negotiation_pressure_def split: option.split)

text \<open>An agent's decision is the evaluator's reduction of what it has in scope, and its power never grows.\<close>

lemma agent_evaluate_cases:
  assumes "agent_evaluate ag tx xs p = Some v"
  shows "scoped_outcomes ag xs \<noteq> []" "av_agent_key v = ag_key ag" "av_weight v = ag_weight ag"
    "av_decision v = fst (reduce (scoped_outcomes ag xs))"
    "av_decision v = DENY \<Longrightarrow> av_confidence v = 9 / 10" "av_decision v = ALLOW \<Longrightarrow> av_confidence v \<le> 85 / 100" "0 < av_confidence v"
proof -
  have v: "scoped_outcomes ag xs \<noteq> []" "v = apply_negotiation_pressure ag (reduce_scoped_outcomes ag tx (scoped_outcomes ag xs)) p"
    using assms by (auto simp: agent_evaluate_def Let_def split: if_splits)
  then show "scoped_outcomes ag xs \<noteq> []" "av_agent_key v = ag_key ag" "av_weight v = ag_weight ag"
    "av_decision v = fst (reduce (scoped_outcomes ag xs))"
    by (simp_all add: pressure_simps reduce_scoped_simps)
  show "av_decision v = DENY \<Longrightarrow> av_confidence v = 9 / 10" "av_decision v = ALLOW \<Longrightarrow> av_confidence v \<le> 85 / 100" "0 < av_confidence v"
    unfolding v(2) by (auto simp: apply_negotiation_pressure_def stronger_dissent_def reduce_scoped_simps list_ex_iff
        split: option.splits Decision.splits if_splits)
qed

section \<open>Rounds repeat\<close>

definition standing :: "AgentVerdict \<Rightarrow> string \<times> Decision \<times> rat \<times> string option" where
  "standing v = (av_agent_key v, av_decision v, av_weight v, av_circular v)"

lemma dissent_standing: "standing v = standing v' \<Longrightarrow> stronger_dissent ag w v = stronger_dissent ag w v'"
  by (simp add: standing_def stronger_dissent_def)

lemma list_ex_standing:
  "map standing vs = map standing vs' \<Longrightarrow> list_ex (stronger_dissent ag w) vs = list_ex (stronger_dissent ag w) vs'"
proof (induction vs arbitrary: vs')
  case (Cons v vs)
  then obtain v' us where vs': "vs' = v' # us" "standing v = standing v'" "map standing vs = map standing us"
    by (cases vs') auto
  show ?case using dissent_standing [OF vs'(2), of ag w] Cons.IH [OF vs'(3)] by (simp add: vs'(1))
qed simp

lemma pressure_standing: "standing (apply_negotiation_pressure ag v p) = standing v"
  by (simp only: standing_def pressure_simps)

lemma evaluate_standing:
  "map_option standing (agent_evaluate ag tx os p) = map_option standing (agent_evaluate ag tx os p')"
  by (cases "scoped_outcomes ag os = []") (simp_all add: agent_evaluate_def pressure_standing)

lemma collect_standing: "map standing (collect_verdicts agents tx os p) = map standing (collect_verdicts agents tx os p')"
proof (induction agents)
  case (Cons ag agents)
  have "map_option standing (agent_evaluate ag tx os p) = map_option standing (agent_evaluate ag tx os p')"
    by (rule evaluate_standing)
  with Cons show ?case
    by (cases "agent_evaluate ag tx os p"; cases "agent_evaluate ag tx os p'") (simp_all add: collect_verdicts_def map_filter_simps)
qed (simp add: collect_verdicts_def map_filter_simps)

lemma collect_settles:
  assumes "nr_verdicts r = collect_verdicts agents tx os p" "nr_verdicts r' = collect_verdicts agents tx os p'"
  shows "collect_verdicts agents' tx os (Some r) = collect_verdicts agents' tx os (Some r')"
proof -
  have same: "list_ex (stronger_dissent ag w) (nr_verdicts r) = list_ex (stronger_dissent ag w) (nr_verdicts r')" for ag w
    unfolding assms by (rule list_ex_standing) (rule collect_standing)
  have "agent_evaluate ag tx os (Some r) = agent_evaluate ag tx os (Some r')" for ag
    by (simp add: agent_evaluate_def apply_negotiation_pressure_def Let_def same)
  then show ?thesis by (simp add: collect_verdicts_def)
qed

lemma make_round_simps:
  "nr_verdicts (make_round thr n vs) = vs" "nr_tally (make_round thr n vs) = tally_votes vs"
  "consensus_reached (make_round thr n vs) = check_consensus (tally_votes vs) thr"
  by (simp_all add: make_round_def Let_def)

text \<open>Once a round has answered the objections of an earlier one, every further round is that round again.\<close>

lemma rounds_settled:
  assumes "nr_verdicts r = collect_verdicts agents tx os p"
    and "vs = collect_verdicts agents tx os (Some r)" "vs \<noteq> []" "\<not> check_consensus (tally_votes vs) thr"
  shows "run_rounds agents thr tx os k n (Some r) = (map (\<lambda>j. make_round thr j vs) [n..<n + k], DEADLOCKED)"
  using assms(1,2)
proof (induction k arbitrary: n r p)
  case (Suc k)
  have here: "nr_verdicts (make_round thr n vs) = collect_verdicts agents tx os (Some r)" by (simp add: make_round_simps Suc.prems(2))
  have again: "collect_verdicts agents tx os (Some (make_round thr n vs)) = collect_verdicts agents tx os (Some r)"
    by (rule collect_settles [OF here Suc.prems(1)])
  have "run_rounds agents thr tx os k (Suc n) (Some (make_round thr n vs))
    = (map (\<lambda>j. make_round thr j vs) [Suc n..<Suc n + k], DEADLOCKED)"
    by (rule Suc.IH [OF here]) (simp only: again, rule Suc.prems(2))
  moreover have "[n..<n + Suc k] = n # [Suc n..<Suc n + k]" by (simp add: upt_conv_Cons)
  ultimately show ?case using assms(3,4) by (simp add: Let_def make_round_simps Suc.prems(2) [symmetric])
qed simp

lemma run_from_first:
  assumes "2 \<le> n" and "vs = collect_verdicts agents tx os None" and "vs \<noteq> []" and "\<not> check_consensus (tally_votes vs) thr"
    and "ws = collect_verdicts agents tx os (Some (make_round thr 1 vs))"
  shows "consensus_run agents thr n tx os =
    (if check_consensus (tally_votes ws) thr then ([make_round thr 1 vs, make_round thr 2 ws], CONSENSUS_REACHED)
     else (make_round thr 1 vs # map (\<lambda>j. make_round thr j ws) [2..<Suc n], DEADLOCKED))"
proof -
  obtain k where n: "n = Suc (Suc k)" using assms(1) by (cases n rule: nat.exhaust) (auto dest: Suc_le_D)
  let ?r = "make_round thr (Suc 0) vs"
  have first: "nr_verdicts ?r = collect_verdicts agents tx os None" by (simp add: make_round_simps assms(2))
  have ws: "ws \<noteq> []" using collect_standing [of agents tx os None "Some (make_round thr 1 vs)"] assms(2,3,5) by auto
  have settled: "run_rounds agents thr tx os (Suc k) 2 (Some ?r) = (map (\<lambda>j. make_round thr j ws) [2..<2 + Suc k], DEADLOCKED)"
    if "\<not> check_consensus (tally_votes ws) thr" by (rule rounds_settled [OF first _ ws that]) (simp add: assms(5))
  have start: "consensus_run agents thr n tx os =
      (case run_rounds agents thr tx os (Suc k) 2 (Some ?r) of (rs, s) \<Rightarrow> (?r # rs, s))"
    using assms(3,4) unfolding consensus_run_def n by (simp add: Let_def make_round_simps assms(2) [symmetric] numeral_2_eq_2 del: run_rounds.simps(2) add: run_rounds.simps(2) [of _ _ _ _ "Suc k"])
  show ?thesis
  proof (cases "check_consensus (tally_votes ws) thr")
    case True
    then have "run_rounds agents thr tx os (Suc k) 2 (Some ?r) = ([make_round thr 2 ws], CONSENSUS_REACHED)"
      using ws assms(5) by (simp add: Let_def make_round_simps)
    with True start show ?thesis by simp
  next
    case False
    with start settled show ?thesis by (simp add: n)
  qed
qed

lemma arbitrate_last:
  assumes "rounds \<noteq> []" "rounds' \<noteq> []" "nr_verdicts (last rounds) = nr_verdicts (last rounds')"
  shows "arbitrate nt c rounds = arbitrate nt c rounds'"
proof -
  have "explicit_deny_precedence (last rounds) = explicit_deny_precedence (last rounds')"
    "highest_weight_confidence nt c (last rounds) = highest_weight_confidence nt c (last rounds')"
    by (simp_all only: explicit_deny_precedence_def highest_weight_confidence_def assms(3))
  with assms(1,2) show ?thesis by (simp add: arbitrate_def split: option.split)
qed

lemma run_stops_at_once:
  assumes "0 < n" "vs = collect_verdicts agents tx os None"
  shows "vs = [] \<Longrightarrow> consensus_run agents thr n tx os = ([], DEADLOCKED)"
    and "vs \<noteq> [] \<Longrightarrow> check_consensus (tally_votes vs) thr \<Longrightarrow> consensus_run agents thr n tx os = ([make_round thr 1 vs], CONSENSUS_REACHED)"
  using assms by (cases n; simp add: consensus_run_def Let_def make_round_simps)+

lemma two_rounds: "[2..<Suc 2] = [2]" by (simp add: numeral_2_eq_2)

text \<open>
  Claim C37. The rounds of a negotiation stop changing after the second: with any larger limit
  the verdicts of every later round are those of round two, the consensus engine ends in
  the same state and the arbiter decides the same. Only rounds with another number are added.
\<close>

theorem later_rounds_repeat:
  assumes "2 \<le> n"
  shows "snd (consensus_run agents thr n tx os) = snd (consensus_run agents thr 2 tx os)
    \<and> nr_verdicts ` set (tl (fst (consensus_run agents thr n tx os))) = nr_verdicts ` set (tl (fst (consensus_run agents thr 2 tx os)))
    \<and> arbitrate nt c (fst (consensus_run agents thr n tx os)) = arbitrate nt c (fst (consensus_run agents thr 2 tx os))"
proof -
  define vs where "vs = collect_verdicts agents tx os None"
  define ws where "ws = collect_verdicts agents tx os (Some (make_round thr 1 vs))"
  consider "vs = []" | "vs \<noteq> []" "check_consensus (tally_votes vs) thr" | "vs \<noteq> []" "\<not> check_consensus (tally_votes vs) thr" by blast
  then show ?thesis
  proof cases
    case 1
    then show ?thesis using run_stops_at_once(1) [OF _ vs_def] assms by simp
  next
    case 2
    then show ?thesis using run_stops_at_once(2) [OF _ vs_def] assms by simp
  next
    case 3
    note run = run_from_first [OF _ vs_def 3 ws_def]
    have "arbitrate nt c (make_round thr 1 vs # map (\<lambda>j. make_round thr j ws) [2..<Suc n])
      = arbitrate nt c [make_round thr 1 vs, make_round thr 2 ws]"
      by (rule arbitrate_last) (use assms in \<open>simp_all add: make_round_simps last_map\<close>)
    moreover have "nr_verdicts ` (\<lambda>j. make_round thr j ws) ` {2..<Suc n} = {ws}"
      using assms by (simp add: image_image make_round_simps image_constant_conv)
    ultimately show ?thesis using assms by (simp add: run two_rounds make_round_simps del: upt_Suc)
  qed
qed

section \<open>A violation in scope\<close>

definition contrib :: "Decision \<Rightarrow> AgentVerdict option \<Rightarrow> rat" where
  "contrib d x = (case x of None \<Rightarrow> 0 | Some v \<Rightarrow> if av_decision v = d then verdict_power v else 0)"

lemma voting_power_collect: "voting_power (collect_verdicts agents tx os p) d = (\<Sum>ag\<leftarrow>agents. contrib d (agent_evaluate ag tx os p))"
proof (induction agents)
  case (Cons ag agents)
  then show ?case
    by (cases "agent_evaluate ag tx os p") (simp_all add: collect_verdicts_def map_filter_simps voting_power_def contrib_def)
qed (simp add: collect_verdicts_def map_filter_simps voting_power_def)

lemma contrib_bounds:
  assumes "0 < ag_weight ag"
  shows "0 \<le> contrib d (agent_evaluate ag tx os p)"
    and "contrib ALLOW (agent_evaluate ag tx os p) \<le> ag_weight ag * (85 / 100)"
    and "contrib DENY (agent_evaluate ag tx os p) = ag_weight ag * (9 / 10) \<and> contrib ALLOW (agent_evaluate ag tx os p) = 0
      \<or> contrib DENY (agent_evaluate ag tx os p) = 0 \<and> (\<forall>v. agent_evaluate ag tx os p = Some v \<longrightarrow> av_decision v \<noteq> DENY)"
proof -
  let ?x = "agent_evaluate ag tx os p"
  have some: "av_weight v = ag_weight ag" "0 < av_confidence v" "av_decision v = DENY \<Longrightarrow> av_confidence v = 9 / 10"
    "av_decision v = ALLOW \<Longrightarrow> av_confidence v \<le> 85 / 100" if "?x = Some v" for v
    using agent_evaluate_cases [OF that] by simp_all
  show "0 \<le> contrib d ?x" using some assms by (cases ?x) (auto simp: contrib_def verdict_power_def less_imp_le)
  show "contrib ALLOW ?x \<le> ag_weight ag * (85 / 100)"
    using some assms by (cases ?x) (auto simp: contrib_def verdict_power_def intro!: mult_left_mono)
  show "contrib DENY ?x = ag_weight ag * (9 / 10) \<and> contrib ALLOW ?x = 0
      \<or> contrib DENY ?x = 0 \<and> (\<forall>v. ?x = Some v \<longrightarrow> av_decision v \<noteq> DENY)"
    using some by (cases ?x) (auto simp: contrib_def verdict_power_def)
qed

abbreviation default_agents :: "DomainAgent list" where
  "default_agents \<equiv> [MarginAgent, RiskDisclosureAgent, FundSegregationAgent]"

lemma default_weights: "ag_weight MarginAgent = 12 / 10" "ag_weight RiskDisclosureAgent = 1" "ag_weight FundSegregationAgent = 11 / 10"
  by (simp_all add: MarginAgent_def RiskDisclosureAgent_def FundSegregationAgent_def)

lemma default_domains: "ag_domain MarginAgent = ''margin''" "ag_domain RiskDisclosureAgent = ''risk_disclosure''"
    "ag_domain FundSegregationAgent = ''fund_segregation''"
  by (simp_all add: MarginAgent_def RiskDisclosureAgent_def FundSegregationAgent_def)

lemma agent_denies:
  assumes "x \<in> set os" "is_in_scope ag x" "po_violations x \<noteq> []"
  shows "\<exists>v. agent_evaluate ag tx os p = Some v \<and> av_decision v = DENY"
proof -
  have "x \<in> set (scoped_outcomes ag os)" using assms by (simp add: scoped_outcomes_def)
  moreover from this have "concat (map po_violations (scoped_outcomes ag os)) \<noteq> []" using assms(3) by auto
  then have "fst (reduce (scoped_outcomes ag os)) = DENY" by (simp add: reduce_def Let_def)
  ultimately show ?thesis
    by (auto simp: agent_evaluate_def Let_def pressure_simps reduce_scoped_simps)
qed

lemma denial_outweighs:
  fixes tx :: TransactionPayload and p :: "NegotiationRound option"
  assumes "x \<in> set os" "ag \<in> set default_agents" "is_in_scope ag x" "po_violations x \<noteq> []"
  defines "vs \<equiv> collect_verdicts default_agents tx os p"
  shows "3 * voting_power vs ALLOW < 7 * voting_power vs DENY" and "0 \<le> voting_power vs ALLOW" and "0 \<le> voting_power vs FLAGGED"
proof -
  let ?c = "\<lambda>ag d. contrib d (agent_evaluate ag tx os p)"
  note bounds = contrib_bounds [where tx = tx and os = os and p = p]
  note b = bounds [where ag = MarginAgent] bounds [where ag = RiskDisclosureAgent] bounds [where ag = FundSegregationAgent]
  obtain v where v: "agent_evaluate ag tx os p = Some v" "av_decision v = DENY" using agent_denies [OF assms(1,3,4)] by blast
  then have "?c MarginAgent DENY = 108 / 100 \<or> ?c RiskDisclosureAgent DENY = 9 / 10 \<or> ?c FundSegregationAgent DENY = 99 / 100"
    using assms(2) b by (auto simp: default_weights)
  then show "3 * voting_power vs ALLOW < 7 * voting_power vs DENY"
    using b unfolding vs_def voting_power_collect by (simp add: default_weights) linarith
  show "0 \<le> voting_power vs ALLOW" "0 \<le> voting_power vs FLAGGED"
    using b unfolding vs_def voting_power_collect by (simp_all add: default_weights)
qed

lemma all_same_eq: "all_same xs \<Longrightarrow> a \<in> set xs \<Longrightarrow> b \<in> set xs \<Longrightarrow> a = b"
proof -
  assume "all_same xs" and in_xs: "a \<in> set xs" "b \<in> set xs"
  then obtain y where "remdups xs = [y]" by (cases "remdups xs") (auto simp: all_same_def)
  then have "set xs = {y}" by (metis list.simps(15) set_empty2 set_remdups)
  with in_xs show "a = b" by simp
qed

lemma voting_power_voter: "voting_power vs d \<noteq> 0 \<Longrightarrow> d \<in> set (map av_decision vs)"
  by (induction vs) (auto simp: voting_power_def split: if_splits)

lemma denial_not_outvoted:
  assumes "3 * voting_power vs ALLOW < 7 * voting_power vs DENY" "0 \<le> voting_power vs ALLOW" "0 \<le> voting_power vs FLAGGED"
    and "leading_decision (tally_votes vs) = ALLOW"
  shows "leading_share (tally_votes vs) < 7 / 10" and "\<not> unanimous (tally_votes vs)"
proof -
  have T: "0 < total_power vs" using assms(1-3) by (simp add: power_split)
  have lead: "leading_share (tally_votes vs) = voting_power vs ALLOW / total_power vs"
    and top: "voting_power vs DENY / total_power vs \<le> leading_share (tally_votes vs)"
    using tally_lead(1) [of vs] tally_lead(3) [of vs DENY] T assms(4) by simp_all
  show "leading_share (tally_votes vs) < 7 / 10" using T assms(1-3) unfolding lead by (simp add: divide_less_eq power_split)
  have "voting_power vs DENY \<le> voting_power vs ALLOW" using top T unfolding lead by (simp add: divide_le_cancel)
  then have "voting_power vs ALLOW \<noteq> 0" "voting_power vs DENY \<noteq> 0" using assms(1,2) by auto
  then have "\<not> all_same (map av_decision vs)"
    using all_same_eq [of "map av_decision vs" ALLOW DENY] voting_power_voter [of vs] by blast
  then show "\<not> unanimous (tally_votes vs)" using tally_lead(2) [of vs] T by simp
qed

lemma run_rounds_shape:
  assumes "run_rounds agents thr tx os k n p = (rs, s)"
  shows "r \<in> set rs \<Longrightarrow> \<exists>j p. r = make_round thr j (collect_verdicts agents tx os p)"
    and "s = CONSENSUS_REACHED \<Longrightarrow> rs \<noteq> [] \<and> consensus_reached (last rs)"
  using assms
proof (induction agents thr tx os k n p arbitrary: rs r rule: run_rounds.induct)
  case (2 agents thr tx os k n p)
  {
    case 1
    with "2.IH"(1) show ?case by (fastforce simp: Let_def split: if_splits prod.splits)
  next
    case 2
    with "2.IH"(2) show ?case by (fastforce simp: Let_def split: if_splits prod.splits)
  }
qed simp_all

lemma explicit_deny_decides: "explicit_deny_precedence r = Some res \<Longrightarrow> resolved_decision res = DENY"
  by (auto simp: explicit_deny_precedence_def)

lemma arbitrate_decides:
  assumes "arbitrate nt c rounds = Inr (Some res)"
  shows "resolved_decision res = DENY
    \<or> resolved_decision res = leading_decision (tally_votes (nr_verdicts (last rounds)))
      \<and> c \<le> leading_share (tally_votes (nr_verdicts (last rounds)))"
  using assms
  by (auto simp: arbitrate_def highest_weight_confidence_def Let_def dest: explicit_deny_decides split: if_splits option.splits)

section \<open>The outcome\<close>

lemma record_rounds:
  "ng_queue (foldl (\<lambda>st r. record_entry i (ROUND_RECORD r) st) st rs) = ng_queue st"
  "ng_transcripts (foldl (\<lambda>st r. record_entry i (ROUND_RECORD r) st) st rs)
     = (ng_transcripts st)(i := ng_transcripts st i @ map ROUND_RECORD rs)"
  by (induction rs arbitrary: st) (simp_all add: record_entry_def)

lemma record_entry_simps [simp]:
  "ng_queue (record_entry i x st) = ng_queue st"
  "ng_transcripts (record_entry i x st) = (ng_transcripts st)(i := ng_transcripts st i @ [x])"
  by (simp_all add: record_entry_def)

lemma highest_confidence_returns:
  assumes "0 < c" shows "\<exists>x. highest_weight_confidence nt c r = Inr x"
proof (cases "leading_share (tally_votes (nr_verdicts r)) < c")
  case False
  let ?vs = "nr_verdicts r" let ?t = "tally_votes ?vs"
  have "total_power ?vs \<noteq> 0" using False assms tally_zero [of ?vs] by auto
  then have "voting_power ?vs (leading_decision ?t) \<noteq> 0" using False assms tally_lead(1) [of ?vs] by auto
  then have "filter (\<lambda>v. av_decision v = leading_decision ?t) ?vs \<noteq> []"
    using voting_power_voter [of ?vs "leading_decision ?t"] by (auto simp: filter_empty_conv)
  then obtain b where "max_by (\<lambda>v. (verdict_power v, av_agent_key v)) (filter (\<lambda>v. av_decision v = leading_decision ?t) ?vs) = Some b"
    using max_by_ex by blast
  with False show ?thesis by (simp add: highest_weight_confidence_def Let_def)
qed (simp add: highest_weight_confidence_def Let_def)

lemma arbitrate_returns: "0 < c \<Longrightarrow> \<exists>x. arbitrate nt c rounds = Inr x"
  using highest_confidence_returns [of c nt "last rounds"] by (auto simp: arbitrate_def split: option.split)

lemma negotiate_decides:
  assumes "negotiate cfg i u now tx os st = (st', Inr res)"
    and "consensus_run (ng_agents cfg) (consensus_threshold cfg) (ng_max_rounds cfg) tx os = (rounds, s)"
  shows "final_decision res =
    (if s = CONSENSUS_REACHED then leading_decision (nr_tally (last rounds)) else if rounds = [] then ALLOW
     else case arbitrate (ng_texts cfg) (arbiter_min_confidence cfg) rounds of Inr (Some a) \<Rightarrow> resolved_decision a | _ \<Rightarrow> FLAGGED)"
  using assms
  by (auto simp: negotiate_def resolve_deadlock_def base_result_def Let_def split: if_splits prod.splits sum.splits option.splits)

lemma negotiate_total:
  assumes "0 < arbiter_min_confidence cfg" shows "\<exists>st' res. negotiate cfg i u now tx os st = (st', Inr res)"
proof -
  obtain rounds s where run: "consensus_run (ng_agents cfg) (consensus_threshold cfg) (ng_max_rounds cfg) tx os = (rounds, s)"
    by (cases "consensus_run (ng_agents cfg) (consensus_threshold cfg) (ng_max_rounds cfg) tx os")
  obtain x where "arbitrate (ng_texts cfg) (arbiter_min_confidence cfg) rounds = Inr x" using arbitrate_returns [OF assms] by blast
  with run show ?thesis
    by (cases "s = CONSENSUS_REACHED"; cases "rounds = []"; cases x) (simp_all add: negotiate_def resolve_deadlock_def enqueue_def Let_def)
qed

text \<open>
  Claim C30. With the three default agents and thresholds of at least seven tenths, a transaction
  with a violation in the scope of one of them is never let through by negotiation: no weight
  or confidence of the other agents, in any round, makes the decision ALLOW.
\<close>

theorem violation_never_allowed:
  assumes "ng_agents cfg = default_agents" "7 / 10 \<le> consensus_threshold cfg" "7 / 10 \<le> arbiter_min_confidence cfg" "1 \<le> ng_max_rounds cfg"
    and "x \<in> set os" "ag \<in> set default_agents" "is_in_scope ag x" "po_violations x \<noteq> []"
    and "negotiate cfg i u now tx os st = (st', Inr res)"
  shows "final_decision res \<noteq> ALLOW"
proof
  assume allowed: "final_decision res = ALLOW"
  obtain rounds s where run: "consensus_run (ng_agents cfg) (consensus_threshold cfg) (ng_max_rounds cfg) tx os = (rounds, s)"
    by (cases "consensus_run (ng_agents cfg) (consensus_threshold cfg) (ng_max_rounds cfg) tx os")
  note shape = run_rounds_shape [OF run [unfolded consensus_run_def]]
  let ?t = "tally_votes (nr_verdicts (last rounds))"
  obtain v where "agent_evaluate ag tx os None = Some v" using agent_denies [OF assms(5,7,8)] by blast
  then have "collect_verdicts default_agents tx os None \<noteq> []"
    using assms(6) by (auto simp: collect_verdicts_def map_filter_def filter_empty_conv)
  then have some: "rounds \<noteq> []"
    using run assms(1,4) by (cases "ng_max_rounds cfg") (auto simp: consensus_run_def Let_def split: if_splits prod.splits)
  then obtain j p where r: "last rounds = make_round (consensus_threshold cfg) j (collect_verdicts default_agents tx os p)"
    using shape(1) [of "last rounds"] assms(1) by auto
  have low: "leading_share ?t < 7 / 10 \<and> \<not> unanimous ?t" if "leading_decision ?t = ALLOW"
    using denial_not_outvoted [OF denial_outweighs [OF assms(5-8), of tx p]] that by (simp add: r make_round_simps)
  have "s = CONSENSUS_REACHED \<Longrightarrow> check_consensus ?t (consensus_threshold cfg)"
    using shape(2) by (simp add: r make_round_simps)
  then show False
    using negotiate_decides [OF assms(9) run] allowed low some assms(2,3) arbitrate_decides [of "ng_texts cfg" "arbiter_min_confidence cfg" rounds]
    by (auto simp: check_consensus_def r make_round_simps split: if_splits sum.splits option.splits)
qed

text \<open>
  A negotiation always returns when the arbiter asks for any confidence at all, and its
  transcript is complete: the rounds the agents held, in order, then the outcome. The review queue is touched
  exactly when the negotiation ends in an escalation, which gets a case of its own and is flagged.
\<close>

theorem negotiation_recorded:
  assumes "0 < arbiter_min_confidence cfg"
  shows "\<exists>st' res. negotiate cfg i u now tx os st = (st', Inr res)
    \<and> ng_rounds res = fst (consensus_run (ng_agents cfg) (consensus_threshold cfg) (ng_max_rounds cfg) tx os)
    \<and> ng_transcripts st' = (ng_transcripts st)(i := ng_transcripts st i @ map ROUND_RECORD (ng_rounds res) @ [OUTCOME_RECORD res])
    \<and> (if ng_status res = NS_ESCALATED_TO_HITL
       then final_decision res = FLAGGED \<and> ng_hitl_case_id res = Some u
         \<and> ng_queue st' = fst (enqueue (ng_hitl_prefix cfg) tx [NegotiationDeadlock (length (ng_rounds res))] os u now (ng_queue st))
       else ng_hitl_case_id res = None \<and> ng_queue st' = ng_queue st)"
proof -
  obtain rounds s where run: "consensus_run (ng_agents cfg) (consensus_threshold cfg) (ng_max_rounds cfg) tx os = (rounds, s)"
    by (cases "consensus_run (ng_agents cfg) (consensus_threshold cfg) (ng_max_rounds cfg) tx os")
  obtain x where arb: "arbitrate (ng_texts cfg) (arbiter_min_confidence cfg) rounds = Inr x"
    using arbitrate_returns [OF assms] by blast
  note defs = negotiate_def resolve_deadlock_def base_result_def run arb record_rounds Let_def
  consider "s = CONSENSUS_REACHED" | "s = DEADLOCKED" "rounds = []" | a where "s = DEADLOCKED" "rounds \<noteq> []" "x = Some a"
    | "s = DEADLOCKED" "rounds \<noteq> []" "x = None" by (cases s; cases x) auto
  then show ?thesis by cases (simp_all add: defs enqueue_def)
qed

section \<open>The clause a denial cites\<close>

text \<open>A denial cites the first policy in scope that names a circular, whether that policy is the one violated or not.\<close>

theorem denial_cites_passing_policy:
  assumes "scoped_outcomes ag os = x # xs" "truthy_str (po_circular_number x)" "po_violations x = []"
    and "y \<in> set xs" "po_violations y \<noteq> []"
  shows "\<exists>v. agent_evaluate ag tx os None = Some v \<and> av_decision v = DENY
    \<and> av_circular v = po_circular_number x \<and> av_clause v = po_clause_number x"
proof -
  have "concat (map po_violations (x # xs)) \<noteq> []" using assms(4,5) by auto
  then show ?thesis using assms(1-3)
    by (simp add: agent_evaluate_def apply_negotiation_pressure_def reduce_scoped_outcomes_def cited_outcome_def Let_def)
qed

section \<open>A violation nobody has in scope\<close>

lemma unanimous_allow:
  assumes "vs \<noteq> []" "\<forall>v\<in>set vs. av_decision v = ALLOW" "\<forall>v\<in>set vs. 0 < verdict_power v"
  shows "leading_decision (tally_votes vs) = ALLOW" "unanimous (tally_votes vs)"
proof -
  have none: "voting_power vs d = 0" if "d \<noteq> ALLOW" for d
    using voting_power_voter [of vs d] assms(2) that by auto
  have "0 < total_power vs" using assms(1,3) unfolding total_power_def
    by (induction vs rule: list_nonempty_induct) auto
  then have T: "total_power vs \<noteq> 0" "voting_power vs ALLOW = total_power vs" "0 < total_power vs"
    using power_split [of vs] none by auto
  have "set (map av_decision vs) = {ALLOW}" using assms(1,2) by (cases vs) auto
  then have "length (remdups (map av_decision vs)) = 1" by (simp only: length_remdups_card_conv) simp
  then show "unanimous (tally_votes vs)" using tally_lead(2) [OF T(1)] by (simp add: all_same_def)
  show "leading_decision (tally_votes vs) = ALLOW"
    using T none by (simp add: tally_votes_def Let_def decisions_def)
qed

lemma clean_scope_allows:
  assumes "agent_evaluate ag tx os None = Some v" "0 < ag_weight ag"
    and "\<forall>x\<in>set (scoped_outcomes ag os). po_violations x = [] \<and> po_allow x \<noteq> None"
  shows "av_decision v = ALLOW \<and> 0 < verdict_power v"
proof -
  have "fst (reduce (scoped_outcomes ag os)) = ALLOW" using assms(3) by (auto simp: reduce_def Let_def filter_empty_conv)
  then show ?thesis using agent_evaluate_cases [OF assms(1)] assms(2) by (simp add: verdict_power_def)
qed

text \<open>
  The agents see only the outcomes their keywords match: when at least two of them have clean
  outcomes in scope and the violated policy matches no keyword, the negotiation is held and agrees on ALLOW
  in one round, although the evaluator denies the same outcomes.
\<close>

theorem unscoped_violation_allowed:
  assumes "should_negotiate os (ng_agents cfg)" "1 \<le> ng_max_rounds cfg" "\<forall>ag\<in>set (ng_agents cfg). 0 < ag_weight ag"
    and "\<forall>ag\<in>set (ng_agents cfg). \<forall>x\<in>set (scoped_outcomes ag os). po_violations x = [] \<and> po_allow x \<noteq> None"
    and "x \<in> set os" "po_violations x \<noteq> []"
  shows "fst (reduce os) = DENY
    \<and> (\<exists>st' res. negotiate cfg i u now tx os st = (st', Inr res)
      \<and> ng_status res = NS_CONSENSUS \<and> final_decision res = ALLOW \<and> length (ng_rounds res) = 1)"
proof -
  define vs where "vs = collect_verdicts (ng_agents cfg) tx os None"
  have voter: "\<exists>ag\<in>set (ng_agents cfg). agent_evaluate ag tx os None = Some v" if "v \<in> set vs" for v
    using that unfolding vs_def collect_verdicts_def by (auto simp: map_filter_def)
  have good: "\<forall>v\<in>set vs. av_decision v = ALLOW" "\<forall>v\<in>set vs. 0 < verdict_power v"
    using voter clean_scope_allows assms(3,4) by blast+
  have "filter (\<lambda>ag. scoped_outcomes ag os \<noteq> []) (ng_agents cfg) \<noteq> []"
  proof
    assume "filter (\<lambda>ag. scoped_outcomes ag os \<noteq> []) (ng_agents cfg) = []"
    then show False using assms(1) unfolding should_negotiate_def by simp
  qed
  then obtain ag where "ag \<in> set (ng_agents cfg)" "agent_evaluate ag tx os None \<noteq> None"
    by (auto simp: filter_empty_conv agent_evaluate_def Let_def)
  then have "vs \<noteq> []" unfolding vs_def collect_verdicts_def by (auto simp: map_filter_def filter_empty_conv)
  moreover note unanimous_allow [OF this good]
  ultimately have "consensus_run (ng_agents cfg) (consensus_threshold cfg) (ng_max_rounds cfg) tx os
      = ([make_round (consensus_threshold cfg) 1 vs], CONSENSUS_REACHED)" "leading_decision (tally_votes vs) = ALLOW"
    using run_stops_at_once(2) [OF _ vs_def] assms(2) by (simp_all add: check_consensus_def)
  moreover have "concat (map po_violations os) \<noteq> []" using assms(5,6) by auto
  ultimately show ?thesis
    by (simp add: negotiate_def base_result_def make_round_simps Let_def reduce_def)
qed

section \<open>Witnesses\<close>

definition demo_policy :: "string \<Rightarrow> string list \<Rightarrow> PolicyOutcome" where
  "demo_policy pkg vs =
     \<lparr>po_rule_id = pkg, po_package = pkg, po_allow = Some (vs = []), po_violations = vs, po_circular_number = Some ''SEBI/1'',
      po_clause_number = Some ''4'', po_rule_version = None, po_policy_sha256 = None, po_canonical_facts_digest = None,
      po_source_document_sha256 = None, po_extracted_text_sha256 = None, po_clause_sha256 = None\<rparr>"

definition demo_negotiation :: negotiation_settings where
  "demo_negotiation = \<lparr>ng_agents = default_agents, consensus_threshold = 7 / 10, ng_max_rounds = 3, arbiter_min_confidence = 75 / 100,
     ng_hitl_prefix = ''hitl'', ng_texts = \<lparr>fmt_2f = (\<lambda>q. []), fmt_pct = (\<lambda>q. [])\<rparr>\<rparr>"

definition demo_room :: negotiation_state where
  "demo_room = \<lparr>ng_queue = redis_empty, ng_transcripts = (\<lambda>i. [])\<rparr>"

lemma demo_settings:
  "ng_agents demo_negotiation = default_agents" "consensus_threshold demo_negotiation = 7 / 10"
  "arbiter_min_confidence demo_negotiation = 75 / 100" "ng_max_rounds demo_negotiation = 3"
  by (simp_all add: demo_negotiation_def)

lemma demo_scope:
  "is_in_scope MarginAgent (demo_policy ''sebi.margin'' [''short''])" "is_in_scope MarginAgent (demo_policy ''sebi.margin'' [])"
  "is_in_scope FundSegregationAgent (demo_policy ''sebi.client_fund'' [])"
  "\<not> is_in_scope FundSegregationAgent (demo_policy ''sebi.kyc'' [''no PAN''])"
  "\<not> is_in_scope MarginAgent (demo_policy ''sebi.kyc'' [''no PAN''])"
  "\<not> is_in_scope RiskDisclosureAgent (demo_policy ''sebi.kyc'' [''no PAN''])"
  "\<not> is_in_scope RiskDisclosureAgent (demo_policy ''sebi.margin'' [])"
  "\<not> is_in_scope RiskDisclosureAgent (demo_policy ''sebi.client_fund'' [])"
  "\<not> is_in_scope MarginAgent (demo_policy ''sebi.client_fund'' [])"
  "\<not> is_in_scope FundSegregationAgent (demo_policy ''sebi.margin'' [])"
  by code_simp+

lemma demo_policy_simps: "po_violations (demo_policy pkg vs) = vs" "po_allow (demo_policy pkg vs) = Some (vs = [])"
  by (simp_all add: demo_policy_def)

theorem later_rounds_repeat_witness:
  "snd (consensus_run default_agents (7 / 10) 5 demo_tx [demo_policy ''sebi.margin'' [''short'']])
   = snd (consensus_run default_agents (7 / 10) 2 demo_tx [demo_policy ''sebi.margin'' [''short'']])"
  using later_rounds_repeat [of 5 default_agents "7 / 10" demo_tx "[demo_policy ''sebi.margin'' [''short'']]"] by simp

theorem violation_never_allowed_witness:
  "\<exists>st' res. negotiate demo_negotiation ''n'' ''c'' 5 demo_tx [demo_policy ''sebi.client_fund'' [], demo_policy ''sebi.margin'' [''short'']] demo_room
     = (st', Inr res) \<and> final_decision res \<noteq> ALLOW"
proof -
  let ?os = "[demo_policy ''sebi.client_fund'' [], demo_policy ''sebi.margin'' [''short'']]"
  obtain st' res where n: "negotiate demo_negotiation ''n'' ''c'' 5 demo_tx ?os demo_room = (st', Inr res)"
    using negotiate_total [of demo_negotiation "''n''" "''c''" 5 demo_tx ?os demo_room] by (auto simp: demo_settings)
  have "final_decision res \<noteq> ALLOW"
    by (rule violation_never_allowed [where x = "demo_policy ''sebi.margin'' [''short'']" and ag = MarginAgent, OF _ _ _ _ _ _ _ _ n])
       (simp_all add: demo_settings demo_scope demo_policy_simps)
  with n show ?thesis by blast
qed

theorem negotiation_recorded_witness:
  "\<exists>st' res. negotiate demo_negotiation ''n'' ''c'' 5 demo_tx [] demo_room = (st', Inr res)
     \<and> ng_transcripts st' ''n'' = map ROUND_RECORD (ng_rounds res) @ [OUTCOME_RECORD res]"
  using negotiation_recorded [of demo_negotiation "''n''" "''c''" 5 demo_tx "[]" demo_room]
  by (auto simp: demo_settings demo_room_def)

theorem unscoped_violation_allowed_witness:
  "\<exists>st' res. negotiate demo_negotiation ''n'' ''c'' 5 demo_tx
      [demo_policy ''sebi.margin'' [], demo_policy ''sebi.client_fund'' [], demo_policy ''sebi.kyc'' [''no PAN'']] demo_room = (st', Inr res)
     \<and> final_decision res = ALLOW"
proof -
  let ?os = "[demo_policy ''sebi.margin'' [], demo_policy ''sebi.client_fund'' [], demo_policy ''sebi.kyc'' [''no PAN'']]"
  have scoped: "scoped_outcomes MarginAgent ?os = [demo_policy ''sebi.margin'' []]" "scoped_outcomes RiskDisclosureAgent ?os = []"
    "scoped_outcomes FundSegregationAgent ?os = [demo_policy ''sebi.client_fund'' []]"
    by (simp_all add: scoped_outcomes_def demo_scope)
  have "should_negotiate ?os default_agents"
    by (simp add: should_negotiate_def scoped default_domains)
  then show ?thesis
    using unscoped_violation_allowed [of ?os demo_negotiation "demo_policy ''sebi.kyc'' [''no PAN'']" "''n''" "''c''" 5 demo_tx demo_room]
    by (auto simp: demo_settings scoped default_weights demo_policy_simps)
qed

end
