(* ===== verification/Arbitration.thy ===== *)
theory Arbitration
  imports Prompt_Guard Doc_Hashing Regulatory_Facts Py_Json Redis_Store
begin

text \<open>
  The arbitration of a clause between an extractor and an auditor, \<open>app/negotiation\<close>:
  the records (\<open>arbitration_models.py\<close>), the engine (\<open>arbitration_engine.py\<close>), the
  transcript store (\<open>arbitration_store.py\<close>) and the gate to human review
  (\<open>hitl_bridge.py\<close>). A discrepancy is kept as what it reports; its text, in which
  Python prints sets in no fixed order, is an argument, as are the identifiers,
  the clock, SHA-256, and how far a call got before its time limit. The time to
  live of stored transcripts is left out.
\<close>

section \<open>Records\<close>

datatype AgentRole = EXTRACTOR | AUDITOR | ARBITER

fun role_value :: "AgentRole \<Rightarrow> string" where
  "role_value EXTRACTOR = ''extractor''"
| "role_value AUDITOR = ''auditor''"
| "role_value ARBITER = ''arbiter''"

datatype ArbitrationOutcome = AO_CONSENSUS | AO_DISAGREEMENT | AO_REVIEW_REQUIRED | AO_SECURITY_BLOCKED | AO_TIMEOUT

fun arb_outcome_value :: "ArbitrationOutcome \<Rightarrow> string" where
  "arb_outcome_value AO_CONSENSUS = ''consensus''"
| "arb_outcome_value AO_DISAGREEMENT = ''disagreement''"
| "arb_outcome_value AO_REVIEW_REQUIRED = ''review_required''"
| "arb_outcome_value AO_SECURITY_BLOCKED = ''security_blocked''"
| "arb_outcome_value AO_TIMEOUT = ''timeout''"

record ModelAttribution =
  ma_role :: AgentRole
  provider_type :: string
  model_name :: string
  checkpoint_id :: "string option"
  temperature :: pyfloat

record CanonicalFactClaim =
  fc_metric :: string
  fc_canonical_fact :: "string option"
  fc_operator :: string
  fc_value :: pyfloat
  fc_unit :: string
  verbatim_evidence :: string

record AgentArgument =
  argument_id :: string
  aa_role :: AgentRole
  aa_round_number :: int
  interpretation_text :: string
  aa_facts :: "CanonicalFactClaim list"
  relevant_source_text :: "string list"
  source_location :: string
  aa_confidence :: pyfloat
  reasoning_summary :: string
  aa_attribution :: ModelAttribution
  aa_obligation :: "string option"
  target_entities :: "string list"
  is_rebuttal :: bool
  aa_created_at :: time

record ArbitrationRound =
  rd_round_number :: int
  extractor_argument :: AgentArgument
  auditor_argument :: AgentArgument
  discrepancies :: "string list"
  has_material_disagreement :: bool

record ArbiterVerdict =
  verdict_id :: string
  vd_outcome :: ArbitrationOutcome
  chosen_interpretation :: "string option"
  accepted_canonical_facts :: "CanonicalFactClaim list"
  rejected_claims :: "pyval list"
  vd_confidence :: pyfloat
  vd_justification :: string
  vd_attribution :: ModelAttribution
  hitl_escalation_reason :: "string option"
  same_model_risk :: bool
  security_flags :: "string list"
  decided_at :: time

record ArbitrationTranscript =
  session_id :: string
  tr_tenant_id :: string
  tr_circular_id :: string
  tr_clause_id :: string
  tr_source_sha256 :: string
  tr_clause_sha256 :: string
  untrusted_source_text :: string
  tr_rounds :: "ArbitrationRound list"
  arbiter_verdict :: "ArbiterVerdict option"
  final_outcome :: ArbitrationOutcome
  transcript_sha256 :: string
  tr_hitl_review_id :: "string option"
  tr_started_at :: time
  tr_completed_at :: "time option"
  duration_seconds :: "pyfloat option"

section \<open>The seal\<close>

datatype Discrepancy =
    ExtractorQuotes "string list"
  | AuditorQuotes "string list"
  | ObligationMismatch string string
  | EntitiesMismatch "string list" "string list"
  | ThresholdMismatch string CanonicalFactClaim CanonicalFactClaim
  | OperatorMismatch string string string
  | ExtractorConfidence pyfloat pyfloat
  | AuditorConfidence pyfloat pyfloat

record arb_env =
  describe :: "Discrepancy \<Rightarrow> string"
  ar_fr :: "rat \<Rightarrow> string"
  stamp :: "time \<Rightarrow> string"
  ar_sha :: "string \<Rightarrow> string"

definition opt_str :: "string option \<Rightarrow> pyval" where
  "opt_str x = (case x of None \<Rightarrow> PNone | Some s \<Rightarrow> PStr s)"

definition attribution_dump :: "ModelAttribution \<Rightarrow> pyval" where
  "attribution_dump m = PDict [(''agent_role'', PStr (role_value (ma_role m))), (''provider_type'', PStr (provider_type m)),
     (''model_name'', PStr (model_name m)), (''checkpoint_id'', opt_str (checkpoint_id m)), (''temperature'', PFloat (temperature m))]"

definition claim_dump :: "CanonicalFactClaim \<Rightarrow> pyval" where
  "claim_dump f = PDict [(''metric'', PStr (fc_metric f)), (''canonical_fact'', opt_str (fc_canonical_fact f)),
     (''operator'', PStr (fc_operator f)), (''value'', PFloat (fc_value f)), (''unit'', PStr (fc_unit f)),
     (''verbatim_evidence'', PStr (verbatim_evidence f))]"

definition verdict_dump :: "arb_env \<Rightarrow> ArbiterVerdict \<Rightarrow> pyval" where
  "verdict_dump env v = PDict [(''verdict_id'', PStr (verdict_id v)), (''outcome'', PStr (arb_outcome_value (vd_outcome v))),
     (''chosen_interpretation'', opt_str (chosen_interpretation v)),
     (''accepted_canonical_facts'', PList (map claim_dump (accepted_canonical_facts v))), (''rejected_claims'', PList (rejected_claims v)),
     (''confidence'', PFloat (vd_confidence v)), (''justification'', PStr (vd_justification v)),
     (''attribution'', attribution_dump (vd_attribution v)), (''hitl_escalation_reason'', opt_str (hitl_escalation_reason v)),
     (''same_model_risk'', PBool (same_model_risk v)), (''security_flags'', PList (map PStr (security_flags v))),
     (''decided_at'', PStr (stamp env (decided_at v)))]"

definition sealed_fields :: "arb_env \<Rightarrow> ArbitrationTranscript \<Rightarrow> pyval" where
  "sealed_fields env t = PDict [(''session_id'', PStr (session_id t)), (''tenant_id'', PStr (tr_tenant_id t)),
     (''circular_id'', PStr (tr_circular_id t)), (''clause_id'', PStr (tr_clause_id t)),
     (''source_document_sha256'', PStr (tr_source_sha256 t)), (''clause_sha256'', PStr (tr_clause_sha256 t)),
     (''final_outcome'', PStr (arb_outcome_value (final_outcome t))), (''rounds_count'', PInt (int (length (tr_rounds t)))),
     (''verdict'', case arbiter_verdict t of None \<Rightarrow> PNone | Some v \<Rightarrow> verdict_dump env v)]"

definition compute_hash :: "arb_env \<Rightarrow> ArbitrationTranscript \<Rightarrow> string result" where
  "compute_hash env t = bind_res (json_dumps_canonical (ar_fr env) (sealed_fields env t)) (\<lambda>s. Inr (ar_sha env s))"

definition seal :: "arb_env \<Rightarrow> ArbitrationTranscript \<Rightarrow> ArbitrationTranscript result" where
  "seal env t = bind_res (compute_hash env t) (\<lambda>h. Inr (t\<lparr>transcript_sha256 := h\<rparr>))"

section \<open>The store\<close>

datatype arb_value = Doc ArbitrationTranscript | Summary "(string \<times> string) list" | Field string

record arb_store =
  ar_prefix :: string
  ar_redis :: "arb_value redis option"
  memory_store :: "string \<rightharpoonup> arb_value"

definition summary_key :: "arb_store \<Rightarrow> string \<Rightarrow> string \<Rightarrow> string" where
  "summary_key st tenant sid = ar_prefix st @ '':'' @ tenant @ '':'' @ sid @ '':summary''"

definition transcript_key :: "arb_store \<Rightarrow> string \<Rightarrow> string \<Rightarrow> string" where
  "transcript_key st tenant sid = ar_prefix st @ '':'' @ tenant @ '':'' @ sid @ '':transcript''"

definition summary_of :: "ArbitrationTranscript \<Rightarrow> (string \<times> string) list" where
  "summary_of t = [(''session_id'', session_id t), (''tenant_id'', tr_tenant_id t), (''circular_id'', tr_circular_id t),
     (''clause_id'', tr_clause_id t), (''final_outcome'', arb_outcome_value (final_outcome t)),
     (''rounds_count'', nat_str (length (tr_rounds t))), (''transcript_sha256'', transcript_sha256 t),
     (''hitl_review_id'', case tr_hitl_review_id t of None \<Rightarrow> [] | Some i \<Rightarrow> i)]"

definition remember :: "ArbitrationTranscript \<Rightarrow> arb_store \<Rightarrow> arb_store" where
  "remember t st = st\<lparr>memory_store := (memory_store st)
     (transcript_key st (tr_tenant_id t) (session_id t) \<mapsto> Doc t, summary_key st (tr_tenant_id t) (session_id t) \<mapsto> Summary (summary_of t))\<rparr>"

definition persist :: "ArbitrationTranscript \<Rightarrow> arb_store \<Rightarrow> arb_value redis \<Rightarrow> arb_value redis" where
  "persist t st db =
     foldl (\<lambda>db (k, v). r_hset (summary_key st (tr_tenant_id t) (session_id t)) k (Field v) db)
       (r_put (transcript_key st (tr_tenant_id t) (session_id t)) (Doc t) db) (summary_of t)"

text \<open>\<open>up\<close>: Redis answers during the call.\<close>

definition save_transcript :: "arb_env \<Rightarrow> bool \<Rightarrow> ArbitrationTranscript \<Rightarrow> arb_store \<Rightarrow> arb_store \<times> ArbitrationTranscript result" where
  "save_transcript env up t st =
     (if strip (tr_tenant_id t) = [] then
        (st, raise (ValueError ''tenant_id is mandatory for arbitration transcript storage to enforce isolation.''))
      else case seal env t of
        Inl e \<Rightarrow> (st, raise e)
      | Inr t' \<Rightarrow>
          (case ar_redis st of
             None \<Rightarrow> (remember t' st, Inr t')
           | Some db \<Rightarrow> (if up then st\<lparr>ar_redis := Some (persist t' st db)\<rparr> else remember t' st, Inr t')))"

definition get_transcript :: "arb_env \<Rightarrow> bool \<Rightarrow> string \<Rightarrow> string \<Rightarrow> arb_store \<Rightarrow> ArbitrationTranscript option result" where
  "get_transcript env up tenant sid st =
     (if strip tenant = [] then raise (ValueError ''tenant_id is required to retrieve arbitration transcript.'')
      else
        let k = transcript_key st tenant sid;
            raw = (case ar_redis st of None \<Rightarrow> memory_store st k | Some db \<Rightarrow> if up then r_get db k else memory_store st k)
        in case raw of
             Some (Doc t) \<Rightarrow>
               if tr_tenant_id t \<noteq> tenant then Inr None
               else bind_res (compute_hash env t) (\<lambda>h.
                 if h \<noteq> transcript_sha256 t then raise (ValueError (''Tamper detected: transcript digest mismatch for session '' @ sid))
                 else Inr (Some t))
           | _ \<Rightarrow> Inr None)"

section \<open>Cross-examination\<close>

record arb_settings =
  arbitration_arbiter_provider :: "string option"
  arbitration_arbiter_model :: "string option"
  hf_model_id :: string
  default_provider_type :: string
  arbitration_confidence_threshold :: pyfloat
  arbitration_max_rounds :: int
  arbitration_timeout_seconds :: pyfloat

text \<open>
  The settings have no field \<open>llm_fallback_provider\<close>, which is read when no provider is
  configured for the arbiter; \<open>llm_fallback_model_id\<close>, which does not exist either, is read
  with a default.
\<close>

definition resolve_arbiter_attribution :: "arb_settings \<Rightarrow> ModelAttribution result" where
  "resolve_arbiter_attribution cfg =
     (if \<not> truthy_str (arbitration_arbiter_provider cfg) then raise AttributeError
      else
        let m = (if truthy_str (arbitration_arbiter_model cfg) then the (arbitration_arbiter_model cfg) else hf_model_id cfg)
        in Inr \<lparr>ma_role = ARBITER, provider_type = the (arbitration_arbiter_provider cfg), model_name = m,
                checkpoint_id = Some (''chk-'' @ m), temperature = Fin 0\<rparr>)"

definition normalized :: "string \<Rightarrow> string" where
  "normalized s = py_lower (join '' '' (split_ws s))"

definition quote_found :: "string \<Rightarrow> string \<Rightarrow> bool" where
  "quote_found raw q \<longleftrightarrow> normalized q \<noteq> [] \<and> substring (normalized q) (normalized raw)"

definition verify_quotes :: "string list \<Rightarrow> string \<Rightarrow> string list \<times> string list" where
  "verify_quotes quotes raw = (filter (quote_found raw) quotes, filter (\<lambda>q. \<not> quote_found raw q) quotes)"

definition claim_resolution :: "CanonicalFactClaim \<Rightarrow> FactResolutionResult" where
  "claim_resolution f = resolve_canonical_fact (fc_metric f) (Some (fc_unit f)) (Some (fc_value f)) None"

text \<open>The second component, the claims that are not valid, is what the error texts are about.\<close>

definition validate_canonical_facts :: "CanonicalFactClaim list \<Rightarrow> CanonicalFactClaim list \<times> CanonicalFactClaim list" where
  "validate_canonical_facts facts =
     (map (\<lambda>f. f\<lparr>fc_canonical_fact := canonical_identifier (claim_resolution f)\<rparr>) (filter (\<lambda>f. fr_is_valid (claim_resolution f)) facts),
      filter (\<lambda>f. \<not> fr_is_valid (claim_resolution f)) facts)"

definition facts_by_metric :: "CanonicalFactClaim list \<Rightarrow> (string \<times> CanonicalFactClaim) list" where
  "facts_by_metric fs = foldl (\<lambda>d f. dict_set (py_lower (fc_metric f)) f d) [] fs"

definition entity_names :: "AgentArgument \<Rightarrow> string list" where
  "entity_names x = map (\<lambda>s. strip (py_lower s)) (target_entities x)"

definition fact_discrepancies :: "(string \<times> CanonicalFactClaim) list \<Rightarrow> string \<times> CanonicalFactClaim \<Rightarrow> Discrepancy list" where
  "fact_discrepancies aud p =
     (case p of (metric, ef) \<Rightarrow>
        case map_of aud metric of
          None \<Rightarrow> []
        | Some af \<Rightarrow>
            (if \<not> flt_eq (fc_value ef) (fc_value af) then [ThresholdMismatch metric ef af] else [])
            @ (if fc_operator ef \<noteq> fc_operator af then [OperatorMismatch metric (fc_operator ef) (fc_operator af)] else []))"

definition obligation_discrepancies :: "AgentArgument \<Rightarrow> AgentArgument \<Rightarrow> Discrepancy list" where
  "obligation_discrepancies e a =
     (if truthy_str (aa_obligation e) \<and> truthy_str (aa_obligation a)
         \<and> py_lower (the (aa_obligation e)) \<noteq> py_lower (the (aa_obligation a))
      then [ObligationMismatch (the (aa_obligation e)) (the (aa_obligation a))] else [])"

definition entity_discrepancies :: "AgentArgument \<Rightarrow> AgentArgument \<Rightarrow> Discrepancy list" where
  "entity_discrepancies e a =
     (if entity_names e \<noteq> [] \<and> entity_names a \<noteq> [] \<and> set (entity_names e) \<noteq> set (entity_names a)
      then [EntitiesMismatch (entity_names e) (entity_names a)] else [])"

definition cross_examine_round :: "arb_settings \<Rightarrow> AgentArgument \<Rightarrow> AgentArgument \<Rightarrow> string \<Rightarrow> Discrepancy list" where
  "cross_examine_round cfg e a source_text =
     (let eq = snd (verify_quotes (relevant_source_text e) source_text);
          aq = snd (verify_quotes (relevant_source_text a) source_text);
          bar = arbitration_confidence_threshold cfg
      in (if eq \<noteq> [] then [ExtractorQuotes eq] else []) @ (if aq \<noteq> [] then [AuditorQuotes aq] else [])
         @ obligation_discrepancies e a @ entity_discrepancies e a
         @ concat (map (fact_discrepancies (facts_by_metric (aa_facts a))) (facts_by_metric (aa_facts e)))
         @ (if flt_less (aa_confidence e) bar then [ExtractorConfidence (aa_confidence e) bar] else [])
         @ (if flt_less (aa_confidence a) bar then [AuditorConfidence (aa_confidence a) bar] else []))"

definition check_same_model_risk :: "AgentArgument \<Rightarrow> AgentArgument \<Rightarrow> ModelAttribution \<Rightarrow> bool" where
  "check_same_model_risk e a arb \<longleftrightarrow>
     model_name (aa_attribution e) = model_name (aa_attribution a) \<and> model_name (aa_attribution a) = model_name arb"

fun role_title :: "AgentRole \<Rightarrow> string" where
  "role_title EXTRACTOR = ''Extractor''"
| "role_title AUDITOR = ''Auditor''"
| "role_title ARBITER = ''Arbiter''"

definition generate_default_argument :: "arb_settings \<Rightarrow> string \<Rightarrow> time \<Rightarrow> AgentRole \<Rightarrow> string \<Rightarrow> string \<Rightarrow> int \<Rightarrow> AgentArgument" where
  "generate_default_argument cfg uuid now r clause_text cid n =
     (let first_sentence = (if clause_text = [] then [] else hd (split_char CHR ''.'' (strip clause_text)))
      in \<lparr>argument_id = uuid, aa_role = r, aa_round_number = n,
          interpretation_text = role_title r @ '' interpretation: '' @ first_sentence, aa_facts = [],
          relevant_source_text = (if first_sentence = [] then [] else [first_sentence]), source_location = cid, aa_confidence = Fin (9 / 10),
          reasoning_summary = ''Grounded directly in source sentence: '' @ [CHR 0x27] @ first_sentence @ [CHR 0x27],
          aa_attribution = \<lparr>ma_role = r, provider_type = default_provider_type cfg, model_name = hf_model_id cfg,
            checkpoint_id = Some (''chk-'' @ role_value r), temperature = Fin 0\<rparr>,
          aa_obligation = Some ''mandatory'', target_entities = [], is_rebuttal = False, aa_created_at = now\<rparr>)"

section \<open>Deliberation\<close>

definition rebut :: "int \<Rightarrow> AgentArgument \<Rightarrow> AgentArgument" where
  "rebut n x = (if n > 1 then x\<lparr>aa_round_number := n, is_rebuttal := True\<rparr> else x)"

text \<open>The loop with \<open>k\<close> rounds left, \<open>n\<close> the number of the next: its rounds, and whether it ended in consensus.\<close>

fun deliberate :: "arb_env \<Rightarrow> arb_settings \<Rightarrow> string \<Rightarrow> nat \<Rightarrow> int \<Rightarrow> AgentArgument \<Rightarrow> AgentArgument \<Rightarrow> ArbitrationRound list \<times> bool" where
  "deliberate env cfg text 0 n e a = ([], False)"
| "deliberate env cfg text (Suc k) n e a =
     (let e = rebut n e; a = rebut n a;
          ds = cross_examine_round cfg e a text;
          r = \<lparr>rd_round_number = n, extractor_argument = e, auditor_argument = a, discrepancies = map (describe env) ds,
               has_material_disagreement = ds \<noteq> []\<rparr>
      in if ds = [] then ([r], True)
         else case deliberate env cfg text k (n + 1) e a of (rs, c) \<Rightarrow> (r # rs, c))"

text \<open>Python's \<open>min(x, y)\<close> on floats.\<close>

definition flt_min :: "pyfloat \<Rightarrow> pyfloat \<Rightarrow> pyfloat" where
  "flt_min x y = (if flt_less y x then y else x)"

record clause_input =
  ci_text :: string
  ci_clause_id :: string
  ci_circular_id :: string
  ci_source_sha256 :: string
  ci_clause_sha256 :: string
  ci_tenant_id :: string
  extractor_override :: "AgentArgument option"
  auditor_override :: "AgentArgument option"
  ci_max_rounds :: "int option"
  ci_timeout :: "pyfloat option"

text \<open>How far the deliberation got before the limit of time: to its end, into the storing of its
  transcript (which had taken effect or not), or not even started, for a limit that is negative.\<close>

datatype progress = InTime | CutAtSave bool | NeverStarted

record arb_call =
  ac_session_id :: string
  ac_verdict_id :: string
  ac_timeout_id :: string
  ac_extractor_id :: string
  ac_auditor_id :: string
  ac_now :: time
  ac_took :: pyfloat
  ac_up :: bool
  ac_progress :: progress

definition blank_verdict :: "arb_call \<Rightarrow> ModelAttribution \<Rightarrow> ArbitrationOutcome \<Rightarrow> pyfloat \<Rightarrow> string \<Rightarrow> ArbiterVerdict" where
  "blank_verdict call arb oc c why =
     \<lparr>verdict_id = ac_verdict_id call, vd_outcome = oc, chosen_interpretation = None, accepted_canonical_facts = [], rejected_claims = [],
      vd_confidence = c, vd_justification = why, vd_attribution = arb, hitl_escalation_reason = None, same_model_risk = False,
      security_flags = [], decided_at = ac_now call\<rparr>"

definition close_transcript :: "arb_call \<Rightarrow> ArbiterVerdict \<Rightarrow> ArbitrationTranscript \<Rightarrow> ArbitrationTranscript" where
  "close_transcript call v t =
     t\<lparr>arbiter_verdict := Some v, final_outcome := vd_outcome v, tr_completed_at := Some (ac_now call), duration_seconds := Some (ac_took call)\<rparr>"

definition new_transcript :: "arb_call \<Rightarrow> clause_input \<Rightarrow> ArbitrationTranscript" where
  "new_transcript call inp =
     \<lparr>session_id = ac_session_id call, tr_tenant_id = ci_tenant_id inp, tr_circular_id = ci_circular_id inp, tr_clause_id = ci_clause_id inp,
      tr_source_sha256 = ci_source_sha256 inp, tr_clause_sha256 = ci_clause_sha256 inp, untrusted_source_text = ci_text inp, tr_rounds = [],
      arbiter_verdict = None, final_outcome = AO_REVIEW_REQUIRED, transcript_sha256 = [], tr_hitl_review_id = None,
      tr_started_at = ac_now call, tr_completed_at = None, duration_seconds = None\<rparr>"

definition consensus_verdict :: "arb_call \<Rightarrow> ModelAttribution \<Rightarrow> bool \<Rightarrow> ArbitrationRound \<Rightarrow> ArbiterVerdict" where
  "consensus_verdict call arb risk r =
     (let e = extractor_argument r; a = auditor_argument r; facts = fst (validate_canonical_facts (aa_facts e))
      in (blank_verdict call arb AO_CONSENSUS (flt_min (aa_confidence e) (aa_confidence a))
           (''Extractor and Auditor achieved consensus on round '' @ int_str (rd_round_number r) @ ''. All '' @ nat_str (length facts)
            @ '' canonical fact(s) verified against source quotes.''
            @ (if risk then '' [NOTE: Same-checkpoint reasoning used; independent verification recommended.]'' else [])))
         \<lparr>chosen_interpretation := Some (interpretation_text e), accepted_canonical_facts := facts, same_model_risk := risk\<rparr>)"

definition deadlock_verdict :: "arb_call \<Rightarrow> ModelAttribution \<Rightarrow> bool \<Rightarrow> ArbitrationRound list \<Rightarrow> ArbiterVerdict" where
  "deadlock_verdict call arb risk rounds =
     (blank_verdict call arb AO_REVIEW_REQUIRED (Fin (1 / 2))
       (''Multi-agent debate deadlocked after '' @ nat_str (length rounds) @ '' round(s). Unresolved discrepancies: ''
        @ join ''; '' (discrepancies (last rounds)) @ ''. Escalated to Human-in-the-Loop review.''
        @ (if risk then '' [WARNING: Same-checkpoint reasoning detected. Arguments lack model diversity.]'' else [])))
     \<lparr>hitl_escalation_reason := Some ''material_disagreement'', same_model_risk := risk\<rparr>"

definition argument_of :: "arb_settings \<Rightarrow> arb_call \<Rightarrow> clause_input \<Rightarrow> AgentRole \<Rightarrow> AgentArgument" where
  "argument_of cfg call inp r =
     (case (if r = EXTRACTOR then extractor_override inp else auditor_override inp) of
        Some x \<Rightarrow> x
      | None \<Rightarrow> generate_default_argument cfg (if r = EXTRACTOR then ac_extractor_id call else ac_auditor_id call) (ac_now call) r
                  (ci_text inp) (ci_clause_id inp) 1)"

definition rounds_limit :: "arb_settings \<Rightarrow> clause_input \<Rightarrow> int" where
  "rounds_limit cfg inp = (case ci_max_rounds inp of Some n \<Rightarrow> if n \<noteq> 0 then n else arbitration_max_rounds cfg | None \<Rightarrow> arbitration_max_rounds cfg)"

text \<open>What the deliberation has made of the transcript when it comes to storing it.\<close>

definition run_deliberation :: "arb_env \<Rightarrow> arb_settings \<Rightarrow> arb_call \<Rightarrow> clause_input \<Rightarrow> ModelAttribution \<Rightarrow> ArbitrationTranscript result" where
  "run_deliberation env cfg call inp arb =
     (let e = argument_of cfg call inp EXTRACTOR; a = argument_of cfg call inp AUDITOR;
          risk = check_same_model_risk e a arb
      in case deliberate env cfg (ci_text inp) (nat (rounds_limit cfg inp)) 1 e a of (rounds, agreed) \<Rightarrow>
           if agreed then Inr (close_transcript call (consensus_verdict call arb risk (last rounds)) ((new_transcript call inp)\<lparr>tr_rounds := rounds\<rparr>))
           else if rounds = [] then raise IndexError
           else Inr (close_transcript call (deadlock_verdict call arb risk rounds) ((new_transcript call inp)\<lparr>tr_rounds := rounds\<rparr>)))"

definition time_limit :: "arb_settings \<Rightarrow> clause_input \<Rightarrow> pyfloat" where
  "time_limit cfg inp =
     (case ci_timeout inp of Some x \<Rightarrow> if flt_eq x (Fin 0) then arbitration_timeout_seconds cfg else x | None \<Rightarrow> arbitration_timeout_seconds cfg)"

definition timeout_verdict :: "arb_env \<Rightarrow> arb_settings \<Rightarrow> arb_call \<Rightarrow> clause_input \<Rightarrow> ModelAttribution \<Rightarrow> ArbiterVerdict" where
  "timeout_verdict env cfg call inp arb =
     (blank_verdict call arb AO_TIMEOUT (Fin 0)
       (''Arbitration exceeded timeout limit ('' @ py_float_str (ar_fr env) (time_limit cfg inp) @ ''s). Escalated to HITL.''))
     \<lparr>verdict_id := ac_timeout_id call, hitl_escalation_reason := Some ''timeout''\<rparr>"

definition security_verdict :: "arb_call \<Rightarrow> ModelAttribution \<Rightarrow> string list \<Rightarrow> ArbiterVerdict" where
  "security_verdict call arb findings =
     (blank_verdict call arb AO_SECURITY_BLOCKED (Fin 1)
       (''CRITICAL SECURITY ALERT: Adversarial prompt injection detected in regulatory text. Details: '' @ join ''; '' findings
        @ ''. Execution halted immediately; routed to HITL for administrative review.''))
     \<lparr>hitl_escalation_reason := Some ''prompt_injection_detected'', security_flags := findings\<rparr>"

definition arbitrate_clause ::
  "arb_env \<Rightarrow> arb_settings \<Rightarrow> arb_call \<Rightarrow> clause_input \<Rightarrow> arb_store \<Rightarrow> arb_store \<times> ArbitrationTranscript result" where
  "arbitrate_clause env cfg call inp st =
     (case resolve_arbiter_attribution cfg of
        Inl ex \<Rightarrow> (st, raise ex)
      | Inr arb \<Rightarrow>
          (case inspect_for_prompt_injection (ci_text inp) of (injected, findings) \<Rightarrow>
            if injected then
              save_transcript env (ac_up call) (close_transcript call (security_verdict call arb findings) (new_transcript call inp)) st
            else
              let timed_out = (\<lambda>t st. save_transcript env (ac_up call) (close_transcript call (timeout_verdict env cfg call inp arb) t) st)
              in case ac_progress call of
                   NeverStarted \<Rightarrow> timed_out (new_transcript call inp) st
                 | InTime \<Rightarrow>
                     (case run_deliberation env cfg call inp arb of
                        Inl ex \<Rightarrow> (st, raise ex)
                      | Inr t \<Rightarrow> save_transcript env (ac_up call) t st)
                 | CutAtSave stored \<Rightarrow>
                     (case run_deliberation env cfg call inp arb of
                        Inl ex \<Rightarrow> (st, raise ex)
                      | Inr t \<Rightarrow>
                          (case save_transcript env True t st of
                             (st', Inl ex) \<Rightarrow> (st', raise ex)
                           | (st', Inr t') \<Rightarrow> timed_out t' (if stored then st' else st)))))"

section \<open>The gate to human review\<close>

definition should_escalate_arbitration_to_hitl :: "ArbitrationTranscript \<Rightarrow> bool" where
  "should_escalate_arbitration_to_hitl t \<longleftrightarrow>
     final_outcome t \<noteq> AO_CONSENSUS
     \<or> (case arbiter_verdict t of None \<Rightarrow> False | Some v \<Rightarrow> security_flags v \<noteq> [] \<or> flt_less (vd_confidence v) (Fin (85 / 100)))"

section \<open>What the deliberation depends on\<close>

lemma rebut_simps [simp]:
  "aa_confidence (rebut n x) = aa_confidence x" "aa_facts (rebut n x) = aa_facts x" "relevant_source_text (rebut n x) = relevant_source_text x"
  "aa_obligation (rebut n x) = aa_obligation x" "target_entities (rebut n x) = target_entities x"
  "interpretation_text (rebut n x) = interpretation_text x"
  by (simp_all add: rebut_def)

lemma cross_examine_rebut: "cross_examine_round cfg (rebut n e) (rebut m a) t = cross_examine_round cfg e a t"
  by (simp only: cross_examine_round_def rebut_simps obligation_discrepancies_def entity_discrepancies_def entity_names_def)

lemma deliberate_agree:
  assumes "cross_examine_round cfg e a t = []" "0 < k"
  shows "deliberate env cfg t k n e a = ([\<lparr>rd_round_number = n, extractor_argument = rebut n e, auditor_argument = rebut n a,
      discrepancies = [], has_material_disagreement = False\<rparr>], True)"
  using assms by (cases k) (simp_all add: Let_def cross_examine_rebut)

lemma deliberate_conflict:
  assumes "cross_examine_round cfg e a t \<noteq> []"
  shows "\<exists>rs. deliberate env cfg t k n e a = (rs, False) \<and> length rs = k"
  using assms
proof (induction k arbitrary: n e a)
  case (Suc k)
  then obtain rs where "deliberate env cfg t k (n + 1) (rebut n e) (rebut n a) = (rs, False)" "length rs = k"
    using cross_examine_rebut [of cfg n e n a t] by metis
  then show ?case using Suc.prems by (simp add: Let_def cross_examine_rebut)
qed simp

lemma close_simps [simp]: "final_outcome (close_transcript call v t) = vd_outcome v" "arbiter_verdict (close_transcript call v t) = Some v"
  "tr_tenant_id (close_transcript call v t) = tr_tenant_id t"
  by (simp_all add: close_transcript_def)

lemma verdict_simps [simp]:
  "vd_outcome (consensus_verdict call arb b r) = AO_CONSENSUS" "security_flags (consensus_verdict call arb b r) = []"
  "vd_outcome (deadlock_verdict call arb b rs) = AO_REVIEW_REQUIRED" "vd_outcome (timeout_verdict env cfg call inp arb) = AO_TIMEOUT"
  "vd_outcome (security_verdict call arb fs) = AO_SECURITY_BLOCKED"
  "vd_confidence (consensus_verdict call arb b r) = flt_min (aa_confidence (extractor_argument r)) (aa_confidence (auditor_argument r))"
  "accepted_canonical_facts (consensus_verdict call arb b r) = fst (validate_canonical_facts (aa_facts (extractor_argument r)))"
  "same_model_risk (consensus_verdict call arb b r) = b"
  by (simp_all add: consensus_verdict_def deadlock_verdict_def timeout_verdict_def security_verdict_def blank_verdict_def Let_def)

lemma rejected_none [simp]:
  "rejected_claims (consensus_verdict call arb b r) = []" "rejected_claims (deadlock_verdict call arb b rs) = []"
  "rejected_claims (timeout_verdict env cfg call inp arb) = []" "rejected_claims (security_verdict call arb fs) = []"
  by (simp_all add: consensus_verdict_def deadlock_verdict_def timeout_verdict_def security_verdict_def blank_verdict_def Let_def)

section \<open>The seal\<close>

lemma verdict_able: "list_all json_able (rejected_claims v) \<Longrightarrow> json_able (verdict_dump env v)"
  by (simp add: verdict_dump_def attribution_dump_def claim_dump_def opt_str_def list_all_iff split: option.split)

lemma compute_hash_ok:
  assumes "\<forall>v. arbiter_verdict t = Some v \<longrightarrow> list_all json_able (rejected_claims v)"
  shows "\<exists>h. compute_hash env t = Inr h"
proof -
  have "json_able (sealed_fields env t)" using assms verdict_able by (simp add: sealed_fields_def split: option.split)
  then show ?thesis using dumps_ok [of "sealed_fields env t" "ar_fr env"] by (auto simp: compute_hash_def)
qed

text \<open>The digest does not see the field that holds it, nor the arguments.\<close>

lemma compute_hash_blind:
  "compute_hash env (t\<lparr>transcript_sha256 := h\<rparr>) = compute_hash env t"
  "length rs = length (tr_rounds t) \<Longrightarrow> compute_hash env (t\<lparr>tr_rounds := rs\<rparr>) = compute_hash env t"
  "compute_hash env (t\<lparr>untrusted_source_text := x\<rparr>) = compute_hash env t"
  by (simp_all add: compute_hash_def sealed_fields_def)

lemma save_ok:
  assumes "\<forall>v. arbiter_verdict t = Some v \<longrightarrow> list_all json_able (rejected_claims v)" "strip (tr_tenant_id t) \<noteq> []"
  shows "\<exists>st' h. save_transcript env up t st = (st', Inr (t\<lparr>transcript_sha256 := h\<rparr>)) \<and> compute_hash env t = Inr h"
proof -
  obtain h where "compute_hash env t = Inr h" using compute_hash_ok [OF assms(1)] by blast
  with assms(2) show ?thesis by (cases "ar_redis st") (auto simp: save_transcript_def seal_def)
qed

section \<open>Who is asked\<close>

lemma run_agreed:
  assumes "cross_examine_round cfg (argument_of cfg call inp EXTRACTOR) (argument_of cfg call inp AUDITOR) (ci_text inp) = []"
    and "1 \<le> rounds_limit cfg inp"
  shows "\<exists>t. run_deliberation env cfg call inp arb = Inr t \<and> tr_tenant_id t = ci_tenant_id inp \<and> final_outcome t = AO_CONSENSUS
    \<and> arbiter_verdict t = Some (consensus_verdict call arb
        (check_same_model_risk (argument_of cfg call inp EXTRACTOR) (argument_of cfg call inp AUDITOR) arb)
        \<lparr>rd_round_number = 1, extractor_argument = argument_of cfg call inp EXTRACTOR, auditor_argument = argument_of cfg call inp AUDITOR,
         discrepancies = [], has_material_disagreement = False\<rparr>)"
  using assms by (simp add: run_deliberation_def deliberate_agree Let_def new_transcript_def rebut_def)

lemma run_conflict:
  assumes "cross_examine_round cfg (argument_of cfg call inp EXTRACTOR) (argument_of cfg call inp AUDITOR) (ci_text inp) \<noteq> []"
    and "1 \<le> rounds_limit cfg inp"
  shows "\<exists>t risk rs. run_deliberation env cfg call inp arb = Inr t \<and> tr_tenant_id t = ci_tenant_id inp
    \<and> final_outcome t = AO_REVIEW_REQUIRED \<and> arbiter_verdict t = Some (deadlock_verdict call arb risk rs)"
proof -
  obtain rs where rs: "deliberate env cfg (ci_text inp) (nat (rounds_limit cfg inp)) 1 (argument_of cfg call inp EXTRACTOR)
      (argument_of cfg call inp AUDITOR) = (rs, False)" "length rs = nat (rounds_limit cfg inp)"
    using deliberate_conflict [OF assms(1)] by blast
  then have "rs \<noteq> []" using assms(2) by auto
  with rs show ?thesis by (auto simp: run_deliberation_def Let_def new_transcript_def)
qed

lemma escalate_closed:
  "should_escalate_arbitration_to_hitl (t\<lparr>transcript_sha256 := h\<rparr>) = should_escalate_arbitration_to_hitl t"
  by (simp add: should_escalate_arbitration_to_hitl_def)

text \<open>
  Claim C38. Which clauses pass without a human. With a provider configured for the
  arbiter, a tenant and at least one round, every call returns a transcript, and it
  needs no review exactly when no injected instruction was found, the
  call ended in time, the cross-examination of the two arguments found nothing,
  and neither confidence is below 0.85. The number of rounds plays no part.
\<close>

theorem review_skipped_iff:
  assumes "truthy_str (arbitration_arbiter_provider cfg)" "strip (ci_tenant_id inp) \<noteq> []" "1 \<le> rounds_limit cfg inp"
  shows "\<exists>st' t. arbitrate_clause env cfg call inp st = (st', Inr t)
    \<and> (\<not> should_escalate_arbitration_to_hitl t \<longleftrightarrow>
        \<not> fst (inspect_for_prompt_injection (ci_text inp)) \<and> ac_progress call = InTime
        \<and> cross_examine_round cfg (argument_of cfg call inp EXTRACTOR) (argument_of cfg call inp AUDITOR) (ci_text inp) = []
        \<and> \<not> flt_less (flt_min (aa_confidence (argument_of cfg call inp EXTRACTOR)) (aa_confidence (argument_of cfg call inp AUDITOR))) (Fin (85 / 100)))"
proof -
  obtain arb where arb: "resolve_arbiter_attribution cfg = Inr arb" using assms(1) by (simp add: resolve_arbiter_attribution_def Let_def)
  obtain inj fs where inj: "inspect_for_prompt_injection (ci_text inp) = (inj, fs)" by (cases "inspect_for_prompt_injection (ci_text inp)")
  let ?clean = "cross_examine_round cfg (argument_of cfg call inp EXTRACTOR) (argument_of cfg call inp AUDITOR) (ci_text inp) = []"
  have saved: "\<exists>st' h. save_transcript env (ac_up call) (close_transcript call v t) st1 = (st', Inr ((close_transcript call v t)\<lparr>transcript_sha256 := h\<rparr>))"
    if "rejected_claims v = []" "tr_tenant_id t = ci_tenant_id inp" for v t st1
    using save_ok [of "close_transcript call v t" env "ac_up call" st1] that assms(2) by auto
  obtain t v where run: "run_deliberation env cfg call inp arb = Inr t" "tr_tenant_id t = ci_tenant_id inp" "arbiter_verdict t = Some v"
    "rejected_claims v = []" "(final_outcome t = AO_CONSENSUS \<and> security_flags v = [] \<and> vd_confidence v =
        flt_min (aa_confidence (argument_of cfg call inp EXTRACTOR)) (aa_confidence (argument_of cfg call inp AUDITOR)) \<and> ?clean)
      \<or> (final_outcome t = AO_REVIEW_REQUIRED \<and> \<not> ?clean)"
    using run_agreed [of cfg call inp env arb] run_conflict [of cfg call inp env arb] assms(3) by (cases ?clean) fastforce+
  have able: "\<forall>v. arbiter_verdict t = Some v \<longrightarrow> list_all json_able (rejected_claims v)" using run(3,4) by simp
  have done_ok: "\<exists>st' h. save_transcript env up t st1 = (st', Inr (t\<lparr>transcript_sha256 := h\<rparr>))" for up st1
    using save_ok [OF able, of env up st1] run(2) assms(2) by auto
  show ?thesis
  proof (cases inj)
    case True
    with saved [of "security_verdict call arb fs" "new_transcript call inp" st] show ?thesis
      by (auto simp: arbitrate_clause_def arb inj should_escalate_arbitration_to_hitl_def new_transcript_def)
  next
    case False
    note start = arbitrate_clause_def arb inj False run(1) Let_def
    show ?thesis
    proof (cases "ac_progress call")
      case InTime
      obtain st' h where "save_transcript env (ac_up call) t st = (st', Inr (t\<lparr>transcript_sha256 := h\<rparr>))" using done_ok by blast
      then show ?thesis using InTime run(3,5) by (auto simp: start escalate_closed should_escalate_arbitration_to_hitl_def)
    next
      case (CutAtSave stored)
      obtain st1 h where "save_transcript env True t st = (st1, Inr (t\<lparr>transcript_sha256 := h\<rparr>))" using done_ok by blast
      with saved [of "timeout_verdict env cfg call inp arb" "t\<lparr>transcript_sha256 := h\<rparr>" "if stored then st1 else st"] CutAtSave run(2)
      show ?thesis by (auto simp: start should_escalate_arbitration_to_hitl_def)
    next
      case NeverStarted
      with saved [of "timeout_verdict env cfg call inp arb" "new_transcript call inp" st] show ?thesis
        by (auto simp: start should_escalate_arbitration_to_hitl_def new_transcript_def)
    qed
  qed
qed

text \<open>
  Without a provider configured for the arbiter, as the defaults have it, no
  clause can be arbitrated: the fallback read next is no field of the settings, and
  every call raises an AttributeError before the text is looked at.
\<close>

theorem arbitration_needs_provider:
  assumes "\<not> truthy_str (arbitration_arbiter_provider cfg)"
  shows "arbitrate_clause env cfg call inp st = (st, raise AttributeError)"
  using assms by (simp add: arbitrate_clause_def resolve_arbiter_attribution_def)

text \<open>The extractor and the auditor may be one model without a warning, as long as the arbiter is another.\<close>

theorem shared_model_unflagged:
  assumes "extractor_override inp = None" "auditor_override inp = None" "resolve_arbiter_attribution cfg = Inr arb"
    and "truthy_str (arbitration_arbiter_model cfg)" "the (arbitration_arbiter_model cfg) \<noteq> hf_model_id cfg"
  shows "model_name (aa_attribution (argument_of cfg call inp EXTRACTOR)) = model_name (aa_attribution (argument_of cfg call inp AUDITOR))
    \<and> \<not> check_same_model_risk (argument_of cfg call inp EXTRACTOR) (argument_of cfg call inp AUDITOR) arb"
  using assms by (auto simp: argument_of_def generate_default_argument_def check_same_model_risk_def resolve_arbiter_attribution_def Let_def split: if_splits)

section \<open>What a consensus rests on\<close>

lemma dict_set_map: "dict_set k (g v) (map (\<lambda>(k, x). (k, g x)) d) = map (\<lambda>(k, x). (k, g x)) (dict_set k v d)"
  by (induction k v d rule: dict_set.induct) auto

lemma facts_by_metric_map:
  assumes "\<And>f. fc_metric (g f) = fc_metric f"
  shows "facts_by_metric (map g fs) = map (\<lambda>(k, x). (k, g x)) (facts_by_metric fs)"
proof -
  have "foldl (\<lambda>d f. dict_set (py_lower (fc_metric f)) f d) (map (\<lambda>(k, x). (k, g x)) d) (map g fs)
      = map (\<lambda>(k, x). (k, g x)) (foldl (\<lambda>d f. dict_set (py_lower (fc_metric f)) f d) d fs)" for d
    by (induction fs arbitrary: d) (simp_all add: assms dict_set_map)
  from this [of "[]"] show ?thesis by (simp add: facts_by_metric_def)
qed

lemma fact_discrepancies_blind:
  assumes "\<And>f. fc_value (g f) = fc_value f \<and> fc_operator (g f) = fc_operator f" "\<And>f. fc_value (h f) = fc_value f \<and> fc_operator (h f) = fc_operator f"
  shows "fact_discrepancies (map (\<lambda>(k, x). (k, h x)) aud) (k, g ef) = [] \<longleftrightarrow> fact_discrepancies aud (k, ef) = []"
proof -
  have "map_of (map (\<lambda>(k, x). (k, h x)) aud) k = map_option h (map_of aud k)" by (induction aud) auto
  then show ?thesis by (cases "map_of aud k") (simp_all add: fact_discrepancies_def assms)
qed

text \<open>Of the facts only metric, operator and value are compared.\<close>

lemma cross_examine_blind:
  assumes "\<And>f. fc_metric (g f) = fc_metric f \<and> fc_value (g f) = fc_value f \<and> fc_operator (g f) = fc_operator f"
    and "\<And>f. fc_metric (h f) = fc_metric f \<and> fc_value (h f) = fc_value f \<and> fc_operator (h f) = fc_operator f"
  shows "cross_examine_round cfg (e\<lparr>aa_facts := map g (aa_facts e)\<rparr>) (a\<lparr>aa_facts := map h (aa_facts a)\<rparr>) t = []
    \<longleftrightarrow> cross_examine_round cfg e a t = []"
proof -
  have g: "facts_by_metric (map g fs) = map (\<lambda>(k, x). (k, g x)) (facts_by_metric fs)" for fs by (rule facts_by_metric_map) (simp add: assms)
  have h: "facts_by_metric (map h fs) = map (\<lambda>(k, x). (k, h x)) (facts_by_metric fs)" for fs by (rule facts_by_metric_map) (simp add: assms)
  have "fact_discrepancies (map (\<lambda>(k, x). (k, h x)) aud) (k, g x) = [] \<longleftrightarrow> fact_discrepancies aud (k, x) = []" for aud k x
    by (rule fact_discrepancies_blind) (simp_all add: assms)
  then have "concat (map (fact_discrepancies (map (\<lambda>(k, x). (k, h x)) aud)) (map (\<lambda>(k, x). (k, g x)) ext)) = []
      \<longleftrightarrow> concat (map (fact_discrepancies aud) ext) = []" for aud ext
    by (induction ext) auto
  then show ?thesis
    by (simp add: cross_examine_round_def obligation_discrepancies_def entity_discrepancies_def entity_names_def g h Let_def)
qed

lemma arbitrate_agreed:
  assumes "resolve_arbiter_attribution cfg = Inr arb" "\<not> fst (inspect_for_prompt_injection (ci_text inp))" "ac_progress call = InTime"
    and "run_deliberation env cfg call inp arb = Inr t" "strip (tr_tenant_id t) \<noteq> []" "arbiter_verdict t = Some v" "rejected_claims v = []"
  shows "\<exists>st' h. arbitrate_clause env cfg call inp st = (st', Inr (t\<lparr>transcript_sha256 := h\<rparr>))"
proof -
  have "\<forall>v. arbiter_verdict t = Some v \<longrightarrow> list_all json_able (rejected_claims v)" using assms(6,7) by simp
  with save_ok [of t env "ac_up call" st] assms show ?thesis
    by (auto simp: arbitrate_clause_def Let_def split: prod.split)
qed

text \<open>
  A consensus does not rest on the evidence. When the two arguments pass the
  cross-examination they still pass with any text in place of the quoted
  evidence of the extractor's facts and any units in the auditor's: the outcome is
  CONSENSUS and the arbiter accepts the facts with the invented evidence.
\<close>

theorem consensus_ignores_evidence:
  assumes "truthy_str (arbitration_arbiter_provider cfg)" "strip (ci_tenant_id inp) \<noteq> []" "1 \<le> rounds_limit cfg inp"
    and "\<not> fst (inspect_for_prompt_injection (ci_text inp))" "ac_progress call = InTime" "cross_examine_round cfg e a (ci_text inp) = []"
  shows "\<exists>st' t v. arbitrate_clause env cfg call
        (inp\<lparr>extractor_override := Some (e\<lparr>aa_facts := map (\<lambda>f. f\<lparr>verbatim_evidence := ev\<rparr>) (aa_facts e)\<rparr>),
             auditor_override := Some (a\<lparr>aa_facts := map (\<lambda>f. f\<lparr>fc_unit := units f\<rparr>) (aa_facts a)\<rparr>)\<rparr>) st = (st', Inr t)
    \<and> final_outcome t = AO_CONSENSUS \<and> arbiter_verdict t = Some v
    \<and> accepted_canonical_facts v = map (\<lambda>f. f\<lparr>verbatim_evidence := ev\<rparr>) (fst (validate_canonical_facts (aa_facts e)))"
proof -
  define e' where "e' = e\<lparr>aa_facts := map (\<lambda>f. f\<lparr>verbatim_evidence := ev\<rparr>) (aa_facts e)\<rparr>"
  define a' where "a' = a\<lparr>aa_facts := map (\<lambda>f. f\<lparr>fc_unit := units f\<rparr>) (aa_facts a)\<rparr>"
  let ?inp = "inp\<lparr>extractor_override := Some e', auditor_override := Some a'\<rparr>"
  obtain arb where arb: "resolve_arbiter_attribution cfg = Inr arb" using assms(1) by (simp add: resolve_arbiter_attribution_def Let_def)
  have "cross_examine_round cfg e' a' (ci_text inp) = [] \<longleftrightarrow> cross_examine_round cfg e a (ci_text inp) = []"
    unfolding e'_def a'_def by (rule cross_examine_blind) simp_all
  then have args: "argument_of cfg call ?inp EXTRACTOR = e'" "argument_of cfg call ?inp AUDITOR = a'" "cross_examine_round cfg e' a' (ci_text ?inp) = []"
    using assms(6) by (simp_all add: argument_of_def)
  obtain t v where t: "run_deliberation env cfg call ?inp arb = Inr t" "tr_tenant_id t = ci_tenant_id inp" "final_outcome t = AO_CONSENSUS"
    "arbiter_verdict t = Some v" "rejected_claims v = []" "accepted_canonical_facts v = fst (validate_canonical_facts (aa_facts e'))"
    using run_agreed [of cfg call ?inp env arb] args assms(3) by (fastforce simp: rounds_limit_def)
  have "\<exists>st' h. arbitrate_clause env cfg call ?inp st = (st', Inr (t\<lparr>transcript_sha256 := h\<rparr>))"
    by (rule arbitrate_agreed [OF arb _ assms(5) t(1) _ t(4,5)]) (use assms(2,4) t(2) in simp_all)
  then obtain st' h where res: "arbitrate_clause env cfg call ?inp st = (st', Inr (t\<lparr>transcript_sha256 := h\<rparr>))" by blast
  have "fst (validate_canonical_facts (aa_facts e')) = map (\<lambda>f. f\<lparr>verbatim_evidence := ev\<rparr>) (fst (validate_canonical_facts (aa_facts e)))"
    by (simp add: e'_def validate_canonical_facts_def claim_resolution_def filter_map comp_def)
  then have acc: "accepted_canonical_facts v = map (\<lambda>f. f\<lparr>verbatim_evidence := ev\<rparr>) (fst (validate_canonical_facts (aa_facts e)))"
    using t(6) by simp
  show ?thesis unfolding e'_def [symmetric] a'_def [symmetric]
    by (intro exI conjI) (rule res, use t(3,4) acc in simp_all)
qed

section \<open>What the store keeps\<close>

lemma persist_get: "r_get (persist t st db) (transcript_key st (tr_tenant_id t) (session_id t)) = Some (Doc t)"
proof -
  have "r_str (foldl (\<lambda>db (k, v). r_hset s k (Field v) db) db xs) = r_str db" for s xs and db :: "arb_value redis"
    by (induction xs arbitrary: db) (auto simp: r_hset_def split: prod.split)
  then show ?thesis by (simp add: persist_def r_get_def r_put_def)
qed

lemma key_prefix [simp]: "transcript_key (st\<lparr>ar_redis := x\<rparr>) = transcript_key st" "transcript_key (st\<lparr>memory_store := m\<rparr>) = transcript_key st"
  by (simp_all add: transcript_key_def fun_eq_iff)

lemma keys_differ: "transcript_key st a b \<noteq> summary_key st a b"
  by (simp add: transcript_key_def summary_key_def)

lemma get_transcript_Some:
  assumes "get_transcript env up tenant sid st = Inr (Some t)"
  shows "tr_tenant_id t = tenant" "compute_hash env t = Inr (transcript_sha256 t)"
  using assms by (auto simp: get_transcript_def Let_def bind_res_eq_Inr split: if_splits option.splits arb_value.splits)

lemma saved_found:
  assumes "save_transcript env up t st = (st', Inr t')"
  shows "get_transcript env up (tr_tenant_id t) (session_id t) st' = Inr (Some t')"
proof -
  have tenant: "strip (tr_tenant_id t) \<noteq> []" using assms by (auto simp: save_transcript_def)
  obtain h where h: "compute_hash env t = Inr h" "t' = t\<lparr>transcript_sha256 := h\<rparr>"
    "st' = (case ar_redis st of None \<Rightarrow> remember t' st | Some db \<Rightarrow> if up then st\<lparr>ar_redis := Some (persist t' st db)\<rparr> else remember t' st)"
    using assms tenant by (auto simp: save_transcript_def seal_def bind_res_eq_Inr split: option.splits sum.splits)
  have same: "tr_tenant_id t' = tr_tenant_id t" "session_id t' = session_id t" "compute_hash env t' = Inr h" "transcript_sha256 t' = h"
    using h(1) by (simp_all add: h(2) compute_hash_blind)
  have "memory_store (remember t' st) (transcript_key st (tr_tenant_id t) (session_id t)) = Some (Doc t')"
    using keys_differ [of st "tr_tenant_id t" "session_id t"] by (simp add: remember_def same)
  moreover have "ar_redis (remember t' st) = ar_redis st" "transcript_key (remember t' st) = transcript_key st" by (simp_all add: remember_def)
  moreover have "r_get (persist t' st db) (transcript_key st (tr_tenant_id t) (session_id t)) = Some (Doc t')" for db
    using persist_get [of t' st db] by (simp add: same)
  ultimately show ?thesis
    using tenant by (cases "ar_redis st") (simp_all add: get_transcript_def h(3) same Let_def)
qed

text \<open>
  What was stored is found again: after a save that returned, a lookup under
  the same tenant and session, with Redis as available as before, gives the
  sealed transcript and accepts its seal; no lookup ever gives a tenant the
  transcript of another one.
\<close>

theorem transcript_round_trip:
  assumes "save_transcript env up t st = (st', Inr t')"
  shows "get_transcript env up (tr_tenant_id t) (session_id t) st' = Inr (Some t')
    \<and> (\<forall>up tenant sid t. get_transcript env up tenant sid st' = Inr (Some t) \<longrightarrow> tr_tenant_id t = tenant)"
  using saved_found [OF assms] get_transcript_Some(1) by blast

text \<open>
  The seal does not cover the debate. A stored transcript whose arguments,
  discrepancies and source text are exchanged for any others, with the same number of
  rounds, is returned as untampered.
\<close>

theorem seal_ignores_arguments:
  assumes "ar_redis st = Some db" "get_transcript env True tenant sid st = Inr (Some t)" "length rs = length (tr_rounds t)"
  shows "get_transcript env True tenant sid
      (st\<lparr>ar_redis := Some (r_put (transcript_key st tenant sid) (Doc (t\<lparr>tr_rounds := rs, untrusted_source_text := src\<rparr>)) db)\<rparr>)
    = Inr (Some (t\<lparr>tr_rounds := rs, untrusted_source_text := src\<rparr>))"
proof -
  have "strip tenant \<noteq> []" using assms(2) by (auto simp: get_transcript_def)
  moreover have "compute_hash env (t\<lparr>tr_rounds := rs, untrusted_source_text := src\<rparr>) = Inr (transcript_sha256 t)"
    using get_transcript_Some(2) [OF assms(2)] assms(3) by (simp add: compute_hash_blind)
  ultimately show ?thesis using get_transcript_Some(1) [OF assms(2)] by (simp add: get_transcript_def Let_def r_get_def r_put_def)
qed

text \<open>
  A transcript saved while Redis was away goes to the memory of the process; once Redis answers
  again it is not looked for there.
\<close>

theorem fallback_transcript_lost:
  assumes "ar_redis st = Some db" "r_get db (transcript_key st (tr_tenant_id t) (session_id t)) = None"
    and "save_transcript env False t st = (st', Inr t')"
  shows "get_transcript env True (tr_tenant_id t) (session_id t) st' = Inr None"
proof -
  have tenant: "strip (tr_tenant_id t) \<noteq> []" using assms(3) by (auto simp: save_transcript_def)
  then obtain t'' where "st' = remember t'' st"
    using assms(1,3) by (auto simp: save_transcript_def split: sum.splits)
  then have "ar_redis st' = Some db" "transcript_key st' = transcript_key st" using assms(1) by (simp_all add: remember_def)
  then show ?thesis using tenant assms(2) by (simp add: get_transcript_def Let_def)
qed

section \<open>What the seal binds\<close>

lemma sealed_fields_inject:
  assumes "sort_keys (sealed_fields env t) = sort_keys (sealed_fields env u)"
  shows "session_id t = session_id u \<and> tr_tenant_id t = tr_tenant_id u \<and> tr_circular_id t = tr_circular_id u \<and> tr_clause_id t = tr_clause_id u
    \<and> tr_source_sha256 t = tr_source_sha256 u \<and> tr_clause_sha256 t = tr_clause_sha256 u \<and> final_outcome t = final_outcome u
    \<and> length (tr_rounds t) = length (tr_rounds u)
    \<and> map_option (\<lambda>v. sort_keys (verdict_dump env v)) (arbiter_verdict t) = map_option (\<lambda>v. sort_keys (verdict_dump env v)) (arbiter_verdict u)"
proof -
  let ?d = "\<lambda>x. [(''session_id'', PStr (session_id x)), (''tenant_id'', PStr (tr_tenant_id x)),
     (''circular_id'', PStr (tr_circular_id x)), (''clause_id'', PStr (tr_clause_id x)),
     (''source_document_sha256'', PStr (tr_source_sha256 x)), (''clause_sha256'', PStr (tr_clause_sha256 x)),
     (''final_outcome'', PStr (arb_outcome_value (final_outcome x))), (''rounds_count'', PInt (int (length (tr_rounds x)))),
     (''verdict'', sort_keys (case arbiter_verdict x of None \<Rightarrow> PNone | Some v \<Rightarrow> verdict_dump env v))]"
  have "map (\<lambda>(k, v). (k, sort_keys v)) (case sealed_fields env x of PDict d \<Rightarrow> d | _ \<Rightarrow> []) = ?d x" for x
    by (simp add: sealed_fields_def)
  then have keys: "sort_keys (sealed_fields env x) = PDict (sort_key fst (?d x))" for x
    unfolding sealed_fields_def sort_keys.simps by simp
  have "map_of (sort_key fst (?d x)) = map_of (?d x)" for x by (rule map_of_sort_key) simp
  with assms have same: "map_of (?d t) k = map_of (?d u) k" for k unfolding keys by (metis pyval.inject(6))
  have outcome: "arb_outcome_value x = arb_outcome_value y \<Longrightarrow> x = y" for x y by (cases x; cases y) simp_all
  have "sort_keys (case arbiter_verdict t of None \<Rightarrow> PNone | Some v \<Rightarrow> verdict_dump env v)
      = sort_keys (case arbiter_verdict u of None \<Rightarrow> PNone | Some v \<Rightarrow> verdict_dump env v)" using same [of "''verdict''"] by simp
  then have "map_option (\<lambda>v. sort_keys (verdict_dump env v)) (arbiter_verdict t) = map_option (\<lambda>v. sort_keys (verdict_dump env v)) (arbiter_verdict u)"
    by (cases "arbiter_verdict t"; cases "arbiter_verdict u") (simp_all add: verdict_dump_def)
  then show ?thesis
    using same [of "''session_id''"] same [of "''tenant_id''"] same [of "''circular_id''"] same [of "''clause_id''"]
      same [of "''source_document_sha256''"] same [of "''clause_sha256''"] same [of "''final_outcome''"] same [of "''rounds_count''"] outcome
    by simp
qed


section \<open>Witnesses\<close>

definition demo_arb_env :: arb_env where
  "demo_arb_env = \<lparr>describe = (\<lambda>d. []), ar_fr = ratio_repr, stamp = (\<lambda>x. []), ar_sha = (\<lambda>s. s)\<rparr>"

definition demo_arb_settings :: arb_settings where
  "demo_arb_settings = \<lparr>arbitration_arbiter_provider = Some ''offline'', arbitration_arbiter_model = None, hf_model_id = ''m'',
     default_provider_type = ''offline'', arbitration_confidence_threshold = Fin (85 / 100), arbitration_max_rounds = 2,
     arbitration_timeout_seconds = Fin 30\<rparr>"

definition demo_clause :: clause_input where
  "demo_clause = \<lparr>ci_text = ''Margin is due. See 4.'', ci_clause_id = ''4'', ci_circular_id = ''c'', ci_source_sha256 = ''d'', ci_clause_sha256 = ''e'',
     ci_tenant_id = ''t1'', extractor_override = None, auditor_override = None, ci_max_rounds = None, ci_timeout = None\<rparr>"

definition demo_arb_call :: arb_call where
  "demo_arb_call = \<lparr>ac_session_id = ''s1'', ac_verdict_id = ''v'', ac_timeout_id = ''w'', ac_extractor_id = ''x'', ac_auditor_id = ''y'', ac_now = 5,
     ac_took = Fin 1, ac_up = True, ac_progress = InTime\<rparr>"

definition demo_arb_store :: arb_store where
  "demo_arb_store = \<lparr>ar_prefix = ''arb'', ar_redis = Some redis_empty, memory_store = Map.empty\<rparr>"

definition demo_argument :: "AgentRole \<Rightarrow> AgentArgument" where
  "demo_argument r = generate_default_argument demo_arb_settings ''x'' 5 r ''Margin is due. See 4.'' ''4'' 1"

lemma demo_arb_simps:
  "truthy_str (arbitration_arbiter_provider demo_arb_settings)" "1 \<le> rounds_limit demo_arb_settings demo_clause"
  "ci_tenant_id demo_clause = ''t1''" "strip ''t1'' \<noteq> []" "ac_progress demo_arb_call = InTime" "ci_text demo_clause = ''Margin is due. See 4.''"
  by (simp_all add: demo_arb_settings_def demo_clause_def demo_arb_call_def rounds_limit_def py_strip_def is_space_def)

lemma demo_clean: "\<not> fst (inspect_for_prompt_injection ''Margin is due. See 4.'')"
  by code_simp

theorem review_skipped_iff_witness:
  "\<exists>st' t. arbitrate_clause demo_arb_env demo_arb_settings demo_arb_call demo_clause demo_arb_store = (st', Inr t)"
  using review_skipped_iff [of demo_arb_settings demo_clause demo_arb_env demo_arb_call demo_arb_store] by (auto simp: demo_arb_simps)

theorem arbitration_needs_provider_witness:
  "arbitrate_clause demo_arb_env (demo_arb_settings\<lparr>arbitration_arbiter_provider := None\<rparr>) demo_arb_call demo_clause demo_arb_store
   = (demo_arb_store, raise AttributeError)"
  by (rule arbitration_needs_provider) simp

definition demo_claim :: CanonicalFactClaim where
  "demo_claim = \<lparr>fc_metric = ''upfront margin'', fc_canonical_fact = None, fc_operator = ''>='', fc_value = Fin 20, fc_unit = ''%'',
     verbatim_evidence = ''Margin is due''\<rparr>"

lemma demo_claim_valid: "fr_is_valid (claim_resolution demo_claim)"
  by code_simp

lemma demo_claim_agreed:
  "cross_examine_round demo_arb_settings ((demo_argument EXTRACTOR)\<lparr>aa_facts := [demo_claim]\<rparr>) ((demo_argument AUDITOR)\<lparr>aa_facts := [demo_claim]\<rparr>)
     ''Margin is due. See 4.'' = []"
  by code_simp

theorem consensus_ignores_evidence_witness:
  "\<exists>st' t v f. arbitrate_clause demo_arb_env demo_arb_settings demo_arb_call
      (demo_clause\<lparr>extractor_override := Some ((demo_argument EXTRACTOR)\<lparr>aa_facts := [demo_claim\<lparr>verbatim_evidence := ''invented''\<rparr>]\<rparr>),
        auditor_override := Some ((demo_argument AUDITOR)\<lparr>aa_facts := [demo_claim\<lparr>fc_unit := ''lakh''\<rparr>]\<rparr>)\<rparr>) demo_arb_store = (st', Inr t)
    \<and> final_outcome t = AO_CONSENSUS \<and> arbiter_verdict t = Some v \<and> accepted_canonical_facts v = [f] \<and> verbatim_evidence f = ''invented''"
  using consensus_ignores_evidence [where cfg = demo_arb_settings and inp = demo_clause and call = demo_arb_call
      and e = "(demo_argument EXTRACTOR)\<lparr>aa_facts := [demo_claim]\<rparr>" and a = "(demo_argument AUDITOR)\<lparr>aa_facts := [demo_claim]\<rparr>"
      and env = demo_arb_env and ev = "''invented''" and units = "\<lambda>f. ''lakh''" and st = demo_arb_store] demo_clean demo_claim_agreed demo_claim_valid
  by (auto simp: demo_arb_simps validate_canonical_facts_def)

lemma demo_saved:
  "\<exists>st' t'. save_transcript demo_arb_env True (new_transcript demo_arb_call demo_clause) demo_arb_store = (st', Inr t') \<and> ar_redis st' \<noteq> None"
proof -
  have t: "tr_tenant_id (new_transcript demo_arb_call demo_clause) = ''t1''" "arbiter_verdict (new_transcript demo_arb_call demo_clause) = None"
    by (simp_all add: new_transcript_def demo_arb_simps)
  obtain st' h where "save_transcript demo_arb_env True (new_transcript demo_arb_call demo_clause) demo_arb_store
      = (st', Inr ((new_transcript demo_arb_call demo_clause)\<lparr>transcript_sha256 := h\<rparr>))"
    using save_ok [of "new_transcript demo_arb_call demo_clause" demo_arb_env True demo_arb_store] by (auto simp: t demo_arb_simps)
  moreover from this have "ar_redis st' \<noteq> None"
    by (auto simp: save_transcript_def demo_arb_store_def split: if_splits sum.splits)
  ultimately show ?thesis by blast
qed

lemma demo_stored:
  "\<exists>st' t'. save_transcript demo_arb_env True (new_transcript demo_arb_call demo_clause) demo_arb_store = (st', Inr t')
     \<and> ar_redis st' \<noteq> None \<and> get_transcript demo_arb_env True ''t1'' ''s1'' st' = Inr (Some t')"
  using demo_saved saved_found by (fastforce simp: new_transcript_def demo_arb_simps demo_arb_call_def)

theorem transcript_round_trip_witness:
  "\<exists>st' t'. save_transcript demo_arb_env True (new_transcript demo_arb_call demo_clause) demo_arb_store = (st', Inr t')
     \<and> get_transcript demo_arb_env True ''t1'' ''s1'' st' = Inr (Some t')"
proof -
  obtain st' t' where "save_transcript demo_arb_env True (new_transcript demo_arb_call demo_clause) demo_arb_store = (st', Inr t')"
    using demo_saved by blast
  with transcript_round_trip [OF this] show ?thesis by (auto simp: new_transcript_def demo_arb_simps demo_arb_call_def)
qed

theorem seal_ignores_arguments_witness:
  "\<exists>st t. get_transcript demo_arb_env True ''t1'' ''s1'' st = Inr (Some t) \<and> untrusted_source_text t = ''forged''"
proof -
  obtain st t db where st: "get_transcript demo_arb_env True ''t1'' ''s1'' st = Inr (Some t)" "ar_redis st = Some db" using demo_stored by blast
  from seal_ignores_arguments [OF st(2,1) refl, where src = "''forged''"] show ?thesis by force
qed


end
