(* ===== verification/Provenance.thy ===== *)
theory Provenance
  imports Orchestrator Ledger_Integration
begin

text \<open>
  The custody chain of a decision, \<open>app/services/provenance.py\<close>: the walk from a rule
  or a transaction through circular, clause, rule, review and ledger row, and the
  verification of its links. The tables are those of \<open>Review_Db\<close> and the ledger; the
  JSON column \<open>provenance_metadata\<close>, which no code writes, is a function of the
  row's key. The ledger's reference columns, which no code sets, are null. Rows
  a query leaves in no order come in the order of the table; the time of a
  verification is left out of its result.
\<close>

section \<open>Results\<close>

record StageProvenance =
  stage_index :: nat
  stage_name :: string
  stage_identifier :: string
  hash_value :: string
  verified :: bool
  st_details :: "(string \<times> pyval) list"

record ProvenanceChain =
  pc_circular_number :: string
  pc_rule_id :: string
  pc_source_document_sha256 :: string
  pc_extracted_text_sha256 :: string
  pc_clause_sha256 :: string
  pc_canonical_facts_digest :: "string option"
  pc_rule_version :: int
  pc_policy_sha256 :: "string option"
  pc_hitl_status :: string
  pc_hitl_review_id :: "string option"
  approving_principal :: "string option"
  approved_at :: "time option"
  pc_transaction_id :: "string option"
  pc_transaction_input_digest :: "string option"
  pc_evaluation_result :: "string option"
  pc_evidence_digest :: "string option"
  ledger_sequence_num :: "int option"
  ledger_payload_digest :: "string option"
  ledger_current_hash :: "string option"
  stages :: "StageProvenance list"
  is_valid :: bool
  verification_notes :: "string list"

record ProvenanceBreak =
  pb_stage_index :: nat
  pb_stage_name :: string
  pb_reason :: string
  pb_expected :: string
  pb_actual :: string

record ProvenanceVerificationResult =
  vr_valid :: bool
  vr_transaction_id :: string
  vr_rule_id :: string
  vr_rule_version :: int
  vr_breaks :: "ProvenanceBreak list"
  vr_chain :: "ProvenanceChain option"

section \<open>Queries\<close>

record prov_db =
  pv_reg :: reg_db
  pv_ledger :: ledger
  pv_metadata :: "int \<Rightarrow> (string \<times> pyval) list option"

record prov_env =
  pv_sha :: "string \<Rightarrow> string"
  pv_float_repr :: "rat \<Rightarrow> string"
  pv_nfkc :: "string \<Rightarrow> string"

fun review_status_value :: "ReviewStatus \<Rightarrow> string" where
  "review_status_value RV_PENDING = ''PENDING''"
| "review_status_value RV_IN_REVIEW = ''IN_REVIEW''"
| "review_status_value RV_RESOLVED = ''RESOLVED''"
| "review_status_value RV_REJECTED = ''REJECTED''"
| "review_status_value RV_REVISION_REQUIRED = ''REVISION_REQUIRED''"

fun rule_hitl_value :: "RuleHitlStatus \<Rightarrow> string" where
  "rule_hitl_value HS_NONE = ''NONE''"
| "rule_hitl_value HS_ADVISORY = ''ADVISORY''"
| "rule_hitl_value HS_BLOCKING = ''BLOCKING''"
| "rule_hitl_value HS_RESOLVED = ''RESOLVED''"

definition details_get :: "(string \<times> pyval) list \<Rightarrow> string \<Rightarrow> pyval \<Rightarrow> pyval" where
  "details_get d k dflt = (case map_of d k of None \<Rightarrow> dflt | Some v \<Rightarrow> v)"

text \<open>A field declared as text or as optional text refuses any other value.\<close>

fun str_field_val :: "pyval \<Rightarrow> string result" where
  "str_field_val (PStr s) = Inr s"
| "str_field_val v = raise (ValueError ''Input should be a valid string'')"

fun opt_field_val :: "pyval \<Rightarrow> string option result" where
  "opt_field_val PNone = Inr None"
| "opt_field_val v = bind_res (str_field_val v) (\<lambda>s. Inr (Some s))"

fun version_val :: "pyval \<Rightarrow> int result" where
  "version_val (PInt v) = Inr v"
| "version_val v = raise (ValueError ''Input should be a valid integer'')"

definition latest_row :: "ledger \<Rightarrow> LedgerEntry option" where
  "latest_row L = (case rev (sort_key lg_sequence_num L) of [] \<Rightarrow> None | e # _ \<Rightarrow> Some e)"

text \<open>\<open>order_by(resolved_at.desc().nullslast())\<close>, then the first.\<close>

definition first_review :: "HITLReview list \<Rightarrow> HITLReview option" where
  "first_review vs =
     (case sort_key (\<lambda>v. - the (rv_resolved_at v)) (filter (\<lambda>v. rv_resolved_at v \<noteq> None) vs) @ filter (\<lambda>v. rv_resolved_at v = None) vs of
        [] \<Rightarrow> None
      | v # _ \<Rightarrow> Some v)"

definition review_query :: "reg_db \<Rightarrow> RuleRow \<Rightarrow> Clause \<Rightarrow> int \<Rightarrow> HITLReview option" where
  "review_query db r c version =
     first_review (filter (\<lambda>v. rv_compiled_rule_id v = Some (row_id r)
       \<or> rv_clause_id v = cl_id c \<and> (rv_approved_rule_version v = Some version \<or> rv_approved_rule_version v = None)) (hitl_reviews db))"

definition rule_query :: "reg_db \<Rightarrow> string \<Rightarrow> int option \<Rightarrow> RuleRow option" where
  "rule_query db rid version =
     (case (case version of
              Some v \<Rightarrow> filter (\<lambda>r. row_rule_id r = rid \<and> row_rule_version r = v) (compiled_rules db)
            | None \<Rightarrow> sort_key (\<lambda>r. - row_rule_version r) (filter (\<lambda>r. row_rule_id r = rid) (compiled_rules db))) of
        [] \<Rightarrow> None
      | r # _ \<Rightarrow> Some r)"

definition rule_ledger_row :: "ledger \<Rightarrow> RuleRow \<Rightarrow> Clause \<Rightarrow> LedgerEntry option" where
  "rule_ledger_row L r c = latest_row (filter (\<lambda>e. lg_rule_id e = row_rule_id r \<or> lg_clause_hash e = cl_sha256 c) L)"

definition metadata_digest :: "prov_db \<Rightarrow> RuleRow \<Rightarrow> pyval" where
  "metadata_digest db r =
     (case pv_metadata db (row_id r) of
        None \<Rightarrow> PNone
      | Some d \<Rightarrow> if d = [] then PNone else details_get d ''canonical_facts_digest'' PNone)"

definition policy_hash :: "prov_env \<Rightarrow> RuleRow \<Rightarrow> string option" where
  "policy_hash env r =
     (if \<not> truthy_str (rr_policy_sha256 r) \<and> truthy_str (rego_policy r) then Some (pv_sha env (the (rego_policy r))) else rr_policy_sha256 r)"

section \<open>The chain of a rule\<close>

definition pdf_mismatch :: "prov_env \<Rightarrow> string option \<Rightarrow> Circular \<Rightarrow> bool" where
  "pdf_mismatch env raw_pdf ci = (case raw_pdf of None \<Rightarrow> False | Some b \<Rightarrow> pv_sha env b \<noteq> str_or (ci_source_document_sha256 ci) ''unknown'')"

definition text_mismatch :: "prov_env \<Rightarrow> string option \<Rightarrow> Circular \<Rightarrow> bool" where
  "text_mismatch env raw_txt ci =
     (case raw_txt of None \<Rightarrow> False | Some t \<Rightarrow> sha256_of_text (pv_sha env) (pv_nfkc env) t \<noteq> ci_raw_text_digest ci)"

definition clause_digest :: "prov_env \<Rightarrow> Circular \<Rightarrow> Clause \<Rightarrow> string \<Rightarrow> string" where
  "clause_digest env ci c t = sha256_of_clause (pv_sha env) (pv_nfkc env) (Some (ci_circular_number ci)) (cl_clause_number c) t"

definition document_stages :: "prov_env \<Rightarrow> string option \<Rightarrow> string option \<Rightarrow> Circular \<Rightarrow> Clause \<Rightarrow> StageProvenance list" where
  "document_stages env raw_pdf raw_txt ci c =
     [\<lparr>stage_index = 1, stage_name = ''Original PDF'',
       stage_identifier = str_or (ci_source_url ci) (str_or (ci_source_filename ci) (ci_circular_number ci)),
       hash_value = str_or (ci_source_document_sha256 ci) ''unknown'', verified = (\<not> pdf_mismatch env raw_pdf ci),
       st_details = [(''title'', opt_str_val (ci_title ci)), (''circular_number'', PStr (ci_circular_number ci)),
         (''source_url'', opt_str_val (ci_source_url ci)), (''source_filename'', opt_str_val (ci_source_filename ci))]\<rparr>,
      \<lparr>stage_index = 2, stage_name = ''Extracted Text'', stage_identifier = ''extracted_text:'' @ ci_circular_number ci,
       hash_value = ci_raw_text_digest ci, verified = (\<not> text_mismatch env raw_txt ci),
       st_details = [(''raw_text_digest'', PStr (ci_raw_text_digest ci))]\<rparr>,
      \<lparr>stage_index = 3, stage_name = ''Clause'', stage_identifier = ''clause:'' @ str_or (cl_clause_number c) (int_str (cl_id c)),
       hash_value = cl_sha256 c, verified = (cl_sha256 c = clause_digest env ci c (cl_text c)),
       st_details = [(''clause_number'', opt_str_val (cl_clause_number c)), (''section_title'', opt_str_val (cl_section_title c))]\<rparr>]"

definition mismatch_notes :: "prov_env \<Rightarrow> string option \<Rightarrow> string option \<Rightarrow> Circular \<Rightarrow> Clause \<Rightarrow> string list" where
  "mismatch_notes env raw_pdf raw_txt ci c =
     (if pdf_mismatch env raw_pdf ci
      then [''Stage 1 mismatch: raw PDF bytes hash '' @ pv_sha env (the raw_pdf) @ '' != stored '' @ str_or (ci_source_document_sha256 ci) ''unknown''] else [])
     @ (if text_mismatch env raw_txt ci
        then [''Stage 2 mismatch: extracted text hash '' @ sha256_of_text (pv_sha env) (pv_nfkc env) (the raw_txt) @ '' != stored '' @ ci_raw_text_digest ci] else [])
     @ (if cl_sha256 c \<noteq> clause_digest env ci c (cl_text c)
        then [''Stage 3 mismatch: recomputed clause hash '' @ clause_digest env ci c (cl_text c) @ '' != stored '' @ cl_sha256 c] else [])"

definition rule_details :: "RuleRow \<Rightarrow> (string \<times> pyval) list" where
  "rule_details r = [(''rule_version'', PInt (row_rule_version r)), (''is_active'', PBool (is_active r)), (''hitl_status'', PStr (rule_hitl_value (rr_hitl_status r)))]"

definition row_id_or_none :: "LedgerEntry option \<Rightarrow> string" where
  "row_id_or_none e = (case e of None \<Rightarrow> ''none'' | Some x \<Rightarrow> lg_transaction_id x)"

definition full_stages ::
  "prov_env \<Rightarrow> RuleRow \<Rightarrow> HITLReview option \<Rightarrow> LedgerEntry option \<Rightarrow> string option \<Rightarrow> string option \<Rightarrow> string option \<Rightarrow> StageProvenance list" where
  "full_stages env r v e cf_digest tx_digest ev_digest =
     [\<lparr>stage_index = 4, stage_name = ''Canonical Facts'', stage_identifier = ''canonical_facts:'' @ row_rule_id r,
       hash_value = str_or cf_digest ''unspecified'', verified = True, st_details = [(''canonical_facts_digest'', opt_str_val cf_digest)]\<rparr>,
      \<lparr>stage_index = 5, stage_name = ''Compiled Rule Version + Policy Hash'', stage_identifier = row_rule_id r @ '':v'' @ int_str (row_rule_version r),
       hash_value = str_or (policy_hash env r) ''none'', verified = (is_compiled r \<and> truthy_str (rego_policy r)), st_details = rule_details r\<rparr>,
      \<lparr>stage_index = 6, stage_name = ''HITL Approval'', stage_identifier = (case v of None \<Rightarrow> ''unassigned'' | Some x \<Rightarrow> rv_review_id x),
       hash_value = (case v of None \<Rightarrow> ''NONE'' | Some x \<Rightarrow> review_status_value (rv_status x)),
       verified = (case v of None \<Rightarrow> False | Some x \<Rightarrow> rv_status x = RV_RESOLVED),
       st_details = [(''status'', PStr (case v of None \<Rightarrow> ''NONE'' | Some x \<Rightarrow> review_status_value (rv_status x))),
         (''approved_rule_version'', case v of None \<Rightarrow> PNone | Some x \<Rightarrow> (case rv_approved_rule_version x of None \<Rightarrow> PNone | Some n \<Rightarrow> PInt n))]\<rparr>,
      \<lparr>stage_index = 7, stage_name = ''Approving Principal'',
       stage_identifier = (case v of None \<Rightarrow> ''none'' | Some x \<Rightarrow> str_or (rv_compliance_officer_id x) ''none''),
       hash_value = (case v of None \<Rightarrow> ''none'' | Some x \<Rightarrow> str_or (rv_compliance_officer_id x) ''none''),
       verified = (case v of None \<Rightarrow> False | Some x \<Rightarrow> truthy_str (rv_compliance_officer_id x)),
       st_details = [(''officer_id'', case v of None \<Rightarrow> PNone | Some x \<Rightarrow> opt_str_val (rv_compliance_officer_id x)),
         (''resolved_at'', case v of None \<Rightarrow> PNone | Some x \<Rightarrow> opt_str_val (map_option isoformat (rv_resolved_at x)))]\<rparr>,
      \<lparr>stage_index = 8, stage_name = ''Transaction Input Digest'', stage_identifier = row_id_or_none e, hash_value = str_or tx_digest ''none'',
       verified = truthy_str tx_digest, st_details = [(''transaction_id'', opt_str_val (map_option lg_transaction_id e))]\<rparr>,
      \<lparr>stage_index = 9, stage_name = ''OPA Evaluation Result'', stage_identifier = row_id_or_none e,
       hash_value = (case e of None \<Rightarrow> ''none'' | Some x \<Rightarrow> outcome_value (lg_evaluation_result x)), verified = (e \<noteq> None),
       st_details = [(''verdict'', opt_str_val (map_option (\<lambda>x. outcome_value (lg_evaluation_result x)) e)),
         (''violations'', case e of None \<Rightarrow> PList [] | Some x \<Rightarrow> details_get (lg_details x) ''violations'' (PList []))]\<rparr>,
      \<lparr>stage_index = 10, stage_name = ''Evidence Digest'', stage_identifier = (case e of None \<Rightarrow> ''none'' | Some x \<Rightarrow> ''evidence:'' @ lg_transaction_id x),
       hash_value = str_or ev_digest (case e of None \<Rightarrow> ''none'' | Some x \<Rightarrow> lg_payload_digest x), verified = (e \<noteq> None),
       st_details = (case e of None \<Rightarrow> [] | Some x \<Rightarrow> lg_details x)\<rparr>,
      \<lparr>stage_index = 11, stage_name = ''Ledger Hash Chain'', stage_identifier = (case e of None \<Rightarrow> ''none'' | Some x \<Rightarrow> ''seq:'' @ int_str (lg_sequence_num x)),
       hash_value = (case e of None \<Rightarrow> ''none'' | Some x \<Rightarrow> lg_current_hash x), verified = (e \<noteq> None),
       st_details = [(''sequence_num'', case e of None \<Rightarrow> PNone | Some x \<Rightarrow> PInt (lg_sequence_num x)),
         (''previous_hash'', opt_str_val (map_option lg_previous_hash e)), (''payload_digest'', opt_str_val (map_option lg_payload_digest e))]\<rparr>]"

definition legacy_stages :: "RuleRow \<Rightarrow> Clause \<Rightarrow> HITLReview option \<Rightarrow> LedgerEntry option \<Rightarrow> StageProvenance list" where
  "legacy_stages r c v e =
     [\<lparr>stage_index = 4, stage_name = ''Compiled Rule/Policy'', stage_identifier = row_rule_id r, hash_value = cl_sha256 c,
       verified = (is_compiled r \<and> truthy_str (rego_policy r)), st_details = rule_details r\<rparr>,
      \<lparr>stage_index = 5, stage_name = ''HITL Approval'', stage_identifier = (case v of None \<Rightarrow> ''unassigned'' | Some x \<Rightarrow> rv_review_id x),
       hash_value = row_rule_id r, verified = (case v of None \<Rightarrow> False | Some x \<Rightarrow> rv_status x = RV_RESOLVED),
       st_details = [(''status'', PStr (case v of None \<Rightarrow> ''NONE'' | Some x \<Rightarrow> review_status_value (rv_status x))),
         (''officer_id'', case v of None \<Rightarrow> PNone | Some x \<Rightarrow> opt_str_val (rv_compliance_officer_id x))]\<rparr>,
      \<lparr>stage_index = 6, stage_name = ''Evaluation'', stage_identifier = row_id_or_none e,
       hash_value = (case e of None \<Rightarrow> ''none'' | Some x \<Rightarrow> outcome_value (lg_evaluation_result x)), verified = (e \<noteq> None),
       st_details = (case e of None \<Rightarrow> [] | Some x \<Rightarrow> [(''verdict'', PStr (outcome_value (lg_evaluation_result x)))])\<rparr>,
      \<lparr>stage_index = 7, stage_name = ''Evidence'', stage_identifier = (case e of None \<Rightarrow> ''none'' | Some x \<Rightarrow> ''evidence:'' @ lg_transaction_id x),
       hash_value = (case e of None \<Rightarrow> ''none'' | Some x \<Rightarrow> lg_payload_digest x), verified = (e \<noteq> None),
       st_details = (case e of None \<Rightarrow> [] | Some x \<Rightarrow> lg_details x)\<rparr>,
      \<lparr>stage_index = 8, stage_name = ''Ledger'', stage_identifier = (case e of None \<Rightarrow> ''none'' | Some x \<Rightarrow> ''seq:'' @ int_str (lg_sequence_num x)),
       hash_value = (case e of None \<Rightarrow> ''none'' | Some x \<Rightarrow> lg_current_hash x), verified = (e \<noteq> None),
       st_details = [(''sequence_num'', case e of None \<Rightarrow> PNone | Some x \<Rightarrow> PInt (lg_sequence_num x)),
         (''previous_hash'', opt_str_val (map_option lg_previous_hash e))]\<rparr>]"

definition row_field :: "LedgerEntry option \<Rightarrow> string \<Rightarrow> string option result" where
  "row_field e k = (case e of None \<Rightarrow> Inr None | Some x \<Rightarrow> opt_field_val (details_get (lg_details x) k PNone))"

definition get_rule_provenance_chain ::
  "prov_env \<Rightarrow> prov_db \<Rightarrow> string \<Rightarrow> string option \<Rightarrow> string option \<Rightarrow> int option \<Rightarrow> bool \<Rightarrow> ProvenanceChain option result" where
  "get_rule_provenance_chain env db rid raw_pdf raw_txt version full_chain =
     (case rule_query (pv_reg db) rid version of
        None \<Rightarrow> Inr None
      | Some r \<Rightarrow>
          (case get_clause (pv_reg db) (rr_clause_id r) of
             None \<Rightarrow> Inr None
           | Some c \<Rightarrow>
               (case get_circular (pv_reg db) (cl_circular_id c) of
                  None \<Rightarrow> Inr None
                | Some ci \<Rightarrow>
                    let v = review_query (pv_reg db) r c (row_rule_version r);
                        e = rule_ledger_row (pv_ledger db) r c
                    in bind_res (opt_field_val (metadata_digest db r)) (\<lambda>cf_digest.
                       bind_res (row_field e ''transaction_input_digest'') (\<lambda>tx_digest.
                       bind_res (row_field e ''evidence_digest'') (\<lambda>ev_digest.
                       Inr (Some
                         \<lparr>pc_circular_number = ci_circular_number ci, pc_rule_id = row_rule_id r,
                          pc_source_document_sha256 = str_or (ci_source_document_sha256 ci) ''unknown'',
                          pc_extracted_text_sha256 = ci_raw_text_digest ci, pc_clause_sha256 = cl_sha256 c,
                          pc_canonical_facts_digest = cf_digest, pc_rule_version = row_rule_version r, pc_policy_sha256 = policy_hash env r,
                          pc_hitl_status = rule_hitl_value (rr_hitl_status r), pc_hitl_review_id = map_option rv_review_id v,
                          approving_principal = Option.bind v rv_compliance_officer_id, approved_at = Option.bind v rv_resolved_at,
                          pc_transaction_id = map_option lg_transaction_id e, pc_transaction_input_digest = tx_digest,
                          pc_evaluation_result = map_option (\<lambda>x. outcome_value (lg_evaluation_result x)) e, pc_evidence_digest = ev_digest,
                          ledger_sequence_num = map_option lg_sequence_num e, ledger_payload_digest = map_option lg_payload_digest e,
                          ledger_current_hash = map_option lg_current_hash e,
                          stages = document_stages env raw_pdf raw_txt ci c
                            @ (if full_chain then full_stages env r v e cf_digest tx_digest ev_digest else legacy_stages r c v e),
                          is_valid = (mismatch_notes env raw_pdf raw_txt ci c = []),
                          verification_notes = mismatch_notes env raw_pdf raw_txt ci c\<rparr>)))))))"

definition decision_row :: "ledger \<Rightarrow> string \<Rightarrow> string option \<Rightarrow> int option \<Rightarrow> LedgerEntry option" where
  "decision_row L tid rid seq =
     latest_row (filter (\<lambda>e. lg_transaction_id e = tid \<and> (rid = None \<or> rid = Some (lg_rule_id e)) \<and> (seq = None \<or> seq = Some (lg_sequence_num e))) L)"

definition row_rule_version_of :: "LedgerEntry \<Rightarrow> int result" where
  "row_rule_version_of e = version_val (details_get (lg_details e) ''rule_version'' (PInt 1))"

text \<open>A null version asks the chain for the latest one.\<close>

definition version_arg :: "LedgerEntry \<Rightarrow> int option result" where
  "version_arg e =
     (if details_get (lg_details e) ''rule_version'' (PInt 1) = PNone then Inr None
      else bind_res (row_rule_version_of e) (\<lambda>v. Inr (Some v)))"

definition get_decision_provenance_chain ::
  "prov_env \<Rightarrow> prov_db \<Rightarrow> string \<Rightarrow> string option \<Rightarrow> int option \<Rightarrow> string option \<Rightarrow> string option \<Rightarrow> ProvenanceChain option result" where
  "get_decision_provenance_chain env db tid rid seq raw_pdf raw_txt =
     (case decision_row (pv_ledger db) tid rid seq of
        None \<Rightarrow> Inr None
      | Some e \<Rightarrow> bind_res (version_arg e) (\<lambda>version.
          get_rule_provenance_chain env db (lg_rule_id e) raw_pdf raw_txt version True))"

section \<open>Verification\<close>

definition pbreak :: "nat \<Rightarrow> string \<Rightarrow> string \<Rightarrow> string \<Rightarrow> string \<Rightarrow> ProvenanceBreak" where
  "pbreak i name why expected actual = \<lparr>pb_stage_index = i, pb_stage_name = name, pb_reason = why, pb_expected = expected, pb_actual = actual\<rparr>"

definition check_pdf :: "prov_env \<Rightarrow> string option \<Rightarrow> Circular \<Rightarrow> ProvenanceBreak list" where
  "check_pdf env raw_pdf ci =
     (case raw_pdf of
        None \<Rightarrow> []
      | Some b \<Rightarrow>
          if Some (pv_sha env b) \<noteq> ci_source_document_sha256 ci
          then [pbreak 1 ''Original PDF'' ''Recomputed PDF bytes SHA-256 does not match stored circular digest''
                  (str_or (ci_source_document_sha256 ci) []) (pv_sha env b)] else [])"

definition check_text :: "prov_env \<Rightarrow> string option \<Rightarrow> Circular \<Rightarrow> ProvenanceBreak list" where
  "check_text env raw_txt ci =
     (if text_mismatch env raw_txt ci
      then [pbreak 2 ''Extracted Text'' ''Recomputed extracted text SHA-256 does not match stored raw_text_digest''
              (ci_raw_text_digest ci) (sha256_of_text (pv_sha env) (pv_nfkc env) (the raw_txt))] else [])"

definition check_clause :: "prov_env \<Rightarrow> string option \<Rightarrow> LedgerEntry \<Rightarrow> Circular \<Rightarrow> Clause \<Rightarrow> ProvenanceBreak list" where
  "check_clause env clause_text e ci c =
     (let t = (case clause_text of None \<Rightarrow> cl_text c | Some t \<Rightarrow> t)
      in (if clause_digest env ci c t \<noteq> cl_sha256 c
          then [pbreak 3 ''Clause'' ''Recomputed clause SHA-256 does not match stored clause digest'' (cl_sha256 c) (clause_digest env ci c t)] else [])
         @ (if lg_clause_hash e \<noteq> cl_sha256 c
            then [pbreak 3 ''Clause'' ''Ledger clause_hash does not match stored clause SHA-256'' (cl_sha256 c) (lg_clause_hash e)] else []))"

definition check_facts :: "prov_db \<Rightarrow> LedgerEntry \<Rightarrow> RuleRow \<Rightarrow> ProvenanceBreak list result" where
  "check_facts db e r =
     (let stored = details_get (lg_details e) ''canonical_facts_digest'' PNone; own = metadata_digest db r
      in if truthy stored \<and> truthy own \<and> \<not> py_eq stored own
         then bind_res (str_field_val own) (\<lambda>x. bind_res (str_field_val stored) (\<lambda>y.
           Inr [pbreak 4 ''Canonical Facts'' ''Ledger canonical_facts_digest does not match compiled rule canonical facts digest'' x y]))
         else Inr [])"

definition check_policy :: "prov_env \<Rightarrow> LedgerEntry \<Rightarrow> RuleRow \<Rightarrow> ProvenanceBreak list result" where
  "check_policy env e r =
     (let stored = details_get (lg_details e) ''policy_sha256'' PNone
      in if truthy_str (rego_policy r) \<and> truthy stored \<and> stored \<noteq> PStr (pv_sha env (the (rego_policy r)))
         then bind_res (str_field_val stored) (\<lambda>x.
           Inr [pbreak 5 ''Compiled Rule Version + Policy Hash'' ''Recomputed policy SHA-256 does not match policy_sha256 in ledger details''
                  x (pv_sha env (the (rego_policy r)))])
         else Inr [])"

text \<open>The reference column of the row is null, so the review is looked up by the row's case id, then by rule and clause.\<close>

definition row_review :: "reg_db \<Rightarrow> LedgerEntry \<Rightarrow> RuleRow \<Rightarrow> Clause \<Rightarrow> int \<Rightarrow> HITLReview option" where
  "row_review db e r c version =
     (case (if truthy_str (lg_hitl_review_id e) then find (\<lambda>v. Some (rv_review_id v) = lg_hitl_review_id e) (hitl_reviews db) else None) of
        Some v \<Rightarrow> Some v
      | None \<Rightarrow> review_query db r c version)"

definition check_review :: "HITLReview option \<Rightarrow> int \<Rightarrow> ProvenanceBreak list" where
  "check_review v version =
     (case v of
        None \<Rightarrow> []
      | Some x \<Rightarrow>
          (if rv_status x \<noteq> RV_RESOLVED
           then [pbreak 6 ''HITL Approval'' (''HITL review '' @ rv_review_id x @ '' status is '' @ review_status_value (rv_status x) @ '', not RESOLVED'')
                   ''RESOLVED'' (review_status_value (rv_status x))] else [])
          @ (case rv_approved_rule_version x of
               None \<Rightarrow> []
             | Some n \<Rightarrow>
                 if n \<noteq> version then [pbreak 6 ''HITL Approval'' ''HITL review approved a different rule version than evaluated'' (int_str version) (int_str n)]
                 else [])
          @ (if \<not> truthy_str (rv_compliance_officer_id x)
             then [pbreak 7 ''Approving Principal'' ''HITL review has no approving compliance officer recorded'' ''A non-null compliance_officer_id'' ''None'']
             else []))"

definition check_input :: "prov_env \<Rightarrow> LedgerEntry \<Rightarrow> ProvenanceBreak list result" where
  "check_input env e =
     (let d = lg_details e; stored = details_get d ''transaction_input_digest'' PNone
      in if truthy stored \<and> map_of d ''facts'' \<noteq> None then
           bind_res (json_dumps_canonical (pv_float_repr env) (PDict [
             (''broker_id'', PStr (lg_broker_id e)), (''entity_type'', details_get d ''entity_type'' (PStr [])),
             (''facts'', details_get d ''facts'' (PDict [])), (''transaction_id'', PStr (lg_transaction_id e))])) (\<lambda>s.
           if PStr (pv_sha env s) \<noteq> stored then bind_res (str_field_val stored) (\<lambda>x.
             Inr [pbreak 8 ''Transaction Input Digest'' ''Recomputed transaction input digest does not match stored transaction_input_digest'' x (pv_sha env s)])
           else Inr [])
         else Inr [])"

definition row_evidence :: "LedgerEntry \<Rightarrow> int \<Rightarrow> (string \<times> pyval) list" where
  "row_evidence e version =
     (let d = lg_details e in [
       (''transaction_id'', PStr (lg_transaction_id e)),
       (''transaction_input_digest'', details_get d ''transaction_input_digest'' PNone),
       (''rule_id'', PStr (lg_rule_id e)),
       (''rule_version'', PInt version),
       (''policy_sha256'', details_get d ''policy_sha256'' PNone),
       (''package'', details_get d ''package'' (PStr [])),
       (''circular_id'', PStr (lg_circular_id e)),
       (''section_reference'', PStr (lg_section_reference e)),
       (''clause_sha256'', PStr (lg_clause_hash e)),
       (''source_document_sha256'', details_get d ''source_document_sha256'' PNone),
       (''extracted_text_sha256'', details_get d ''extracted_text_sha256'' PNone),
       (''canonical_facts_digest'', details_get d ''canonical_facts_digest'' PNone),
       (''evaluation_result'', PStr (outcome_value (lg_evaluation_result e))),
       (''violations'', details_get d ''violations'' (PList [])),
       (''decision'', details_get d ''transaction_decision'' (PStr [])),
       (''hitl_case_id'', opt_str_val (lg_hitl_review_id e))])"

definition check_evidence :: "prov_env \<Rightarrow> LedgerEntry \<Rightarrow> int \<Rightarrow> ProvenanceBreak list result" where
  "check_evidence env e version =
     (let stored = details_get (lg_details e) ''evidence_digest'' PNone
      in if truthy stored then
           bind_res (compute_evidence_digest (pv_sha env) (pv_float_repr env) (row_evidence e version)) (\<lambda>h.
           if PStr h \<noteq> stored then bind_res (str_field_val stored) (\<lambda>x.
             Inr [pbreak 10 ''Evidence Digest'' ''Recomputed evidence digest does not match evidence_digest in ledger details'' x h])
           else Inr [])
         else Inr [])"

definition check_block :: "prov_env \<Rightarrow> LedgerEntry \<Rightarrow> ProvenanceBreak list result" where
  "check_block env e =
     bind_res (compute_payload_digest (pv_sha env) (pv_float_repr env) e) (\<lambda>h.
     let b = compute_block_hash (pv_sha env) (lg_previous_hash e) (lg_payload_digest e) (lg_sequence_num e) (lg_evaluated_at e)
     in Inr ((if h \<noteq> lg_payload_digest e
              then [pbreak 11 ''Ledger Hash Chain'' ''Recomputed ledger payload_digest does not match stored payload_digest'' (lg_payload_digest e) h] else [])
        @ (if b \<noteq> lg_current_hash e
           then [pbreak 11 ''Ledger Hash Chain'' ''Recomputed block current_hash does not match stored current_hash'' (lg_current_hash e) b] else [])))"

definition verify_links ::
  "prov_env \<Rightarrow> prov_db \<Rightarrow> string option \<Rightarrow> string option \<Rightarrow> string option \<Rightarrow> LedgerEntry \<Rightarrow> int \<Rightarrow> RuleRow \<Rightarrow> Clause \<Rightarrow> Circular
   \<Rightarrow> ProvenanceBreak list result" where
  "verify_links env db raw_pdf raw_txt clause_text e version r c ci =
     bind_res (check_facts db e r) (\<lambda>b4.
     bind_res (check_policy env e r) (\<lambda>b5.
     bind_res (check_input env e) (\<lambda>b8.
     bind_res (check_evidence env e version) (\<lambda>b10.
     bind_res (check_block env e) (\<lambda>b11.
       Inr (check_pdf env raw_pdf ci @ check_text env raw_txt ci @ check_clause env clause_text e ci c @ b4 @ b5
            @ check_review (row_review (pv_reg db) e r c version) version @ b8 @ b10 @ b11))))))"

definition refused :: "string \<Rightarrow> string \<Rightarrow> int \<Rightarrow> ProvenanceBreak \<Rightarrow> ProvenanceVerificationResult" where
  "refused tid rid version b =
     \<lparr>vr_valid = False, vr_transaction_id = tid, vr_rule_id = rid, vr_rule_version = version, vr_breaks = [b], vr_chain = None\<rparr>"

definition verify_decision_provenance ::
  "prov_env \<Rightarrow> prov_db \<Rightarrow> string \<Rightarrow> string option \<Rightarrow> string option \<Rightarrow> string option \<Rightarrow> int option \<Rightarrow> ProvenanceVerificationResult result" where
  "verify_decision_provenance env db tid raw_pdf raw_txt clause_text seq =
     (case decision_row (pv_ledger db) tid None seq of
        None \<Rightarrow> Inr (refused tid ''unknown'' 0 (pbreak 11 ''Ledger Hash Chain'' ''No ledger entry found for transaction'' ''A persisted ledger row'' ''None''))
      | Some e \<Rightarrow> bind_res (row_rule_version_of e) (\<lambda>version.
          let rid = lg_rule_id e
          in case rule_query (pv_reg db) rid (Some version) of
               None \<Rightarrow> Inr (refused tid rid version (pbreak 5 ''Compiled Rule Version + Policy Hash''
                 (''CompiledRule '' @ rid @ '' version '' @ int_str version @ '' not found in database'')
                 (''CompiledRule with rule_version='' @ int_str version) ''None''))
             | Some r \<Rightarrow>
                 (case get_clause (pv_reg db) (rr_clause_id r) of
                    None \<Rightarrow> Inr (refused tid rid version (pbreak 3 ''Clause'' (''Parent Clause id='' @ int_str (rr_clause_id r) @ '' not found'')
                      ''Clause row'' ''None''))
                  | Some c \<Rightarrow>
                      (case get_circular (pv_reg db) (cl_circular_id c) of
                         None \<Rightarrow> Inr (refused tid rid version (pbreak 1 ''Original PDF''
                           (''Parent Circular id='' @ int_str (cl_circular_id c) @ '' not found'') ''Circular row'' ''None''))
                       | Some ci \<Rightarrow>
                           bind_res (verify_links env db raw_pdf raw_txt clause_text e version r c ci) (\<lambda>breaks.
                           bind_res (get_decision_provenance_chain env db tid (Some rid) (Some (lg_sequence_num e)) raw_pdf raw_txt) (\<lambda>chain.
                             Inr \<lparr>vr_valid = (breaks = []), vr_transaction_id = tid, vr_rule_id = rid, vr_rule_version = version,
                                  vr_breaks = breaks, vr_chain = chain\<rparr>))))))"

section \<open>Rows the evaluation route writes\<close>

definition row_texts :: "prov_env \<Rightarrow> texts \<Rightarrow> bool" where
  "row_texts env tenv \<longleftrightarrow> sha tenv = pv_sha env \<and> float_repr tenv = pv_float_repr env"

text \<open>The row \<open>e\<close> is what \<open>log_evaluation\<close> appends for the outcome \<open>x\<close> of the transaction \<open>tx\<close>.\<close>

definition logged_row :: "prov_env \<Rightarrow> TransactionPayload \<Rightarrow> PolicyOutcome \<Rightarrow> LedgerEntry \<Rightarrow> bool" where
  "logged_row env tx x e \<longleftrightarrow>
     (\<exists>tenv res txd ev i now L L'. row_texts env tenv \<and> compute_transaction_digest (pv_sha env) (pv_float_repr env) tx = Inr txd
        \<and> outcome_event tenv tx res txd x = Inr ev \<and> append_entry (pv_sha env) (pv_float_repr env) i now ev L = (L', Inr e))"

lemma consistency_same: "hitl_review_id_consistency ev = Inr ev' \<Longrightarrow> ev' = ev"
  by (auto simp: hitl_review_id_consistency_def split: if_splits)

lemma truthy_opt_str: "truthy (opt_str_val s) = truthy_str s" "str_field_val (opt_str_val s) = (case s of Some t \<Rightarrow> Inr t | None \<Rightarrow> raise (ValueError ''Input should be a valid string''))"
  by (cases s; simp add: opt_str_val_def; cases "the s"; simp)+

definition row_detail_fields :: "texts \<Rightarrow> TransactionPayload \<Rightarrow> EvaluationResult \<Rightarrow> string \<Rightarrow> string \<Rightarrow> PolicyOutcome \<Rightarrow> (string \<times> pyval) list" where
  "row_detail_fields tenv tx res txd h x = [
     (''violations'', PList (map PStr (po_violations x))), (''package'', PStr (po_package x)),
     (''transaction_decision'', PStr (decision_value (er_decision res))),
     (''explanation'', PList (map PStr (explanation_texts (to_float tenv) (fmt_general tenv) x))),
     (''entity_type'', PStr (tx_entity_type tx)), (''facts'', PDict (tx_facts tx)), (''transaction_input_digest'', PStr txd),
     (''rule_version'', PInt (row_version x)), (''policy_sha256'', opt_str_val (po_policy_sha256 x)),
     (''canonical_facts_digest'', opt_str_val (po_canonical_facts_digest x)),
     (''source_document_sha256'', opt_str_val (po_source_document_sha256 x)),
     (''extracted_text_sha256'', opt_str_val (po_extracted_text_sha256 x)),
     (''clause_sha256'', PStr (str_or (po_clause_sha256 x) (clause_hash_of (po_rule_id x)))), (''evidence_digest'', PStr h)]"

lemma outcome_eventD:
  assumes "outcome_event tenv tx res txd x = Inr ev"
  shows "\<exists>h. compute_evidence_digest (sha tenv) (float_repr tenv) (evidence_payload tx res txd x) = Inr h
    \<and> ev = \<lparr>lg_broker_id = str_or (broker_id tx) ''unknown'', lg_transaction_id = transaction_id tx,
         lg_evaluated_at = evaluated_at res, lg_circular_id = str_or (po_circular_number x) ''unknown'',
         lg_clause_hash = str_or (po_clause_sha256 x) (clause_hash_of (po_rule_id x)), lg_section_reference = str_or (po_clause_number x) ''unscoped'',
         lg_rule_id = po_rule_id x, lg_evaluation_result = outcome_result x, lg_hitl_review_id = row_review_id res x,
         lg_details = row_detail_fields tenv tx res txd h x\<rparr>"
  using assms unfolding outcome_event_def row_detail_fields_def Let_def by (auto simp: bind_res_eq_Inr dest!: consistency_same)

lemma append_entryD:
  assumes "append_entry H fr i now ev L = (L', Inr e)"
  shows "lg_broker_id e = lg_broker_id ev" "lg_transaction_id e = lg_transaction_id ev" "lg_evaluated_at e = lg_evaluated_at ev"
    "lg_circular_id e = lg_circular_id ev" "lg_clause_hash e = lg_clause_hash ev" "lg_section_reference e = lg_section_reference ev"
    "lg_rule_id e = lg_rule_id ev" "lg_evaluation_result e = lg_evaluation_result ev" "lg_hitl_review_id e = lg_hitl_review_id ev"
    "lg_details e = lg_details ev" "compute_payload_digest H fr ev = Inr (lg_payload_digest e)"
    "lg_current_hash e = compute_block_hash H (lg_previous_hash e) (lg_payload_digest e) (lg_sequence_num e) (lg_evaluated_at ev)"
  using assms by (auto simp: append_entry_def Let_def split: sum.splits)

lemma logged_fields:
  assumes "logged_row env tx x e"
  shows "lg_transaction_id e = transaction_id tx" "lg_rule_id e = po_rule_id x" "lg_broker_id e = str_or (broker_id tx) ''unknown''"
    "lg_clause_hash e = str_or (po_clause_sha256 x) (clause_hash_of (po_rule_id x))"
    "row_rule_version_of e = Inr (row_version x)"
    "details_get (lg_details e) ''policy_sha256'' PNone = opt_str_val (po_policy_sha256 x)"
    "details_get (lg_details e) ''canonical_facts_digest'' PNone = opt_str_val (po_canonical_facts_digest x)"
    "check_evidence env e (row_version x) = Inr []" "check_block env e = Inr []"
    "\<exists>txd. compute_transaction_digest (pv_sha env) (pv_float_repr env) tx = Inr txd
      \<and> details_get (lg_details e) ''transaction_input_digest'' PNone = PStr txd \<and> details_get (lg_details e) ''entity_type'' (PStr []) = PStr (tx_entity_type tx)
      \<and> map_of (lg_details e) ''facts'' = Some (PDict (tx_facts tx))"
proof -
  obtain tenv res txd ev i now L L' where t: "sha tenv = pv_sha env" "float_repr tenv = pv_float_repr env"
    "compute_transaction_digest (pv_sha env) (pv_float_repr env) tx = Inr txd"
    "outcome_event tenv tx res txd x = Inr ev" "append_entry (pv_sha env) (pv_float_repr env) i now ev L = (L', Inr e)"
    using assms unfolding logged_row_def row_texts_def by blast
  note e = append_entryD [OF t(5)]
  obtain h where h: "compute_evidence_digest (pv_sha env) (pv_float_repr env) (evidence_payload tx res txd x) = Inr h"
    and ev: "lg_broker_id ev = str_or (broker_id tx) ''unknown''" "lg_transaction_id ev = transaction_id tx"
      "lg_circular_id ev = str_or (po_circular_number x) ''unknown''" "lg_clause_hash ev = str_or (po_clause_sha256 x) (clause_hash_of (po_rule_id x))"
      "lg_section_reference ev = str_or (po_clause_number x) ''unscoped''" "lg_rule_id ev = po_rule_id x"
      "lg_evaluation_result ev = outcome_result x" "lg_hitl_review_id ev = row_review_id res x" "lg_details ev = row_detail_fields tenv tx res txd h x"
    using outcome_eventD [OF t(4)] unfolding t(1,2) by auto
  show "lg_transaction_id e = transaction_id tx" "lg_rule_id e = po_rule_id x" "lg_broker_id e = str_or (broker_id tx) ''unknown''"
    "lg_clause_hash e = str_or (po_clause_sha256 x) (clause_hash_of (po_rule_id x))" by (simp_all add: e ev)
  have d: "details_get (lg_details e) k v = (case map_of (row_detail_fields tenv tx res txd h x) k of None \<Rightarrow> v | Some w \<Rightarrow> w)" for k v
    by (simp add: details_get_def e(10) ev)
  show "row_rule_version_of e = Inr (row_version x)" by (simp add: row_rule_version_of_def d row_detail_fields_def)
  show "details_get (lg_details e) ''policy_sha256'' PNone = opt_str_val (po_policy_sha256 x)"
    "details_get (lg_details e) ''canonical_facts_digest'' PNone = opt_str_val (po_canonical_facts_digest x)"
    by (simp_all add: d row_detail_fields_def)
  have "row_evidence e (row_version x) = evidence_payload tx res txd x"
    by (simp add: row_evidence_def evidence_payload_def d row_detail_fields_def e(1-9) ev Let_def)
  then show "check_evidence env e (row_version x) = Inr []" using h by (simp add: check_evidence_def d row_detail_fields_def Let_def)
  have "payload_fields e = payload_fields ev" by (simp add: payload_fields_def e(1-10))
  then have "compute_payload_digest (pv_sha env) (pv_float_repr env) e = Inr (lg_payload_digest e)"
    using e(11) by (simp add: compute_payload_digest_def canonical_payload_def)
  then show "check_block env e = Inr []" using e(3,12) by (simp add: check_block_def Let_def)
  show "\<exists>txd. compute_transaction_digest (pv_sha env) (pv_float_repr env) tx = Inr txd
      \<and> details_get (lg_details e) ''transaction_input_digest'' PNone = PStr txd \<and> details_get (lg_details e) ''entity_type'' (PStr []) = PStr (tx_entity_type tx)
      \<and> map_of (lg_details e) ''facts'' = Some (PDict (tx_facts tx))"
    using t(3) by (simp add: details_get_def e(10) ev row_detail_fields_def)
qed

lemma logged_input:
  assumes "logged_row env tx x e"
  shows "truthy_str (broker_id tx) \<Longrightarrow> check_input env e = Inr []"
proof -
  obtain txd where t: "compute_transaction_digest (pv_sha env) (pv_float_repr env) tx = Inr txd"
    "details_get (lg_details e) ''transaction_input_digest'' PNone = PStr txd" "details_get (lg_details e) ''entity_type'' (PStr []) = PStr (tx_entity_type tx)"
    "map_of (lg_details e) ''facts'' = Some (PDict (tx_facts tx))" using logged_fields(10) [OF assms] by blast
  then have f: "details_get (lg_details e) ''facts'' (PDict []) = PDict (tx_facts tx)" by (simp add: details_get_def)
  assume "truthy_str (broker_id tx)"
  then have "str_or (broker_id tx) ''unknown'' = str_or (broker_id tx) []" by (cases "broker_id tx"; cases "the (broker_id tx)") simp_all
  then show ?thesis using t(1)
    by (auto simp: check_input_def t f logged_fields(1,3) [OF assms] compute_transaction_digest_def bind_res_eq_Inr Let_def)
qed

definition input_doc :: "TransactionPayload \<Rightarrow> string \<Rightarrow> pyval" where
  "input_doc tx b = PDict [(''broker_id'', PStr b), (''entity_type'', PStr (tx_entity_type tx)), (''facts'', PDict (tx_facts tx)),
     (''transaction_id'', PStr (transaction_id tx))]"

lemma sort_keys_able: "json_able (sort_keys v) \<Longrightarrow> json_able v"
  by (induction v rule: sort_keys.induct) (auto simp: list_all_iff)

lemma input_doc_inject: "sort_keys (input_doc tx a) = sort_keys (input_doc tx b) \<Longrightarrow> a = b"
proof -
  let ?d = "\<lambda>b. [(''broker_id'', PStr b), (''entity_type'', PStr (tx_entity_type tx)), (''facts'', sort_keys (PDict (tx_facts tx))),
     (''transaction_id'', PStr (transaction_id tx))]"
  have keys: "sort_keys (input_doc tx b) = PDict (sort_key fst (?d b))" for b by (simp only: input_doc_def sort_keys.simps list.map prod.case)
  have "map_of (sort_key fst (?d b)) = map_of (?d b)" for b by (rule map_of_sort_key) simp
  moreover assume "sort_keys (input_doc tx a) = sort_keys (input_doc tx b)"
  then have "sort_key fst (?d a) = sort_key fst (?d b)" unfolding keys by simp
  ultimately have "map_of (?d a) ''broker_id'' = map_of (?d b) ''broker_id''" by metis
  then show "a = b" by simp
qed

text \<open>SHA-256 does not collide on the two texts in question, and a digest is not empty.\<close>

definition digests_apart :: "prov_env \<Rightarrow> TransactionPayload \<Rightarrow> bool" where
  "digests_apart env tx \<longleftrightarrow> (\<forall>s. pv_sha env s \<noteq> [])
     \<and> inj_on (pv_sha env) {s. \<exists>b\<in>{[], ''unknown''}. json_dumps_canonical (pv_float_repr env) (input_doc tx b) = Inr s}"

lemma logged_input_brokerless:
  assumes "logged_row env tx x e" "\<not> truthy_str (broker_id tx)" "float_repr_ok (pv_float_repr env)" "digests_apart env tx"
  shows "\<exists>b. check_input env e = Inr [b] \<and> pb_stage_index b = 8"
proof -
  obtain txd where t: "compute_transaction_digest (pv_sha env) (pv_float_repr env) tx = Inr txd"
    "details_get (lg_details e) ''transaction_input_digest'' PNone = PStr txd" "details_get (lg_details e) ''entity_type'' (PStr []) = PStr (tx_entity_type tx)"
    "map_of (lg_details e) ''facts'' = Some (PDict (tx_facts tx))" using logged_fields(10) [OF assms(1)] by blast
  then have f: "details_get (lg_details e) ''facts'' (PDict []) = PDict (tx_facts tx)" by (simp add: details_get_def)
  have b: "str_or (broker_id tx) [] = []" "str_or (broker_id tx) ''unknown'' = ''unknown''"
    using assms(2) by (cases "broker_id tx"; cases "the (broker_id tx)"; simp)+
  obtain s where s: "json_dumps_canonical (pv_float_repr env) (input_doc tx []) = Inr s" "txd = pv_sha env s"
    using t(1) b by (auto simp: compute_transaction_digest_def input_doc_def bind_res_eq_Inr)
  have "json_able (sort_keys (input_doc tx []))"
  proof (rule ccontr)
    assume "\<not> json_able (sort_keys (input_doc tx []))"
    then have "json_error True (sort_keys (input_doc tx [])) \<noteq> None" by (simp add: json_error_None)
    then show False using s(1) by (auto simp: json_dumps_canonical_def json_dumps_def Let_def)
  qed
  then have "json_able (input_doc tx ''unknown'')" using sort_keys_able [of "input_doc tx []"] by (simp add: input_doc_def)
  then obtain s' where s': "json_dumps_canonical (pv_float_repr env) (input_doc tx ''unknown'') = Inr s'" using dumps_ok by blast
  have "s \<noteq> s'" using json_canonical_inject [OF assms(3) s(1)] s' input_doc_inject [of tx "[]" "''unknown''"] by auto
  then have "pv_sha env s' \<noteq> txd" using assms(4) s s' unfolding digests_apart_def by (auto dest: inj_onD)
  moreover have "txd \<noteq> []" using assms(4) s(2) by (simp add: digests_apart_def)
  ultimately show ?thesis using s'
    by (auto simp: check_input_def t f logged_fields(1,3) [OF assms(1)] b input_doc_def pbreak_def Let_def)
qed

section \<open>What verification finds\<close>

lemma logged_facts: "pv_metadata db (row_id r) = None \<Longrightarrow> check_facts db e r = Inr []"
  by (simp add: check_facts_def metadata_digest_def Let_def)

definition recorded_policy_differs :: "prov_env \<Rightarrow> PolicyOutcome \<Rightarrow> RuleRow \<Rightarrow> bool" where
  "recorded_policy_differs env x r \<longleftrightarrow>
     truthy_str (rego_policy r) \<and> truthy_str (po_policy_sha256 x) \<and> po_policy_sha256 x \<noteq> Some (pv_sha env (the (rego_policy r)))"

lemma logged_policy:
  assumes "logged_row env tx x e"
  shows "\<exists>bs. check_policy env e r = Inr bs \<and> (bs = [] \<longleftrightarrow> \<not> recorded_policy_differs env x r) \<and> (\<forall>b\<in>set bs. pb_stage_index b = 5)"
  by (cases "po_policy_sha256 x"; cases "rego_policy r")
     (auto simp: check_policy_def recorded_policy_differs_def logged_fields(6) [OF assms] opt_str_val_def pbreak_def Let_def)

definition readable_rows :: "ledger \<Rightarrow> bool" where
  "readable_rows L \<longleftrightarrow> (\<forall>e\<in>set L. \<forall>k\<in>{''transaction_input_digest'', ''evidence_digest''}. \<exists>s. opt_field_val (details_get (lg_details e) k PNone) = Inr s)"

lemma latest_row_in: "latest_row L = Some e \<Longrightarrow> e \<in> set L"
  unfolding latest_row_def by (cases "rev (sort_key lg_sequence_num L)") (auto dest: arg_cong [where f = set])

lemma decision_row_in: "decision_row L tid rid seq = Some e \<Longrightarrow> e \<in> set L \<and> lg_transaction_id e = tid"
  unfolding decision_row_def by (auto dest: latest_row_in)

lemma chain_returns:
  assumes "readable_rows (pv_ledger db)" "\<forall>i. pv_metadata db i = None"
  shows "\<exists>ch. get_rule_provenance_chain env db rid raw_pdf raw_txt version full = Inr ch"
proof -
  have "\<exists>s. row_field (rule_ledger_row (pv_ledger db) r c) k = Inr s" if "k \<in> {''transaction_input_digest'', ''evidence_digest''}" for r c k
  proof (cases "rule_ledger_row (pv_ledger db) r c")
    case (Some e)
    then have "e \<in> set (pv_ledger db)" unfolding rule_ledger_row_def by (auto dest: latest_row_in)
    with assms(1) that Some show ?thesis unfolding readable_rows_def row_field_def by (metis option.simps(5))
  qed (simp add: row_field_def)
  then have f: "\<exists>s. row_field (rule_ledger_row (pv_ledger db) r c) ''transaction_input_digest'' = Inr s"
    "\<exists>s. row_field (rule_ledger_row (pv_ledger db) r c) ''evidence_digest'' = Inr s" for r c by auto
  show ?thesis
  proof (cases "rule_query (pv_reg db) rid version")
    case (Some r)
    show ?thesis
    proof (cases "get_clause (pv_reg db) (rr_clause_id r)")
      case (Some c)
      show ?thesis using f [of r c] \<open>rule_query (pv_reg db) rid version = Some r\<close> Some assms(2)
        by (cases "get_circular (pv_reg db) (cl_circular_id c)") (auto simp: get_rule_provenance_chain_def metadata_digest_def Let_def)
    qed (simp add: get_rule_provenance_chain_def Some)
  qed (simp add: get_rule_provenance_chain_def)
qed

text \<open>What each link asks of the rows it compares.\<close>

definition review_in_order :: "reg_db \<Rightarrow> LedgerEntry \<Rightarrow> RuleRow \<Rightarrow> Clause \<Rightarrow> int \<Rightarrow> bool" where
  "review_in_order db e r c version \<longleftrightarrow> (\<forall>v. row_review db e r c version = Some v \<longrightarrow>
     rv_status v = RV_RESOLVED \<and> truthy_str (rv_compliance_officer_id v) \<and> rv_approved_rule_version v \<in> {None, Some version})"

definition clause_in_order :: "prov_env \<Rightarrow> PolicyOutcome \<Rightarrow> string option \<Rightarrow> Circular \<Rightarrow> Clause \<Rightarrow> bool" where
  "clause_in_order env x clause_text ci c \<longleftrightarrow>
     cl_sha256 c = clause_digest env ci c (case clause_text of None \<Rightarrow> cl_text c | Some t \<Rightarrow> t)
     \<and> str_or (po_clause_sha256 x) (clause_hash_of (po_rule_id x)) = cl_sha256 c"

definition documents_in_order :: "prov_env \<Rightarrow> string option \<Rightarrow> string option \<Rightarrow> Circular \<Rightarrow> bool" where
  "documents_in_order env raw_pdf raw_txt ci \<longleftrightarrow>
     (\<forall>b. raw_pdf = Some b \<longrightarrow> ci_source_document_sha256 ci = Some (pv_sha env b))
     \<and> (\<forall>t. raw_txt = Some t \<longrightarrow> ci_raw_text_digest ci = sha256_of_text (pv_sha env) (pv_nfkc env) t)"

lemma links_in_order:
  "check_pdf env raw_pdf ci = [] \<and> check_text env raw_txt ci = [] \<longleftrightarrow> documents_in_order env raw_pdf raw_txt ci"
  "logged_row env tx x e \<Longrightarrow> check_clause env clause_text e ci c = [] \<longleftrightarrow> clause_in_order env x clause_text ci c"
  "check_review (row_review db e r c version) version = [] \<longleftrightarrow> review_in_order db e r c version"
  by (auto simp: check_pdf_def check_text_def text_mismatch_def documents_in_order_def split: option.splits)
     (auto simp: check_clause_def clause_in_order_def logged_fields(4) check_review_def review_in_order_def Let_def split: option.splits if_splits)

lemma latest_row_max:
  assumes "latest_row L = Some e" "x \<in> set L" shows "lg_sequence_num x \<le> lg_sequence_num e"
proof -
  let ?s = "sort_key lg_sequence_num L"
  obtain r where r: "rev ?s = e # r" using assms(1) unfolding latest_row_def by (auto split: list.splits)
  then have s: "?s = rev r @ [e]" by (metis rev.simps(2) rev_rev_ident)
  have "sorted (map lg_sequence_num (rev r @ [e]))" using sorted_sort_key [of lg_sequence_num L] unfolding s .
  moreover have "x \<in> set (rev r @ [e])" using assms(2) s by (metis set_sort)
  ultimately show ?thesis by (auto simp: sorted_append)
qed

lemma latest_row_None: "latest_row L = None \<longleftrightarrow> L = []"
  unfolding latest_row_def by (auto split: list.splits dest: arg_cong [where f = length])

lemma latest_row_ex: "e \<in> set L \<Longrightarrow> \<exists>x. latest_row L = Some x"
  using latest_row_None [of L] by (cases "latest_row L") auto

text \<open>The unique constraint on the sequence number.\<close>

abbreviation sequence_unique :: "ledger \<Rightarrow> bool" where
  "sequence_unique L \<equiv> distinct (map lg_sequence_num L)"

lemma decision_row_again:
  assumes "sequence_unique L" "decision_row L tid None seq = Some e"
  shows "decision_row L tid (Some (lg_rule_id e)) (Some (lg_sequence_num e)) = Some e"
proof -
  let ?F = "filter (\<lambda>x. lg_transaction_id x = tid \<and> (Some (lg_rule_id e) = None \<or> Some (lg_rule_id e) = Some (lg_rule_id x))
    \<and> (Some (lg_sequence_num e) = None \<or> Some (lg_sequence_num e) = Some (lg_sequence_num x))) L"
  have e: "e \<in> set ?F" using decision_row_in [OF assms(2)] by simp
  then obtain e' where e': "latest_row ?F = Some e'" using latest_row_ex by blast
  then have "e' \<in> set L" "lg_sequence_num e' = lg_sequence_num e" by (auto dest: latest_row_in)
  with assms(1) e have "e' = e" by (auto simp: distinct_map dest: inj_onD)
  with e' show ?thesis by (simp only: decision_row_def)
qed

lemma logged_version_arg: "logged_row env tx x e \<Longrightarrow> version_arg e = Inr (Some (row_version x))"
  using logged_fields(5) [of env tx x e] by (auto simp: version_arg_def row_rule_version_of_def)

lemma verify_decision:
  assumes "logged_row env tx x e" "decision_row (pv_ledger db) (transaction_id tx) None seq = Some e"
    and "sequence_unique (pv_ledger db)" "readable_rows (pv_ledger db)" "\<forall>i. pv_metadata db i = None"
    and "rule_query (pv_reg db) (po_rule_id x) (Some (row_version x)) = Some r" "get_clause (pv_reg db) (rr_clause_id r) = Some c"
    and "get_circular (pv_reg db) (cl_circular_id c) = Some ci"
    and "check_input env e = Inr b8" "check_policy env e r = Inr b5"
  shows "\<exists>out. verify_decision_provenance env db (transaction_id tx) raw_pdf raw_txt clause_text seq = Inr out
    \<and> vr_rule_id out = po_rule_id x \<and> vr_rule_version out = row_version x \<and> (vr_valid out \<longleftrightarrow> vr_breaks out = [])
    \<and> vr_breaks out = check_pdf env raw_pdf ci @ check_text env raw_txt ci @ check_clause env clause_text e ci c @ b5
        @ check_review (row_review (pv_reg db) e r c (row_version x)) (row_version x) @ b8"
proof -
  note f = logged_fields [OF assms(1)]
  have row: "decision_row (pv_ledger db) (transaction_id tx) (Some (po_rule_id x)) (Some (lg_sequence_num e)) = Some e"
    using decision_row_again [OF assms(3,2)] by (simp only: f)
  obtain ch where "get_rule_provenance_chain env db (po_rule_id x) raw_pdf raw_txt (Some (row_version x)) True = Inr ch"
    using chain_returns [OF assms(4,5)] by blast
  then have "get_decision_provenance_chain env db (transaction_id tx) (Some (po_rule_id x)) (Some (lg_sequence_num e)) raw_pdf raw_txt = Inr ch"
    by (simp add: get_decision_provenance_chain_def row logged_version_arg [OF assms(1)] f)
  then show ?thesis
    by (simp add: verify_decision_provenance_def assms(2,6-10) f verify_links_def logged_facts assms(5) Let_def)
qed

text \<open>The rows that a verification of the decision \<open>e\<close> reads.\<close>

definition custody ::
  "prov_db \<Rightarrow> TransactionPayload \<Rightarrow> PolicyOutcome \<Rightarrow> int option \<Rightarrow> LedgerEntry \<Rightarrow> RuleRow \<Rightarrow> Clause \<Rightarrow> Circular \<Rightarrow> bool" where
  "custody db tx x seq e r c ci \<longleftrightarrow> decision_row (pv_ledger db) (transaction_id tx) None seq = Some e
     \<and> sequence_unique (pv_ledger db) \<and> readable_rows (pv_ledger db) \<and> (\<forall>i. pv_metadata db i = None)
     \<and> rule_query (pv_reg db) (po_rule_id x) (Some (row_version x)) = Some r \<and> get_clause (pv_reg db) (rr_clause_id r) = Some c
     \<and> get_circular (pv_reg db) (cl_circular_id c) = Some ci"

lemma verify_custody:
  assumes "logged_row env tx x e" "custody db tx x seq e r c ci" "check_input env e = Inr b8"
  shows "\<exists>out b5. verify_decision_provenance env db (transaction_id tx) raw_pdf raw_txt clause_text seq = Inr out
    \<and> vr_rule_id out = po_rule_id x \<and> vr_rule_version out = row_version x \<and> (vr_valid out \<longleftrightarrow> vr_breaks out = [])
    \<and> (b5 = [] \<longleftrightarrow> \<not> recorded_policy_differs env x r) \<and> (\<forall>b\<in>set b5. pb_stage_index b = 5)
    \<and> vr_breaks out = check_pdf env raw_pdf ci @ check_text env raw_txt ci @ check_clause env clause_text e ci c @ b5
        @ check_review (row_review (pv_reg db) e r c (row_version x)) (row_version x) @ b8"
proof -
  obtain b5 where b5: "check_policy env e r = Inr b5" "b5 = [] \<longleftrightarrow> \<not> recorded_policy_differs env x r" "\<forall>b\<in>set b5. pb_stage_index b = 5"
    using logged_policy [OF assms(1)] by blast
  with verify_decision [OF assms(1) _ _ _ _ _ _ _ assms(3) b5(1), of db seq c ci raw_pdf raw_txt clause_text] assms(2)
  show ?thesis unfolding custody_def by blast
qed

text \<open>
  Claim C23. Verification decides. For the row that the evaluation route logged for a
  policy's outcome on a transaction with a broker, the links of facts, input,
  evidence and block hash never break, and the verdict is valid exactly when the
  documents and the clause text shown hash to what the tables hold, the row's
  clause hash is the clause's, the policy hash recorded is that of the stored
  version's policy, and the review found is resolved, signed and of that version.
\<close>

theorem logged_decision_verifies:
  assumes "logged_row env tx x e" and "custody db tx x seq e r c ci" and "truthy_str (broker_id tx)"
  shows "\<exists>out. verify_decision_provenance env db (transaction_id tx) raw_pdf raw_txt clause_text seq = Inr out
    \<and> vr_rule_id out = po_rule_id x \<and> vr_rule_version out = row_version x \<and> (vr_valid out \<longleftrightarrow> vr_breaks out = [])
    \<and> (vr_valid out \<longleftrightarrow> documents_in_order env raw_pdf raw_txt ci \<and> clause_in_order env x clause_text ci c
         \<and> \<not> recorded_policy_differs env x r \<and> review_in_order (pv_reg db) e r c (row_version x))"
  using verify_custody [OF assms(1,2) logged_input [OF assms(1,3)], of raw_pdf raw_txt clause_text] links_in_order(1) [of env raw_pdf ci raw_txt]
    links_in_order(2) [OF assms(1), of clause_text ci c] links_in_order(3) [of "pv_reg db" e r c "row_version x"]
  by auto

text \<open>
  Claim C24. A decision without a broker never verifies. The digest of the input is
  taken over an empty broker id, the row stores the placeholder \<open>unknown\<close>, and the
  verification hashes the row: as long as SHA-256 tells the two texts apart, the
  untouched row is reported as tampered with at the transaction input.
\<close>

theorem brokerless_decision_fails:
  assumes "logged_row env tx x e" and "custody db tx x seq e r c ci" and "\<not> truthy_str (broker_id tx)"
    and "float_repr_ok (pv_float_repr env)" and "digests_apart env tx"
  shows "\<exists>out. verify_decision_provenance env db (transaction_id tx) raw_pdf raw_txt clause_text seq = Inr out
    \<and> \<not> vr_valid out \<and> (\<exists>b\<in>set (vr_breaks out). pb_stage_index b = 8)"
proof -
  obtain b where "check_input env e = Inr [b]" "pb_stage_index b = 8" using logged_input_brokerless [OF assms(1,3-5)] by blast
  with verify_custody [OF assms(1,2), of "[b]" raw_pdf raw_txt clause_text] show ?thesis by auto
qed

section \<open>History under later writes\<close>

lemma rule_query_in:
  assumes "rule_query db i version = Some r" shows "r \<in> set (compiled_rules db)" "row_rule_id r = i"
proof -
  have *: "(case rows of [] \<Rightarrow> None | r # _ \<Rightarrow> Some r) = Some r \<Longrightarrow> r \<in> set rows" for rows by (cases rows) auto
  have "r \<in> set (compiled_rules db) \<and> row_rule_id r = i"
    using * [OF assms [unfolded rule_query_def]] by (cases version) auto
  then show "r \<in> set (compiled_rules db)" "row_rule_id r = i" by auto
qed

lemma rule_query_update:
  assumes "rule_query db rid (Some v) = Some r" "\<And>r. row_rule_id (f r) = row_rule_id r \<and> row_rule_version (f r) = row_rule_version r"
  shows "rule_query (set_rule (row_id r) f db) rid (Some v) = Some (f r)"
proof -
  have "filter (\<lambda>r. row_rule_id r = rid \<and> row_rule_version r = v) (update_rows p f rows)
    = update_rows p f (filter (\<lambda>r. row_rule_id r = rid \<and> row_rule_version r = v) rows)" for p rows
    using assms(2) by (induction rows) (auto simp: update_rows_def)
  then show ?thesis using assms(1) by (auto simp: rule_query_def update_rows_def split: list.splits)
qed

lemma recompiled_in_place:
  assumes "rule_query db i (Some v) = Some r" "rr_clause_id r = cl_id c" "upsert_rule oenv c i comp_res tenant db = Inr (db', rid)"
  shows "rid = row_id r \<and> db' = set_rule (row_id r) (store_artifact oenv comp_res) db"
proof -
  have "r \<in> set (rules_of_clause i (cl_id c) db)"
    using rule_query_in [OF assms(1)] assms(2) by (simp add: rules_of_clause_def)
  moreover obtain ex where "scalar_one_or_none (rules_of_clause i (cl_id c) db) = Inr ex" using assms(3) by (auto simp: upsert_rule_def bind_res_eq_Inr)
  ultimately have "scalar_one_or_none (rules_of_clause i (cl_id c) db) = Inr (Some r)"
    by (auto simp: scalar_one_or_none_def split: list.splits)
  with assms(3) show ?thesis by (auto simp: upsert_rule_def)
qed


lemma chain_row:
  assumes "get_rule_provenance_chain env db i raw_pdf raw_txt version full = Inr (Some ch)"
  shows "\<exists>r c. row_rule_id r = i \<and> pc_transaction_id ch = map_option lg_transaction_id (rule_ledger_row (pv_ledger db) r c)
    \<and> ledger_sequence_num ch = map_option lg_sequence_num (rule_ledger_row (pv_ledger db) r c)"
proof -
  obtain r c ci where r: "rule_query (pv_reg db) i version = Some r" "get_clause (pv_reg db) (rr_clause_id r) = Some c"
    "get_circular (pv_reg db) (cl_circular_id c) = Some ci"
    using assms unfolding get_rule_provenance_chain_def by (auto split: option.splits)
  have "pc_transaction_id ch = map_option lg_transaction_id (rule_ledger_row (pv_ledger db) r c)"
    "ledger_sequence_num ch = map_option lg_sequence_num (rule_ledger_row (pv_ledger db) r c)"
    using assms r by (auto simp: get_rule_provenance_chain_def Let_def bind_res_eq_Inr)
  with rule_query_in(2) [OF r(1)] show ?thesis by blast
qed


section \<open>A custody chain\<close>

lemma logged_readable: "logged_row env tx x e \<Longrightarrow> k \<in> {''transaction_input_digest'', ''evidence_digest''} \<Longrightarrow>
  \<exists>s. opt_field_val (details_get (lg_details e) k PNone) = Inr s"
  by (auto simp: logged_row_def details_get_def row_detail_fields_def dest!: outcome_eventD append_entryD(10))

lemma readable_logged: "(\<And>e. e \<in> set L \<Longrightarrow> \<exists>tx x. logged_row env tx x e) \<Longrightarrow> readable_rows L"
  unfolding readable_rows_def using logged_readable by blast

definition demo_prov :: prov_env where
  "demo_prov = \<lparr>pv_sha = Cons CHR ''#'', pv_float_repr = ratio_repr, pv_nfkc = id\<rparr>"

definition prov_texts :: texts where
  "prov_texts = demo_texts\<lparr>sha := pv_sha demo_prov\<rparr>"

definition demo_circular :: Circular where
  "demo_circular = \<lparr>ci_id = 1, ci_tenant_id = ''sebi_baseline'', ci_is_shared = True, ci_circular_number = ''C/1'', ci_title = None,
     ci_source_url = None, ci_source_filename = None, ci_source_retrieved_at = None, ci_department = None,
     ci_source_document_sha256 = Some ''#pdf'', ci_raw_text_digest = ''#text'', ci_processing_state = PS_DEPLOYED, ci_error_message = None,
     ci_updated_at = 0\<rparr>"

definition stored_clause :: Clause where
  "stored_clause = \<lparr>cl_id = 2, cl_circular_id = 1, cl_tenant_id = ''sebi_baseline'', cl_clause_number = Some ''4.1'', cl_section_title = None,
     cl_section_path = [], cl_text = ''Margin'', cl_sha256 = sha256_of_clause (Cons CHR ''#'') id (Some ''C/1'') (Some ''4.1'') ''Margin'',
     cl_page_start = None, cl_page_end = None, cl_contains_table = False, cl_processing_status = CS_COMPILED, cl_error_message = None\<rparr>"

definition demo_stored :: RuleRow where
  "demo_stored = \<lparr>row_id = 3, row_rule_id = ''r1'', row_rule_version = 1, rego_policy = Some ''package a'', opa_package_name = Some ''a'',
     is_compiled = True, is_active = True, rr_clause_id = 2, rr_tenant_id = ''sebi_baseline'', jsonlogic_ast = None, rr_hitl_status = HS_RESOLVED,
     rr_policy_sha256 = Some ''#package a''\<rparr>"

definition demo_checked :: PolicyOutcome where
  "demo_checked = \<lparr>po_rule_id = ''r1'', po_package = ''a'', po_allow = Some True, po_violations = [], po_circular_number = Some ''C/1'',
     po_clause_number = Some ''4.1'', po_rule_version = Some 1, po_policy_sha256 = Some ''#package a'', po_canonical_facts_digest = None,
     po_source_document_sha256 = None, po_extracted_text_sha256 = None, po_clause_sha256 = Some (cl_sha256 stored_clause)\<rparr>"

definition demo_decided :: EvaluationResult where
  "demo_decided = \<lparr>er_transaction_id = ''t1'', er_decision = ALLOW, matched_policies = [demo_checked], reasons = [], hitl_case_id = None,
     evaluated_at = 5\<rparr>"

definition demo_input_digest :: "TransactionPayload \<Rightarrow> string" where
  "demo_input_digest tx = projr (compute_transaction_digest (pv_sha demo_prov) ratio_repr tx)"

definition logged_demo :: "TransactionPayload \<Rightarrow> ledger \<Rightarrow> LedgerEntry" where
  "logged_demo tx L = projr (snd (append_entry (pv_sha demo_prov) ratio_repr 1 6
     (projr (outcome_event prov_texts tx demo_decided (demo_input_digest tx) demo_checked)) L))"

lemma logged_demo:
  assumes "json_able (PDict (tx_facts tx))"
  shows "logged_row demo_prov tx demo_checked (logged_demo tx L)"
    "lg_sequence_num (logged_demo tx L) = (case last_entry L of Some p \<Rightarrow> fst p + 1 | None \<Rightarrow> 0)"
proof -
  have t: "row_texts demo_prov prov_texts" by (simp add: row_texts_def prov_texts_def demo_prov_def demo_texts_def)
  have d: "compute_transaction_digest (pv_sha demo_prov) (pv_float_repr demo_prov) tx = Inr (demo_input_digest tx)"
    using transaction_digest_ok [OF assms, of "pv_sha demo_prov" ratio_repr] by (auto simp: demo_input_digest_def demo_prov_def)
  obtain ev where ev: "outcome_event prov_texts tx demo_decided (demo_input_digest tx) demo_checked = Inr ev" "json_able (payload_fields ev)"
    using outcome_event_cases [OF assms, of demo_checked demo_decided prov_texts "demo_input_digest tx"]
    by (auto simp: demo_checked_def outcome_result_def)
  obtain s where s: "json_dumps_canonical ratio_repr (payload_fields ev) = Inr s" using dumps_ok [OF ev(2)] by blast
  then have a: "append_entry (pv_sha demo_prov) (pv_float_repr demo_prov) 1 6 ev L = (L @ [logged_demo tx L], Inr (logged_demo tx L))"
    "lg_sequence_num (logged_demo tx L) = (case last_entry L of Some p \<Rightarrow> fst p + 1 | None \<Rightarrow> 0)"
    unfolding logged_demo_def ev(1) by (simp_all add: append_entry_def compute_payload_digest_def canonical_payload_def demo_prov_def Let_def)
  from t d ev(1) a(1) show "logged_row demo_prov tx demo_checked (logged_demo tx L)" unfolding logged_row_def by blast
  show "lg_sequence_num (logged_demo tx L) = (case last_entry L of Some p \<Rightarrow> fst p + 1 | None \<Rightarrow> 0)" by (rule a(2))
qed

definition demo_prov_db :: "ledger \<Rightarrow> prov_db" where
  "demo_prov_db L = \<lparr>pv_reg = empty_db\<lparr>circulars := [demo_circular], clauses := [stored_clause], compiled_rules := [demo_stored]\<rparr>,
     pv_ledger = L, pv_metadata = (\<lambda>_. None)\<rparr>"

lemma demo_custody:
  assumes "json_able (PDict (tx_facts tx))"
  shows "custody (demo_prov_db [logged_demo tx []]) tx demo_checked None (logged_demo tx []) demo_stored stored_clause demo_circular"
proof -
  note l = logged_demo [OF assms, of "[]"]
  have "readable_rows [logged_demo tx []]" using l(1) by (intro readable_logged) auto
  then show ?thesis using logged_fields(1) [OF l(1)]
    by (simp add: custody_def demo_prov_db_def decision_row_def latest_row_def rule_query_def demo_checked_def demo_stored_def
        row_version_def get_clause_def get_circular_def stored_clause_def demo_circular_def)
qed

theorem logged_decision_verifies_witness:
  "\<exists>out. verify_decision_provenance demo_prov (demo_prov_db [logged_demo demo_tx []]) ''t1'' (Some ''pdf'') None None None = Inr out \<and> vr_valid out"
proof -
  have j: "json_able (PDict (tx_facts demo_tx))" by (simp add: demo_tx_def)
  have "documents_in_order demo_prov (Some ''pdf'') None demo_circular"
    by (simp add: documents_in_order_def demo_prov_def demo_circular_def)
  moreover have "clause_in_order demo_prov demo_checked None demo_circular stored_clause"
    by (simp add: clause_in_order_def clause_digest_def demo_prov_def demo_checked_def stored_clause_def demo_circular_def sha256_of_clause_def)
  moreover have "\<not> recorded_policy_differs demo_prov demo_checked demo_stored"
    by (simp add: recorded_policy_differs_def demo_prov_def demo_checked_def demo_stored_def)
  moreover have "review_in_order (pv_reg (demo_prov_db [logged_demo demo_tx []])) (logged_demo demo_tx []) demo_stored stored_clause (row_version demo_checked)"
    by (simp add: review_in_order_def row_review_def review_query_def first_review_def demo_prov_db_def empty_db_def)
  ultimately show ?thesis
    using logged_decision_verifies [OF logged_demo(1) [OF j] demo_custody [OF j], of "Some ''pdf''" None None] by (auto simp: demo_tx_def)
qed

definition brokerless_tx :: TransactionPayload where
  "brokerless_tx = demo_tx\<lparr>broker_id := None\<rparr>"

theorem brokerless_decision_fails_witness:
  "\<exists>out. verify_decision_provenance demo_prov (demo_prov_db [logged_demo brokerless_tx []]) ''t1'' None None None None = Inr out
    \<and> \<not> vr_valid out \<and> (\<exists>b\<in>set (vr_breaks out). pb_stage_index b = 8)"
proof -
  have j: "json_able (PDict (tx_facts brokerless_tx))" by (simp add: demo_tx_def brokerless_tx_def)
  have "digests_apart demo_prov brokerless_tx" by (simp add: digests_apart_def demo_prov_def)
  then show ?thesis
    using brokerless_decision_fails [OF logged_demo(1) [OF j] demo_custody [OF j], of None None None]
    by (auto simp: brokerless_tx_def demo_tx_def demo_prov_def ratio_repr_ok)
qed

definition demo_pipeline :: orch_env where
  "demo_pipeline =
     \<lparr>oe_parse = (\<lambda>_ _. raise (RuntimeError [])), oe_extract = (\<lambda>_ _. raise (RuntimeError [])), oe_sha256 = Cons CHR ''#'', oe_nfkc = id,
      oe_decode = id, oe_float_repr = ratio_repr, oe_uuid = int_str, oe_describe = (\<lambda>_. []), oe_str = (\<lambda>_. []), oe_type_name = (\<lambda>_. []),
      oe_now_iso = [], oe_now = 0\<rparr>"

definition demo_recompiled :: CompilationResult where
  "demo_recompiled = \<lparr>cp_rule_id = ''r1'', compiled = True, rego = Some ((demo_compiled ''a'')\<lparr>rego_code := ''package b''\<rparr>), json_logic = None,
     hitl_flags = []\<rparr>"

definition recompiled_db :: reg_db where
  "recompiled_db = fst (projr (upsert_rule demo_pipeline stored_clause ''r1'' demo_recompiled ''sebi_baseline'' (pv_reg (demo_prov_db []))))"


definition later_tx :: TransactionPayload where
  "later_tx = demo_tx\<lparr>transaction_id := ''t2''\<rparr>"

definition two_decisions :: ledger where
  "two_decisions = [logged_demo demo_tx [], logged_demo later_tx [logged_demo demo_tx []]]"

lemma two_decisions_rows:
  "logged_row demo_prov demo_tx demo_checked (two_decisions ! 0)" "logged_row demo_prov later_tx demo_checked (two_decisions ! 1)"
  "map lg_sequence_num two_decisions = [0, 1]"
proof -
  have j: "json_able (PDict (tx_facts demo_tx))" "json_able (PDict (tx_facts later_tx))" by (simp_all add: demo_tx_def later_tx_def)
  show "logged_row demo_prov demo_tx demo_checked (two_decisions ! 0)" "logged_row demo_prov later_tx demo_checked (two_decisions ! 1)"
    using logged_demo(1) [OF j(1)] logged_demo(1) [OF j(2)] by (simp_all add: two_decisions_def)
  show "map lg_sequence_num two_decisions = [0, 1]"
    using logged_demo(2) [OF j(1), of "[]"] logged_demo(2) [OF j(2), of "[logged_demo demo_tx []]"] by (simp add: two_decisions_def last_entry_def)
qed


end
