(* ===== verification/Spec2Isabelle.thy ===== *)
theory Spec2Isabelle
  imports Compliance_Chain Execution_Tasks Ledger_Integration Dead_Letter_Queue Review_Outcomes
    Grievance_Escalation Filing_Queue Negotiation Arbitration Provenance
begin

text \<open>
  RegEngine AI turns regulatory circulars into executable compliance rules and
  decides transactions by them. A clause is extracted by language models,
  audited, compiled to Rego and JSON-Logic (\<open>app/compiler\<close>), published to OPA and
  registered per entity type (\<open>app/execution\<close>), and run on every transaction;
  decisions go into a hash-chained ledger (\<open>app/ledger\<close>), ambiguous ones to a
  human, failed work to a dead-letter queue (\<open>app/resilience\<close>), and a kill switch
  (\<open>app/governance\<close>) halts evaluation. This development models that core as
  functions over explicit state and proves what its parts promise each other.

  \<^bold>\<open>Foundations.\<close> \<open>Prelude\<close>: exceptions as values (\<^typ>\<open>exc\<close>, \<open>'a result\<close>), sequencing,
  optional strings. \<open>Redis_Store\<close>: the Redis value types and commands the program
  uses, and the locale \<open>indexed_store\<close> (documents plus a set of the open ones),
  interpreted for the kill switch and the case queue. \<open>Py_Text\<close>, \<open>Py_Value\<close>,
  \<open>Py_Json\<close>, \<open>Py_Datetime\<close>: Python's strings (code points up to U+00FF), JSON-shaped
  values with truth, equality and ordering, \<open>json.dumps\<close> with the proof that
  canonical JSON determines the value (locale \<open>prefix_code\<close>), and \<open>isoformat\<close>.

  \<^bold>\<open>From clause to rule.\<close> \<open>Regulatory_Facts\<close> (\<open>app/regulatory/facts.py\<close>), \<open>Taxonomy\<close>
  (\<open>taxonomy.py\<close>), \<open>Schemas\<close> (\<open>app/agents/schemas.py\<close> and the facts digest),
  \<open>Naming\<close>, \<open>Hitl_Flags\<close>, \<open>Json_Logic\<close> (compiler, validator and the evaluator of
  \<open>app/backtest\<close>), \<open>Rego_Compiler\<close>, \<open>Compile_Pipeline\<close> (\<open>app/compiler\<close>). The lemmas
  show which rules pass the gate, that both back ends mean the clause, and
  where gate and compiler disagree.

  \<^bold>\<open>From rule to decision.\<close> \<open>Policy_Registry\<close> and \<open>Policy_Plane\<close> (registries, cache,
  publisher, subscriber; locale \<open>policy_lookup\<close>), \<open>Kill_Switch\<close> (live state, audit
  table, drills, request gate), \<open>Hitl_Queue\<close> (cases and their resolution),
  \<open>Evaluator\<close>, \<open>Execution_Tasks\<close> (batches and change events), \<open>Compliance_Chain\<close>
  (the composition, under the documented reading of the generated Rego).

  \<^bold>\<open>Records.\<close> \<open>Ledger\<close> (hash chain, append, verification, tamper evidence),
  \<open>Dead_Letter_Queue\<close>, and \<open>Incident_Escalation\<close> (\<open>app/incident\<close>: breach events,
  staged notification with its deadline, acknowledgment and the sweep, as a step
  relation over the worker's queue). \<open>Trace_Parser\<close> and \<open>Explainability\<close>
  (\<open>app/explainability\<close>) read violation messages back and explain decisions;
  \<open>Ledger_Integration\<close> (\<open>app/ledger/integration.py\<close>, the evaluation route) joins
  evaluator, ledger, explanations and incidents. \<open>Provenance\<close>
  (\<open>app/services/provenance.py\<close>) models the custody chain of a decision and its
  verification: for the rows the route logs, exactly when it is valid, and where
  a missing broker, a recompiled rule or a later decision makes it go wrong.

  \<^bold>\<open>Ingestion and rule review.\<close> \<open>Review_Db\<close> (the tables of \<open>app/db/models.py\<close> with
  their constraints), \<open>Hitl_Service\<close> (\<open>app/services/hitl_service.py\<close>: the gate and the
  resolutions of a review), \<open>Doc_Hashing\<close> (\<open>app/parsing/hashing.py\<close>), \<open>Orchestrator\<close>
  (\<open>app/services/orchestrator.py\<close> and \<open>stale_state_reaper.py\<close>: stages, checkpoints,
  failure, resumption, status queries, sweep). \<open>Review_Pipeline\<close> closes them under a
  step relation with crashes at every checkpoint and proves the constraints and
  the gate for all reachable tables (locale \<open>table_invariant\<close>), what a failed run
  leaves and that no clause is lost; \<open>Review_Outcomes\<close> says what a resolution
  activates, that the status queries agree, and what the sweeper does.

  \<^bold>\<open>Submissions to regulators.\<close> \<open>Retry_Policy\<close> (\<open>app/resilience/retry_policy.py\<close>: which
  failures are transient, and the backoff) holds the locale \<open>retry_queue\<close>, a work
  item with a budget of attempts, interpreted for both queues below.
  \<open>Grievance_Queue\<close> (\<open>app/grievance_escalation\<close>: queue, SCORES client, tasks, routes)
  is a step relation over the queue and the worker's submissions under way;
  \<open>Grievance_Escalation\<close> models what drafts a grievance: repeated failures in the
  ledger, the evidence and its chain proof, and the trigger in the ledger
  integration. \<open>Filing_Queue\<close> (\<open>app/regulatory_filing\<close>) models filings over SFTP and
  the portal, with interleaved workers and crashes. The lemmas show that nothing
  is filed unconfirmed, that budgets are spent exactly and failures escalated,
  and which interleavings file twice or lose a filing.

  \<^bold>\<open>Negotiation.\<close> \<open>Negotiation\<close> (\<open>app/negotiation\<close>): domain agents vote on a
  transaction's outcomes in rounds, an arbiter settles a deadlock or a case is
  queued. The lemmas bound what weights can outvote and say when rounds repeat.
  \<open>Prompt_Guard\<close> (\<open>security.py\<close>) and \<open>Arbitration\<close> (the arbitration of extracted clauses):
  injected instructions, cross-examination of two arguments, the sealed transcript
  and which clauses pass without a human.

  State is passed explicitly; the clock, identifiers (\<open>uuid4\<close>), SHA-256, the
  decimal text of a float and OPA are arguments, with what is assumed of them
  named in the theorems (\<open>sound_hash\<close>, \<open>float_repr_ok\<close>, \<open>runs_module\<close>). All loops are
  structural or carry a termination proof; no fuel is used.

  \<^bold>\<open>Not modelled.\<close> Language-model prompts and calls, PDF and network input,
  vector search, metrics and tracing, report rendering, the content and signature
  of regulatory filings, HTTP plumbing and settings: they hold no state the
  modelled parts rely on.
\<close>

end
